(* ===== verification/SC_Prelude.thy ===== *)
theory SC_Prelude
  imports Complex_Main "HOL-Library.Char_ord" "HOL-Library.List_Lexorder"
    "HOL-Library.Product_Lexorder" "HOL-Library.Multiset"
begin

text \<open>
  Shared vocabulary of the development.

  The services of the repository exchange JSON-like Python objects and decide on their
  dynamic types, so the prelude holds one datatype of Python values, \<open>pyval\<close>, with the
  tests (\<open>isinstance\<close>, \<open>type(x) is int\<close>, \<open>is True\<close>) and accesses
  (\<open>d.get(k)\<close>, \<open>d[k]\<close>) the sources use, the string methods they call
  (\<open>strip\<close>, \<open>lower\<close>, \<open>startswith\<close>, \<open>isalnum\<close>), and a result monad for
  code that raises. Strings are HOL strings: one \<open>char\<close> per ASCII character.
\<close>

section \<open>Automation collections\<close>

named_theorems py_simps \<open>unfolding of the Python primitives\<close>
named_theorems inv_intros \<open>preservation facts of component invariants\<close>

section \<open>Results: code that returns or raises\<close>

type_synonym ('e, 'a) res = "'e + 'a"

definition rbind :: "('e, 'a) res \<Rightarrow> ('a \<Rightarrow> ('e, 'b) res) \<Rightarrow> ('e, 'b) res" where
  "rbind r f = (case r of Inl e \<Rightarrow> Inl e | Inr x \<Rightarrow> f x)"

definition guard :: "bool \<Rightarrow> 'e \<Rightarrow> ('e, unit) res" where
  "guard b e = (if b then Inr () else Inl e)"

fun rmapM :: "('a \<Rightarrow> ('e, 'b) res) \<Rightarrow> 'a list \<Rightarrow> ('e, 'b list) res" where
  "rmapM f [] = Inr []"
| "rmapM f (x # xs) = rbind (f x) (\<lambda>y. rbind (rmapM f xs) (\<lambda>ys. Inr (y # ys)))"

lemma rbind_simps [simp]:
  "rbind (Inl e) f = Inl e"
  "rbind (Inr x) f = f x"
  by (simp_all add: rbind_def)

lemma rbind_Inr_iff [simp]:
  "rbind r f = Inr y \<longleftrightarrow> (\<exists>x. r = Inr x \<and> f x = Inr y)"
  by (cases r) auto

lemma rbind_Inl_iff:
  "rbind r f = Inl e \<longleftrightarrow> r = Inl e \<or> (\<exists>x. r = Inr x \<and> f x = Inl e)"
  by (cases r) auto

lemma guard_simps [simp]:
  "guard b e = Inr u \<longleftrightarrow> b"
  "guard b e = Inl e' \<longleftrightarrow> \<not> b \<and> e' = e"
  "guard True e = Inr ()"
  "guard False e = Inl e"
  by (auto simp: guard_def)

lemma rmapM_Inr_length: "rmapM f xs = Inr ys \<Longrightarrow> length ys = length xs"
  by (induction xs arbitrary: ys) auto

lemma rmapM_Inr_nth:
  "rmapM f xs = Inr ys \<Longrightarrow> i < length xs \<Longrightarrow> f (xs ! i) = Inr (ys ! i)"
proof (induction xs arbitrary: ys i)
  case (Cons x xs)
  then show ?case by (cases i) auto
qed simp

lemma rmapM_Inr_set:
  "rmapM f xs = Inr ys \<Longrightarrow> y \<in> set ys \<Longrightarrow> \<exists>x \<in> set xs. f x = Inr y"
  by (induction xs arbitrary: ys) auto

lemma rmapM_all_Inr:
  "\<forall>x \<in> set xs. f x = Inr (g x) \<Longrightarrow> rmapM f xs = Inr (map g xs)"
  by (induction xs) auto

lemma rmapM_keyed_keys:
  "rmapM (\<lambda>x. rbind (f x) (\<lambda>r. Inr (kf x, g r))) xs = Inr kvs \<Longrightarrow> map fst kvs = map kf xs"
  by (induction xs arbitrary: kvs) auto

lemma rmapM_keyed:
  assumes "rmapM (\<lambda>x. rbind (f x) (\<lambda>r. Inr (kf x, g r))) xs = Inr kvs" and "distinct (map kf xs)" and "x \<in> set xs"
  shows "\<exists>r. f x = Inr r \<and> map_of kvs (kf x) = Some (g r)"
  using assms
proof (induction xs arbitrary: kvs)
  case (Cons y ys)
  then obtain r rest where y: "f y = Inr r" and kvs: "kvs = (kf y, g r) # rest"
    and rest: "rmapM (\<lambda>x. rbind (f x) (\<lambda>r. Inr (kf x, g r))) ys = Inr rest" by auto
  show ?case
  proof (cases "x = y")
    case False
    then have x: "x \<in> set ys" using Cons.prems(3) by simp
    then have "kf x \<noteq> kf y" using Cons.prems(2) by (metis distinct.simps(2) image_eqI list.simps(9) set_map)
    then show ?thesis using Cons.IH [OF rest _ x] Cons.prems(2) kvs by simp
  qed (use y kvs in simp)
qed simp

section \<open>Python values\<close>

text \<open>
  A float is a finite number, an infinity or a NaN. Only comparisons and finiteness tests
  of floats are used on this type, and both are exact.
\<close>

datatype pyfloat = Finite rat | PosInf | NegInf | NaN

datatype pyval =
    PNone
  | PBool bool
  | PInt int
  | PFloat pyfloat
  | PStr string
  | PList "pyval list"
  | PTuple "pyval list"
  | PDict "(pyval \<times> pyval) list"
  | POpaque nat

fun is_str :: "pyval \<Rightarrow> bool" where
  "is_str (PStr _) = True"
| "is_str _ = False"

fun is_bool :: "pyval \<Rightarrow> bool" where
  "is_bool (PBool _) = True"
| "is_bool _ = False"

text \<open>\<open>isinstance(x, int)\<close> accepts booleans, \<open>type(x) is int\<close> does not.\<close>

fun is_int :: "pyval \<Rightarrow> bool" where
  "is_int (PInt _) = True"
| "is_int (PBool _) = True"
| "is_int _ = False"

fun type_is_int :: "pyval \<Rightarrow> bool" where
  "type_is_int (PInt _) = True"
| "type_is_int _ = False"

fun is_mapping :: "pyval \<Rightarrow> bool" where
  "is_mapping (PDict _) = True"
| "is_mapping _ = False"

fun is_list :: "pyval \<Rightarrow> bool" where
  "is_list (PList _) = True"
| "is_list _ = False"

fun str_of :: "pyval \<Rightarrow> string" where
  "str_of (PStr s) = s"
| "str_of _ = []"

fun int_of :: "pyval \<Rightarrow> int" where
  "int_of (PInt i) = i"
| "int_of (PBool b) = (if b then 1 else 0)"
| "int_of _ = 0"

text \<open>Truth value of an object, as \<open>bool(x)\<close> and \<open>if x:\<close> compute it.\<close>

fun truthy :: "pyval \<Rightarrow> bool" where
  "truthy PNone = False"
| "truthy (PBool b) = b"
| "truthy (PInt i) = (i \<noteq> 0)"
| "truthy (PFloat x) = (x \<noteq> Finite 0)"
| "truthy (PStr s) = (s \<noteq> [])"
| "truthy (PList xs) = (xs \<noteq> [])"
| "truthy (PTuple xs) = (xs \<noteq> [])"
| "truthy (PDict kvs) = (kvs \<noteq> [])"
| "truthy (POpaque _) = True"

text \<open>\<open>d.get(k)\<close> for a string key, and the keys of a mapping.\<close>

fun pget :: "pyval \<Rightarrow> string \<Rightarrow> pyval" where
  "pget (PDict kvs) k = (case map_of kvs (PStr k) of None \<Rightarrow> PNone | Some v \<Rightarrow> v)"
| "pget _ k = PNone"

fun phas :: "pyval \<Rightarrow> string \<Rightarrow> bool" where
  "phas (PDict kvs) k = (map_of kvs (PStr k) \<noteq> None)"
| "phas _ k = False"

fun pkeys :: "pyval \<Rightarrow> pyval list" where
  "pkeys (PDict kvs) = map fst kvs"
| "pkeys _ = []"

section \<open>Strings\<close>

definition char_nat :: "char \<Rightarrow> nat" where
  "char_nat c = of_char c"

definition lower_char :: "char \<Rightarrow> char" where
  "lower_char c = (if 65 \<le> char_nat c \<and> char_nat c \<le> 90 then char_of (char_nat c + 32) else c)"

definition is_space :: "char \<Rightarrow> bool" where
  "is_space c = (char_nat c \<in> {9, 10, 11, 12, 13, 28, 29, 30, 31, 32})"

definition is_digit_char :: "char \<Rightarrow> bool" where
  "is_digit_char c = (48 \<le> char_nat c \<and> char_nat c \<le> 57)"

definition is_alnum_char :: "char \<Rightarrow> bool" where
  "is_alnum_char c =
     (is_digit_char c \<or> 65 \<le> char_nat c \<and> char_nat c \<le> 90 \<or> 97 \<le> char_nat c \<and> char_nat c \<le> 122)"

definition is_hex_char :: "char \<Rightarrow> bool" where
  "is_hex_char c = (is_digit_char c \<or> 97 \<le> char_nat c \<and> char_nat c \<le> 102)"

definition py_lower :: "string \<Rightarrow> string" where
  "py_lower s = map lower_char s"

definition py_lstrip :: "string \<Rightarrow> string" where
  "py_lstrip s = dropWhile is_space s"

definition py_strip :: "string \<Rightarrow> string" where
  "py_strip s = rev (dropWhile is_space (rev (dropWhile is_space s)))"

definition startswith :: "string \<Rightarrow> string \<Rightarrow> bool" where
  "startswith s p = (take (length p) s = p)"

text \<open>The pattern \<open>[0-9a-f]{64}\<close>, matched against the whole string.\<close>

definition is_sha256 :: "string \<Rightarrow> bool" where
  "is_sha256 s = (length s = 64 \<and> list_all is_hex_char s)"

text \<open>\<open>str(UUID(value)) == value\<close>: the lower-case hyphenated form.\<close>

definition canonical_uuid :: "string \<Rightarrow> bool" where
  "canonical_uuid s =
     (length s = 36 \<and>
      list_all (\<lambda>(i, c). if i \<in> {8, 13, 18, 23} then c = CHR ''-'' else is_hex_char c)
        (enumerate 0 s))"

lemmas string_defs [py_simps] =
  char_nat_def lower_char_def is_space_def is_digit_char_def is_alnum_char_def is_hex_char_def
  py_lower_def py_lstrip_def py_strip_def startswith_def is_sha256_def

lemma char_nat_lower: "char_nat (lower_char c) = (if 65 \<le> char_nat c \<and> char_nat c \<le> 90 then char_nat c + 32 else char_nat c)"
  by (auto simp: lower_char_def char_nat_def)

lemma lower_char_idem [simp]: "lower_char (lower_char c) = lower_char c"
  by (auto simp: lower_char_def char_nat_def)

lemma py_lower_idem [simp]: "py_lower (py_lower s) = py_lower s"
  by (simp add: py_lower_def)

lemma length_py_lower [simp]: "length (py_lower s) = length s"
  by (simp add: py_lower_def)

section \<open>Decimal numerals\<close>

text \<open>\<open>str(n)\<close> of a natural number and \<open>int(s)\<close> of a digit string.\<close>

fun nat_digits :: "nat \<Rightarrow> string" where
  "nat_digits n = (if n < 10 then [char_of (48 + n)] else nat_digits (n div 10) @ [char_of (48 + n mod 10)])"

declare nat_digits.simps [simp del]

definition digits_value :: "string \<Rightarrow> nat" where
  "digits_value ds = foldl (\<lambda>n c. 10 * n + (char_nat c - 48)) 0 ds"

lemma digits_value_snoc: "digits_value (ds @ [c]) = 10 * digits_value ds + (char_nat c - 48)"
  by (simp add: digits_value_def)

lemma digits_value_nat_digits [simp]: "digits_value (nat_digits n) = n"
proof (induction n rule: nat_digits.induct)
  case (1 n)
  show ?case
  proof (cases "n < 10")
    case True
    then show ?thesis by (subst nat_digits.simps) (simp add: digits_value_def char_nat_def)
  next
    case False
    have "char_nat (char_of (48 + n mod 10)) = 48 + n mod 10" by (simp add: char_nat_def)
    then show ?thesis using 1 [OF False] False
      by (subst nat_digits.simps) (simp add: digits_value_snoc)
  qed
qed

lemma nat_digits_inj [simp]: "nat_digits m = nat_digits n \<longleftrightarrow> m = n"
  by (metis digits_value_nat_digits)

lemma digits_value_zeros: "digits_value (replicate k (CHR ''0'') @ ds) = digits_value ds"
proof -
  have "foldl (\<lambda>n c. 10 * n + (char_nat c - 48)) 0 (replicate k (CHR ''0'')) = 0"
    by (induction k) (simp_all add: char_nat_def)
  then show ?thesis by (simp add: digits_value_def)
qed

section \<open>Lists and counting\<close>

definition count_if :: "('a \<Rightarrow> bool) \<Rightarrow> 'a list \<Rightarrow> nat" where
  "count_if P xs = length (filter P xs)"

lemma count_if_simps [simp]:
  "count_if P [] = 0"
  "count_if P (x # xs) = (if P x then Suc (count_if P xs) else count_if P xs)"
  "count_if P (xs @ ys) = count_if P xs + count_if P ys"
  by (simp_all add: count_if_def)

lemma count_if_le_length: "count_if P xs \<le> length xs"
  by (simp add: count_if_def)

lemma count_if_mono: "(\<And>x. x \<in> set xs \<Longrightarrow> P x \<Longrightarrow> Q x) \<Longrightarrow> count_if P xs \<le> count_if Q xs"
  by (induction xs) auto

lemma count_if_pos_iff: "0 < count_if P xs \<longleftrightarrow> (\<exists>x \<in> set xs. P x)"
  by (induction xs) auto

lemma count_if_zero_iff: "count_if P xs = 0 \<longleftrightarrow> (\<forall>x \<in> set xs. \<not> P x)"
  by (induction xs) auto

lemma find_SomeD: "find P xs = Some x \<Longrightarrow> x \<in> set xs \<and> P x"
  by (induction xs) (auto split: if_splits)

text \<open>\<open>len(set(xs))\<close>\<close>

definition len_set :: "'a list \<Rightarrow> nat" where
  "len_set xs = length (remdups xs)"

lemma len_set_card: "len_set xs = card (set xs)"
  by (simp add: len_set_def length_remdups_card_conv)

lemma len_set_distinct: "len_set xs = length xs \<longleftrightarrow> distinct xs"
  by (metis card_distinct distinct_card len_set_card)

lemma len_set_le: "len_set xs \<le> length xs"
  by (simp add: len_set_def)

lemma len_set_const: "xs \<noteq> [] \<Longrightarrow> \<forall>x \<in> set xs. x = a \<Longrightarrow> len_set xs = 1"
proof -
  assume "xs \<noteq> []" and "\<forall>x \<in> set xs. x = a"
  then have "set xs = {a}" by (cases xs) auto
  then show ?thesis by (simp add: len_set_card)
qed

text \<open>If \<open>f\<close> determines \<open>g\<close> on a finite set, \<open>g\<close> takes no more values than \<open>f\<close>.\<close>

lemma card_image_determined:
  assumes "finite S" and "\<And>i j. i \<in> S \<Longrightarrow> j \<in> S \<Longrightarrow> f i = f j \<Longrightarrow> g i = g j"
  shows "card (g ` S) \<le> card (f ` S)"
proof -
  have "g (inv_into S f (f i)) = g i" if "i \<in> S" for i
    using that assms(2) by (meson f_inv_into_f imageI inv_into_into)
  then have "g ` S = (\<lambda>k. g (inv_into S f k)) ` (f ` S)"
    by (simp add: image_image)
  then show ?thesis using assms(1) by (metis card_image_le finite_imageI)
qed

lemma count_if_map: "count_if P (map f xs) = count_if (\<lambda>x. P (f x)) xs"
  by (induction xs) auto

section \<open>Counters\<close>

text \<open>
  \<open>collections.Counter\<close>: an association list in insertion order. Reading a missing key
  gives 0 and does not insert it.
\<close>

type_synonym 'k counter = "('k \<times> nat) list"

definition counter_get :: "'k counter \<Rightarrow> 'k \<Rightarrow> nat" where
  "counter_get c k = (case map_of c k of None \<Rightarrow> 0 | Some n \<Rightarrow> n)"

fun counter_inc :: "'k counter \<Rightarrow> 'k \<Rightarrow> 'k counter" where
  "counter_inc [] k = [(k, 1)]"
| "counter_inc ((k', n) # c) k = (if k' = k then (k', Suc n) # c else (k', n) # counter_inc c k)"

definition counter_of :: "'k list \<Rightarrow> 'k counter" where
  "counter_of xs = foldl counter_inc [] xs"

text \<open>A counter that counts the list \<open>xs\<close>.\<close>

definition counts :: "'k counter \<Rightarrow> 'k list \<Rightarrow> bool" where
  "counts c xs \<longleftrightarrow> distinct (map fst c) \<and> set (map fst c) = set xs \<and>
     (\<forall>k. counter_get c k = count_if (\<lambda>x. x = k) xs)"

lemma counter_get_Nil [simp]: "counter_get [] k = 0"
  by (simp add: counter_get_def)

lemma counter_get_inc: "counter_get (counter_inc c k) k' = counter_get c k' + (if k' = k then 1 else 0)"
  by (induction c) (auto simp: counter_get_def)

lemma keys_counter_inc: "set (map fst (counter_inc c k)) = insert k (set (map fst c))"
proof (induction c)
  case (Cons a c)
  then show ?case by (cases a) (simp add: insert_commute)
qed simp

lemma distinct_counter_inc: "distinct (map fst c) \<Longrightarrow> distinct (map fst (counter_inc c k))"
proof (induction c)
  case (Cons a c)
  then show ?case using keys_counter_inc [of c k] by (cases a) auto
qed simp

lemma counts_Nil [simp]: "counts [] []"
  by (simp add: counts_def)

lemma counts_inc: "counts c xs \<Longrightarrow> counts (counter_inc c k) (xs @ [k])"
  unfolding counts_def
  by (intro conjI allI distinct_counter_inc) (auto simp: keys_counter_inc counter_get_inc simp del: set_map)

lemma counts_get: "counts c xs \<Longrightarrow> counter_get c k = count_if (\<lambda>x. x = k) xs"
  by (simp add: counts_def)

lemma counts_length: "counts c xs \<Longrightarrow> length c = len_set xs"
  unfolding counts_def by (metis distinct_card len_set_card length_map)

lemma counts_foldl: "counts c xs \<Longrightarrow> counts (foldl counter_inc c ys) (xs @ ys)"
proof (induction ys arbitrary: c xs)
  case (Cons y ys)
  from counts_inc [OF Cons.prems, of y] have "counts (foldl counter_inc (counter_inc c y) ys) ((xs @ [y]) @ ys)"
    by (rule Cons.IH)
  then show ?case by simp
qed simp

lemma counts_counter_of: "counts (counter_of xs) xs"
  using counts_foldl [OF counts_Nil, of xs] by (simp add: counter_of_def)

lemma sum_counter_inc: "sum_list (map snd (counter_inc c k)) = Suc (sum_list (map snd c))"
  by (induction c) auto

lemma sum_counter_of: "sum_list (map snd (counter_of xs)) = length xs"
proof -
  have "sum_list (map snd (foldl counter_inc c xs)) = sum_list (map snd c) + length xs" for c
    by (induction xs arbitrary: c) (auto simp: sum_counter_inc)
  then show ?thesis by (simp add: counter_of_def)
qed

lemma counts_entry: "counts c xs \<Longrightarrow> (k, n) \<in> set c \<Longrightarrow> n = count_if (\<lambda>x. x = k) xs \<and> k \<in> set xs"
  unfolding counts_def by (metis counter_get_def map_of_eq_Some_iff option.simps(5) fst_conv image_eqI set_map)

section \<open>Policy versions used by several components\<close>

definition ANOMALY_POLICY_VERSION :: string where
  "ANOMALY_POLICY_VERSION = ''anomaly-review/1.0.0''"

section \<open>JSON text\<close>

text \<open>
  \<open>json.dumps\<close> of strings, \<open>null\<close> and lists with \<open>separators=(",", ":")\<close> and
  \<open>ensure_ascii=False\<close>: the text the digests are computed from.
\<close>

definition hex_digit :: "nat \<Rightarrow> char" where
  "hex_digit n = (if n < 10 then char_of (48 + n) else char_of (87 + n))"

definition short_escapes :: "(char \<times> char) list" where
  "short_escapes = [(CHR 0x22, CHR 0x22), (CHR 0x5C, CHR 0x5C), (CHR 0x0A, CHR ''n''),
     (CHR 0x0D, CHR ''r''), (CHR 0x09, CHR ''t''), (CHR 0x0C, CHR ''f''), (CHR 0x08, CHR ''b'')]"

definition json_escape :: "char \<Rightarrow> string" where
  "json_escape c =
     (case map_of short_escapes c of
        Some e \<Rightarrow> [CHR 0x5C, e]
      | None \<Rightarrow>
          if char_nat c < 32
          then [CHR 0x5C, CHR ''u'', CHR ''0'', CHR ''0'', hex_digit (char_nat c div 16), hex_digit (char_nat c mod 16)]
          else [c])"

definition json_string :: "string \<Rightarrow> string" where
  "json_string s = CHR 0x22 # concat (map json_escape s) @ [CHR 0x22]"

datatype jval = JNull | JStr string | JList "jval list"

fun json_dumps :: "jval \<Rightarrow> string" and json_items :: "jval list \<Rightarrow> string" where
  "json_dumps JNull = ''null''"
| "json_dumps (JStr s) = json_string s"
| "json_dumps (JList xs) = ''['' @ json_items xs @ '']''"
| "json_items [] = []"
| "json_items (x # xs) = (if xs = [] then json_dumps x else json_dumps x @ '','' @ json_items xs)"

lemma char_nat_inj: "char_nat c = char_nat d \<longleftrightarrow> c = d"
  by (simp add: char_nat_def)

lemma char_nat_of: "n < 256 \<Longrightarrow> char_nat (char_of n) = n"
  by (simp add: char_nat_def)

lemma hex_digit_nat: "n < 16 \<Longrightarrow> char_nat (hex_digit n) = (if n < 10 then 48 + n else 87 + n)"
  by (simp add: hex_digit_def char_nat_of)

lemma hex_digit_inj: "a < 16 \<Longrightarrow> b < 16 \<Longrightarrow> hex_digit a = hex_digit b \<Longrightarrow> a = b"
proof -
  assume "a < 16" "b < 16" "hex_digit a = hex_digit b"
  then have "(if a < 10 then 48 + a else 87 + a) = (if b < 10 then 48 + b else 87 + b)"
    using hex_digit_nat by metis
  with \<open>a < 16\<close> \<open>b < 16\<close> show "a = b" by presburger
qed

text \<open>The text of a value can be read back: no two values have the same text.\<close>

lemma short_escapes_inj:
  "map_of short_escapes c = Some e \<Longrightarrow> map_of short_escapes d = Some e \<Longrightarrow> c = d"
proof -
  assume "map_of short_escapes c = Some e" and "map_of short_escapes d = Some e"
  then have "(c, e) \<in> set short_escapes" and "(d, e) \<in> set short_escapes"
    by (auto dest: map_of_SomeD)
  moreover have "distinct (map snd short_escapes)" by (simp add: short_escapes_def)
  then have "inj_on snd (set short_escapes)" by (simp add: distinct_map)
  ultimately have "(c, e) = (d, e)" by (metis inj_onD snd_conv)
  then show "c = d" by simp
qed

lemma short_escapes_not_u: "map_of short_escapes c \<noteq> Some (CHR ''u'')"
  by (auto simp: short_escapes_def split: if_splits)

lemma short_escapes_special:
  "map_of short_escapes c = None \<Longrightarrow> c \<noteq> CHR 0x5C \<and> c \<noteq> CHR 0x22"
  by (auto simp: short_escapes_def split: if_splits)

lemma json_escape_cases:
  obtains (plain) "json_escape c = [c]" "c \<noteq> CHR 0x5C" "c \<noteq> CHR 0x22"
  | (short) e where "json_escape c = [CHR 0x5C, e]" "map_of short_escapes c = Some e"
  | (long) "json_escape c = [CHR 0x5C, CHR ''u'', CHR ''0'', CHR ''0'',
       hex_digit (char_nat c div 16), hex_digit (char_nat c mod 16)]" "char_nat c < 32"
proof (cases "map_of short_escapes c")
  case None
  then show ?thesis using short_escapes_special [OF None] plain long
    by (cases "char_nat c < 32") (auto simp: json_escape_def)
next
  case (Some e)
  then show ?thesis using short by (simp add: json_escape_def)
qed

lemma json_escape_cancel:
  assumes "json_escape c @ x = json_escape d @ y"
  shows "c = d \<and> x = y"
proof (cases c rule: json_escape_cases)
  case plain
  then show ?thesis using assms by (cases d rule: json_escape_cases) auto
next
  case (short e)
  then show ?thesis using assms short_escapes_inj [of c e d] short_escapes_not_u [of c]
    by (cases d rule: json_escape_cases) auto
next
  case long
  show ?thesis
  proof (cases d rule: json_escape_cases)
    case long': long
    have "char_nat c div 16 = char_nat d div 16" "char_nat c mod 16 = char_nat d mod 16"
      using assms long long' hex_digit_inj [of "char_nat c div 16" "char_nat d div 16"]
        hex_digit_inj [of "char_nat c mod 16" "char_nat d mod 16"] by auto
    then have "char_nat c = char_nat d" by (metis div_mult_mod_eq)
    then show ?thesis using assms long long' by (simp add: char_nat_inj)
  qed (use long assms short_escapes_not_u [of d] in auto)
qed

lemma json_escape_not_quote: "json_escape c @ x \<noteq> CHR 0x22 # y"
  by (cases c rule: json_escape_cases) auto

lemma json_chars_cancel:
  "concat (map json_escape s) @ CHR 0x22 # x = concat (map json_escape t) @ CHR 0x22 # y
     \<Longrightarrow> s = t \<and> x = y"
proof (induction s arbitrary: t)
  case Nil
  then show ?case
  proof (cases t)
    case (Cons d t')
    then have "json_escape d @ concat (map json_escape t') @ CHR 0x22 # y = CHR 0x22 # x"
      using Nil by simp
    then show ?thesis using json_escape_not_quote by blast
  qed simp
next
  case (Cons c s)
  show ?case
  proof (cases t)
    case Nil
    then show ?thesis using Cons.prems json_escape_not_quote [of c] by auto
  next
    case (Cons d t')
    with Cons.prems have "json_escape c @ concat (map json_escape s) @ CHR 0x22 # x =
        json_escape d @ concat (map json_escape t') @ CHR 0x22 # y" by simp
    then have "c = d" "concat (map json_escape s) @ CHR 0x22 # x =
        concat (map json_escape t') @ CHR 0x22 # y"
      using json_escape_cancel by blast+
    then show ?thesis using Cons.IH [of t'] Cons by simp
  qed
qed

lemma json_string_cancel: "json_string s @ x = json_string t @ y \<Longrightarrow> s = t \<and> x = y"
  using json_chars_cancel [of s x t y] by (simp add: json_string_def)

lemma json_dumps_first: "\<exists>c r. json_dumps v = c # r \<and> c \<in> {CHR ''n'', CHR 0x22, CHR ''[''}"
  by (cases v) (auto simp: json_string_def)

lemma json_dumps_not_close: "json_dumps v @ x \<noteq> CHR '']'' # y"
  using json_dumps_first [of v] by auto

lemma json_items_Cons:
  "json_items (v # vs) @ CHR '']'' # x =
     json_dumps v @ (if vs = [] then CHR '']'' # x else CHR '','' # json_items vs @ CHR '']'' # x)"
  by simp

lemma json_cancel:
  "json_dumps v @ x = json_dumps w @ y \<Longrightarrow> v = w \<and> x = y"
  "json_items vs @ CHR '']'' # x = json_items ws @ CHR '']'' # y \<Longrightarrow> vs = ws \<and> x = y"
proof (induction v and vs arbitrary: w x y and ws x y rule: json_dumps_json_items.induct)
  case 1
  then show ?case by (cases w) (auto simp: json_string_def)
next
  case (2 s)
  then show ?case
  proof (cases w)
    case (JStr t)
    then show ?thesis using 2 json_string_cancel [of s x t y] by simp
  qed (auto simp: json_string_def)
next
  case (3 xs)
  then show ?case
  proof (cases w)
    case (JList ys)
    then show ?thesis using 3 by simp
  qed (auto simp: json_string_def)
next
  case 4
  show ?case
  proof (cases ws)
    case (Cons w ws')
    then show ?thesis using 4 json_dumps_not_close [of w] json_items_Cons [of w ws' y] by (metis append_Nil json_items.simps(1))
  qed (use 4 in simp)
next
  case (5 v vs)
  show ?case
  proof (cases ws)
    case Nil
    then show ?thesis using "5.prems" json_dumps_not_close [of v] json_items_Cons [of v vs x] by (metis append_Nil json_items.simps(1))
  next
    case (Cons w ws')
    let ?t = "if vs = [] then CHR '']'' # x else CHR '','' # json_items vs @ CHR '']'' # x"
    let ?u = "if ws' = [] then CHR '']'' # y else CHR '','' # json_items ws' @ CHR '']'' # y"
    have "json_dumps v @ ?t = json_dumps w @ ?u"
      using "5.prems" Cons json_items_Cons by metis
    moreover have "json_dumps v @ x' = json_dumps w @ y' \<Longrightarrow> v = w \<and> x' = y'" for x' y'
      using "5.IH"(1,2) by (cases "vs = []") blast+
    ultimately have vw: "v = w" and tu: "?t = ?u" by blast+
    show ?thesis
    proof (cases "vs = []")
      case True
      then show ?thesis using tu vw Cons by (auto split: if_splits)
    next
      case False
      then have "ws' \<noteq> []" and "json_items vs @ CHR '']'' # x = json_items ws' @ CHR '']'' # y"
        using tu by (auto split: if_splits)
      then show ?thesis using "5.IH"(3) [OF False] vw Cons by blast
    qed
  qed
qed

lemma json_dumps_inj: "json_dumps v = json_dumps w \<longleftrightarrow> v = w"
  using json_cancel(1) [of v "[]" w "[]"] by auto

end
