(* ===== verification/Provider_Resilience.thy ===== *)
theory Provider_Resilience
  imports SC_Prelude
begin

text \<open>
  The circuit breaker around blocking provider calls
  (\<open>api/services/provider_resilience.py\<close>).

  The module keeps a dictionary from provider names to \<open>_Circuit\<close> objects. A call holds a
  reference to its circuit across an \<open>await\<close>, so other calls and \<open>reset()\<close> can run in
  between: the circuits live in a store indexed by address and the dictionary maps names to
  addresses. One call is \<open>begin_call\<close> (look up or create the circuit, refuse while it is
  open), the retry loop \<open>attempt_loop\<close> over the outcomes of the operation, and
  \<open>finish_call\<close> (record the outcome). \<open>run_blocking\<close> composes the three;
  \<open>breaker_step\<close> interleaves the first and the last part of any number of calls.
  Clock readings are arguments; the duration passed to the metrics is their difference.
\<close>

section \<open>State\<close>

record circuit =
  failures :: int
  opened_until :: rat

definition fresh_circuit :: circuit where
  "fresh_circuit = \<lparr>failures = 0, opened_until = 0\<rparr>"

datatype call_outcome = CircuitOpen | NotRequested | Timeout | Failure | Success

record observation =
  obs_provider :: string
  obs_outcome :: call_outcome
  obs_duration :: rat
  obs_attempts :: int

text \<open>The metric sink: one entry per call, with the clamping the metrics module applies.\<close>

definition observe_provider :: "string \<Rightarrow> call_outcome \<Rightarrow> rat \<Rightarrow> int \<Rightarrow> observation list \<Rightarrow> observation list" where
  "observe_provider p out duration attempts entries =
     entries @ [\<lparr>obs_provider = p, obs_outcome = out, obs_duration = max 0 duration,
             obs_attempts = max 0 attempts\<rparr>]"

record breaker =
  table :: "string \<Rightarrow> nat option"
  store :: "nat \<Rightarrow> circuit"
  fresh :: nat
  observed :: "observation list"

definition empty_breaker :: breaker where
  "empty_breaker = \<lparr>table = Map.empty, store = (\<lambda>_. fresh_circuit), fresh = 0, observed = []\<rparr>"

definition setdefault_circuit :: "string \<Rightarrow> breaker \<Rightarrow> nat \<times> breaker" where
  "setdefault_circuit p b =
     (case table b p of
        Some a \<Rightarrow> (a, b)
      | None \<Rightarrow> (fresh b, b\<lparr>table := (table b)(p \<mapsto> fresh b),
                           store := (store b)(fresh b := fresh_circuit),
                           fresh := Suc (fresh b)\<rparr>))"

definition record_failure :: "circuit \<Rightarrow> int \<Rightarrow> rat \<Rightarrow> rat \<Rightarrow> circuit" where
  "record_failure c threshold cooldown now =
     (let c' = c\<lparr>failures := failures c + 1\<rparr>
      in if failures c' \<ge> max 1 threshold
         then c'\<lparr>opened_until := now + max 0 cooldown\<rparr>
         else c')"

section \<open>One call\<close>

datatype 'a attempt = Returned 'a | TimedOut | Raised | Cancelled

datatype result_class = ClsSuccess | ClsNotRequested | ClsOther | ClsTimedOut | ClsRaised

datatype 'a loop_exit =
    ExitSuccess 'a nat
  | ExitNotRequested 'a
  | ExitTimeout nat
  | ExitFailure nat
  | ExitCancelled
  | ExitExhausted

datatype provider_error = ProviderUnavailable string | CancelledError

definition classify_outcome :: "('a \<Rightarrow> result_class) option \<Rightarrow> 'a \<Rightarrow> result_class" where
  "classify_outcome rs x = (case rs of None \<Rightarrow> ClsSuccess | Some f \<Rightarrow> f x)"

text \<open>
  The body of the \<open>for\<close> loop. The classifier \<open>result_status\<close> runs inside the same
  \<open>try\<close>: a \<open>TimeoutError\<close> it raises is a timeout of the attempt (\<open>ClsTimedOut\<close>), any
  other exception of it and an unknown classification are exceptions of the attempt; a
  cancellation is not an \<open>Exception\<close> and leaves the loop unrecorded.
\<close>

function attempt_loop ::
  "('a \<Rightarrow> result_class) option \<Rightarrow> (nat \<Rightarrow> 'a attempt) \<Rightarrow> nat \<Rightarrow> nat \<Rightarrow> 'a loop_exit" where
  "attempt_loop rs operation attempts attempt =
     (if attempt \<ge> attempts then ExitExhausted
      else
        let retry = (if attempt + 1 < attempts
                     then attempt_loop rs operation attempts (attempt + 1)
                     else ExitFailure (attempt + 1))
        in case operation attempt of
             TimedOut \<Rightarrow> ExitTimeout (attempt + 1)
           | Cancelled \<Rightarrow> ExitCancelled
           | Raised \<Rightarrow> retry
           | Returned x \<Rightarrow>
               (case classify_outcome rs x of
                  ClsNotRequested \<Rightarrow> ExitNotRequested x
                | ClsSuccess \<Rightarrow> ExitSuccess x (attempt + 1)
                | ClsOther \<Rightarrow> retry
                | ClsTimedOut \<Rightarrow> ExitTimeout (attempt + 1)
                | ClsRaised \<Rightarrow> retry))"
  by pat_completeness auto
termination
  by (relation "measure (\<lambda>(rs, operation, attempts, attempt). attempts - attempt)") auto

declare attempt_loop.simps [simp del]

definition clamp_attempts :: "int \<Rightarrow> nat" where
  "clamp_attempts max_attempts = nat (max 1 (min max_attempts 3))"

definition begin_call :: "string \<Rightarrow> rat \<Rightarrow> breaker \<Rightarrow> (nat option) \<times> breaker" where
  "begin_call p now b =
     (let (a, b1) = setdefault_circuit p b
      in if opened_until (store b1 a) > now
         then (None, b1\<lparr>observed := observe_provider p CircuitOpen 0 0 (observed b1)\<rparr>)
         else (Some a, b1))"

record call_times =
  started :: rat
  fail_time :: rat
  obs_time :: rat

definition put_circuit :: "nat \<Rightarrow> circuit \<Rightarrow> breaker \<Rightarrow> breaker" where
  "put_circuit a c b = b\<lparr>store := (store b)(a := c)\<rparr>"

fun finish_call ::
  "string \<Rightarrow> nat \<Rightarrow> int \<Rightarrow> rat \<Rightarrow> call_times \<Rightarrow> 'a loop_exit \<Rightarrow> breaker
     \<Rightarrow> (provider_error, 'a) res \<times> breaker" where
  "finish_call p a threshold cooldown t (ExitNotRequested x) b =
     (Inr x, b\<lparr>observed := observe_provider p NotRequested (obs_time t - started t) 0 (observed b)\<rparr>)"
| "finish_call p a threshold cooldown t (ExitTimeout n) b =
     (let b1 = put_circuit a (record_failure (store b a) threshold cooldown (fail_time t)) b
      in (Inl (ProviderUnavailable (p @ '' timed out'')),
          b1\<lparr>observed := observe_provider p Timeout (obs_time t - started t) (int n) (observed b1)\<rparr>))"
| "finish_call p a threshold cooldown t (ExitFailure n) b =
     (let b1 = put_circuit a (record_failure (store b a) threshold cooldown (fail_time t)) b
      in (Inl (ProviderUnavailable (p @ '' failed'')),
          b1\<lparr>observed := observe_provider p Failure (obs_time t - started t) (int n) (observed b1)\<rparr>))"
| "finish_call p a threshold cooldown t ExitCancelled b = (Inl CancelledError, b)"
| "finish_call p a threshold cooldown t ExitExhausted b =
     (Inl (ProviderUnavailable (p @ '' failed'')), b)"
| "finish_call p a threshold cooldown t (ExitSuccess x n) b =
     (let b1 = put_circuit a ((store b a)\<lparr>failures := 0, opened_until := 0\<rparr>) b
      in (Inr x, b1\<lparr>observed := observe_provider p Success (obs_time t - started t) (int n) (observed b1)\<rparr>))"

definition run_blocking ::
  "string \<Rightarrow> (nat \<Rightarrow> 'a attempt) \<Rightarrow> int \<Rightarrow> rat \<Rightarrow> int \<Rightarrow> ('a \<Rightarrow> result_class) option
     \<Rightarrow> call_times \<Rightarrow> breaker \<Rightarrow> (provider_error, 'a) res \<times> breaker" where
  "run_blocking p operation threshold cooldown max_attempts rs t b =
     (case begin_call p (started t) b of
        (None, b1) \<Rightarrow> (Inl (ProviderUnavailable (p @ '' circuit is open'')), b1)
      | (Some a, b1) \<Rightarrow>
          finish_call p a threshold cooldown t
            (attempt_loop rs operation (clamp_attempts max_attempts) 0) b1)"

definition reset :: "breaker \<Rightarrow> breaker" where
  "reset b = b\<lparr>table := Map.empty\<rparr>"

section \<open>The gate a circuit implements\<close>

text \<open>
  What callers rely on: every failure is counted, and a failure that reaches the limit
  shuts the gate for the hold time counted from that failure. The consequence for a run of
  failures is proved from these laws alone.
\<close>

locale failure_gate =
  fixes shut :: "'c \<Rightarrow> rat \<Rightarrow> bool"
    and fail :: "'c \<Rightarrow> rat \<Rightarrow> 'c"
    and fails :: "'c \<Rightarrow> int"
    and limit :: int
    and hold :: rat
  assumes fails_fail: "fails (fail c t) = fails c + 1"
    and shut_fail: "limit \<le> fails c + 1 \<Longrightarrow> shut (fail c t) now \<longleftrightarrow> now < t + hold"
    and fail_below: "fails c + 1 < limit \<Longrightarrow> shut (fail c t) now \<longleftrightarrow> shut c now"
begin

lemma fails_fold: "fails (foldl fail c ts) = fails c + int (length ts)"
  by (induction ts arbitrary: c) (auto simp: fails_fail)

lemma shut_fold_below:
  "fails c + int (length ts) < limit \<Longrightarrow> shut (foldl fail c ts) now \<longleftrightarrow> shut c now"
  by (induction ts arbitrary: c) (auto simp: fails_fail fail_below)

lemma shut_after_limit:
  assumes "limit \<le> fails c + int (length ts) + 1"
  shows "shut (foldl fail c (ts @ [t])) now \<longleftrightarrow> now < t + hold"
  using assms by (simp add: shut_fail fails_fold)

end

lemma record_failure_failures [simp]:
  "failures (record_failure c th cd now) = failures c + 1"
  by (simp add: record_failure_def Let_def)

lemma opened_record_failure:
  "opened_until (record_failure c th cd now) =
     (if max 1 th \<le> failures c + 1 then now + max 0 cd else opened_until c)"
  by (simp add: record_failure_def Let_def)

interpretation circuit_gate: failure_gate
  "\<lambda>c now. now < opened_until c"
  "\<lambda>c now. record_failure c th cd now"
  failures
  "max 1 th"
  "max 0 cd"
  for th cd
  by unfold_locales (auto simp: opened_record_failure)

section \<open>Lemmas on one call\<close>

lemma clamp_attempts_bounds: "1 \<le> clamp_attempts m \<and> clamp_attempts m \<le> 3"
  by (auto simp: clamp_attempts_def)

lemma observe_provider_length [simp]:
  "length (observe_provider p out d n entries) = Suc (length entries)"
  by (simp add: observe_provider_def)

lemma attempt_loop_not_exhausted:
  "attempt < attempts \<Longrightarrow> attempt_loop rs operation attempts attempt \<noteq> ExitExhausted"
proof (induction rs operation attempts attempt rule: attempt_loop.induct)
  case (1 rs operation attempts attempt)
  then show ?case
    by (subst attempt_loop.simps)
       (auto simp: Let_def split: attempt.splits result_class.splits)
qed

text \<open>Attempts that raise are skipped as long as another one is allowed.\<close>

lemma attempt_loop_skip:
  assumes "attempt + 1 < attempts" and "operation attempt = Raised"
  shows "attempt_loop rs operation attempts attempt =
         attempt_loop rs operation attempts (attempt + 1)"
  using assms by (subst attempt_loop.simps) auto

lemma attempt_loop_skip_many:
  assumes "\<forall>i < k. operation i = Raised" and "k < attempts"
  shows "attempt_loop rs operation attempts 0 = attempt_loop rs operation attempts k"
  using assms
proof (induction k)
  case (Suc k)
  then have "attempt_loop rs operation attempts k = attempt_loop rs operation attempts (Suc k)"
    using attempt_loop_skip [of k attempts operation rs] by simp
  with Suc show ?case by simp
qed simp

lemma attempt_loop_all_raised:
  assumes "\<forall>i < attempts. operation i = Raised" and "0 < attempts"
  shows "attempt_loop rs operation attempts 0 = ExitFailure attempts"
proof -
  have "attempt_loop rs operation attempts 0 = attempt_loop rs operation attempts (attempts - 1)"
    using assms by (intro attempt_loop_skip_many) auto
  also have "\<dots> = ExitFailure attempts"
    using assms by (subst attempt_loop.simps) auto
  finally show ?thesis .
qed

text \<open>The exit of the loop depends only on the outcomes of the attempts it makes.\<close>

lemma attempt_loop_prefix:
  "(\<forall>i. attempt \<le> i \<and> i \<le> k \<longrightarrow> operation' i = operation i) \<Longrightarrow> attempt \<le> k \<Longrightarrow> k < attempts \<Longrightarrow>
   operation k \<in> {TimedOut, Cancelled} \<Longrightarrow>
   attempt_loop rs operation' attempts attempt = attempt_loop rs operation attempts attempt"
proof (induction rs operation attempts attempt rule: attempt_loop.induct)
  case (1 rs operation attempts attempt)
  have eq: "operation' attempt = operation attempt" using "1.prems" by auto
  show ?case
  proof (cases "attempt = k")
    case True
    then show ?thesis using "1.prems" eq by (subst (1 2) attempt_loop.simps) auto
  next
    case False
    then have "attempt < k" using "1.prems" by simp
    then have "attempt_loop rs operation' attempts (attempt + 1) =
               attempt_loop rs operation attempts (attempt + 1)"
      using "1.prems" by (intro "1.IH") auto
    then show ?thesis using eq \<open>attempt < k\<close> "1.prems"
      by (subst (1 2) attempt_loop.simps) (simp add: Let_def)
  qed
qed

section \<open>Interleaved calls\<close>

text \<open>
  A call in flight is its provider and the address of the circuit it holds. All calls to a
  provider use that provider's threshold and cooldown. The clock only advances.
\<close>

record system =
  br :: breaker
  inflight :: "(string \<times> nat) list"
  clock :: rat

definition init_system :: system where
  "init_system = \<lparr>br = empty_breaker, inflight = [], clock = 0\<rparr>"

inductive breaker_step ::
  "int \<Rightarrow> rat \<Rightarrow> system \<Rightarrow> system \<Rightarrow> bool" for th :: int and cd :: rat where
  tick: "d \<ge> 0 \<Longrightarrow> breaker_step th cd s (s\<lparr>clock := clock s + d\<rparr>)"
| reject: "begin_call p (clock s) (br s) = (None, b') \<Longrightarrow> breaker_step th cd s (s\<lparr>br := b'\<rparr>)"
| admit: "begin_call p (clock s) (br s) = (Some a, b') \<Longrightarrow>
     breaker_step th cd s (s\<lparr>br := b', inflight := (p, a) # inflight s\<rparr>)"
| finish: "inflight s = xs @ (p, a) # ys \<Longrightarrow> fail_time t = clock s \<Longrightarrow>
     snd (finish_call p a th cd t (ex :: string loop_exit) (br s)) = b' \<Longrightarrow>
     breaker_step th cd s (s\<lparr>br := b', inflight := xs @ ys\<rparr>)"
| restart: "breaker_step th cd s (s\<lparr>br := reset (br s)\<rparr>)"

inductive breaker_reachable :: "int \<Rightarrow> rat \<Rightarrow> system \<Rightarrow> bool" for th :: int and cd :: rat where
  start: "breaker_reachable th cd init_system"
| step: "breaker_reachable th cd s \<Longrightarrow> breaker_step th cd s s' \<Longrightarrow> breaker_reachable th cd s'"

inductive_cases breaker_stepE: "breaker_step th cd s s'"

definition circuit_ok :: "int \<Rightarrow> rat \<Rightarrow> rat \<Rightarrow> circuit \<Rightarrow> bool" where
  "circuit_ok th cd now c \<longleftrightarrow>
     0 \<le> failures c \<and> 0 \<le> opened_until c \<and>
     (0 < opened_until c \<longrightarrow> max 1 th \<le> failures c) \<and>
     opened_until c \<le> now + max 0 cd"

definition breaker_ok :: "int \<Rightarrow> rat \<Rightarrow> rat \<Rightarrow> breaker \<Rightarrow> bool" where
  "breaker_ok th cd now b \<longleftrightarrow> (\<forall>a. circuit_ok th cd now (store b a))"

definition system_ok :: "int \<Rightarrow> rat \<Rightarrow> system \<Rightarrow> bool" where
  "system_ok th cd s \<longleftrightarrow> 0 \<le> clock s \<and> breaker_ok th cd (clock s) (br s)"

lemma circuit_ok_fresh [inv_intros]: "0 \<le> now \<Longrightarrow> circuit_ok th cd now fresh_circuit"
  by (auto simp: circuit_ok_def fresh_circuit_def)

lemma circuit_ok_failure [inv_intros]:
  "0 \<le> now \<Longrightarrow> circuit_ok th cd now c \<Longrightarrow> circuit_ok th cd now (record_failure c th cd now)"
  by (auto simp: circuit_ok_def opened_record_failure)

lemma circuit_ok_success [inv_intros]:
  "0 \<le> now \<Longrightarrow> circuit_ok th cd now (c\<lparr>failures := 0, opened_until := 0\<rparr>)"
  by (auto simp: circuit_ok_def)

lemma circuit_ok_later [inv_intros]:
  "circuit_ok th cd now c \<Longrightarrow> 0 \<le> d \<Longrightarrow> circuit_ok th cd (now + d) c"
  by (auto simp: circuit_ok_def)

lemma breaker_ok_put [inv_intros]:
  "breaker_ok th cd now b \<Longrightarrow> circuit_ok th cd now c \<Longrightarrow> breaker_ok th cd now (put_circuit a c b)"
  by (simp add: breaker_ok_def put_circuit_def)

lemma breaker_ok_observed [simp]:
  "breaker_ok th cd now (b\<lparr>observed := l\<rparr>) = breaker_ok th cd now b"
  by (simp add: breaker_ok_def)

lemma breaker_ok_begin [inv_intros]:
  assumes "0 \<le> now" and "breaker_ok th cd now b"
  shows "breaker_ok th cd now (snd (begin_call p now b))"
  using assms circuit_ok_fresh [of now th cd]
  by (auto simp: begin_call_def setdefault_circuit_def breaker_ok_def split: option.splits)

lemma breaker_ok_finish [inv_intros]:
  assumes "0 \<le> now" and "fail_time t = now" and "breaker_ok th cd now b"
  shows "breaker_ok th cd now (snd (finish_call p a th cd t ex b))"
proof -
  have "circuit_ok th cd now (store b a)" using assms(3) by (simp add: breaker_ok_def)
  with assms show ?thesis
    by (cases ex) (auto simp: Let_def intro: inv_intros)
qed

lemma system_ok_step: "breaker_step th cd s s' \<Longrightarrow> system_ok th cd s \<Longrightarrow> system_ok th cd s'"
proof (induction rule: breaker_step.induct)
  case (tick d s)
  then show ?case by (auto simp: system_ok_def breaker_ok_def intro: circuit_ok_later)
next
  case (reject p s b')
  then show ?case using breaker_ok_begin [of "clock s" th cd "br s" p] by (simp add: system_ok_def)
next
  case (admit p s a b')
  then show ?case using breaker_ok_begin [of "clock s" th cd "br s" p] by (simp add: system_ok_def)
next
  case (finish s xs p a ys t ex b')
  then show ?case using breaker_ok_finish [of "clock s" t th cd "br s" p a ex]
    by (simp add: system_ok_def)
next
  case (restart s)
  then show ?case by (simp add: system_ok_def reset_def breaker_ok_def)
qed

lemma system_ok_reachable: "breaker_reachable th cd s \<Longrightarrow> system_ok th cd s"
proof (induction rule: breaker_reachable.induct)
  case start
  show ?case
    by (simp add: system_ok_def init_system_def empty_breaker_def breaker_ok_def circuit_ok_fresh)
next
  case (step s s')
  then show ?case by (blast intro: system_ok_step)
qed

section \<open>Calls in sequence\<close>

lemma begin_call_known:
  "table b p = Some a \<Longrightarrow> opened_until (store b a) \<le> now \<Longrightarrow> begin_call p now b = (Some a, b)"
  by (simp add: begin_call_def setdefault_circuit_def)

lemma begin_call_open:
  "table b p = Some a \<Longrightarrow> now < opened_until (store b a) \<Longrightarrow>
   begin_call p now b = (None, b\<lparr>observed := observe_provider p CircuitOpen 0 0 (observed b)\<rparr>)"
  by (simp add: begin_call_def setdefault_circuit_def)

text \<open>A call whose every attempt raises, made while the circuit is closed.\<close>

lemma run_blocking_failing:
  assumes "table b p = Some a" and "opened_until (store b a) \<le> started t"
    and "\<forall>i. operation i = Raised"
  shows "table (snd (run_blocking p operation th cd m rs t b)) p = Some a"
    and "store (snd (run_blocking p operation th cd m rs t b)) a =
           record_failure (store b a) th cd (fail_time t)"
proof -
  have "attempt_loop rs operation (clamp_attempts m) 0 = ExitFailure (clamp_attempts m)"
    using assms(3) clamp_attempts_bounds [of m] by (intro attempt_loop_all_raised) auto
  then show "table (snd (run_blocking p operation th cd m rs t b)) p = Some a"
    and "store (snd (run_blocking p operation th cd m rs t b)) a =
           record_failure (store b a) th cd (fail_time t)"
    using assms by (auto simp: run_blocking_def begin_call_known Let_def put_circuit_def)
qed

definition run_calls ::
  "string \<Rightarrow> (nat \<Rightarrow> 'a attempt) \<Rightarrow> int \<Rightarrow> rat \<Rightarrow> int \<Rightarrow> ('a \<Rightarrow> result_class) option
     \<Rightarrow> call_times list \<Rightarrow> breaker \<Rightarrow> breaker" where
  "run_calls p operation th cd m rs ts b =
     foldl (\<lambda>b t. snd (run_blocking p operation th cd m rs t b)) b ts"

lemma run_calls_failing:
  assumes "table b p = Some a" and "\<forall>i. operation i = Raised"
    and "failures (store b a) + int (length ts) < max 1 th + 1"
    and "\<forall>t \<in> set ts. opened_until (store b a) \<le> started t"
  shows "table (run_calls p operation th cd m rs ts b) p = Some a \<and>
         store (run_calls p operation th cd m rs ts b) a =
           foldl (\<lambda>c now. record_failure c th cd now) (store b a) (map fail_time ts)"
  using assms
proof (induction ts arbitrary: b)
  case (Cons t ts)
  let ?b = "snd (run_blocking p operation th cd m rs t b)"
  have tb: "table ?b p = Some a"
    and st: "store ?b a = record_failure (store b a) th cd (fail_time t)"
    using run_blocking_failing [of b p a t operation th cd m rs] Cons.prems by auto
  have "ts = [] \<or> opened_until (store ?b a) = opened_until (store b a)"
    using Cons.prems(3) by (cases ts) (auto simp: st opened_record_failure)
  then have "\<forall>t' \<in> set ts. opened_until (store ?b a) \<le> started t'"
    using Cons.prems(4) by auto
  moreover have "failures (store ?b a) + int (length ts) < max 1 th + 1"
    using Cons.prems(3) by (simp add: st)
  ultimately have "table (run_calls p operation th cd m rs ts ?b) p = Some a \<and>
      store (run_calls p operation th cd m rs ts ?b) a =
        foldl (\<lambda>c now. record_failure c th cd now) (store ?b a) (map fail_time ts)"
    by (intro Cons.IH [OF tb Cons.prems(2)])
  then show ?case by (simp only: run_calls_def st foldl.simps list.map)
qed (simp add: run_calls_def)

section \<open>Properties\<close>

text \<open>
  While the circuit of a provider is open, a call is refused: the result and the new
  state do not depend on the operation, its result classifier or the retry settings, the
  circuit keeps its state and exactly one \<open>circuit_open\<close> observation with zero attempts is
  recorded.
\<close>
theorem open_circuit_fails_fast:
  assumes "table b p = Some a" and "started t < opened_until (store b a)"
  shows "run_blocking p operation th cd m rs t b =
           (Inl (ProviderUnavailable (p @ '' circuit is open'')),
            b\<lparr>observed := observed b @ [\<lparr>obs_provider = p, obs_outcome = CircuitOpen,
                                        obs_duration = 0, obs_attempts = 0\<rparr>]\<rparr>)"
  using assms by (simp add: run_blocking_def begin_call_open observe_provider_def)

definition demo_breaker :: breaker where
  "demo_breaker = empty_breaker\<lparr>table := [''gemini'' \<mapsto> 0], fresh := 1\<rparr>"

lemma demo_breaker_simps [simp]:
  "table demo_breaker ''gemini'' = Some 0"
  "store demo_breaker a = fresh_circuit"
  "observed demo_breaker = []"
  by (simp_all add: demo_breaker_def empty_breaker_def)

theorem open_circuit_fails_fast_witness:
  "fst (run_blocking ''gemini'' (\<lambda>_. Returned (7 :: int)) 3 5 2 None
          \<lparr>started = 4, fail_time = 5, obs_time = 5\<rparr>
          (put_circuit 0 \<lparr>failures = 3, opened_until = 9\<rparr> demo_breaker))
     = Inl (ProviderUnavailable ''gemini circuit is open'')"
  using open_circuit_fails_fast
    [of "put_circuit 0 \<lparr>failures = 3, opened_until = 9\<rparr> demo_breaker" "''gemini''" 0
        "\<lparr>started = 4, fail_time = 5, obs_time = 5\<rparr>" "\<lambda>_. Returned (7 :: int)" 3 5 2 None]
  by (simp add: put_circuit_def)

text \<open>
  C31. A timed-out attempt is never repeated. If the circuit is closed, the attempts before
  number \<open>k\<close> raise and attempt \<open>k\<close> times out, then the call reports a timeout after exactly
  \<open>k + 1\<close> attempts, records one failure, and the outcome is the same whatever later
  attempts would have done.
\<close>
theorem timeout_never_retried:
  assumes "table b p = Some a" and "opened_until (store b a) \<le> started t"
    and "k < clamp_attempts m" and "\<forall>i < k. operation i = Raised" and "operation k = TimedOut"
    and "\<forall>i \<le> k. operation' i = operation i"
  shows "fst (run_blocking p operation' th cd m rs t b) = Inl (ProviderUnavailable (p @ '' timed out''))
    \<and> obs_attempts (last (observed (snd (run_blocking p operation' th cd m rs t b)))) = int (k + 1)
    \<and> failures (store (snd (run_blocking p operation' th cd m rs t b)) a) = failures (store b a) + 1
    \<and> run_blocking p operation' th cd m rs t b = run_blocking p operation th cd m rs t b"
proof -
  have k: "attempt_loop rs operation (clamp_attempts m) 0 = ExitTimeout (k + 1)"
    using assms(3-5) attempt_loop_skip_many [of k operation "clamp_attempts m" rs]
      attempt_loop.simps [of rs operation "clamp_attempts m" k] by simp
  have "attempt_loop rs operation' (clamp_attempts m) 0 = attempt_loop rs operation (clamp_attempts m) 0"
    using assms(3,5,6) by (intro attempt_loop_prefix [where k = k]) auto
  with k assms(1,2) show ?thesis
    by (simp add: run_blocking_def begin_call_known Let_def put_circuit_def observe_provider_def)
qed

theorem timeout_never_retried_witness:
  "fst (run_blocking ''gemini'' (\<lambda>i. if i = 0 then Raised else if i = 1 then TimedOut else Returned (7 :: int))
          3 5 9 None \<lparr>started = 4, fail_time = 5, obs_time = 5\<rparr> demo_breaker)
     = Inl (ProviderUnavailable ''gemini timed out'')"
  using timeout_never_retried
    [of demo_breaker "''gemini''" 0 "\<lparr>started = 4, fail_time = 5, obs_time = 5\<rparr>" 1 9
        "\<lambda>i. if i = 0 then Raised else if i = 1 then TimedOut else Returned (7 :: int)"
        "\<lambda>i. if i = 0 then Raised else if i = 1 then TimedOut else Returned (7 :: int)" 3 5 None]
  by (simp add: fresh_circuit_def clamp_attempts_def)

text \<open>
  C14. As many consecutive failing calls as the threshold asks for open the circuit: from a
  circuit with \<open>f\<close> failures, after \<open>max 1 threshold - f\<close> calls whose attempts all raise, every
  later call started before the last failure plus the cooldown is refused, whatever its own
  operation would return.
\<close>
theorem failures_reach_threshold_open:
  assumes "table b p = Some a" and "\<forall>i. operation i = Raised"
    and "failures (store b a) + int (length (ts @ [t])) = max 1 th"
    and "\<forall>t' \<in> set (ts @ [t]). opened_until (store b a) \<le> started t'"
    and "started t' < fail_time t + max 0 cd"
  shows "fst (run_blocking p (operation' :: nat \<Rightarrow> 'b attempt) th' cd' m' rs' t'
           (run_calls p operation th cd m rs (ts @ [t]) b))
         = Inl (ProviderUnavailable (p @ '' circuit is open''))"
proof -
  let ?b = "run_calls p operation th cd m rs (ts @ [t]) b"
  have "table ?b p = Some a \<and> store ?b a =
          foldl (\<lambda>c now. record_failure c th cd now) (store b a) (map fail_time ts @ [fail_time t])"
    using run_calls_failing [of b p a operation "ts @ [t]" th cd m rs] assms by simp
  moreover have "started t' < opened_until
     (foldl (\<lambda>c now. record_failure c th cd now) (store b a) (map fail_time ts @ [fail_time t]))"
    using circuit_gate.shut_after_limit [where th = th and cd = cd and c = "store b a" and ts = "map fail_time ts"
      and t = "fail_time t" and now = "started t'"] assms(3,5)
    by fastforce
  ultimately show ?thesis
    by (simp add: run_blocking_def begin_call_open)
qed

theorem failures_reach_threshold_open_witness:
  "fst (run_blocking ''gemini'' (\<lambda>_. Returned (7 :: int)) 2 30 1 None
          \<lparr>started = 12, fail_time = 12, obs_time = 12\<rparr>
          (run_calls ''gemini'' (\<lambda>_. Raised :: int attempt) 2 30 1 None
             ([\<lparr>started = 1, fail_time = 2, obs_time = 2\<rparr>] @ [\<lparr>started = 3, fail_time = 4, obs_time = 4\<rparr>])
             demo_breaker))
     = Inl (ProviderUnavailable ''gemini circuit is open'')"
  using failures_reach_threshold_open
    [of demo_breaker "''gemini''" 0 "\<lambda>_. Raised :: int attempt"
        "[\<lparr>started = 1, fail_time = 2, obs_time = 2\<rparr>]" "\<lparr>started = 3, fail_time = 4, obs_time = 4\<rparr>"
        2 "\<lparr>started = 12, fail_time = 12, obs_time = 12\<rparr>" 30 "\<lambda>_. Returned (7 :: int)" 2 30 1 None 1 None]
  by (simp add: fresh_circuit_def)

text \<open>
  C12. Under any interleaving of calls to providers that share a threshold and a cooldown, and
  of \<open>reset()\<close>, a call is refused only if the provider's circuit has counted at least
  \<open>max 1 threshold\<close> failures, and no provider stays locked out: once the cooldown has passed
  on the clock a new call is admitted.
\<close>
theorem breaker_interleaving_safe:
  assumes "breaker_reachable th cd s"
  shows "(\<forall>b'. begin_call p (clock s) (br s) = (None, b') \<longrightarrow>
            (\<exists>a. table (br s) p = Some a \<and> max 1 th \<le> failures (store (br s) a)))
       \<and> (\<exists>a b'. begin_call p (clock s + max 0 cd) (br s) = (Some a, b'))"
proof -
  have ok: "0 \<le> clock s" "\<And>a. circuit_ok th cd (clock s) (store (br s) a)"
    using system_ok_reachable [OF assms] by (auto simp: system_ok_def breaker_ok_def)
  have "opened_until (store (br s) a) \<le> clock s + max 0 cd" for a
    using ok(2) [of a] by (simp add: circuit_ok_def)
  then have "\<not> clock s + max 0 cd < opened_until (store (br s) a)" for a
    by (simp add: not_less)
  then have "\<exists>a b'. begin_call p (clock s + max 0 cd) (br s) = (Some a, b')"
    using ok(1) by (auto simp: begin_call_def setdefault_circuit_def fresh_circuit_def split: option.splits)
  moreover have "\<exists>a. table (br s) p = Some a \<and> max 1 th \<le> failures (store (br s) a)"
    if "begin_call p (clock s) (br s) = (None, b')" for b'
  proof (cases "table (br s) p")
    case None
    with that ok(1) show ?thesis
      by (auto simp: begin_call_def setdefault_circuit_def fresh_circuit_def Let_def split: if_splits)
  next
    case (Some a)
    with that have "clock s < opened_until (store (br s) a)"
      by (auto simp: begin_call_def setdefault_circuit_def Let_def split: if_splits)
    with ok(1) have "0 < opened_until (store (br s) a)" by simp
    with ok(2) [of a] Some show ?thesis by (simp add: circuit_ok_def)
  qed
  ultimately show ?thesis by blast
qed

theorem breaker_interleaving_safe_witness:
  "\<exists>a b'. begin_call ''gemini'' (clock init_system + max 0 30) (br init_system) = (Some a, b')"
  using breaker_interleaving_safe [OF breaker_reachable.start [of 3 30], of "''gemini''"] by blast

end
