(* ===== verification/Evidence_Packing.thy ===== *)
theory Evidence_Packing
  imports SC_Prelude
begin

text \<open>
  Complementary excerpt selection (\<open>api/services/evidence_packing.py\<close>) and the closed
  models its plans must satisfy (\<open>api/models/evidence_packing.py\<close>).

  \<open>hash\<close> stands for the hexadecimal SHA-256 digest; the digested JSON text is spelled out.
  The \<open>cost\<close> callback is a function of the proposed identifier tuple that may raise
  (\<open>None\<close>) or return any Python object; being a function, its memoisation in the source is
  not observable and is left out. The validators of the Pydantic models are boolean
  functions, and constructing a model that violates one raises.
\<close>

section \<open>Models\<close>

datatype role_hint = RMethods | RResults | RTable | ROther

datatype chunk_kind =
  OriginalPassage | AbstractKind | DerivedFact | RetainedLegacySnapshot | LegacyUnknown

datatype source_basis = SourceSnapshot | LegacyPaper

datatype group_basis = AcceptedWorkMapping | SourceBasis source_basis

datatype selection_reason = SourceDiversity | SourceCoverage | ComplementaryRole

datatype exclusion_reason =
    PayloadBudget | BasePayloadBudget | ChunkLimit | SourceLimit | WorkLimit
  | DuplicateContent | RoleAlreadyRepresented | NotComplementaryOriginal

record packing_candidate =
  chunk_id :: string
  paper_id :: string
  source_snapshot :: "string option"
  accepted_work :: "string option"
  content_sha256 :: string
  chunk_kind :: chunk_kind
  role_hint :: role_hint

definition bounded_identifier :: "nat \<Rightarrow> string \<Rightarrow> bool" where
  "bounded_identifier limit s =
     (1 \<le> length s \<and> length s \<le> limit \<and> py_strip s \<noteq> [] \<and>
      list_all (\<lambda>c. \<not> (char_nat c < 32 \<or> char_nat c = 127)) s)"

definition valid_candidate :: "packing_candidate \<Rightarrow> bool" where
  "valid_candidate c =
     (bounded_identifier 200 (chunk_id c) \<and> bounded_identifier 100 (paper_id c) \<and>
      (case source_snapshot c of None \<Rightarrow> True | Some s \<Rightarrow> is_sha256 s) \<and>
      (case accepted_work c of None \<Rightarrow> True | Some w \<Rightarrow> canonical_uuid w) \<and>
      is_sha256 (content_sha256 c))"

record selection =
  position :: int
  sel_chunk_id :: string
  sel_source_group :: string
  sel_snapshot :: "string option"
  sel_diversity_group :: string
  sel_source_basis :: source_basis
  sel_group_basis :: group_basis
  sel_role :: role_hint
  sel_reason :: selection_reason

definition prefixed_digest :: "string \<Rightarrow> string \<Rightarrow> bool" where
  "prefixed_digest p s = (startswith s p \<and> is_sha256 (drop (length p) s))"

definition consistent_basis :: "selection \<Rightarrow> bool" where
  "consistent_basis s =
     ((sel_source_basis s = SourceSnapshot) = (sel_snapshot s \<noteq> None) \<and>
      (sel_group_basis s \<noteq> AcceptedWorkMapping \<longrightarrow> sel_group_basis s = SourceBasis (sel_source_basis s)) \<and>
      \<not> (sel_source_basis s = LegacyPaper \<and> sel_reason s = ComplementaryRole) \<and>
      \<not> (sel_reason s = ComplementaryRole \<and> sel_role s = ROther))"

definition valid_selection :: "selection \<Rightarrow> bool" where
  "valid_selection s =
     (1 \<le> position s \<and> position s \<le> 20 \<and>
      1 \<le> length (sel_chunk_id s) \<and> length (sel_chunk_id s) \<le> 200 \<and>
      prefixed_digest ''src:'' (sel_source_group s) \<and> prefixed_digest ''div:'' (sel_diversity_group s) \<and>
      (case sel_snapshot s of None \<Rightarrow> True | Some d \<Rightarrow> is_sha256 d) \<and> consistent_basis s)"

datatype plan_status = Packed | EmptyPlan | BaseBudgetExceeded

record plan =
  status :: plan_status
  selected :: "selection list"
  excluded :: "(string \<times> exclusion_reason) list"
  candidate_count :: int
  selected_count :: int
  source_group_count :: int
  diversity_group_count :: int
  payload_bytes :: int
  byte_budget :: int
  max_chunks :: int
  max_per_source :: int
  max_per_work :: int

definition MAX_PAYLOAD_BUDGET :: int where "MAX_PAYLOAD_BUDGET = 16 * 1024 * 1024"
definition MAX_MEASURED_BYTES :: int where "MAX_MEASURED_BYTES = 64 * 1024 * 1024"
definition MAX_CANDIDATES :: nat where "MAX_CANDIDATES = 300"

text \<open>The loop of \<open>coherent_plan\<close> over the selection, with what it has seen so far.\<close>

fun coherent_items ::
  "plan \<Rightarrow> string set \<Rightarrow> string set \<Rightarrow> (string \<Rightarrow> role_hint set) \<Rightarrow> selection list \<Rightarrow> bool" where
  "coherent_items p seen_sources seen_diversity roles [] = True"
| "coherent_items p seen_sources seen_diversity roles (item # items) =
     (let expected = (if sel_diversity_group item \<notin> seen_diversity then SourceDiversity
                      else if sel_source_group item \<notin> seen_sources then SourceCoverage
                      else ComplementaryRole);
          members = filter (\<lambda>row. sel_source_group row = sel_source_group item) (selected p)
      in sel_reason item = expected \<and>
         \<not> (sel_reason item = ComplementaryRole \<and> sel_role item \<in> roles (sel_source_group item)) \<and>
         int (length members) \<le> (if sel_source_basis item = LegacyPaper then 1 else max_per_source p) \<and>
         len_set (map (\<lambda>row. (sel_source_basis row, sel_diversity_group row, sel_group_basis row)) members) = 1 \<and>
         len_set (map sel_snapshot members) = 1 \<and>
         \<not> (sel_group_basis item = AcceptedWorkMapping \<and>
            max_per_work p < int (count_if (\<lambda>row. sel_diversity_group row = sel_diversity_group item) (selected p))) \<and>
         coherent_items p (insert (sel_source_group item) seen_sources)
           (insert (sel_diversity_group item) seen_diversity)
           (roles(sel_source_group item := insert (sel_role item) (roles (sel_source_group item)))) items)"

definition plan_fields :: "plan \<Rightarrow> bool" where
  "plan_fields p =
     (length (selected p) \<le> 20 \<and> length (excluded p) \<le> 300 \<and>
      0 \<le> candidate_count p \<and> candidate_count p \<le> 300 \<and>
      0 \<le> selected_count p \<and> selected_count p \<le> 20 \<and>
      0 \<le> source_group_count p \<and> source_group_count p \<le> 20 \<and>
      0 \<le> diversity_group_count p \<and> diversity_group_count p \<le> 20 \<and>
      0 \<le> payload_bytes p \<and> payload_bytes p \<le> MAX_MEASURED_BYTES \<and>
      1 \<le> byte_budget p \<and> byte_budget p \<le> MAX_PAYLOAD_BUDGET \<and>
      1 \<le> max_chunks p \<and> max_chunks p \<le> 20 \<and>
      1 \<le> max_per_source p \<and> max_per_source p \<le> 3 \<and> 1 \<le> max_per_work p \<and> max_per_work p \<le> 3)"

definition valid_exclusion :: "string \<times> exclusion_reason \<Rightarrow> bool" where
  "valid_exclusion e = (1 \<le> length (fst e) \<and> length (fst e) \<le> 200)"

definition status_accounting :: "plan \<Rightarrow> bool" where
  "status_accounting p =
     (case status p of
        Packed \<Rightarrow> selected p \<noteq> [] \<and> payload_bytes p \<le> byte_budget p
      | EmptyPlan \<Rightarrow> selected p = [] \<and> payload_bytes p \<le> byte_budget p
      | BaseBudgetExceeded \<Rightarrow> selected p = [] \<and> byte_budget p < payload_bytes p)"

definition coherent_plan :: "plan \<Rightarrow> bool" where
  "coherent_plan p =
     (let identifiers = map sel_chunk_id (selected p) @ map fst (excluded p)
      in len_set identifiers = length identifiers \<and> int (length identifiers) = candidate_count p \<and>
         selected_count p = int (length (selected p)) \<and> selected_count p \<le> max_chunks p \<and>
         map position (selected p) = [1..selected_count p] \<and>
         source_group_count p = int (len_set (map sel_source_group (selected p))) \<and>
         diversity_group_count p = int (len_set (map sel_diversity_group (selected p))) \<and>
         coherent_items p {} {} (\<lambda>_. {}) (selected p) \<and> status_accounting p)"

definition valid_plan :: "plan \<Rightarrow> bool" where
  "valid_plan p =
     (plan_fields p \<and> list_all valid_selection (selected p) \<and>
      list_all valid_exclusion (excluded p) \<and> coherent_plan p)"

section \<open>Candidate admission and groups\<close>

datatype packing_error =
    PackingError string
  | CandidateValidation
  | SelectionValidation
  | PlanValidation
  | SummaryValidation

fun check_bindings :: "(string \<Rightarrow> (string option) option) \<Rightarrow> packing_candidate list \<Rightarrow> bool" where
  "check_bindings bindings [] = True"
| "check_bindings bindings (v # vs) =
     ((case bindings (paper_id v) of None \<Rightarrow> True | Some w \<Rightarrow> w = accepted_work v) \<and>
      check_bindings (bindings(paper_id v \<mapsto> accepted_work v)) vs)"

definition candidates :: "packing_candidate list \<Rightarrow> (packing_error, packing_candidate list) res" where
  "candidates values =
     rbind (guard (length values \<le> MAX_CANDIDATES)
             (PackingError ''A bounded admitted candidate sequence is required'')) (\<lambda>_.
     rbind (guard (list_all valid_candidate values) CandidateValidation) (\<lambda>_.
     rbind (guard (len_set (map chunk_id values) = length values)
             (PackingError ''Repeated chunk identities are ambiguous'')) (\<lambda>_.
     rbind (guard (check_bindings Map.empty values)
             (PackingError ''Conflicting accepted Work diversity bindings'')) (\<lambda>_.
     Inr values))))"

definition VERSION :: string where "VERSION = ''evidence-packing/1.0.0''"

fun jopt :: "string option \<Rightarrow> jval" where
  "jopt None = JNull"
| "jopt (Some s) = JStr s"

definition digest_text :: "string \<Rightarrow> jval list \<Rightarrow> string" where
  "digest_text domain body = json_dumps (JList [JStr VERSION, JStr domain, JList body])"

definition digest :: "(string \<Rightarrow> string) \<Rightarrow> string \<Rightarrow> jval list \<Rightarrow> string" where
  "digest hash domain body = hash (digest_text domain body)"

fun basis_name :: "source_basis \<Rightarrow> string" where
  "basis_name SourceSnapshot = ''source_snapshot''"
| "basis_name LegacyPaper = ''legacy_paper''"

definition source_basis_of :: "packing_candidate \<Rightarrow> source_basis" where
  "source_basis_of c = (if source_snapshot c \<noteq> None then SourceSnapshot else LegacyPaper)"

definition source_body :: "packing_candidate \<Rightarrow> jval list" where
  "source_body c = [JStr (basis_name (source_basis_of c)), JStr (paper_id c), jopt (source_snapshot c)]"

definition source_digest :: "(string \<Rightarrow> string) \<Rightarrow> packing_candidate \<Rightarrow> string" where
  "source_digest hash c = digest hash ''source-group'' (source_body c)"

definition diversity_body :: "(string \<Rightarrow> string) \<Rightarrow> packing_candidate \<Rightarrow> jval list" where
  "diversity_body hash c =
     (case accepted_work c of
        Some w \<Rightarrow> [JStr ''accepted_work_mapping'', JStr w]
      | None \<Rightarrow> [JStr (basis_name (source_basis_of c)), JStr (source_digest hash c)])"

record groups =
  source_group_id :: string
  source_group_basis :: source_basis
  diversity_group_id :: string
  group_basis_of :: group_basis

definition groups_of :: "(string \<Rightarrow> string) \<Rightarrow> packing_candidate \<Rightarrow> groups" where
  "groups_of hash c =
     \<lparr>source_group_id = ''src:'' @ source_digest hash c,
      source_group_basis = source_basis_of c,
      diversity_group_id = ''div:'' @ digest hash ''diversity-group'' (diversity_body hash c),
      group_basis_of = (if accepted_work c \<noteq> None then AcceptedWorkMapping
                        else SourceBasis (source_basis_of c))\<rparr>"

definition packing_group_ids :: "(string \<Rightarrow> string) \<Rightarrow> packing_candidate \<Rightarrow> (packing_error, groups) res" where
  "packing_group_ids hash c = rbind (candidates [c]) (\<lambda>cs. Inr (groups_of hash (hd cs)))"

section \<open>Describing a selection\<close>

definition selection_of ::
  "(string \<Rightarrow> string) \<Rightarrow> int \<Rightarrow> string set \<Rightarrow> string set \<Rightarrow> packing_candidate \<Rightarrow> selection" where
  "selection_of hash pos sources diversity c =
     (let g = groups_of hash c
      in \<lparr>position = pos, sel_chunk_id = chunk_id c, sel_source_group = source_group_id g,
          sel_snapshot = source_snapshot c, sel_diversity_group = diversity_group_id g,
          sel_source_basis = source_group_basis g, sel_group_basis = group_basis_of g,
          sel_role = role_hint c,
          sel_reason = (if diversity_group_id g \<notin> diversity then SourceDiversity
                        else if source_group_id g \<notin> sources then SourceCoverage
                        else ComplementaryRole)\<rparr>)"

fun describe_from ::
  "(string \<Rightarrow> string) \<Rightarrow> int \<Rightarrow> string set \<Rightarrow> string set \<Rightarrow> packing_candidate list
     \<Rightarrow> (packing_error, selection list) res" where
  "describe_from hash pos sources diversity [] = Inr []"
| "describe_from hash pos sources diversity (c # cs) =
     (let s = selection_of hash pos sources diversity c
      in rbind (guard (valid_selection s) SelectionValidation) (\<lambda>_.
         rbind (describe_from hash (pos + 1) (insert (sel_source_group s) sources)
                 (insert (sel_diversity_group s) diversity) cs) (\<lambda>rest.
         Inr (s # rest))))"

definition describe :: "(string \<Rightarrow> string) \<Rightarrow> packing_candidate list \<Rightarrow> (packing_error, selection list) res" where
  "describe hash cs = describe_from hash 1 {} {} cs"

fun by_id :: "packing_candidate list \<Rightarrow> string \<Rightarrow> packing_candidate option" where
  "by_id [] i = None"
| "by_id (v # vs) i = (case by_id vs i of Some c \<Rightarrow> Some c | None \<Rightarrow> if chunk_id v = i then Some v else None)"

definition describe_selection ::
  "(string \<Rightarrow> string) \<Rightarrow> packing_candidate list \<Rightarrow> string list \<Rightarrow> (packing_error, selection list) res" where
  "describe_selection hash cands ordered_ids =
     rbind (candidates cands) (\<lambda>values.
     rbind (guard (length ordered_ids \<le> 20 \<and> len_set ordered_ids = length ordered_ids)
             (PackingError ''An ordered unique citation inventory is required'')) (\<lambda>_.
     rbind (guard (list_all (\<lambda>i. by_id values i \<noteq> None) ordered_ids)
             (PackingError ''Selected chunk is outside the admitted inventory'')) (\<lambda>_.
     describe hash (map (\<lambda>i. the (by_id values i)) ordered_ids))))"

section \<open>Packing\<close>

record limits =
  lim_budget :: int
  lim_chunks :: int
  lim_source :: int
  lim_work :: int

record pack_state =
  ps_selected :: "packing_candidate list"
  ps_ids :: "string set"
  ps_content :: "string set"
  ps_sources :: "string counter"
  ps_works :: "string counter"
  ps_diversity :: "string list"
  ps_roles :: "string \<Rightarrow> role_hint set"
  ps_payload :: int
  ps_rejected :: "string set"

definition empty_pack :: "int \<Rightarrow> pack_state" where
  "empty_pack base =
     \<lparr>ps_selected = [], ps_ids = {}, ps_content = {}, ps_sources = [], ps_works = [],
      ps_diversity = [], ps_roles = (\<lambda>_. {}), ps_payload = base, ps_rejected = {}\<rparr>"

definition valid_limits :: "limits \<Rightarrow> bool" where
  "valid_limits l =
     (1 \<le> lim_budget l \<and> lim_budget l \<le> MAX_PAYLOAD_BUDGET \<and> 1 \<le> lim_chunks l \<and> lim_chunks l \<le> 20 \<and>
      1 \<le> lim_source l \<and> lim_source l \<le> 3 \<and> 1 \<le> lim_work l \<and> lim_work l \<le> 3)"

definition measure_cost :: "(string list \<Rightarrow> pyval option) \<Rightarrow> string list \<Rightarrow> (packing_error, int) res" where
  "measure_cost cost ids =
     (case cost ids of
        None \<Rightarrow> Inl (PackingError ''Complete-payload accounting is unavailable'')
      | Some v \<Rightarrow>
          if type_is_int v \<and> 0 \<le> int_of v \<and> int_of v \<le> MAX_MEASURED_BYTES then Inr (int_of v)
          else Inl (PackingError ''Invalid complete-payload UTF-8 byte count''))"

definition reason ::
  "(string \<Rightarrow> string) \<Rightarrow> limits \<Rightarrow> bool \<Rightarrow> pack_state \<Rightarrow> packing_candidate \<Rightarrow> exclusion_reason option" where
  "reason hash l complement st c =
     (let g = groups_of hash c; sid = source_group_id g; did = diversity_group_id g;
          used = counter_get (ps_sources st) sid
      in if content_sha256 c \<in> ps_content st then Some DuplicateContent
         else if int used \<ge> (if source_snapshot c = None then 1 else lim_source l) then Some SourceLimit
         else if accepted_work c \<noteq> None \<and> int (counter_get (ps_works st) did) \<ge> lim_work l then Some WorkLimit
         else if complement \<and> used \<noteq> 0 \<and> (chunk_kind c \<noteq> OriginalPassage \<or> role_hint c = ROther)
           then Some NotComplementaryOriginal
         else if complement \<and> used \<noteq> 0 \<and> role_hint c \<in> ps_roles st sid then Some RoleAlreadyRepresented
         else if int (length (ps_selected st)) \<ge> lim_chunks l then Some ChunkLimit
         else None)"

definition commit :: "(string \<Rightarrow> string) \<Rightarrow> int \<Rightarrow> packing_candidate \<Rightarrow> pack_state \<Rightarrow> pack_state" where
  "commit hash bytes c st =
     (let g = groups_of hash c; sid = source_group_id g; did = diversity_group_id g
      in st\<lparr>ps_selected := ps_selected st @ [c],
            ps_ids := insert (chunk_id c) (ps_ids st),
            ps_content := insert (content_sha256 c) (ps_content st),
            ps_sources := counter_inc (ps_sources st) sid,
            ps_works := counter_inc (ps_works st) did,
            ps_diversity := List.insert did (ps_diversity st),
            ps_roles := (ps_roles st)(sid := insert (role_hint c) (ps_roles st sid)),
            ps_payload := bytes\<rparr>)"

definition admit ::
  "(string \<Rightarrow> string) \<Rightarrow> (string list \<Rightarrow> pyval option) \<Rightarrow> limits \<Rightarrow> bool \<Rightarrow> packing_candidate
     \<Rightarrow> pack_state \<Rightarrow> (packing_error, pack_state) res" where
  "admit hash cost l complement c st =
     (if chunk_id c \<in> ps_ids st \<or> reason hash l complement st c \<noteq> None then Inr st
      else rbind (measure_cost cost (map chunk_id (ps_selected st) @ [chunk_id c])) (\<lambda>bytes.
           if bytes \<le> ps_payload st
           then Inl (PackingError ''Adding a complete source did not increase its serialized byte count'')
           else if bytes > lim_budget l
           then Inr (st\<lparr>ps_rejected := insert (chunk_id c) (ps_rejected st)\<rparr>)
           else Inr (commit hash bytes c st)))"

text \<open>The three passes over the ranked candidates: new diversity groups, new sources, complements.\<close>

fun pass_diversity ::
  "(string \<Rightarrow> string) \<Rightarrow> (string list \<Rightarrow> pyval option) \<Rightarrow> limits \<Rightarrow> packing_candidate list
     \<Rightarrow> pack_state \<Rightarrow> (packing_error, pack_state) res" where
  "pass_diversity hash cost l [] st = Inr st"
| "pass_diversity hash cost l (c # cs) st =
     rbind (if diversity_group_id (groups_of hash c) \<notin> set (ps_diversity st)
            then admit hash cost l False c st else Inr st)
       (pass_diversity hash cost l cs)"

fun pass_sources ::
  "(string \<Rightarrow> string) \<Rightarrow> (string list \<Rightarrow> pyval option) \<Rightarrow> limits \<Rightarrow> packing_candidate list
     \<Rightarrow> pack_state \<Rightarrow> (packing_error, pack_state) res" where
  "pass_sources hash cost l [] st = Inr st"
| "pass_sources hash cost l (c # cs) st =
     rbind (if counter_get (ps_sources st) (source_group_id (groups_of hash c)) = 0
            then admit hash cost l False c st else Inr st)
       (pass_sources hash cost l cs)"

fun pass_complement ::
  "(string \<Rightarrow> string) \<Rightarrow> (string list \<Rightarrow> pyval option) \<Rightarrow> limits \<Rightarrow> packing_candidate list
     \<Rightarrow> pack_state \<Rightarrow> (packing_error, pack_state) res" where
  "pass_complement hash cost l [] st = Inr st"
| "pass_complement hash cost l (c # cs) st =
     rbind (admit hash cost l True c st) (pass_complement hash cost l cs)"

definition disposition ::
  "(string \<Rightarrow> string) \<Rightarrow> limits \<Rightarrow> int \<Rightarrow> pack_state \<Rightarrow> packing_candidate \<Rightarrow> exclusion_reason" where
  "disposition hash l baseline st c =
     (case (if baseline > lim_budget l then Some BasePayloadBudget else reason hash l True st c) of
        Some r \<Rightarrow> r
      | None \<Rightarrow> if chunk_id c \<in> ps_rejected st then PayloadBudget else ChunkLimit)"

definition exclusions ::
  "(string \<Rightarrow> string) \<Rightarrow> limits \<Rightarrow> int \<Rightarrow> packing_candidate list \<Rightarrow> pack_state
     \<Rightarrow> (string \<times> exclusion_reason) list" where
  "exclusions hash l baseline values st =
     map (\<lambda>c. (chunk_id c, disposition hash l baseline st c))
       (filter (\<lambda>c. chunk_id c \<notin> ps_ids st) values)"

definition plan_of ::
  "limits \<Rightarrow> int \<Rightarrow> packing_candidate list \<Rightarrow> pack_state \<Rightarrow> selection list
     \<Rightarrow> (string \<times> exclusion_reason) list \<Rightarrow> plan" where
  "plan_of l baseline values st sels excl =
     \<lparr>status = (if baseline > lim_budget l then BaseBudgetExceeded
                else if ps_selected st \<noteq> [] then Packed else EmptyPlan),
      selected = sels, excluded = excl,
      candidate_count = int (length values), selected_count = int (length (ps_selected st)),
      source_group_count = int (length (ps_sources st)),
      diversity_group_count = int (length (ps_diversity st)),
      payload_bytes = ps_payload st, byte_budget = lim_budget l,
      max_chunks = lim_chunks l, max_per_source = lim_source l, max_per_work = lim_work l\<rparr>"

definition run_passes ::
  "(string \<Rightarrow> string) \<Rightarrow> (string list \<Rightarrow> pyval option) \<Rightarrow> limits \<Rightarrow> int \<Rightarrow> packing_candidate list
     \<Rightarrow> (packing_error, pack_state) res" where
  "run_passes hash cost l baseline values =
     (if baseline \<le> lim_budget l
      then rbind (pass_diversity hash cost l values (empty_pack baseline)) (\<lambda>s1.
           rbind (pass_sources hash cost l values s1) (\<lambda>s2. pass_complement hash cost l values s2))
      else Inr (empty_pack baseline))"

definition pack_evidence ::
  "(string \<Rightarrow> string) \<Rightarrow> (string list \<Rightarrow> pyval option) \<Rightarrow> limits \<Rightarrow> packing_candidate list
     \<Rightarrow> (packing_error, plan) res" where
  "pack_evidence hash cost l cands =
     rbind (guard (valid_limits l) (PackingError ''Invalid bounded packing budget'')) (\<lambda>_.
     rbind (candidates cands) (\<lambda>values.
     rbind (measure_cost cost []) (\<lambda>baseline.
     rbind (run_passes hash cost l baseline values) (\<lambda>st.
     rbind (describe hash (ps_selected st)) (\<lambda>sels.
     let p = plan_of l baseline values st sels (exclusions hash l baseline values st)
     in rbind (guard (valid_plan p) PlanValidation) (\<lambda>_. Inr p))))))"

section \<open>Public summary\<close>

datatype summary_reason =
    NoAdmittedCandidates | BasePayloadBudgetExceeded | PayloadBudgetExcluded
  | SelectionLimitsApplied | DuplicateContentRemoved | ComplementarityNotEstablished

fun reason_name :: "exclusion_reason \<Rightarrow> string" where
  "reason_name PayloadBudget = ''payload_budget''"
| "reason_name BasePayloadBudget = ''base_payload_budget''"
| "reason_name ChunkLimit = ''chunk_limit''"
| "reason_name SourceLimit = ''source_limit''"
| "reason_name WorkLimit = ''work_limit''"
| "reason_name DuplicateContent = ''duplicate_content''"
| "reason_name RoleAlreadyRepresented = ''role_already_represented''"
| "reason_name NotComplementaryOriginal = ''not_complementary_original''"

datatype summary_status = NotRequested | PlanStatus plan_status | Withheld | Unavailable

record summary =
  sum_status :: summary_status
  sum_candidates :: int
  sum_selected :: int
  sum_sources :: int
  sum_diversity :: int
  sum_payload :: "int option"
  sum_budget :: "int option"
  sum_max_chunks :: int
  sum_max_source :: int
  sum_max_work :: int
  reason_counts :: "exclusion_reason counter"
  reason_codes :: "summary_reason list"

definition summary_reasons :: "plan \<Rightarrow> exclusion_reason counter \<Rightarrow> summary_reason list" where
  "summary_reasons p cnt =
     (let present = (\<lambda>r. r \<in> set (map fst cnt))
      in (if candidate_count p = 0 then [NoAdmittedCandidates] else []) @
         (if present BasePayloadBudget \<or> status p = BaseBudgetExceeded then [BasePayloadBudgetExceeded] else []) @
         (if present PayloadBudget then [PayloadBudgetExcluded] else []) @
         (if present ChunkLimit \<or> present SourceLimit \<or> present WorkLimit then [SelectionLimitsApplied] else []) @
         (if present DuplicateContent then [DuplicateContentRemoved] else []) @
         (if present RoleAlreadyRepresented \<or> present NotComplementaryOriginal
          then [ComplementarityNotEstablished] else []))"

definition coherent_summary :: "summary \<Rightarrow> bool" where
  "coherent_summary s =
     (0 \<le> sum_candidates s \<and> sum_candidates s \<le> 300 \<and> 0 \<le> sum_selected s \<and> sum_selected s \<le> 20 \<and>
      0 \<le> sum_sources s \<and> sum_sources s \<le> 20 \<and> 0 \<le> sum_diversity s \<and> sum_diversity s \<le> 20 \<and>
      (case sum_payload s of None \<Rightarrow> True | Some n \<Rightarrow> 0 \<le> n \<and> n \<le> MAX_MEASURED_BYTES) \<and>
      (case sum_budget s of None \<Rightarrow> True | Some n \<Rightarrow> 1 \<le> n \<and> n \<le> MAX_PAYLOAD_BUDGET) \<and>
      1 \<le> sum_max_chunks s \<and> sum_max_chunks s \<le> 20 \<and> 1 \<le> sum_max_source s \<and> sum_max_source s \<le> 3 \<and>
      1 \<le> sum_max_work s \<and> sum_max_work s \<le> 3 \<and>
      list_all (\<lambda>(_, n). 1 \<le> n \<and> n \<le> 300) (reason_counts s) \<and>
      length (reason_codes s) \<le> 9 \<and>
      sum_diversity s \<le> sum_sources s \<and> sum_sources s \<le> sum_selected s \<and>
      sum_selected s \<le> sum_candidates s \<and> sum_selected s \<le> sum_max_chunks s \<and>
      len_set (reason_codes s) = length (reason_codes s) \<and>
      (case sum_status s of
         PlanStatus st \<Rightarrow>
           (case (sum_payload s, sum_budget s) of
              (Some payload, Some budget) \<Rightarrow>
                int (sum_list (map snd (reason_counts s))) = sum_candidates s - sum_selected s \<and>
                (if st = BaseBudgetExceeded then sum_selected s = 0 \<and> budget < payload
                 else payload \<le> budget \<and> (0 < sum_selected s) = (st = Packed))
            | _ \<Rightarrow> False)
       | other \<Rightarrow>
           sum_selected s = 0 \<and> sum_sources s = 0 \<and> sum_diversity s = 0 \<and>
           sum_payload s = None \<and> reason_counts s = [] \<and>
           (other = NotRequested \<longrightarrow> sum_candidates s = 0 \<and> sum_budget s = None)))"

definition summary_of :: "plan \<Rightarrow> summary" where
  "summary_of p =
     (let cnt = sort_key (\<lambda>(r, n). (reason_name r, n)) (counter_of (map snd (excluded p)))
      in \<lparr>sum_status = PlanStatus (status p), sum_candidates = candidate_count p, sum_selected = selected_count p,
          sum_sources = source_group_count p, sum_diversity = diversity_group_count p,
          sum_payload = Some (payload_bytes p), sum_budget = Some (byte_budget p), sum_max_chunks = max_chunks p,
          sum_max_source = max_per_source p, sum_max_work = max_per_work p,
          reason_counts = cnt, reason_codes = summary_reasons p cnt\<rparr>)"

definition public_summary :: "plan \<Rightarrow> (packing_error, summary) res" where
  "public_summary p =
     rbind (guard (valid_plan p) PlanValidation) (\<lambda>_.
     rbind (guard (coherent_summary (summary_of p)) SummaryValidation) (\<lambda>_.
     Inr (summary_of p)))"

section \<open>What the grouping relies on\<close>

text \<open>
  The digest behaves as SHA-256 is documented to: 64 hexadecimal characters, and no
  collision among the finitely many texts one inventory digests.
\<close>

definition packing_texts :: "(string \<Rightarrow> string) \<Rightarrow> packing_candidate list \<Rightarrow> string set" where
  "packing_texts hash vs =
     (\<lambda>c. digest_text ''source-group'' (source_body c)) ` set vs \<union>
     (\<lambda>c. digest_text ''diversity-group'' (diversity_body hash c)) ` set vs"

definition hex_digests :: "(string \<Rightarrow> string) \<Rightarrow> bool" where
  "hex_digests hash \<longleftrightarrow> (\<forall>t. is_sha256 (hash t))"

definition collision_free :: "(string \<Rightarrow> string) \<Rightarrow> packing_candidate list \<Rightarrow> bool" where
  "collision_free hash vs \<longleftrightarrow> inj_on hash (packing_texts hash vs)"

abbreviation sg :: "(string \<Rightarrow> string) \<Rightarrow> packing_candidate \<Rightarrow> string" where
  "sg hash c \<equiv> source_group_id (groups_of hash c)"

abbreviation dg :: "(string \<Rightarrow> string) \<Rightarrow> packing_candidate \<Rightarrow> string" where
  "dg hash c \<equiv> diversity_group_id (groups_of hash c)"

lemma candidates_Inr:
  "candidates vs = Inr ws \<longleftrightarrow>
     ws = vs \<and> length vs \<le> MAX_CANDIDATES \<and> list_all valid_candidate vs \<and>
     distinct (map chunk_id vs) \<and> check_bindings Map.empty vs"
  using len_set_distinct [of "map chunk_id vs"] by (auto simp: candidates_def)

lemma check_bindings_lookup:
  "check_bindings b vs \<Longrightarrow> v \<in> set vs \<Longrightarrow> b (paper_id v) = Some w \<Longrightarrow> w = accepted_work v"
proof (induction vs arbitrary: b)
  case (Cons u vs)
  then show ?case by (cases "paper_id v = paper_id u") (auto split: option.splits)
qed simp

lemma check_bindings_agree:
  "check_bindings b vs \<Longrightarrow> c \<in> set vs \<Longrightarrow> d \<in> set vs \<Longrightarrow> paper_id c = paper_id d \<Longrightarrow>
   accepted_work c = accepted_work d"
proof (induction vs arbitrary: b)
  case (Cons u vs)
  have rest: "check_bindings (b(paper_id u \<mapsto> accepted_work u)) vs" using Cons.prems(1) by simp
  have "accepted_work u = accepted_work v" if "v \<in> set vs" "paper_id v = paper_id u" for v
    using check_bindings_lookup [OF rest that(1), of "accepted_work u"] that(2) by simp
  with Cons show ?case using rest by (metis set_ConsD)
qed simp

lemma jopt_inj [simp]: "jopt a = jopt b \<longleftrightarrow> a = b"
  by (cases a; cases b) auto

lemma digest_text_inj [simp]: "digest_text d b = digest_text d' b' \<longleftrightarrow> d = d' \<and> b = b'"
  unfolding digest_text_def json_dumps_inj by simp

lemma source_digest_eq:
  assumes "collision_free hash vs" and "c \<in> set vs" and "d \<in> set vs"
    and "source_digest hash c = source_digest hash d"
  shows "paper_id c = paper_id d \<and> source_snapshot c = source_snapshot d"
proof -
  have "digest_text ''source-group'' (source_body c) = digest_text ''source-group'' (source_body d)"
    using assms by (auto simp: collision_free_def packing_texts_def source_digest_def digest_def dest: inj_onD)
  then show ?thesis by (simp add: source_body_def)
qed

lemma same_source:
  assumes "collision_free hash vs" and "check_bindings Map.empty vs"
    and "c \<in> set vs" and "d \<in> set vs" and "sg hash c = sg hash d"
  shows "source_snapshot c = source_snapshot d" and "accepted_work c = accepted_work d"
    and "groups_of hash c = groups_of hash d"
proof -
  have "source_digest hash c = source_digest hash d" using assms(5) by (simp add: groups_of_def)
  then have eq: "paper_id c = paper_id d" "source_snapshot c = source_snapshot d"
    using source_digest_eq [OF assms(1,3,4)] by auto
  then have w: "accepted_work c = accepted_work d" using check_bindings_agree assms(2-4) by blast
  show "source_snapshot c = source_snapshot d" "accepted_work c = accepted_work d" by fact+
  have basis: "source_basis_of c = source_basis_of d" using eq by (simp add: source_basis_of_def)
  show "groups_of hash c = groups_of hash d"
    using w basis \<open>source_digest hash c = source_digest hash d\<close>
    by (simp add: groups_of_def diversity_body_def split: option.split)
qed

lemma new_diversity_new_source:
  assumes "collision_free hash vs" and "check_bindings Map.empty vs" and "c \<in> set vs" and "S \<subseteq> set vs"
    and "dg hash c \<notin> dg hash ` S"
  shows "sg hash c \<notin> sg hash ` S"
proof
  assume "sg hash c \<in> sg hash ` S"
  then obtain x where x: "x \<in> S" "sg hash c = sg hash x" by blast
  then have "groups_of hash c = groups_of hash x" using same_source(3) [OF assms(1-3)] assms(4) by blast
  then show False using x(1) assms(5) by simp
qed

lemma same_diversity_work:
  assumes "collision_free hash vs" and "c \<in> set vs" and "d \<in> set vs" and "dg hash c = dg hash d"
  shows "accepted_work c = accepted_work d"
proof -
  have "hash (digest_text ''diversity-group'' (diversity_body hash c)) =
        hash (digest_text ''diversity-group'' (diversity_body hash d))"
    using assms(4) by (simp add: groups_of_def digest_def)
  then have "diversity_body hash c = diversity_body hash d"
    using assms(1-3) by (auto simp: collision_free_def packing_texts_def dest: inj_onD)
  then show ?thesis
    by (cases "source_basis_of c"; cases "source_basis_of d") (auto simp: diversity_body_def split: option.splits)
qed

lemma groups_basis [simp]:
  "source_group_basis (groups_of hash c) = source_basis_of c"
  "group_basis_of (groups_of hash c) = (if accepted_work c \<noteq> None then AcceptedWorkMapping else SourceBasis (source_basis_of c))"
  by (simp_all add: groups_of_def)

lemma group_id_formats:
  assumes "hex_digests hash"
  shows "prefixed_digest ''src:'' (sg hash c)" and "prefixed_digest ''div:'' (dg hash c)"
  using assms
  by (auto simp: prefixed_digest_def startswith_def groups_of_def hex_digests_def source_digest_def digest_def)

section \<open>Invariant of the packing state\<close>

definition source_cap :: "limits \<Rightarrow> packing_candidate \<Rightarrow> int" where
  "source_cap l c = (if source_snapshot c = None then 1 else lim_source l)"

text \<open>A candidate may follow \<open>prev\<close> in a selection: it opens a source, or complements one.\<close>

definition follows :: "(string \<Rightarrow> string) \<Rightarrow> packing_candidate list \<Rightarrow> packing_candidate \<Rightarrow> bool" where
  "follows hash prev c \<longleftrightarrow>
     (sg hash c \<in> sg hash ` set prev \<longrightarrow>
        source_snapshot c \<noteq> None \<and> role_hint c \<noteq> ROther \<and>
        (\<forall>x \<in> set prev. sg hash x = sg hash c \<longrightarrow> role_hint x \<noteq> role_hint c))"

definition ordered :: "(string \<Rightarrow> string) \<Rightarrow> packing_candidate list \<Rightarrow> bool" where
  "ordered hash cs \<longleftrightarrow> (\<forall>i < length cs. follows hash (take i cs) (cs ! i))"

definition pack_inv :: "(string \<Rightarrow> string) \<Rightarrow> limits \<Rightarrow> packing_candidate list \<Rightarrow> pack_state \<Rightarrow> bool" where
  "pack_inv hash l vs st \<longleftrightarrow>
     (let cs = ps_selected st in
      set cs \<subseteq> set vs \<and> ps_ids st = chunk_id ` set cs \<and> distinct (map chunk_id cs) \<and>
      ps_content st = content_sha256 ` set cs \<and> distinct (map content_sha256 cs) \<and>
      counts (ps_sources st) (map (sg hash) cs) \<and> counts (ps_works st) (map (dg hash) cs) \<and>
      distinct (ps_diversity st) \<and> set (ps_diversity st) = dg hash ` set cs \<and>
      (\<forall>k. ps_roles st k = role_hint ` {x \<in> set cs. sg hash x = k}) \<and>
      ordered hash cs \<and> int (length cs) \<le> lim_chunks l \<and>
      (\<forall>c \<in> set cs. int (count_if (\<lambda>x. sg hash x = sg hash c) cs) \<le> source_cap l c) \<and>
      (\<forall>c \<in> set cs. accepted_work c \<noteq> None \<longrightarrow>
          int (count_if (\<lambda>x. dg hash x = dg hash c) cs) \<le> lim_work l) \<and>
      0 \<le> ps_payload st \<and> ps_payload st \<le> MAX_MEASURED_BYTES \<and> ps_payload st \<le> lim_budget l)"

lemma ordered_snoc: "ordered hash (cs @ [c]) \<longleftrightarrow> ordered hash cs \<and> follows hash cs c"
  by (auto simp: ordered_def nth_append less_Suc_eq)

lemma counter_get_map:
  "counts cnt (map f cs) \<Longrightarrow> counter_get cnt k = count_if (\<lambda>x. f x = k) cs"
  by (simp add: counts_get count_if_map)

lemma pack_inv_empty:
  assumes "0 \<le> base" and "base \<le> MAX_MEASURED_BYTES" and "base \<le> lim_budget l" and "valid_limits l"
  shows "pack_inv hash l vs (empty_pack base)"
  using assms by (simp add: pack_inv_def empty_pack_def ordered_def valid_limits_def)

text \<open>What an admissible candidate satisfies, in terms of the current selection.\<close>

lemma reason_None:
  assumes "pack_inv hash l vs st" and "reason hash l complement st c = None"
  shows "content_sha256 c \<notin> content_sha256 ` set (ps_selected st)"
    and "int (count_if (\<lambda>x. sg hash x = sg hash c) (ps_selected st)) < source_cap l c"
    and "accepted_work c \<noteq> None \<Longrightarrow> int (count_if (\<lambda>x. dg hash x = dg hash c) (ps_selected st)) < lim_work l"
    and "int (length (ps_selected st)) < lim_chunks l"
    and "complement \<or> sg hash c \<notin> sg hash ` set (ps_selected st) \<Longrightarrow> follows hash (ps_selected st) c"
proof -
  let ?cs = "ps_selected st"
  have src: "counter_get (ps_sources st) (sg hash c) = count_if (\<lambda>x. sg hash x = sg hash c) ?cs"
    and wrk: "counter_get (ps_works st) (dg hash c) = count_if (\<lambda>x. dg hash x = dg hash c) ?cs"
    using assms(1) by (auto simp: pack_inv_def Let_def intro: counter_get_map)
  have r: "content_sha256 c \<notin> ps_content st" "int (count_if (\<lambda>x. sg hash x = sg hash c) ?cs) < source_cap l c"
    "accepted_work c \<noteq> None \<Longrightarrow> int (count_if (\<lambda>x. dg hash x = dg hash c) ?cs) < lim_work l"
    "complement \<Longrightarrow> count_if (\<lambda>x. sg hash x = sg hash c) ?cs \<noteq> 0 \<Longrightarrow>
       role_hint c \<noteq> ROther \<and> role_hint c \<notin> ps_roles st (sg hash c)"
    "int (length ?cs) < lim_chunks l"
    using assms(2) by (auto simp: reason_def Let_def src wrk source_cap_def split: if_splits)
  show "content_sha256 c \<notin> content_sha256 ` set ?cs"
    using r(1) assms(1) by (simp add: pack_inv_def Let_def)
  show "int (count_if (\<lambda>x. sg hash x = sg hash c) ?cs) < source_cap l c" by (rule r(2))
  show "accepted_work c \<noteq> None \<Longrightarrow> int (count_if (\<lambda>x. dg hash x = dg hash c) ?cs) < lim_work l" by (rule r(3))
  show "int (length ?cs) < lim_chunks l" by (rule r(5))
  assume mode: "complement \<or> sg hash c \<notin> sg hash ` set ?cs"
  show "follows hash ?cs c"
    unfolding follows_def
  proof
    assume used: "sg hash c \<in> sg hash ` set ?cs"
    then have pos: "0 < count_if (\<lambda>x. sg hash x = sg hash c) ?cs" by (force simp: count_if_pos_iff)
    then have "source_snapshot c \<noteq> None" using r(2)
      by (cases "source_snapshot c") (auto simp: source_cap_def)
    moreover have "role_hint c \<noteq> ROther \<and> role_hint c \<notin> ps_roles st (sg hash c)"
      using r(4) pos mode used by blast
    moreover have "ps_roles st (sg hash c) = role_hint ` {x \<in> set ?cs. sg hash x = sg hash c}"
      using assms(1) by (simp add: pack_inv_def Let_def)
    ultimately show "source_snapshot c \<noteq> None \<and> role_hint c \<noteq> ROther \<and>
        (\<forall>x \<in> set ?cs. sg hash x = sg hash c \<longrightarrow> role_hint x \<noteq> role_hint c)" by (auto simp: image_iff)
  qed
qed

text \<open>Adding one more candidate keeps a per-group cap, if the group had room for it.\<close>

lemma cap_snoc:
  assumes "\<forall>x \<in> set cs. Q x \<longrightarrow> int (count_if (\<lambda>y. g y = g x) cs) \<le> cap x"
    and "Q c \<Longrightarrow> int (count_if (\<lambda>y. g y = g c) cs) < cap c"
    and "\<And>x. x \<in> set cs \<Longrightarrow> g x = g c \<Longrightarrow> Q x \<Longrightarrow> Q c \<and> cap x = cap c"
  shows "\<forall>x \<in> set (cs @ [c]). Q x \<longrightarrow> int (count_if (\<lambda>y. g y = g x) (cs @ [c])) \<le> cap x"
proof (intro ballI impI)
  fix x assume x: "x \<in> set (cs @ [c])" and q: "Q x"
  show "int (count_if (\<lambda>y. g y = g x) (cs @ [c])) \<le> cap x"
  proof (cases "g c = g x")
    case True
    then have "Q c \<and> cap x = cap c" using x q assms(3) [of x] by auto
    then show ?thesis using assms(2) True by simp
  next
    case False
    then show ?thesis using assms(1) x q by auto
  qed
qed

lemma pack_inv_commit:
  assumes inv: "pack_inv hash l vs st" and cf: "collision_free hash vs" and cb: "check_bindings Map.empty vs"
    and c: "c \<in> set vs" "chunk_id c \<notin> ps_ids st"
    and none: "reason hash l complement st c = None"
    and mode: "complement \<or> sg hash c \<notin> sg hash ` set (ps_selected st)"
    and bytes: "0 \<le> bytes" "bytes \<le> MAX_MEASURED_BYTES" "bytes \<le> lim_budget l"
  shows "pack_inv hash l vs (commit hash bytes c st)"
proof -
  let ?cs = "ps_selected st"
  note r = reason_None [OF inv none]
  have sub: "set ?cs \<subseteq> set vs" using inv by (simp add: pack_inv_def Let_def)
  have src: "\<forall>x \<in> set (?cs @ [c]). True \<longrightarrow> int (count_if (\<lambda>y. sg hash y = sg hash x) (?cs @ [c])) \<le> source_cap l x"
  proof (rule cap_snoc)
    show "\<forall>x \<in> set ?cs. True \<longrightarrow> int (count_if (\<lambda>y. sg hash y = sg hash x) ?cs) \<le> source_cap l x"
      using inv by (simp add: pack_inv_def Let_def)
    show "True \<and> source_cap l x = source_cap l c" if "x \<in> set ?cs" "sg hash x = sg hash c" for x
      using same_source(1) [OF cf cb _ c(1) that(2)] sub that(1) by (auto simp: source_cap_def)
  qed (rule r(2))
  have wrk: "\<forall>x \<in> set (?cs @ [c]). accepted_work x \<noteq> None \<longrightarrow>
      int (count_if (\<lambda>y. dg hash y = dg hash x) (?cs @ [c])) \<le> lim_work l"
  proof (rule cap_snoc)
    show "\<forall>x \<in> set ?cs. accepted_work x \<noteq> None \<longrightarrow> int (count_if (\<lambda>y. dg hash y = dg hash x) ?cs) \<le> lim_work l"
      using inv by (simp add: pack_inv_def Let_def)
    show "accepted_work c \<noteq> None \<and> lim_work l = lim_work l"
      if "x \<in> set ?cs" "dg hash x = dg hash c" "accepted_work x \<noteq> None" for x
      using same_diversity_work [OF cf subsetD [OF sub that(1)] c(1) that(2)] that(3) by simp
  qed (rule r(3))
  have sel: "ps_selected (commit hash bytes c st) = ?cs @ [c]" by (simp add: commit_def Let_def)
  have cnt: "counts (ps_sources (commit hash bytes c st)) (map (sg hash) (?cs @ [c]))"
    "counts (ps_works (commit hash bytes c st)) (map (dg hash) (?cs @ [c]))"
    using inv counts_inc [of "ps_sources st" "map (sg hash) ?cs" "sg hash c"]
      counts_inc [of "ps_works st" "map (dg hash) ?cs" "dg hash c"]
    by (simp_all add: pack_inv_def Let_def commit_def)
  have rest: "chunk_id c \<notin> chunk_id ` set ?cs" "ordered hash (?cs @ [c])"
    using inv c(2) r(5) [OF mode] by (auto simp: pack_inv_def Let_def ordered_snoc)
  have roles: "\<forall>k. ps_roles (commit hash bytes c st) k = role_hint ` {x \<in> set (?cs @ [c]). sg hash x = k}"
    using inv by (auto simp: pack_inv_def Let_def commit_def)
  show ?thesis
    using inv src wrk cnt roles rest r(1,4) bytes c sub
    unfolding pack_inv_def sel Let_def by (simp add: commit_def Let_def)
qed

lemma measure_cost_Inr: "measure_cost cost ids = Inr n \<Longrightarrow> 0 \<le> n \<and> n \<le> MAX_MEASURED_BYTES"
  by (auto simp: measure_cost_def split: option.splits if_splits)

lemma pack_inv_rejected [simp]:
  "pack_inv hash l vs (st\<lparr>ps_rejected := R\<rparr>) = pack_inv hash l vs st"
  by (simp add: pack_inv_def)

lemma admit_inv:
  assumes inv: "pack_inv hash l vs st" and cf: "collision_free hash vs" and cb: "check_bindings Map.empty vs"
    and c: "c \<in> set vs" and ok: "admit hash cost l complement c st = Inr st'"
    and mode: "complement \<or> sg hash c \<notin> sg hash ` set (ps_selected st)"
  shows "pack_inv hash l vs st'"
proof (cases "chunk_id c \<in> ps_ids st \<or> reason hash l complement st c \<noteq> None")
  case True
  then show ?thesis using ok inv by (simp add: admit_def)
next
  case False
  then obtain n where n: "measure_cost cost (map chunk_id (ps_selected st) @ [chunk_id c]) = Inr n"
    using ok by (auto simp: admit_def)
  then show ?thesis
    using ok False inv measure_cost_Inr [OF n] pack_inv_commit [OF inv cf cb c _ _ mode]
    by (auto simp: admit_def split: if_splits)
qed

lemma pass_diversity_inv:
  assumes "collision_free hash vs" and "check_bindings Map.empty vs"
  shows "pack_inv hash l vs st \<Longrightarrow> set cs \<subseteq> set vs \<Longrightarrow> pass_diversity hash cost l cs st = Inr st' \<Longrightarrow>
         pack_inv hash l vs st'"
proof (induction cs arbitrary: st)
  case (Cons c cs)
  have c: "c \<in> set vs" using Cons.prems by simp
  have sub: "set (ps_selected st) \<subseteq> set vs" "set (ps_diversity st) = dg hash ` set (ps_selected st)"
    using Cons.prems(1) by (auto simp: pack_inv_def Let_def)
  have new: "dg hash c \<notin> set (ps_diversity st) \<Longrightarrow>
      False \<or> sg hash c \<notin> sg hash ` set (ps_selected st)"
    using new_diversity_new_source [OF assms c sub(1)] sub(2) by simp
  show ?case
  proof (cases "dg hash c \<in> set (ps_diversity st)")
    case True
    then show ?thesis using Cons.IH [OF Cons.prems(1)] Cons.prems by simp
  next
    case False
    then obtain s1 where s1: "admit hash cost l False c st = Inr s1" "pass_diversity hash cost l cs s1 = Inr st'"
      using Cons.prems(3) by auto
    then show ?thesis
      using Cons.IH [OF admit_inv [OF Cons.prems(1) assms c s1(1) new [OF False]]] Cons.prems(2) by simp
  qed
qed simp

lemma pass_sources_inv:
  assumes "collision_free hash vs" and "check_bindings Map.empty vs"
  shows "pack_inv hash l vs st \<Longrightarrow> set cs \<subseteq> set vs \<Longrightarrow> pass_sources hash cost l cs st = Inr st' \<Longrightarrow>
         pack_inv hash l vs st'"
proof (induction cs arbitrary: st)
  case (Cons c cs)
  have c: "c \<in> set vs" using Cons.prems by simp
  have "counter_get (ps_sources st) (sg hash c) = count_if (\<lambda>x. sg hash x = sg hash c) (ps_selected st)"
    using Cons.prems(1) by (auto simp: pack_inv_def Let_def intro: counter_get_map)
  then have "counter_get (ps_sources st) (sg hash c) = 0 \<Longrightarrow> sg hash c \<notin> sg hash ` set (ps_selected st)"
    by (auto simp: count_if_zero_iff)
  then have "\<exists>s1. pack_inv hash l vs s1 \<and> pass_sources hash cost l cs s1 = Inr st'"
    using Cons.prems admit_inv [OF Cons.prems(1) assms c] by (auto split: if_splits)
  then show ?case using Cons.IH Cons.prems(2) by auto
qed simp

lemma pass_complement_inv:
  assumes "collision_free hash vs" and "check_bindings Map.empty vs"
  shows "pack_inv hash l vs st \<Longrightarrow> set cs \<subseteq> set vs \<Longrightarrow> pass_complement hash cost l cs st = Inr st' \<Longrightarrow>
         pack_inv hash l vs st'"
proof (induction cs arbitrary: st)
  case (Cons c cs)
  then show ?case using admit_inv [OF Cons.prems(1) assms, of c] by fastforce
qed simp

lemma run_passes_inv:
  assumes "collision_free hash vs" and "check_bindings Map.empty vs" and "valid_limits l"
    and "0 \<le> base" and "base \<le> MAX_MEASURED_BYTES"
    and "run_passes hash cost l base vs = Inr st" and "base \<le> lim_budget l"
  shows "pack_inv hash l vs st"
proof -
  obtain s1 s2 where s: "pass_diversity hash cost l vs (empty_pack base) = Inr s1"
    "pass_sources hash cost l vs s1 = Inr s2" "pass_complement hash cost l vs s2 = Inr st"
    using assms(6,7) by (auto simp: run_passes_def)
  have "pack_inv hash l vs (empty_pack base)" using assms by (intro pack_inv_empty)
  then have "pack_inv hash l vs s1" using s(1) by (rule pass_diversity_inv [OF assms(1,2) _ subset_refl])
  then have "pack_inv hash l vs s2" using s(2) by (rule pass_sources_inv [OF assms(1,2) _ subset_refl])
  then show ?thesis using s(3) by (rule pass_complement_inv [OF assms(1,2) _ subset_refl])
qed

section \<open>The plan of an invariant state\<close>

text \<open>The selections \<open>describe\<close> builds, before their validation.\<close>

fun described ::
  "(string \<Rightarrow> string) \<Rightarrow> int \<Rightarrow> string set \<Rightarrow> string set \<Rightarrow> packing_candidate list \<Rightarrow> selection list" where
  "described hash pos S D [] = []"
| "described hash pos S D (c # cs) =
     selection_of hash pos S D c # described hash (pos + 1) (insert (sg hash c) S) (insert (dg hash c) D) cs"

lemma selection_of_fields [simp]:
  "position (selection_of hash pos S D c) = pos"
  "sel_chunk_id (selection_of hash pos S D c) = chunk_id c"
  "sel_source_group (selection_of hash pos S D c) = sg hash c"
  "sel_diversity_group (selection_of hash pos S D c) = dg hash c"
  "sel_snapshot (selection_of hash pos S D c) = source_snapshot c"
  "sel_source_basis (selection_of hash pos S D c) = source_basis_of c"
  "sel_group_basis (selection_of hash pos S D c) = group_basis_of (groups_of hash c)"
  "sel_role (selection_of hash pos S D c) = role_hint c"
  "sel_reason (selection_of hash pos S D c) =
     (if dg hash c \<notin> D then SourceDiversity else if sg hash c \<notin> S then SourceCoverage else ComplementaryRole)"
  by (simp_all add: selection_of_def Let_def)

lemma described_maps [simp]:
  "length (described hash pos S D cs) = length cs"
  "map sel_chunk_id (described hash pos S D cs) = map chunk_id cs"
  "map sel_source_group (described hash pos S D cs) = map (sg hash) cs"
  "map sel_diversity_group (described hash pos S D cs) = map (dg hash) cs"
  "map position (described hash pos S D cs) = [pos..pos + int (length cs) - 1]"
proof (induction cs arbitrary: pos S D)
  case (Cons c cs)
  { case 5 then show ?case using Cons(5) [of "pos + 1"] upto_rec1 [of pos "pos + int (length (c # cs)) - 1"]
      by (simp add: algebra_simps) }
qed auto

lemma described_origin:
  "s \<in> set (described hash pos S D cs) \<Longrightarrow> \<exists>c \<in> set cs. \<exists>p T E. s = selection_of hash p T E c"
proof (induction cs arbitrary: pos S D)
  case (Cons c cs)
  then consider "s = selection_of hash pos S D c"
    | "s \<in> set (described hash (pos + 1) (insert (sg hash c) S) (insert (dg hash c) D) cs)" by auto
  then show ?case
  proof cases
    case 1
    then show ?thesis by auto
  next
    case 2
    then show ?thesis using Cons.IH by simp
  qed
qed simp

lemma describe_from_described:
  "\<forall>s \<in> set (described hash pos S D cs). valid_selection s \<Longrightarrow>
   describe_from hash pos S D cs = Inr (described hash pos S D cs)"
  by (induction cs arbitrary: pos S D) (auto simp: Let_def)

lemma count_described:
  "count_if (\<lambda>r. sel_source_group r = k) (described hash pos S D cs) = count_if (\<lambda>x. sg hash x = k) cs"
  "count_if (\<lambda>r. sel_diversity_group r = k) (described hash pos S D cs) = count_if (\<lambda>x. dg hash x = k) cs"
proof -
  have "count_if (\<lambda>x. x = k) (map sel_source_group (described hash pos S D cs)) =
        count_if (\<lambda>x. x = k) (map (sg hash) cs)" by (simp only: described_maps)
  then show "count_if (\<lambda>r. sel_source_group r = k) (described hash pos S D cs) = count_if (\<lambda>x. sg hash x = k) cs"
    by (simp only: count_if_map)
  have "count_if (\<lambda>x. x = k) (map sel_diversity_group (described hash pos S D cs)) =
        count_if (\<lambda>x. x = k) (map (dg hash) cs)" by (simp only: described_maps)
  then show "count_if (\<lambda>r. sel_diversity_group r = k) (described hash pos S D cs) = count_if (\<lambda>x. dg hash x = k) cs"
    by (simp only: count_if_map)
qed

lemma ordered_Cons_follows:
  "ordered hash (prev @ c # cs) \<Longrightarrow> follows hash prev c"
  unfolding ordered_def by (metis append_eq_conv_conj length_append length_Cons less_add_Suc1 add_Suc_right nth_append_length)

lemma valid_selection_of:
  assumes "valid_candidate c" and "hex_digests hash" and "1 \<le> pos" and "pos \<le> 20"
    and "follows hash prev c"
  shows "valid_selection (selection_of hash pos (sg hash ` set prev) (dg hash ` set prev) c)"
proof -
  have "1 \<le> length (chunk_id c) \<and> length (chunk_id c) \<le> 200"
    using assms(1) by (simp add: valid_candidate_def bounded_identifier_def)
  moreover have "case source_snapshot c of None \<Rightarrow> True | Some d \<Rightarrow> is_sha256 d"
    using assms(1) by (simp add: valid_candidate_def)
  moreover have "consistent_basis (selection_of hash pos (sg hash ` set prev) (dg hash ` set prev) c)"
    using assms(5) by (auto simp: consistent_basis_def source_basis_of_def follows_def)
  ultimately show ?thesis
    using group_id_formats [OF assms(2), of c] assms(3,4) by (simp add: valid_selection_def)
qed

lemma described_valid:
  assumes "hex_digests hash"
  shows "ordered hash (prev @ cs) \<Longrightarrow> \<forall>c \<in> set cs. valid_candidate c \<Longrightarrow> 1 \<le> pos \<Longrightarrow>
    pos + int (length cs) \<le> 21 \<Longrightarrow>
    s \<in> set (described hash pos (sg hash ` set prev) (dg hash ` set prev) cs) \<Longrightarrow> valid_selection s"
proof (induction cs arbitrary: prev pos)
  case (Cons c cs)
  have "valid_selection (selection_of hash pos (sg hash ` set prev) (dg hash ` set prev) c)"
    using Cons.prems assms ordered_Cons_follows [of hash prev c cs] by (intro valid_selection_of) auto
  then show ?case using Cons.prems Cons.IH [of "prev @ [c]" "pos + 1"] by auto
qed simp

text \<open>The group checks of \<open>coherent_plan\<close> for one selected candidate.\<close>

definition group_checks :: "plan \<Rightarrow> selection \<Rightarrow> bool" where
  "group_checks p item \<longleftrightarrow>
     (let members = filter (\<lambda>row. sel_source_group row = sel_source_group item) (selected p)
      in int (length members) \<le> (if sel_source_basis item = LegacyPaper then 1 else max_per_source p) \<and>
         len_set (map (\<lambda>row. (sel_source_basis row, sel_diversity_group row, sel_group_basis row)) members) = 1 \<and>
         len_set (map sel_snapshot members) = 1 \<and>
         \<not> (sel_group_basis item = AcceptedWorkMapping \<and>
            max_per_work p < int (count_if (\<lambda>row. sel_diversity_group row = sel_diversity_group item) (selected p))))"

lemma group_checks_described:
  assumes cf: "collision_free hash vs" and cb: "check_bindings Map.empty vs"
    and sub: "set cs \<subseteq> set vs" and c: "c \<in> set cs"
    and p: "selected p = described hash 1 {} {} cs" "max_per_source p = lim_source l" "max_per_work p = lim_work l"
    and src: "int (count_if (\<lambda>x. sg hash x = sg hash c) cs) \<le> source_cap l c"
    and wrk: "accepted_work c \<noteq> None \<longrightarrow> int (count_if (\<lambda>x. dg hash x = dg hash c) cs) \<le> lim_work l"
  shows "group_checks p (selection_of hash pos S D c)"
proof -
  let ?rows = "described hash 1 {} {} cs"
  let ?members = "filter (\<lambda>row. sel_source_group row = sg hash c) ?rows"
  have len: "length ?members = count_if (\<lambda>x. sg hash x = sg hash c) cs"
    using count_described(1) [where hash = hash and cs = cs and k = "sg hash c" and pos = 1 and S = "{}" and D = "{}"]
    by (simp only: count_if_def)
  have "0 < count_if (\<lambda>x. sg hash x = sg hash c) cs" using c by (force simp: count_if_pos_iff)
  then have ne: "?members \<noteq> []" using len by (metis length_greater_0_conv)
  have row: "sel_snapshot r = source_snapshot c \<and> sel_source_basis r = source_basis_of c \<and>
      sel_diversity_group r = dg hash c \<and> sel_group_basis r = group_basis_of (groups_of hash c)"
    if r: "r \<in> set ?members" for r
  proof -
    obtain x q T E where x: "x \<in> set cs" "r = selection_of hash q T E x"
      using r described_origin by fastforce
    then have eq: "sg hash x = sg hash c" using r by simp
    have "x \<in> set vs" "c \<in> set vs" using x(1) c sub by auto
    note same = same_source [OF cf cb this eq]
    then show ?thesis using x(2) by (simp add: source_basis_of_def)
  qed
  have "len_set (map sel_snapshot ?members) = 1"
    "len_set (map (\<lambda>row. (sel_source_basis row, sel_diversity_group row, sel_group_basis row)) ?members) = 1"
    using ne row
    by (intro len_set_const [where a = "source_snapshot c"]; fastforce)
       (intro len_set_const [where a = "(source_basis_of c, dg hash c, group_basis_of (groups_of hash c))"];
        use ne row in fastforce)
  moreover have "int (length ?members) \<le> (if source_basis_of c = LegacyPaper then 1 else lim_source l)"
    using src len by (auto simp: source_cap_def source_basis_of_def split: if_splits)
  moreover have "\<not> (group_basis_of (groups_of hash c) = AcceptedWorkMapping \<and>
      lim_work l < int (count_if (\<lambda>row. sel_diversity_group row = dg hash c) ?rows))"
    using wrk by (simp add: count_described(2) not_less split: if_splits)
  ultimately show ?thesis unfolding group_checks_def p Let_def selection_of_fields by blast
qed

lemma coherent_items_described:
  assumes "ordered hash cs" and "\<And>c pos S D. c \<in> set cs \<Longrightarrow> group_checks p (selection_of hash pos S D c)"
  shows "cs = prev @ rest \<Longrightarrow>
    coherent_items p (sg hash ` set prev) (dg hash ` set prev) (\<lambda>k. role_hint ` {x \<in> set prev. sg hash x = k})
      (described hash pos (sg hash ` set prev) (dg hash ` set prev) rest)"
proof (induction rest arbitrary: prev pos)
  case (Cons c rest)
  have fol: "follows hash prev c" using ordered_Cons_follows assms(1) Cons.prems by simp
  have chk: "group_checks p (selection_of hash pos (sg hash ` set prev) (dg hash ` set prev) c)"
    using assms(2) Cons.prems by simp
  have roles: "(\<lambda>k. role_hint ` {x \<in> set prev. sg hash x = k})
      (sg hash c := insert (role_hint c) (role_hint ` {x \<in> set prev. sg hash x = sg hash c})) =
    (\<lambda>k. role_hint ` {x \<in> set (prev @ [c]). sg hash x = k})"
    by (rule ext) auto
  have tail: "coherent_items p (sg hash ` set (prev @ [c])) (dg hash ` set (prev @ [c]))
      (\<lambda>k. role_hint ` {x \<in> set (prev @ [c]). sg hash x = k})
      (described hash (pos + 1) (sg hash ` set (prev @ [c])) (dg hash ` set (prev @ [c])) rest)"
    using Cons.prems by (intro Cons.IH) simp
  have sets: "sg hash ` set (prev @ [c]) = insert (sg hash c) (sg hash ` set prev)"
    "dg hash ` set (prev @ [c]) = insert (dg hash c) (dg hash ` set prev)" by auto
  have comp: "\<not> (sg hash c \<in> sg hash ` set prev \<and> role_hint c \<in> role_hint ` {x \<in> set prev. sg hash x = sg hash c})"
    using fol by (auto simp: follows_def)
  show ?case
    using chk tail comp
    by (simp only: described.simps coherent_items.simps Let_def group_checks_def selection_of_fields roles sets)
       (auto split: if_splits)
qed simp

text \<open>Selected and excluded candidates split the inventory.\<close>

lemma dispositions_partition:
  assumes "distinct (map chunk_id vs)" and "set cs \<subseteq> set vs" and "distinct (map chunk_id cs)"
    and "ids = chunk_id ` set cs"
  shows "distinct (map chunk_id cs @ map chunk_id (filter (\<lambda>c. chunk_id c \<notin> ids) vs))"
    and "length cs + length (filter (\<lambda>c. chunk_id c \<notin> ids) vs) = length vs"
proof -
  let ?in = "map chunk_id (filter (\<lambda>c. chunk_id c \<in> ids) vs)"
  show "distinct (map chunk_id cs @ map chunk_id (filter (\<lambda>c. chunk_id c \<notin> ids) vs))"
    using assms by (auto simp: distinct_map_filter) (metis image_eqI)
  have "set ?in = set (map chunk_id cs)" using assms(2,4) by auto
  moreover have "distinct ?in" using assms(1) by (simp add: distinct_map_filter)
  ultimately have "length ?in = length (map chunk_id cs)"
    using assms(3) by (metis distinct_card)
  then show "length cs + length (filter (\<lambda>c. chunk_id c \<notin> ids) vs) = length vs"
    using sum_length_filter_compl [of "\<lambda>c. chunk_id c \<in> ids" vs] by simp
qed

text \<open>The selection part of the state, whatever the payload says.\<close>

lemma valid_plan_of_state:
  assumes adm: "candidates vs = Inr vs" and hex: "hex_digests hash" and cf: "collision_free hash vs"
    and lim: "valid_limits l" and base: "0 \<le> base" "base \<le> MAX_MEASURED_BYTES"
    and st: "if base \<le> lim_budget l then pack_inv hash l vs st else st = empty_pack base"
  shows "describe hash (ps_selected st) = Inr (described hash 1 {} {} (ps_selected st))"
    and "valid_plan (plan_of l base vs st (described hash 1 {} {} (ps_selected st)) (exclusions hash l base vs st))"
proof -
  let ?cs = "ps_selected st" and ?b = "base \<le> lim_budget l"
  let ?sels = "described hash 1 {} {} ?cs"
  let ?p = "plan_of l base vs st ?sels (exclusions hash l base vs st)"
  have cands: "length vs \<le> 300" "\<forall>c \<in> set vs. valid_candidate c" "distinct (map chunk_id vs)"
      "check_bindings Map.empty vs"
    using adm by (auto simp: candidates_Inr MAX_CANDIDATES_def list_all_iff)
  have facts: "set ?cs \<subseteq> set vs" "distinct (map chunk_id ?cs)" "ps_ids st = chunk_id ` set ?cs"
      "counts (ps_sources st) (map (sg hash) ?cs)" "distinct (ps_diversity st)"
      "set (ps_diversity st) = dg hash ` set ?cs" "ordered hash ?cs" "int (length ?cs) \<le> lim_chunks l"
      "0 \<le> ps_payload st" "ps_payload st \<le> MAX_MEASURED_BYTES"
      "\<forall>c \<in> set ?cs. int (count_if (\<lambda>x. sg hash x = sg hash c) ?cs) \<le> source_cap l c"
      "\<forall>c \<in> set ?cs. accepted_work c \<noteq> None \<longrightarrow> int (count_if (\<lambda>x. dg hash x = dg hash c) ?cs) \<le> lim_work l"
      "?b \<Longrightarrow> ps_payload st \<le> lim_budget l" "\<not> ?b \<Longrightarrow> ?cs = [] \<and> ps_payload st = base"
    using st base lim by (auto simp: pack_inv_def Let_def empty_pack_def ordered_def valid_limits_def split: if_splits)
  have len20: "length ?cs \<le> 20" using facts(8) lim by (simp add: valid_limits_def)
  have ord: "ordered hash ([] @ ?cs)" using facts(7) by simp
  have val: "\<forall>s \<in> set ?sels. valid_selection s"
    using described_valid [OF hex ord, of 1] facts(1) cands(2) len20 by auto
  then show "describe hash ?cs = Inr ?sels" by (simp add: describe_def describe_from_described)
  have parts: "distinct (map chunk_id ?cs @ map chunk_id (filter (\<lambda>c. chunk_id c \<notin> ps_ids st) vs))"
    "length ?cs + length (filter (\<lambda>c. chunk_id c \<notin> ps_ids st) vs) = length vs"
    using dispositions_partition [OF cands(3) facts(1-3)] by auto
  have src: "length (ps_sources st) = len_set (map (sg hash) ?cs)" using counts_length facts(4) by blast
  have div: "length (ps_diversity st) = len_set (map (dg hash) ?cs)"
    using facts(5,6) by (metis distinct_card len_set_card set_map)
  have le20: "len_set (map (sg hash) ?cs) \<le> 20" "len_set (map (dg hash) ?cs) \<le> 20"
    using len20 len_set_le [of "map (sg hash) ?cs"] len_set_le [of "map (dg hash) ?cs"] by auto
  have excl: "map fst (exclusions hash l base vs st) = map chunk_id (filter (\<lambda>c. chunk_id c \<notin> ps_ids st) vs)"
    by (simp add: exclusions_def)
  have grp: "group_checks ?p (selection_of hash pos S D c)" if "c \<in> set ?cs" for c pos S D
    using that facts(11,12) by (intro group_checks_described [OF cf cands(4) facts(1) that]) (auto simp: plan_of_def)
  have items: "coherent_items ?p {} {} (\<lambda>_. {}) ?sels"
    using coherent_items_described [OF facts(7) grp, of "[]" ?cs 1] by simp
  have acct: "status_accounting ?p"
    using facts(13,14) by (cases ?sels; cases ?cs) (auto simp: status_accounting_def plan_of_def)
  have "coherent_plan ?p"
    using parts src div items acct facts(8)
    by (simp add: coherent_plan_def Let_def len_set_distinct excl plan_of_def del: set_append set_map)
  moreover have "plan_fields ?p"
    using lim len20 le20 src div cands(1) parts(2) facts(9,10)
    by (simp add: plan_fields_def plan_of_def valid_limits_def exclusions_def)
  moreover have "list_all valid_exclusion (exclusions hash l base vs st)"
    using cands(2) by (auto simp: list_all_iff exclusions_def valid_exclusion_def valid_candidate_def bounded_identifier_def)
  ultimately show "valid_plan ?p" using val by (simp add: valid_plan_def plan_of_def list_all_iff)
qed

lemma pack_evidence_unfold:
  assumes "hex_digests hash" and "collision_free hash cands"
    and "valid_limits l" and "candidates cands = Inr cands"
    and "measure_cost cost [] = Inr base" and "run_passes hash cost l base cands = Inr st"
  shows "pack_evidence hash cost l cands =
     Inr (plan_of l base cands st (described hash 1 {} {} (ps_selected st)) (exclusions hash l base cands st))"
    and "valid_plan (plan_of l base cands st (described hash 1 {} {} (ps_selected st)) (exclusions hash l base cands st))"
    and "if base \<le> lim_budget l then pack_inv hash l cands st else st = empty_pack base"
proof -
  have b: "0 \<le> base" "base \<le> MAX_MEASURED_BYTES" using measure_cost_Inr [OF assms(5)] by auto
  have cb: "check_bindings Map.empty cands" using assms(4) by (simp add: candidates_Inr)
  show st: "if base \<le> lim_budget l then pack_inv hash l cands st else st = empty_pack base"
    using run_passes_inv [OF assms(2) cb assms(3) b assms(6)] assms(6) by (auto simp: run_passes_def)
  note v = valid_plan_of_state [OF assms(4,1,2,3) b st]
  show "valid_plan (plan_of l base cands st (described hash 1 {} {} (ps_selected st)) (exclusions hash l base cands st))"
    by (rule v(2))
  show "pack_evidence hash cost l cands =
     Inr (plan_of l base cands st (described hash 1 {} {} (ps_selected st)) (exclusions hash l base cands st))"
    using v assms by (simp add: pack_evidence_def Let_def)
qed

section \<open>Payload accounting and coverage\<close>

definition accounted :: "(string list \<Rightarrow> pyval option) \<Rightarrow> pack_state \<Rightarrow> bool" where
  "accounted cost st \<longleftrightarrow> measure_cost cost (map chunk_id (ps_selected st)) = Inr (ps_payload st)"

lemma admit_accounted:
  "admit hash cost l complement c st = Inr st' \<Longrightarrow> accounted cost st \<Longrightarrow> accounted cost st'"
  by (auto simp: admit_def accounted_def commit_def Let_def split: if_splits)

lemma passes_accounted:
  "pass_diversity hash cost l cs st = Inr st' \<Longrightarrow> accounted cost st \<Longrightarrow> accounted cost st'"
  "pass_sources hash cost l cs st = Inr st' \<Longrightarrow> accounted cost st \<Longrightarrow> accounted cost st'"
  "pass_complement hash cost l cs st = Inr st' \<Longrightarrow> accounted cost st \<Longrightarrow> accounted cost st'"
  by (induction cs arbitrary: st; auto split: if_splits dest: admit_accounted)+

lemma run_passes_accounted:
  assumes "measure_cost cost [] = Inr base" and "run_passes hash cost l base vs = Inr st"
  shows "accounted cost st"
proof -
  have "accounted cost (empty_pack base)" using assms(1) by (simp add: accounted_def empty_pack_def)
  with assms(2) show ?thesis
    unfolding run_passes_def by (auto split: if_splits dest: passes_accounted)
qed

lemma admit_error: "admit hash cost l complement c st = Inl e \<Longrightarrow> \<exists>m. e = PackingError m"
  by (auto simp: admit_def rbind_Inl_iff measure_cost_def split: if_splits option.splits)

lemma passes_error:
  "pass_diversity hash cost l cs st = Inl e \<Longrightarrow> \<exists>m. e = PackingError m"
  "pass_sources hash cost l cs st = Inl e \<Longrightarrow> \<exists>m. e = PackingError m"
  "pass_complement hash cost l cs st = Inl e \<Longrightarrow> \<exists>m. e = PackingError m"
  by (induction cs arbitrary: st; auto simp: rbind_Inl_iff split: if_splits dest: admit_error)+

lemma run_passes_error: "run_passes hash cost l base vs = Inl e \<Longrightarrow> \<exists>m. e = PackingError m"
  unfolding run_passes_def by (auto simp: rbind_Inl_iff split: if_splits dest: passes_error)

lemma measure_cost_value: "measure_cost cost ids = Inr n \<Longrightarrow> cost ids = Some (PInt n)"
  by (auto simp: measure_cost_def split: option.splits if_splits elim: type_is_int.elims)

lemma pack_evidence_Inr:
  assumes "pack_evidence hash cost l cands = Inr p"
  obtains base st sels where "valid_limits l" "candidates cands = Inr cands"
    "measure_cost cost [] = Inr base" "run_passes hash cost l base cands = Inr st"
    "describe hash (ps_selected st) = Inr sels"
    "p = plan_of l base cands st sels (exclusions hash l base cands st)" "valid_plan p"
  using assms by (auto simp: pack_evidence_def Let_def candidates_Inr)

lemma describe_from_ids:
  "describe_from hash pos S D cs = Inr sels \<Longrightarrow> map sel_chunk_id sels = map chunk_id cs"
  by (induction cs arbitrary: pos S D sels) (auto simp: Let_def)

lemma unrepresented_reason:
  assumes inv: "pack_inv hash l vs st" and lim: "valid_limits l"
    and new: "dg hash c \<notin> dg hash ` set (ps_selected st)"
    and det: "sg hash c \<notin> sg hash ` set (ps_selected st)"
  shows "reason hash l True st c \<in> {None, Some DuplicateContent, Some ChunkLimit}"
proof -
  have "counter_get (ps_sources st) (sg hash c) = count_if (\<lambda>x. sg hash x = sg hash c) (ps_selected st)"
    "counter_get (ps_works st) (dg hash c) = count_if (\<lambda>x. dg hash x = dg hash c) (ps_selected st)"
    using inv by (auto simp: pack_inv_def Let_def intro: counter_get_map)
  moreover have "count_if (\<lambda>x. sg hash x = sg hash c) (ps_selected st) = 0"
    "count_if (\<lambda>x. dg hash x = dg hash c) (ps_selected st) = 0"
    using new det by (auto simp: count_if_zero_iff image_iff)
  ultimately have "counter_get (ps_sources st) (sg hash c) = 0" "counter_get (ps_works st) (dg hash c) = 0"
    by simp_all
  then show ?thesis using lim by (auto simp: reason_def Let_def valid_limits_def)
qed

section \<open>Summaries of valid plans\<close>

lemma sort_key_counter_sum: "sum_list (map snd (sort_key f (c :: 'k counter))) = sum_list (map snd c)"
  by (metis mset_map mset_sort sum_mset_sum_list)

text \<open>Each source group of a coherent plan has one diversity group.\<close>

lemma coherent_items_checks:
  "coherent_items p S D R items \<Longrightarrow> item \<in> set items \<Longrightarrow> group_checks p item"
proof (induction items arbitrary: S D R)
  case (Cons i items)
  show ?case
  proof (cases "item = i")
    case True
    then show ?thesis
      using Cons.prems(1) unfolding coherent_items.simps Let_def group_checks_def by blast
  next
    case False
    then have "item \<in> set items" using Cons.prems(2) by simp
    moreover obtain S' D' R' where "coherent_items p S' D' R' items"
      using Cons.prems(1) unfolding coherent_items.simps Let_def by blast
    ultimately show ?thesis using Cons.IH by blast
  qed
qed simp

lemma len_set_1_const: "len_set (map f xs) = 1 \<Longrightarrow> a \<in> set xs \<Longrightarrow> b \<in> set xs \<Longrightarrow> f a = f b"
  by (auto simp: len_set_card card_1_singleton_iff) (metis imageI singletonD)

lemma coherent_diversity_by_source:
  assumes "coherent_plan p"
  shows "diversity_group_count p \<le> source_group_count p"
proof -
  have "sel_diversity_group i = sel_diversity_group j"
    if ij: "i \<in> set (selected p)" "j \<in> set (selected p)" "sel_source_group i = sel_source_group j" for i j
  proof -
    let ?m = "filter (\<lambda>row. sel_source_group row = sel_source_group i) (selected p)"
    have "coherent_items p {} {} (\<lambda>_. {}) (selected p)"
      using assms by (simp add: coherent_plan_def Let_def)
    then have "group_checks p i" using ij(1) by (rule coherent_items_checks)
    then have "len_set (map (\<lambda>row. (sel_source_basis row, sel_diversity_group row, sel_group_basis row)) ?m) = 1"
      by (simp add: group_checks_def Let_def)
    from len_set_1_const [OF this, of i j] show ?thesis using ij by simp
  qed
  then have "card (sel_diversity_group ` set (selected p)) \<le> card (sel_source_group ` set (selected p))"
    by (intro card_image_determined finite_set) blast
  then show ?thesis using assms by (simp add: coherent_plan_def Let_def len_set_card)
qed

lemma coherent_summary_of:
  assumes "valid_plan p"
  shows "coherent_summary (summary_of p)"
proof -
  let ?cnt = "sort_key (\<lambda>(r, n). (reason_name r, n)) (counter_of (map snd (excluded p)))"
  have f: "plan_fields p" and c: "coherent_plan p" using assms by (auto simp: valid_plan_def)
  have excl: "int (length (excluded p)) = candidate_count p - selected_count p"
    "selected_count p = int (length (selected p))" "selected_count p \<le> max_chunks p"
    "source_group_count p = int (len_set (map sel_source_group (selected p)))"
    using c by (auto simp: coherent_plan_def Let_def)
  have tot: "int (sum_list (map snd ?cnt)) = candidate_count p - selected_count p"
    using excl(1) by (simp add: sort_key_counter_sum sum_counter_of)
  have bnd: "1 \<le> n \<and> n \<le> 300" if "(r, n) \<in> set ?cnt" for r n
  proof -
    have "n = count_if (\<lambda>x. x = r) (map snd (excluded p)) \<and> r \<in> set (map snd (excluded p))"
      using that counts_entry [OF counts_counter_of, of r n "map snd (excluded p)"] by simp
    moreover have "0 < count_if (\<lambda>x. x = r) (map snd (excluded p))"
      using calculation by (auto simp: count_if_pos_iff)
    moreover have "count_if (\<lambda>x. x = r) (map snd (excluded p)) \<le> 300"
      using count_if_le_length [of "\<lambda>x. x = r" "map snd (excluded p)"] f by (simp add: plan_fields_def)
    ultimately show ?thesis by auto
  qed
  have src: "source_group_count p \<le> selected_count p"
    using excl(2,4) len_set_le [of "map sel_source_group (selected p)"] by simp
  have codes: "distinct (summary_reasons p ?cnt)" "length (summary_reasons p ?cnt) \<le> 9"
    by (simp_all add: summary_reasons_def Let_def)
  have st: "status_accounting p" using c by (simp add: coherent_plan_def Let_def)
  have "if status p = BaseBudgetExceeded then selected_count p = 0 \<and> byte_budget p < payload_bytes p
        else payload_bytes p \<le> byte_budget p \<and> (0 < selected_count p) = (status p = Packed)"
    using st excl(2) by (auto simp: status_accounting_def split: plan_status.splits)
  then show ?thesis
    using f tot src codes coherent_diversity_by_source [OF c] excl bnd
    by (auto simp: coherent_summary_def summary_of_def Let_def plan_fields_def len_set_distinct list_all_iff
        split: prod.splits)
qed

section \<open>Properties\<close>

text \<open>
  C1. With a digest that is hexadecimal and free of collisions on the inventory, packing never
  builds an inconsistent plan: the only errors are those of the inputs (bad limits or
  candidates, an unusable cost callback). Every plan it returns passes all validators of the
  closed plan model: one disposition per candidate, positions in order, exact group counts,
  per-source and per-work caps, reasons that match the order, and a payload within the budget
  exactly when the plan says so.
\<close>
theorem pack_evidence_plan_valid:
  assumes "hex_digests hash" and "collision_free hash cands"
  shows "case pack_evidence hash cost l cands of
           Inr p \<Rightarrow> valid_plan p
         | Inl e \<Rightarrow> e = CandidateValidation \<or> (\<exists>m. e = PackingError m)"
proof (cases "pack_evidence hash cost l cands")
  case (Inr p)
  then show ?thesis by (auto elim: pack_evidence_Inr)
next
  case (Inl e)
  show ?thesis
  proof (rule ccontr)
    assume "\<not> ?thesis"
    then have e: "e = SelectionValidation \<or> e = PlanValidation \<or> e = SummaryValidation"
      using Inl by (cases e) auto
    have passes: "run_passes hash cost l base vs = Inl e \<Longrightarrow> \<exists>m. e = PackingError m" for base vs
      by (rule run_passes_error)
    obtain base st where "valid_limits l" "candidates cands = Inr cands" "measure_cost cost [] = Inr base"
      "run_passes hash cost l base cands = Inr st"
      using Inl e passes
      by (auto simp: pack_evidence_def rbind_Inl_iff candidates_def measure_cost_def split: option.splits if_splits)
    from pack_evidence_unfold(1) [OF assms this] Inl show False by simp
  qed
qed

text \<open>A concrete inventory: two excerpts of one source snapshot, and a digest by domain.\<close>

definition demo_hash :: "string \<Rightarrow> string" where
  "demo_hash t = replicate 64 (if t ! 27 = CHR ''s'' then CHR ''a'' else CHR ''b'')"

definition demo_candidate :: "string \<Rightarrow> string \<Rightarrow> role_hint \<Rightarrow> packing_candidate" where
  "demo_candidate i content r =
     \<lparr>chunk_id = i, paper_id = ''p1'', source_snapshot = Some (replicate 64 (CHR ''a'')), accepted_work = None,
      content_sha256 = content, chunk_kind = OriginalPassage, role_hint = r\<rparr>"

definition demo_candidates :: "packing_candidate list" where
  "demo_candidates =
     [demo_candidate ''c1'' (replicate 64 (CHR ''b'')) RResults,
      demo_candidate ''c2'' (replicate 64 (CHR ''c'')) RMethods]"

definition demo_limits :: limits where
  "demo_limits = \<lparr>lim_budget = 1000, lim_chunks = 20, lim_source = 3, lim_work = 3\<rparr>"

definition demo_cost :: "string list \<Rightarrow> pyval option" where
  "demo_cost ids = Some (PInt (100 + 10 * int (length ids)))"

lemma demo_hash_hex: "hex_digests demo_hash"
  by (simp add: hex_digests_def demo_hash_def is_sha256_def list_all_iff is_hex_char_def is_digit_char_def char_nat_def)

lemma demo_collision_free: "collision_free demo_hash demo_candidates"
proof -
  let ?s = "digest_text ''source-group'' (source_body (hd demo_candidates))"
  let ?d = "digest_text ''diversity-group'' (diversity_body demo_hash (hd demo_candidates))"
  have texts: "packing_texts demo_hash demo_candidates = {?s, ?d}"
    by (auto simp: packing_texts_def demo_candidates_def demo_candidate_def source_body_def diversity_body_def
        source_basis_of_def source_digest_def)
  have esc: "json_escape c = [c]" if "c \<in> set VERSION \<union> {CHR ''s'', CHR ''d''}" for c
    using that by (auto simp: VERSION_def json_escape_def short_escapes_def char_nat_def)
  have ver: "concat (map json_escape VERSION) = VERSION"
    using esc by (simp add: VERSION_def)
  have at: "digest_text (c # d) b ! 27 = c" if "c \<in> {CHR ''s'', CHR ''d''}" for c d b
  proof -
    have "json_escape c = [c]" using esc that by blast
    then show ?thesis by (simp add: digest_text_def json_string_def ver) (simp add: VERSION_def)
  qed
  have "demo_hash ?s \<noteq> demo_hash ?d"
    using at [of "CHR ''s''"] at [of "CHR ''d''"] by (simp add: demo_hash_def)
  then show ?thesis by (auto simp: collision_free_def texts)
qed

theorem pack_evidence_plan_valid_witness:
  "case pack_evidence demo_hash demo_cost demo_limits demo_candidates of
     Inr p \<Rightarrow> valid_plan p | Inl e \<Rightarrow> e = CandidateValidation \<or> (\<exists>m. e = PackingError m)"
  by (rule pack_evidence_plan_valid [OF demo_hash_hex demo_collision_free])

text \<open>
  C23. The payload size of a returned plan is the cost of exactly the selected identifiers in
  their final order, and it is within the byte budget unless the plan is marked
  \<open>base_budget_exceeded\<close>, in which case nothing is selected.
\<close>
theorem pack_evidence_accounts_payload:
  assumes "pack_evidence hash cost l cands = Inr p"
  shows "cost (map sel_chunk_id (selected p)) = Some (PInt (payload_bytes p)) \<and>
         (payload_bytes p \<le> lim_budget l \<or> status p = BaseBudgetExceeded \<and> selected p = [])"
proof -
  obtain base st sels where r: "measure_cost cost [] = Inr base" "run_passes hash cost l base cands = Inr st"
    "describe hash (ps_selected st) = Inr sels"
    "p = plan_of l base cands st sels (exclusions hash l base cands st)" "valid_plan p"
    using pack_evidence_Inr [OF assms] by metis
  have "cost (map chunk_id (ps_selected st)) = Some (PInt (ps_payload st))"
    using run_passes_accounted [OF r(1,2)] measure_cost_value by (simp add: accounted_def)
  moreover have "map sel_chunk_id sels = map chunk_id (ps_selected st)"
    using r(3) by (simp add: describe_def describe_from_ids)
  moreover have "status_accounting p" using r(5) by (simp add: valid_plan_def coherent_plan_def Let_def)
  then have "payload_bytes p \<le> lim_budget l \<or> status p = BaseBudgetExceeded \<and> selected p = []"
    using r(4) by (auto simp: status_accounting_def plan_of_def split: plan_status.splits if_splits)
  ultimately show ?thesis using r(4) by (simp add: plan_of_def)
qed

lemma demo_limits_valid: "valid_limits demo_limits"
  by (simp add: valid_limits_def demo_limits_def MAX_PAYLOAD_BUDGET_def)

lemma empty_inventory_packs:
  "pack_evidence demo_hash demo_cost demo_limits [] =
     Inr (plan_of demo_limits 100 [] (empty_pack 100) [] [])"
proof -
  have "collision_free demo_hash []" by (simp add: collision_free_def packing_texts_def)
  moreover have "candidates [] = Inr []" by (simp add: candidates_def len_set_def)
  moreover have "measure_cost demo_cost [] = Inr 100"
    by (simp add: measure_cost_def demo_cost_def MAX_MEASURED_BYTES_def)
  moreover have "run_passes demo_hash demo_cost demo_limits 100 [] = Inr (empty_pack 100)"
    by (simp add: run_passes_def demo_limits_def)
  ultimately show ?thesis
    using pack_evidence_unfold(1) [OF demo_hash_hex _ demo_limits_valid, of "[]" demo_cost 100 "empty_pack 100"]
    by (simp add: empty_pack_def exclusions_def)
qed

theorem pack_evidence_accounts_payload_witness:
  "payload_bytes (plan_of demo_limits 100 [] (empty_pack 100) [] []) = 100 \<and>
   demo_cost [] = Some (PInt 100)"
  using pack_evidence_accounts_payload [OF empty_inventory_packs]
  by (simp add: plan_of_def empty_pack_def)

text \<open>
  Diversity comes first: if no selected excerpt shares the diversity group of an excluded
  candidate, that candidate was left out only because its exact text was already selected, the
  chunk count was exhausted, or the byte budget did not admit it. It is never a victim of a
  per-source or per-work cap or of a role rule.
\<close>
theorem pack_evidence_diversity_first:
  assumes hex: "hex_digests hash" and cf: "collision_free hash cands"
    and ok: "pack_evidence hash cost l cands = Inr p"
    and c: "c \<in> set cands" "(chunk_id c, r) \<in> set (excluded p)"
    and new: "dg hash c \<notin> set (map sel_diversity_group (selected p))"
  shows "r \<in> {DuplicateContent, ChunkLimit, PayloadBudget, BasePayloadBudget}"
proof -
  obtain base st sels where r: "valid_limits l" "candidates cands = Inr cands"
    "measure_cost cost [] = Inr base" "run_passes hash cost l base cands = Inr st"
    "p = plan_of l base cands st sels (exclusions hash l base cands st)"
    using pack_evidence_Inr [OF ok] by metis
  note u = pack_evidence_unfold [OF hex cf r(1-4)]
  have sel: "map sel_diversity_group (selected p) = map (dg hash) (ps_selected st)"
    and ex: "excluded p = exclusions hash l base cands st"
    using u(1) ok by (auto simp: plan_of_def)
  have cb: "check_bindings Map.empty cands" and ids: "distinct (map chunk_id cands)"
    using r(2) by (auto simp: candidates_Inr)
  obtain c' where c': "c' \<in> set cands" "chunk_id c' = chunk_id c" "r = disposition hash l base st c'"
    using c(2) by (auto simp: ex exclusions_def)
  then have "c' = c" using ids c(1) by (simp add: distinct_map inj_on_def)
  show ?thesis
  proof (cases "base \<le> lim_budget l")
    case True
    then have inv: "pack_inv hash l cands st" using u(3) by simp
    have sub: "set (ps_selected st) \<subseteq> set cands" using inv by (simp add: pack_inv_def Let_def)
    have newc: "dg hash c \<notin> dg hash ` set (ps_selected st)" using new sel by simp
    then have "sg hash c \<notin> sg hash ` set (ps_selected st)"
      by (rule new_diversity_new_source [OF cf cb c(1) sub])
    from unrepresented_reason [OF inv r(1) newc this] True show ?thesis
      by (auto simp: c'(3) \<open>c' = c\<close> disposition_def)
  next
    case False
    then show ?thesis by (simp add: c'(3) disposition_def)
  qed
qed

definition tight_limits :: limits where
  "tight_limits = demo_limits\<lparr>lim_budget := 50\<rparr>"

lemma demo_candidates_admitted: "candidates demo_candidates = Inr demo_candidates"
  by (simp add: candidates_Inr demo_candidates_def demo_candidate_def MAX_CANDIDATES_def valid_candidate_def
      bounded_identifier_def is_sha256_def is_hex_char_def is_digit_char_def char_nat_def py_strip_def is_space_def
      list_all_iff)

lemma tight_budget_packs:
  "pack_evidence demo_hash demo_cost tight_limits demo_candidates =
     Inr (plan_of tight_limits 100 demo_candidates (empty_pack 100) []
            [(''c1'', BasePayloadBudget), (''c2'', BasePayloadBudget)])"
proof -
  have "valid_limits tight_limits" "measure_cost demo_cost [] = Inr 100"
    "run_passes demo_hash demo_cost tight_limits 100 demo_candidates = Inr (empty_pack 100)"
    by (simp_all add: valid_limits_def tight_limits_def demo_limits_def MAX_PAYLOAD_BUDGET_def
        measure_cost_def demo_cost_def MAX_MEASURED_BYTES_def run_passes_def)
  from pack_evidence_unfold(1) [OF demo_hash_hex demo_collision_free this(1) demo_candidates_admitted this(2,3)]
  show ?thesis
    by (simp add: empty_pack_def exclusions_def demo_candidates_def demo_candidate_def disposition_def
        tight_limits_def demo_limits_def)
qed

theorem pack_evidence_diversity_first_witness:
  "BasePayloadBudget \<in> {DuplicateContent, ChunkLimit, PayloadBudget, BasePayloadBudget} \<and>
   candidates demo_candidates = Inr demo_candidates"
  using pack_evidence_diversity_first [OF demo_hash_hex demo_collision_free tight_budget_packs,
      of "hd demo_candidates" BasePayloadBudget] demo_candidates_admitted
  by (simp add: plan_of_def demo_candidates_def demo_candidate_def)

text \<open>
  The public summary of a valid plan is always available: \<open>public_summary\<close> never raises
  on a plan that passed the plan validators, and its reason counts add up to the excluded
  candidates, each between 1 and 300.
\<close>
theorem public_summary_total:
  assumes "valid_plan p"
  shows "\<exists>s. public_summary p = Inr s \<and>
         int (sum_list (map snd (reason_counts s))) = candidate_count p - selected_count p \<and>
         sum_diversity s \<le> sum_sources s"
proof -
  have co: "coherent_summary (summary_of p)" by (rule coherent_summary_of [OF assms])
  then have "public_summary p = Inr (summary_of p)" using assms by (simp add: public_summary_def)
  then show ?thesis using co by (simp add: coherent_summary_def summary_of_def Let_def)
qed

theorem public_summary_total_witness:
  "\<exists>s. public_summary (plan_of demo_limits 100 [] (empty_pack 100) [] []) = Inr s"
proof -
  have "valid_plan (plan_of demo_limits 100 [] (empty_pack 100) [] [])"
    using empty_inventory_packs by (auto elim: pack_evidence_Inr)
  from public_summary_total [OF this] show ?thesis by blast
qed

end
