(* ===== verification/Source_Lifecycle_Status.thy ===== *)
theory Source_Lifecycle_Status
  imports SC_Prelude
begin

text \<open>
  The negative lifecycle overlay of a source (\<open>api/services/source_lifecycle_status.py\<close>).
  An envelope is a mapping with exactly three keys; every mapping, well formed or not, is a
  hold, and only a well-formed one may assert a bibliographic status. \<open>hash\<close> is the
  hexadecimal SHA-256 digest of a text.
\<close>

section \<open>Operations\<close>

definition lifecycle_keys :: "string set" where
  "lifecycle_keys = {''status'', ''lifecycle_review_required'', ''lifecycle_revision''}"

definition valid_envelope :: "pyval \<Rightarrow> bool" where
  "valid_envelope v =
     (is_mapping v \<and> set (pkeys v) = PStr ` lifecycle_keys \<and>
      (pget v ''status'' = PNone \<or> is_str (pget v ''status'')) \<and>
      pget v ''lifecycle_review_required'' = PBool True \<and>
      is_str (pget v ''lifecycle_revision'') \<and> is_sha256 (str_of (pget v ''lifecycle_revision'')))"

definition lifecycle_status :: "pyval \<Rightarrow> pyval" where
  "lifecycle_status v =
     (if is_mapping v then (if valid_envelope v then pget v ''status'' else PNone)
      else if v = PNone \<or> is_str v then v else PNone)"

definition lifecycle_review_required :: "pyval \<Rightarrow> bool" where
  "lifecycle_review_required v = is_mapping v"

definition lifecycle_revision :: "pyval \<Rightarrow> pyval" where
  "lifecycle_revision v = (if valid_envelope v then pget v ''lifecycle_revision'' else PNone)"

definition lifecycle_fingerprint :: "pyval \<Rightarrow> pyval" where
  "lifecycle_fingerprint v =
     PDict [(PStr ''status'', lifecycle_status v),
            (PStr ''lifecycle_review_required'', PBool (lifecycle_review_required v)),
            (PStr ''lifecycle_revision'', lifecycle_revision v)]"

datatype lifecycle_error = InvalidOverlay | InvalidHeadDigest

definition overlay_source_lifecycle :: "pyval \<Rightarrow> pyval \<Rightarrow> (lifecycle_error, pyval) res" where
  "overlay_source_lifecycle st revn =
     (let v = PDict [(PStr ''status'', st), (PStr ''lifecycle_review_required'', PBool True),
                     (PStr ''lifecycle_revision'', revn)]
      in if valid_envelope v then Inr v else Inl InvalidOverlay)"

definition valid_head :: "pyval \<Rightarrow> bool" where
  "valid_head v = (v = PNone \<or> is_str v \<and> is_sha256 (str_of v))"

definition head_json :: "pyval \<Rightarrow> string" where
  "head_json v = (if v = PNone then ''null'' else json_string (str_of v))"

definition heads_json :: "pyval \<Rightarrow> pyval \<Rightarrow> string" where
  "heads_json p w =
     CHR ''{'' # json_string ''paper'' @ '':'' @ head_json p @ '','' @ json_string ''work'' @ '':'' @ head_json w @ ''}''"

definition combined_lifecycle_revision ::
  "(string \<Rightarrow> string) \<Rightarrow> pyval \<Rightarrow> pyval \<Rightarrow> (lifecycle_error, pyval) res" where
  "combined_lifecycle_revision hash p w =
     (if \<not> (valid_head p \<and> valid_head w) then Inl InvalidHeadDigest
      else if w = PNone then Inr p
      else Inr (PStr (hash (heads_json p w))))"

section \<open>Lemmas\<close>

lemma overlay_value:
  "overlay_source_lifecycle st revn = Inr v \<Longrightarrow>
     valid_envelope v \<and> pget v ''status'' = st \<and> pget v ''lifecycle_revision'' = revn"
  by (auto simp: overlay_source_lifecycle_def Let_def split: if_splits)

lemma overlay_accepts_iff:
  "(\<exists>v. overlay_source_lifecycle st revn = Inr v) \<longleftrightarrow>
     (st = PNone \<or> is_str st) \<and> is_str revn \<and> is_sha256 (str_of revn)"
  by (auto simp: overlay_source_lifecycle_def Let_def valid_envelope_def lifecycle_keys_def)

lemma head_json_cancel:
  assumes "valid_head p" and "valid_head q" and "head_json p @ x = head_json q @ y"
  shows "p = q \<and> x = y"
proof (cases p)
  case PNone
  then show ?thesis using assms by (cases q) (auto simp: head_json_def valid_head_def json_string_def)
next
  case (PStr s)
  show ?thesis
  proof (cases q)
    case (PStr t)
    then show ?thesis using assms \<open>p = PStr s\<close> json_string_cancel [of s x t y] by (simp add: head_json_def)
  qed (use assms PStr in \<open>auto simp: head_json_def valid_head_def json_string_def\<close>)
qed (use assms in \<open>auto simp: valid_head_def\<close>)

lemma heads_json_inj:
  assumes "valid_head p" "valid_head w" "valid_head p'" "valid_head w'"
    and "heads_json p w = heads_json p' w'"
  shows "p = p' \<and> w = w'"
proof -
  let ?tail = "\<lambda>w. '','' @ json_string ''work'' @ '':'' @ head_json w @ ''}''"
  have "head_json p @ ?tail w = head_json p' @ ?tail w'"
    using assms(5) unfolding heads_json_def by simp
  from head_json_cancel [OF assms(1,3) this] have "p = p'" and "?tail w = ?tail w'" by auto
  from this(2) have "head_json w @ ''}'' = head_json w' @ ''}''" by simp
  from head_json_cancel [OF assms(2,4) this] \<open>p = p'\<close> show ?thesis by simp
qed

section \<open>Properties\<close>

text \<open>
  Round trip of the overlay: \<open>overlay_source_lifecycle\<close> succeeds exactly for a missing or
  textual status with a SHA-256 revision, and reading the envelope back gives that status
  and that revision, with the review hold set.
\<close>
theorem overlay_roundtrip:
  "(\<exists>v. overlay_source_lifecycle st revn = Inr v \<and> lifecycle_status v = st \<and>
        lifecycle_revision v = revn \<and> lifecycle_review_required v)
     \<longleftrightarrow> (st = PNone \<or> is_str st) \<and> is_str revn \<and> is_sha256 (str_of revn)"
proof -
  have "lifecycle_status v = st \<and> lifecycle_revision v = revn \<and> lifecycle_review_required v"
    if "overlay_source_lifecycle st revn = Inr v" for v
  proof -
    have "valid_envelope v" "is_mapping v"
      using overlay_value [OF that] by (auto simp: valid_envelope_def)
    then show ?thesis using overlay_value [OF that]
      by (simp add: lifecycle_status_def lifecycle_revision_def lifecycle_review_required_def)
  qed
  then show ?thesis using overlay_accepts_iff by blast
qed

text \<open>
  The combined revision binds both heads: over valid digests and a digest function without
  collisions on the serialized pairs, two combinations with a work head agree only if both
  the paper heads and the work heads agree.
\<close>
theorem combined_revision_binds_heads:
  assumes "inj_on hash {heads_json p w, heads_json p' w'}"
    and "w \<noteq> PNone" and "w' \<noteq> PNone"
    and "combined_lifecycle_revision hash p w = Inr r"
    and "combined_lifecycle_revision hash p' w' = Inr r"
  shows "p = p' \<and> w = w'"
proof -
  have v: "valid_head p" "valid_head w" "valid_head p'" "valid_head w'"
    and "hash (heads_json p w) = hash (heads_json p' w')"
    using assms(2-5) by (auto simp: combined_lifecycle_revision_def split: if_splits)
  then have "heads_json p w = heads_json p' w'" using assms(1) by (auto dest: inj_onD)
  then show ?thesis using heads_json_inj v by blast
qed

theorem combined_revision_binds_heads_witness:
  "combined_lifecycle_revision (\<lambda>t. t) PNone (PStr (replicate 64 (CHR ''a''))) \<noteq>
   combined_lifecycle_revision (\<lambda>t. t) PNone (PStr (replicate 64 (CHR ''b'')))"
proof
  let ?w = "\<lambda>c. PStr (replicate 64 c)"
  have ok: "combined_lifecycle_revision (\<lambda>t. t) PNone (?w c) = Inr (PStr (heads_json PNone (?w c)))"
    if "c \<in> {CHR ''a'', CHR ''b''}" for c
    using that by (auto simp: combined_lifecycle_revision_def valid_head_def is_sha256_def list_all_iff
        is_hex_char_def is_digit_char_def char_nat_def)
  assume "combined_lifecycle_revision (\<lambda>t. t) PNone (?w (CHR ''a'')) =
          combined_lifecycle_revision (\<lambda>t. t) PNone (?w (CHR ''b''))"
  then have "combined_lifecycle_revision (\<lambda>t. t) PNone (?w (CHR ''b'')) = Inr (PStr (heads_json PNone (?w (CHR ''a''))))"
    using ok by simp
  from combined_revision_binds_heads [OF _ _ _ ok this] show False by simp
qed

end
