(* ===== verification/Py_Runtime.thy ===== *)
theory Py_Runtime
  imports SC_Prelude
begin

text \<open>
  The parts of the Python runtime that several components use beyond the plain values of
  \<open>SC_Prelude\<close>: replacing a key of a dict, iterating \<open>xs or []\<close>, the conversion of an
  integer to a binary64 float with its rounding and its \<open>OverflowError\<close>, and the two
  run-collapsing substitutions \<open>re.sub("[...]+", "_", s)\<close>.
\<close>

section \<open>Dicts\<close>

text \<open>\<open>d[k] = v\<close> for a string key: the value is replaced in place, a new key goes last.\<close>

fun dict_put :: "(pyval \<times> pyval) list \<Rightarrow> string \<Rightarrow> pyval \<Rightarrow> (pyval \<times> pyval) list" where
  "dict_put [] k v = [(PStr k, v)]"
| "dict_put ((k', w) # d) k v = (if k' = PStr k then (k', v) # d else (k', w) # dict_put d k v)"

fun pput :: "pyval \<Rightarrow> string \<Rightarrow> pyval \<Rightarrow> pyval" where
  "pput (PDict d) k v = PDict (dict_put d k v)"
| "pput x k v = x"

lemma map_of_dict_put [simp]:
  "map_of (dict_put d k v) j = (if j = PStr k then Some v else map_of d j)"
  by (induction d) auto

lemma dict_put_idem [simp]: "dict_put (dict_put d k v) k w = dict_put d k w"
  by (induction d) auto

lemma pget_pput [simp]:
  "pget (pput x k v) j = (if is_mapping x \<and> j = k then v else pget x j)"
  by (cases x) auto

lemma pput_idem [simp]: "pput (pput x k v) k w = pput x k w"
  by (cases x) auto

lemma is_mapping_pput [simp]: "is_mapping (pput x k v) = is_mapping x"
  by (cases x) auto

section \<open>Iteration\<close>

text \<open>
  \<open>for x in xs or []\<close> over a value of unknown type: a falsy value gives no iterations, lists
  and tuples give their elements, a dict its keys, a string its characters; anything else
  raises \<open>TypeError\<close>. The last three errors are \<open>OverflowError\<close>, \<open>decimal.Overflow\<close> and
  \<open>decimal.InvalidOperation\<close>; the decimal ones are no subclasses of the others.
\<close>

datatype py_error = TypeError | KeyError | ValueError string | IntOverflow | DecimalOverflow | DecimalInvalid

fun iter_or_empty :: "pyval \<Rightarrow> (py_error, pyval list) res" where
  "iter_or_empty (PList xs) = Inr xs"
| "iter_or_empty (PTuple xs) = Inr xs"
| "iter_or_empty (PDict kvs) = Inr (map fst kvs)"
| "iter_or_empty (PStr s) = Inr (map (\<lambda>c. PStr [c]) s)"
| "iter_or_empty v = (if truthy v then Inl TypeError else Inr [])"

text \<open>Membership of a value in a set of strings hashes the value first.\<close>

fun hashable :: "pyval \<Rightarrow> bool" where
  "hashable (PList _) = False"
| "hashable (PDict _) = False"
| "hashable (PTuple xs) = list_all hashable xs"
| "hashable _ = True"

definition in_str_set :: "pyval \<Rightarrow> string list \<Rightarrow> (py_error, bool) res" where
  "in_str_set v xs = (if hashable v then Inr (\<exists>s \<in> set xs. v = PStr s) else Inl TypeError)"

lemma in_str_set_PStr [simp]: "in_str_set (PStr s) xs = Inr (s \<in> set xs)"
  by (auto simp: in_str_set_def)

section \<open>Integers as binary64 floats\<close>

text \<open>
  \<open>float(n)\<close>: exact up to 53 significant bits, then rounded to 53 bits with ties to even;
  a magnitude that rounds to \<open>2^1024\<close> or more raises \<open>OverflowError\<close>.
\<close>

function bit_length :: "int \<Rightarrow> nat" where
  "bit_length n = (if n \<le> 0 then 0 else Suc (bit_length (n div 2)))"
  by pat_completeness auto
termination
  by (relation "measure nat") auto

declare bit_length.simps [simp del]

definition round_bits :: "int \<Rightarrow> nat \<Rightarrow> int" where
  "round_bits n s =
     (let q = n div 2 ^ s; r = n mod 2 ^ s
      in if 2 * r < 2 ^ s \<or> 2 * r = 2 ^ s \<and> even q then q * 2 ^ s else (q + 1) * 2 ^ s)"

definition float_magnitude :: "int \<Rightarrow> int option" where
  "float_magnitude n =
     (let m = (if bit_length n \<le> 53 then n else round_bits n (bit_length n - 53))
      in if bit_length m \<le> 1024 then Some m else None)"

definition float_of_int :: "int \<Rightarrow> rat option" where
  "float_of_int i = (case float_magnitude \<bar>i\<bar> of None \<Rightarrow> None
     | Some m \<Rightarrow> Some (if i < 0 then - of_int m else of_int m))"

lemma bit_length_bound: "n < 2 ^ k \<Longrightarrow> bit_length n \<le> k"
proof (induction k arbitrary: n)
  case 0
  then show ?case by (simp add: bit_length.simps)
next
  case (Suc k)
  then have "bit_length (n div 2) \<le> k" by simp
  then show ?case by (subst bit_length.simps) simp
qed

lemma float_of_int_exact: "\<bar>i\<bar> < 2 ^ 53 \<Longrightarrow> float_of_int i = Some (of_int i)"
  using bit_length_bound [of "\<bar>i\<bar>" 53] by (auto simp: float_of_int_def float_magnitude_def)

text \<open>\<open>float(x)\<close> of a number that is not a boolean, when it is finite; \<open>None\<close> otherwise.\<close>

fun finite_number :: "pyval \<Rightarrow> rat option" where
  "finite_number (PInt i) = float_of_int i"
| "finite_number (PFloat (Finite q)) = Some q"
| "finite_number _ = None"

section \<open>Binary64 arithmetic\<close>

text \<open>
  The float nearest to a rational, ties to even: 53 significant bits, exponents from
  \<open>-1074\<close>, overflow to an infinity. Signed zeros are not distinguished.
\<close>

definition pow2 :: "int \<Rightarrow> rat" where
  "pow2 e = (if 0 \<le> e then 2 ^ nat e else 1 / 2 ^ nat (- e))"

definition round_half_even :: "rat \<Rightarrow> int" where
  "round_half_even x = (let f = \<lfloor>x\<rfloor>; r = x - of_int f
     in if r < 1 / 2 \<or> r = 1 / 2 \<and> even f then f else f + 1)"

definition float_exponent :: "rat \<Rightarrow> int" where
  "float_exponent q =
     (let (a, b) = quotient_of q;
          d = int (bit_length \<bar>a\<bar>) - int (bit_length b);
          e = (if \<bar>q\<bar> \<ge> pow2 d then d - 52 else d - 53)
      in max e (- 1074))"

definition round64 :: "rat \<Rightarrow> pyfloat" where
  "round64 q =
     (if q = 0 then Finite 0
      else let e = float_exponent q; r = round_half_even (\<bar>q\<bar> / pow2 e); m = of_int r * pow2 e
           in if e > 971 \<or> e = 971 \<and> r = 2 ^ 53 then (if q < 0 then NegInf else PosInf)
              else Finite (if q < 0 then - m else m))"

section \<open>Substitution of runs\<close>

text \<open>\<open>re.sub("[P]+", "_", s)\<close>: every maximal run of characters of the class becomes one underscore.\<close>

function sub_runs :: "(char \<Rightarrow> bool) \<Rightarrow> string \<Rightarrow> string" where
  "sub_runs P [] = []"
| "sub_runs P (c # s) = (if P c then CHR ''_'' # sub_runs P (dropWhile P s) else c # sub_runs P s)"
  by pat_completeness auto
termination
  by (relation "measure (length \<circ> snd)") (auto simp: length_dropWhile_le le_imp_less_Suc)

definition strip_char :: "char \<Rightarrow> string \<Rightarrow> string" where
  "strip_char c s = rev (dropWhile (\<lambda>x. x = c) (rev (dropWhile (\<lambda>x. x = c) s)))"

lemma sub_runs_no_class: "\<not> P (CHR ''_'') \<Longrightarrow> list_all (\<lambda>c. \<not> P c) (sub_runs P s)"
  by (induction P s rule: sub_runs.induct) auto

lemma sub_runs_id: "list_all (\<lambda>c. \<not> P c) s \<Longrightarrow> sub_runs P s = s"
  by (induction s) auto

lemma sub_runs_idem: "\<not> P (CHR ''_'') \<Longrightarrow> sub_runs P (sub_runs P s) = sub_runs P s"
  by (simp add: sub_runs_no_class sub_runs_id)

lemma dropWhile_list_all: "list_all P s \<Longrightarrow> list_all P (dropWhile Q s)"
  by (induction s) auto

lemma py_strip_list_all: "list_all P s \<Longrightarrow> list_all P (py_strip s)"
  by (simp add: py_strip_def list_all_rev dropWhile_list_all)

lemma dropWhile_id: "list_all (\<lambda>c. \<not> P c) s \<Longrightarrow> dropWhile P s = s"
  by (cases s) auto

lemma py_strip_id: "list_all (\<lambda>c. \<not> is_space c) s \<Longrightarrow> py_strip s = s"
  by (simp add: py_strip_def dropWhile_id)

section \<open>Equality and lookup\<close>

text \<open>
  \<open>a == b\<close>: numbers compare by value whatever their types, a NaN equals nothing; other values
  compare structurally. \<open>d[k]\<close> raises \<open>KeyError\<close> when the key is missing.
\<close>

fun num_of :: "pyval \<Rightarrow> rat option" where
  "num_of (PInt i) = Some (of_int i)"
| "num_of (PBool b) = Some (if b then 1 else 0)"
| "num_of (PFloat (Finite q)) = Some q"
| "num_of _ = None"

definition py_eq :: "pyval \<Rightarrow> pyval \<Rightarrow> bool" where
  "py_eq a b = (case (num_of a, num_of b) of
     (Some x, Some y) \<Rightarrow> x = y
   | (None, None) \<Rightarrow> a = b \<and> a \<noteq> PFloat NaN
   | _ \<Rightarrow> False)"

definition pindex :: "pyval \<Rightarrow> string \<Rightarrow> (py_error, pyval) res" where
  "pindex v k = (if phas v k then Inr (pget v k) else Inl KeyError)"

text \<open>\<open>set(x)\<close> of a value: its elements must be hashable.\<close>

fun elements :: "pyval \<Rightarrow> (py_error, pyval list) res" where
  "elements (PList xs) = (if list_all hashable xs then Inr xs else Inl TypeError)"
| "elements (PTuple xs) = (if list_all hashable xs then Inr xs else Inl TypeError)"
| "elements (PDict kvs) = Inr (map fst kvs)"
| "elements (PStr s) = Inr (map (\<lambda>c. PStr [c]) s)"
| "elements _ = Inl TypeError"

text \<open>\<open>{**a, **b}\<close> for dicts with string keys.\<close>

definition dict_merge :: "(pyval \<times> pyval) list \<Rightarrow> (pyval \<times> pyval) list \<Rightarrow> (pyval \<times> pyval) list" where
  "dict_merge a b = foldl (\<lambda>d (k, v). dict_put d (str_of k) v) a b"

lemma map_of_dict_merge:
  "list_all (is_str \<circ> fst) b \<Longrightarrow> distinct (map fst b) \<Longrightarrow>
     map_of (dict_merge a b) j = (case map_of b j of Some v \<Rightarrow> Some v | None \<Rightarrow> map_of a j)"
proof (induction b arbitrary: a)
  case (Cons p b)
  obtain s v where p: "p = (PStr s, v)" using Cons.prems(1) by (cases p; cases "fst p") auto
  have "map_of (dict_merge a (p # b)) j = map_of (dict_merge (dict_put a s v) b) j"
    by (simp add: dict_merge_def p)
  moreover have "map_of (dict_merge (dict_put a s v) b) j =
      (case map_of b j of Some v \<Rightarrow> Some v | None \<Rightarrow> map_of (dict_put a s v) j)"
    by (rule Cons.IH) (use Cons.prems in simp_all)
  moreover have "map_of b (PStr s) = None" using Cons.prems(2) p by (simp add: map_of_eq_None_iff)
  ultimately show ?case by (simp add: p split: option.splits)
qed (simp add: dict_merge_def split: option.splits)

section \<open>UUID text\<close>

text \<open>
  \<open>str(UUID(s))\<close>: the prefixes \<open>urn:\<close> and \<open>uuid:\<close>, surrounding braces and hyphens are
  dropped, 32 characters must remain and \<open>int(h, 16)\<close> must read them as a natural number.
\<close>

function replace_all :: "string \<Rightarrow> string \<Rightarrow> string" where
  "replace_all p s = (if p = [] \<or> s = [] then s
     else if startswith s p then replace_all p (drop (length p) s) else hd s # replace_all p (tl s))"
  by pat_completeness auto
termination
  by (relation "measure (length \<circ> snd)") auto

declare replace_all.simps [simp del]

definition is_hex_any :: "char \<Rightarrow> bool" where
  "is_hex_any c = is_hex_char (lower_char c)"

fun hex_run :: "string \<Rightarrow> bool" where
  "hex_run [] = False"
| "hex_run [c] = is_hex_any c"
| "hex_run (c # d # s) = (is_hex_any c \<and> (if d = CHR ''_'' then hex_run s else hex_run (d # s)))"

definition hex_value :: "string \<Rightarrow> nat" where
  "hex_value s = foldl (\<lambda>n c. 16 * n + (let k = char_nat (lower_char c) in if k < 97 then k - 48 else k - 87)) 0
     (filter (\<lambda>c. c \<noteq> CHR ''_'') s)"

definition int_base16 :: "string \<Rightarrow> int option" where
  "int_base16 s =
     (let t = py_strip s;
          neg = (t \<noteq> [] \<and> hd t = CHR ''-'');
          u = (if t \<noteq> [] \<and> hd t \<in> {CHR ''-'', CHR ''+''} then tl t else t);
          body = (if py_lower (take 2 u) = ''0x''
                  then (if take 1 (drop 2 u) = ''_'' then drop 3 u else drop 2 u) else u)
      in if hex_run body then Some (if neg then - int (hex_value body) else int (hex_value body)) else None)"

fun hex_digits :: "nat \<Rightarrow> nat \<Rightarrow> string" where
  "hex_digits 0 n = []"
| "hex_digits (Suc k) n = hex_digits k (n div 16) @ [hex_digit (n mod 16)]"

definition uuid_text :: "nat \<Rightarrow> string" where
  "uuid_text n = (let h = hex_digits 32 n in
     take 8 h @ ''-'' @ take 4 (drop 8 h) @ ''-'' @ take 4 (drop 12 h) @ ''-'' @ take 4 (drop 16 h) @ ''-'' @ drop 20 h)"

definition uuid_norm :: "string \<Rightarrow> string option" where
  "uuid_norm s =
     (let t = replace_all ''uuid:'' (replace_all ''urn:'' s);
          brace = (\<lambda>c. c = CHR ''{'' \<or> c = CHR ''}'');
          h = filter (\<lambda>c. c \<noteq> CHR ''-'') (rev (dropWhile brace (rev (dropWhile brace t))))
      in if length h \<noteq> 32 then None
         else case int_base16 h of None \<Rightarrow> None | Some i \<Rightarrow> if i < 0 then None else Some (uuid_text (nat i)))"

section \<open>Text and order of numbers\<close>

text \<open>The decimal text of an integer.\<close>

definition int_text :: "int \<Rightarrow> string" where
  "int_text i = (if i < 0 then ''-'' @ nat_digits (nat (- i)) else nat_digits (nat i))"

text \<open>The interpreter refuses to render an integer of more than 4300 digits.\<close>

definition too_many_digits :: "int \<Rightarrow> bool" where
  "too_many_digits i \<longleftrightarrow> int (length (nat_digits (nat \<bar>i\<bar>))) > 4300"

definition digits_error :: py_error where
  "digits_error = ValueError ''Exceeds the limit (4300 digits) for integer string conversion''"

text \<open>
  \<open>x < y\<close> and \<open>x == y\<close> on floats: a NaN is neither below, above nor equal to anything.
\<close>

fun float_less :: "pyfloat \<Rightarrow> pyfloat \<Rightarrow> bool" where
  "float_less NaN y = False"
| "float_less x NaN = False"
| "float_less (Finite a) (Finite b) = (a < b)"
| "float_less NegInf y = (y \<noteq> NegInf)"
| "float_less x NegInf = False"
| "float_less x PosInf = (x \<noteq> PosInf)"
| "float_less PosInf y = False"

definition float_eq :: "pyfloat \<Rightarrow> pyfloat \<Rightarrow> bool" where
  "float_eq x y \<longleftrightarrow> x = y \<and> x \<noteq> NaN"

text \<open>
  \<open>max(xs, default=None)\<close> and \<open>min(xs, default=None)\<close> keep the first extreme element of one
  left-to-right pass; \<open>max(a, b)\<close> is the same pass over two elements.
\<close>

definition float_max :: "pyfloat \<Rightarrow> pyfloat \<Rightarrow> pyfloat" where
  "float_max m x = (if float_less m x then x else m)"

definition float_min :: "pyfloat \<Rightarrow> pyfloat \<Rightarrow> pyfloat" where
  "float_min m x = (if float_less x m then x else m)"

fun float_fold :: "(pyfloat \<Rightarrow> pyfloat \<Rightarrow> pyfloat) \<Rightarrow> pyfloat list \<Rightarrow> pyfloat option" where
  "float_fold f [] = None"
| "float_fold f (x # xs) = Some (foldl f x xs)"

lemma float_max_Finite [simp]: "float_max (Finite a) (Finite b) = Finite (max a b)"
  by (simp add: float_max_def max_def)

lemma float_min_Finite [simp]: "float_min (Finite a) (Finite b) = Finite (min a b)"
  by (simp add: float_min_def min_def)

lemma foldl_float_max: "foldl float_max (Finite a) (map Finite xs) = Finite (foldl max a xs)"
  by (induction xs arbitrary: a) simp_all

lemma foldl_float_min: "foldl float_min (Finite a) (map Finite xs) = Finite (foldl min a xs)"
  by (induction xs arbitrary: a) simp_all

lemma foldl_max_Max: "foldl max (a :: 'a :: linorder) xs = Max (set (a # xs))"
proof (induction xs arbitrary: a)
  case (Cons x xs)
  have "Max (insert (max a x) (set xs)) = Max (insert a (insert x (set xs)))"
    by (rule Max_eq_if) auto
  with Cons show ?case by simp
qed simp

lemma foldl_min_Min: "foldl min (a :: 'a :: linorder) xs = Min (set (a # xs))"
proof (induction xs arbitrary: a)
  case (Cons x xs)
  have "Min (insert (min a x) (set xs)) = Min (insert a (insert x (set xs)))"
    by (cases "set xs = {}") (simp_all add: Min_insert min.assoc)
  with Cons show ?case by simp
qed simp

end
