(* ===== verification/Material_Visibility.thy ===== *)
theory Material_Visibility
  imports Source_Lifecycle_Status Py_Runtime
begin

text \<open>
  Read-only material visibility (\<open>api/services/material_visibility.py\<close>).

  A material, its anomaly assessment, its source statuses and its parent's visibility are
  Python values; the function computes a set of hold reasons, a state and the public DTO. The
  functions of the standard library that only feed the revision digest are the fields of
  \<open>vis_env\<close>: \<open>ve_digest\<close> is the SHA-256 of the sorted JSON text of a value, \<open>ve_iso\<close> the
  ISO text of a date (\<open>None\<close> for other values) and \<open>ve_str\<close> is \<open>str()\<close>, which may raise.
  The digest is only taken of strings and of a snapshot of strings, booleans, nulls and bounded
  integers, on which the JSON text exists.
\<close>

section \<open>Tables\<close>

definition MATERIAL_VISIBILITY_VERSION :: string where
  "MATERIAL_VISIBILITY_VERSION = ''material-visibility/1.0.0''"

definition SOURCE_LIMIT :: nat where "SOURCE_LIMIT = 20000"

definition REASONS :: "(string \<times> string) list" where
  "REASONS =
     [(''provenance_quarantined'', ''This material is unavailable under the provenance policy.''),
      (''parent_provenance_quarantined'', ''The parent material is unavailable under the provenance policy.''),
      (''material_retracted'', ''This material is marked as retracted.''),
      (''material_disputed'', ''This material is marked as disputed and requires review.''),
      (''material_corrected'', ''A correction is recorded; the resulting scientific claims require review.''),
      (''source_lifecycle_review_required'', ''A source changed; revision-bound review and supersession are required.''),
      (''material_review_required'', ''This material is awaiting review.''),
      (''scientific_anomaly_review_required'', ''Retained scientific values require anomaly review.''),
      (''source_retracted'', ''At least one linked source is retracted or withdrawn; source-dependent claims require review.''),
      (''source_corrected'', ''At least one linked source is corrected; source-dependent claims require review.''),
      (''source_disputed'', ''At least one linked source is marked as disputed and requires review.''),
      (''review_status_unknown'', ''The material has an unrecognized review status.''),
      (''review_metadata_invalid'', ''Review metadata is invalid or incomplete and requires review.''),
      (''anomaly_assessment_unavailable'', ''A current anomaly assessment is unavailable.''),
      (''anomaly_assessment_invalid'', ''The anomaly assessment is invalid or uses an unsupported policy version.''),
      (''source_metadata_invalid'', ''Source-status metadata could not be evaluated safely.''),
      (''parent_review_hold'', ''The parent material is not eligible for the public catalogue.''),
      (''parent_visibility_unavailable'', ''The parent material's current visibility could not be established.''),
      (''ancestry_provenance_unresolved'', ''Ancestral provenance restrictions could not be resolved; public Archive access is unavailable.''),
      (''ancestry_missing_parent'', ''An ancestor material could not be resolved.''),
      (''ancestry_cycle_detected'', ''The material ancestry contains a cycle and requires repair.''),
      (''ancestry_depth_exceeded'', ''The material ancestry exceeds the bounded review depth.''),
      (''record_provenance_quarantined'', ''A retained record is unavailable under the provenance policy.''),
      (''record_review_required'', ''At least one retained record explicitly requires review.''),
      (''record_disputed'', ''A retained record is marked as disputed; source-dependent claims require review.''),
      (''record_retracted'', ''A retained record is marked as retracted or withdrawn; source-dependent claims require review.''),
      (''record_corrected'', ''A retained record is marked as corrected; source-dependent claims require review.''),
      (''record_review_metadata_invalid'', ''A retained record has malformed review metadata and requires review.''),
      (''record_governance_unresolved'', ''The retained-record governance input exceeds the bounded policy; public Archive access is unavailable.'')]"

definition WARNINGS :: "(string \<times> string) list" where
  "WARNINGS =
     [(''catalogue_is_not_scientific_acceptance'', ''Catalogue eligibility does not establish scientific acceptance or ML-training eligibility.''),
      (''source_status_unknown'', ''Current source status is unknown; active publication status has not been established.''),
      (''source_status_incomplete'', ''Current status is unknown for one or more linked sources.''),
      (''legacy_status_unspecified'', ''The legacy material status is unspecified; no approval is inferred.''),
      (''archive_only'', ''Archive material is retained for traceability and is excluded from the default public catalogue.''),
      (''parent_review_hold'', ''This material inherits a visibility hold from its parent.''),
      (''archive_access_unresolved'', ''Public Archive access is unavailable until provenance restrictions can be resolved.'')]"

record vis_env =
  ve_digest :: "pyval \<Rightarrow> string"
  ve_iso :: "pyval \<Rightarrow> string option"
  ve_str :: "pyval \<Rightarrow> (py_error, string) res"

section \<open>Sources, anomalies, retained records\<close>

definition token :: "pyval \<Rightarrow> string option" where
  "token v = (if is_str v \<and> length (str_of v) \<le> 200 then Some (py_lower (py_strip (str_of v))) else None)"

definition token_in :: "string option \<Rightarrow> string list \<Rightarrow> bool" where
  "token_in t xs = (case t of None \<Rightarrow> False | Some s \<Rightarrow> s \<in> set xs)"

definition normalize_source_status :: "pyval \<Rightarrow> string" where
  "normalize_source_status v =
     (let t = token (lifecycle_status v)
      in if token_in t [''active'', ''published''] then ''active''
         else if token_in t [''retracted'', ''withdrawn''] then ''retracted''
         else if t = Some ''corrected'' then ''corrected'' else ''unknown'')"

definition is_disputed :: "pyval \<Rightarrow> bool" where
  "is_disputed v = (token (lifecycle_status v) = Some ''disputed'')"

text \<open>An identity tuple: normalized status, dispute flag, and the envelope digest if there is one.\<close>

type_synonym source_identity = "string \<times> bool \<times> string list"

definition identity :: "vis_env \<Rightarrow> pyval \<Rightarrow> source_identity" where
  "identity env v =
     (normalize_source_status v, is_disputed v,
      if lifecycle_review_required v then [ve_digest env (lifecycle_fingerprint v)] else [])"

fun identity_py :: "source_identity \<Rightarrow> pyval list" where
  "identity_py (s, d, h) = PStr s # PBool d # map PStr h"

record source_state =
  aggregate :: string
  states :: "string set"
  snapshot :: "pyval list"
  malformed :: bool

definition unknown_sources :: "bool \<Rightarrow> source_state" where
  "unknown_sources bad = \<lparr>aggregate = ''unknown'', states = {''unknown''}, snapshot = [], malformed = bad\<rparr>"

definition summarize_sources :: "pyval list \<Rightarrow> pyval list \<Rightarrow> bool \<Rightarrow> source_state" where
  "summarize_sources vs snap bad =
     (let normalized = (if vs = [] then {''unknown''} else normalize_source_status ` set vs)
      in \<lparr>aggregate = (if card normalized = 1 then (if vs = [] then ''unknown'' else normalize_source_status (hd vs))
                      else ''mixed''),
          states = normalized \<union> (if \<exists>v \<in> set vs. is_disputed v then {''disputed''} else {})
                   \<union> (if \<exists>v \<in> set vs. lifecycle_review_required v then {''lifecycle_review_required''} else {}),
          snapshot = snap,
          malformed = (bad \<or> (\<exists>v \<in> set vs. v \<noteq> PNone \<and> \<not> is_str v \<and> \<not> is_mapping v))\<rparr>)"

definition key_digest :: "vis_env \<Rightarrow> pyval \<Rightarrow> string" where
  "key_digest env k = (if is_str k \<and> length (str_of k) \<le> 500 then ve_digest env k else ''invalid-id'')"

fun source_state_of :: "vis_env \<Rightarrow> pyval \<Rightarrow> source_state" where
  "source_state_of env PNone = unknown_sources False"
| "source_state_of env (PDict kvs) =
     (if length kvs > SOURCE_LIMIT then unknown_sources True
      else summarize_sources (map snd kvs)
        (map (\<lambda>(k, i). PTuple (PStr k # identity_py i)) (sort (map (\<lambda>(k, v). (key_digest env k, identity env v)) kvs)))
        (\<exists>(k, v) \<in> set kvs. \<not> is_str k \<or> str_of k = [] \<or> length (str_of k) > 500))"
| "source_state_of env (PList vs) =
     (if length vs > SOURCE_LIMIT then unknown_sources True
      else summarize_sources vs (map (\<lambda>i. PTuple (identity_py i)) (sort (map (identity env) vs))) False)"
| "source_state_of env (PTuple vs) =
     (if length vs > SOURCE_LIMIT then unknown_sources True
      else summarize_sources vs (map (\<lambda>i. PTuple (identity_py i)) (sort (map (identity env) vs))) False)"
| "source_state_of env _ = unknown_sources True"

definition pget_default :: "pyval \<Rightarrow> string \<Rightarrow> pyval \<Rightarrow> pyval" where
  "pget_default v k d = (if phas v k then pget v k else d)"

definition count_ok :: "pyval \<Rightarrow> bool" where
  "count_ok v = (type_is_int v \<and> 0 \<le> int_of v \<and> int_of v \<le> 10 ^ 9)"

definition anomaly_count_keys :: "string list" where
  "anomaly_count_keys = [''no_findings'', ''review_required'', ''format_invalid'', ''total_records'']"

definition anomaly_state :: "vis_env \<Rightarrow> pyval \<Rightarrow> string \<times> pyval" where
  "anomaly_state env v =
     (let invalid = (''invalid'', PDict []);
          cnts = pget_default v ''counts'' (PDict []);
          rules = pget_default v ''rule_counts'' (PDict []);
          year = pget v ''evaluation_year'';
          count = (\<lambda>k. pget_default cnts k (PInt 0))
      in if v = PNone then (''unavailable'', PDict [])
         else if \<not> is_mapping v \<or> pget v ''version'' \<noteq> PStr ANOMALY_POLICY_VERSION \<or> \<not> is_bool (pget v ''needs_review'') then invalid
         else if \<not> is_mapping cnts then invalid
         else if \<not> list_all (\<lambda>k. count_ok (count k)) anomaly_count_keys then invalid
         else if int_of (count ''review_required'') + int_of (count ''format_invalid'') \<noteq> 0 \<and> pget v ''needs_review'' = PBool False then invalid
         else if \<not> is_mapping rules \<or> length (pkeys rules) > 200 then invalid
         else if \<not> list_all (\<lambda>(r, n). is_str r \<and> length (str_of r) \<le> 100 \<and> count_ok n) (case rules of PDict kvs \<Rightarrow> kvs | _ \<Rightarrow> []) then invalid
         else if year \<noteq> PNone \<and> \<not> (type_is_int year \<and> 1 \<le> int_of year \<and> int_of year \<le> 9999) then invalid
         else (if pget v ''needs_review'' = PBool True then ''pending'' else ''clear'',
               PDict [(PStr ''version'', PStr ANOMALY_POLICY_VERSION), (PStr ''evaluation_year'', year),
                      (PStr ''needs_review'', pget v ''needs_review''),
                      (PStr ''counts'', PDict (map (\<lambda>k. (PStr k, count k)) anomaly_count_keys)),
                      (PStr ''rule_counts'', PDict (map (\<lambda>(r, n). (PStr (ve_digest env r), n))
                         (case rules of PDict kvs \<Rightarrow> kvs | _ \<Rightarrow> [])))]))"

definition quarantine_note :: "pyval \<Rightarrow> bool" where
  "quarantine_note v = (is_str v \<and> startswith (py_lower (take 200 (py_lstrip (str_of v)))) ''provenance_quarantine'')"

definition code_if :: "bool \<Rightarrow> string \<Rightarrow> string set" where
  "code_if b code = (if b then {code} else {})"

definition record_flags :: "pyval \<Rightarrow> string set" where
  "record_flags record =
     (let statuses = (\<lambda>xs. \<exists>k \<in> {''status'', ''review_status'', ''source_status'', ''validity_status''}. token_in (token (pget record k)) xs)
      in code_if (quarantine_note (pget record ''review_reason'')
               \<or> token_in (token (pget record ''provenance_status'')) [''quarantined'', ''quarantine'']
               \<or> statuses [''quarantined'', ''provenance_quarantined'']) ''record_provenance_quarantined''
         \<union> code_if (pget record ''retracted'' = PBool True \<or> statuses [''retracted'', ''withdrawn'']) ''record_retracted''
         \<union> code_if (pget record ''disputed'' = PBool True \<or> statuses [''disputed'', ''refuted'']) ''record_disputed''
         \<union> code_if (pget record ''corrected'' = PBool True \<or> statuses [''corrected'']) ''record_corrected''
         \<union> code_if (pget record ''needs_review'' = PBool True
               \<or> statuses [''pending'', ''needs_review'', ''under_review'', ''unreviewed'', ''excluded'', ''rejected''])
             ''record_review_required''
         \<union> code_if (\<exists>k \<in> {''needs_review'', ''disputed'', ''retracted'', ''corrected''}.
                   pget record k \<noteq> PNone \<and> \<not> is_bool (pget record k)) ''record_review_metadata_invalid'')"

definition record_governance_list :: "pyval list \<Rightarrow> string set" where
  "record_governance_list records =
     (if length records > SOURCE_LIMIT then {''record_governance_unresolved''}
      else \<Union> (record_flags ` {r \<in> set records. is_mapping r}))"

fun record_governance :: "pyval \<Rightarrow> string set" where
  "record_governance (PList records) = record_governance_list records"
| "record_governance (PTuple records) = record_governance_list records"
| "record_governance _ = {}"

section \<open>Visibility of one material\<close>

definition known_statuses :: "string list" where
  "known_statuses =
     [''active'', ''active_research'', ''retracted'', ''withdrawn'', ''disputed'', ''refuted'', ''corrected'',
      ''pending'', ''needs_review'', ''under_review'', ''quarantined'', ''provenance_quarantined'']"

definition material_quarantine :: "pyval \<Rightarrow> bool" where
  "material_quarantine m =
     (quarantine_note (pget m ''review_reason'') \<or>
      token_in (token (pget m ''status'')) [''quarantined'', ''provenance_quarantined''])"

definition status_missing :: "pyval \<Rightarrow> bool" where
  "status_missing m = (pget m ''status'' = PNone \<or> pget m ''status'' = PStr [])"

definition material_reasons :: "pyval \<Rightarrow> string set" where
  "material_reasons m =
     (let status = token (pget m ''status'')
      in code_if (material_quarantine m) ''provenance_quarantined''
         \<union> record_governance (pget m ''records'')
         \<union> code_if (pget m ''retracted'' = PBool True \<or> token_in status [''retracted'', ''withdrawn'']) ''material_retracted''
         \<union> code_if (pget m ''disputed'' = PBool True \<or> token_in status [''disputed'', ''refuted'']) ''material_disputed''
         \<union> code_if (status = Some ''corrected'') ''material_corrected''
         \<union> code_if (pget m ''needs_review'' = PBool True \<or> token_in status [''pending'', ''needs_review'', ''under_review''])
             ''material_review_required''
         \<union> code_if (\<exists>k \<in> {''needs_review'', ''disputed'', ''retracted''}. pget m k \<noteq> PNone \<and> \<not> is_bool (pget m k))
             ''review_metadata_invalid''
         \<union> code_if (\<not> status_missing m \<and> \<not> token_in status known_statuses) ''review_status_unknown'')"

definition anomaly_reasons :: "string \<Rightarrow> string set" where
  "anomaly_reasons st =
     (if st = ''pending'' then {''scientific_anomaly_review_required''}
      else if st \<noteq> ''clear'' then {''anomaly_assessment_'' @ st} else {})"

definition source_reasons :: "source_state \<Rightarrow> string set" where
  "source_reasons s =
     code_if (malformed s) ''source_metadata_invalid''
     \<union> code_if (''retracted'' \<in> states s) ''source_retracted''
     \<union> code_if (''corrected'' \<in> states s) ''source_corrected''
     \<union> code_if (''disputed'' \<in> states s) ''source_disputed''
     \<union> code_if (''lifecycle_review_required'' \<in> states s) ''source_lifecycle_review_required''"

definition source_warnings :: "source_state \<Rightarrow> string set" where
  "source_warnings s =
     (if ''unknown'' \<in> states s
      then {if aggregate s = ''unknown'' then ''source_status_unknown'' else ''source_status_incomplete''} else {})"

definition ancestry_code :: "pyval \<Rightarrow> string set" where
  "ancestry_code e =
     (if e = PStr ''missing_parent'' then {''ancestry_missing_parent''}
      else if e = PStr ''cyclic_parent'' then {''ancestry_cycle_detected''}
      else if e = PStr ''depth_exceeded'' then {''ancestry_depth_exceeded''} else {})"

text \<open>The membership test of the state hashes it: a list or a dict there raises \<open>TypeError\<close>.\<close>

definition PARENT_STATES :: "string list" where
  "PARENT_STATES = [''catalogue'', ''pending'', ''disputed'', ''corrected'', ''retracted'', ''quarantined'', ''unknown'']"

definition valid_parent :: "pyval \<Rightarrow> (py_error, bool) res" where
  "valid_parent p =
     (if \<not> (is_mapping p \<and> pget p ''version'' = PStr MATERIAL_VISIBILITY_VERSION \<and>
         is_bool (pget p ''public_catalogue_eligible'') \<and> is_bool (pget p ''archive_available'')) then Inr False
      else rbind (in_str_set (pget p ''state'') PARENT_STATES) (\<lambda>known. Inr (known \<and>
        pget p ''public_catalogue_eligible'' = PBool (pget p ''state'' = PStr ''catalogue'') \<and>
        (pget p ''archive_available'' = PBool (pget p ''state'' \<noteq> PStr ''quarantined'') \<or>
         pget p ''archive_available'' = PBool False \<and>
         (case pget p ''reason_codes'' of
            PList cs \<Rightarrow> \<exists>c \<in> set cs. c = PStr ''ancestry_provenance_unresolved'' \<or> c = PStr ''record_governance_unresolved''
          | _ \<Rightarrow> False)) \<and>
        is_str (pget p ''review_revision'') \<and> length (str_of (pget p ''review_revision'')) \<le> 100)))"

record parent_part =
  pp_reasons :: "string set"
  pp_hold :: bool
  pp_quarantine :: bool
  pp_unresolved :: bool
  pp_snapshot :: pyval

definition parent_keys :: "string list" where
  "parent_keys = [''version'', ''state'', ''public_catalogue_eligible'', ''archive_available'', ''review_revision'']"

definition parent_effect :: "pyval \<Rightarrow> pyval \<Rightarrow> pyval \<Rightarrow> parent_part" where
  "parent_effect m parent err =
     (let start = (err \<noteq> PNone);
          none = \<lparr>pp_reasons = {}, pp_hold = False, pp_quarantine = False, pp_unresolved = start, pp_snapshot = PNone\<rparr>
      in if parent \<noteq> PNone
         then if valid_parent parent \<noteq> Inr True
              then none\<lparr>pp_reasons := {''parent_visibility_unavailable''}, pp_unresolved := True\<rparr>
              else let snap = PDict (map (\<lambda>k. (PStr k, pget parent k)) parent_keys)
                   in if pget parent ''state'' = PStr ''quarantined''
                      then none\<lparr>pp_reasons := {''parent_provenance_quarantined''}, pp_quarantine := True, pp_snapshot := snap\<rparr>
                      else if pget parent ''archive_available'' = PBool False
                      then none\<lparr>pp_unresolved := True, pp_snapshot := snap\<rparr>
                      else if pget parent ''public_catalogue_eligible'' = PBool False
                      then none\<lparr>pp_reasons := {''parent_review_hold''}, pp_hold := True, pp_snapshot := snap\<rparr>
                      else none\<lparr>pp_snapshot := snap\<rparr>
         else if truthy (pget m ''parent_material_id'') \<and> \<not> start
         then none\<lparr>pp_reasons := {''parent_visibility_unavailable''}, pp_unresolved := True\<rparr>
         else none)"

definition state_of :: "bool \<Rightarrow> string set \<Rightarrow> string set \<Rightarrow> string set \<Rightarrow> string" where
  "state_of quarantine source_states record_reasons reasons =
     (if quarantine then ''quarantined''
      else if ''material_retracted'' \<in> reasons \<or> source_states - {''lifecycle_review_required''} = {''retracted''} then ''retracted''
      else if {''material_disputed'', ''source_disputed''} \<inter> reasons \<noteq> {} then ''disputed''
      else if {''material_corrected'', ''source_corrected''} \<inter> reasons \<noteq> {} then ''corrected''
      else if {''material_review_required'', ''scientific_anomaly_review_required'', ''source_retracted'',
               ''source_lifecycle_review_required'', ''parent_review_hold''} \<inter> reasons \<noteq> {}
           \<or> record_reasons - {''record_governance_unresolved'', ''record_provenance_quarantined''} \<noteq> {} then ''pending''
      else if reasons \<noteq> {} then ''unknown''
      else ''catalogue'')"

record visibility =
  vis_state :: string
  eligible :: bool
  archive_available :: bool
  reason_codes :: "string list"
  warning_codes :: "string list"
  reason_messages :: "string list"
  warning_messages :: "string list"
  review_revision :: string
  source_status :: string

definition lookup_message :: "(string \<times> string) list \<Rightarrow> string \<Rightarrow> (py_error, string) res" where
  "lookup_message tab code = (case map_of tab code of None \<Rightarrow> Inl KeyError | Some msg \<Rightarrow> Inr msg)"

definition governance_status :: "pyval \<Rightarrow> string" where
  "governance_status m =
     (case token (pget m ''status'') of
        Some t \<Rightarrow> if t \<in> set known_statuses then t else if status_missing m then ''unspecified'' else ''unknown''
      | None \<Rightarrow> if status_missing m then ''unspecified'' else ''unknown'')"

definition bool_or_none :: "pyval \<Rightarrow> pyval" where
  "bool_or_none v = (if is_bool v then v else PNone)"

definition updated_at_text :: "vis_env \<Rightarrow> pyval \<Rightarrow> pyval" where
  "updated_at_text env v =
     (case ve_iso env v of Some t \<Rightarrow> PStr t
      | None \<Rightarrow> if is_str v then PStr (take 100 (str_of v)) else PNone)"

definition visibility_snapshot ::
  "vis_env \<Rightarrow> pyval \<Rightarrow> string \<Rightarrow> string \<Rightarrow> string list \<Rightarrow> string list \<Rightarrow> pyval \<Rightarrow> pyval list \<Rightarrow> pyval \<Rightarrow> pyval" where
  "visibility_snapshot env m ident st rs ws anomaly sources parent =
     PDict [(PStr ''version'', PStr MATERIAL_VISIBILITY_VERSION), (PStr ''state'', PStr st),
       (PStr ''material_identity'',
          PStr (ve_digest env (PStr (take 500 ident)))),
       (PStr ''material_updated_at'', updated_at_text env (pget m ''updated_at'')),
       (PStr ''governance'', PDict [(PStr ''status'', PStr (governance_status m)),
          (PStr ''needs_review'', bool_or_none (pget m ''needs_review'')),
          (PStr ''disputed'', bool_or_none (pget m ''disputed'')),
          (PStr ''retracted'', bool_or_none (pget m ''retracted''))]),
       (PStr ''reason_codes'', PList (map PStr rs)), (PStr ''warning_codes'', PList (map PStr ws)),
       (PStr ''anomaly'', anomaly), (PStr ''sources'', PList sources), (PStr ''parent'', parent)]"

text \<open>The reasons, the quarantine flag and the ancestry flag before the state is chosen.\<close>

record assessment =
  as_reasons :: "string set"
  as_quarantine :: bool
  as_unresolved :: bool
  as_parent :: parent_part
  as_sources :: source_state
  as_anomaly :: pyval

definition assess :: "vis_env \<Rightarrow> pyval \<Rightarrow> pyval \<Rightarrow> pyval \<Rightarrow> pyval \<Rightarrow> pyval \<Rightarrow> assessment" where
  "assess env m anomaly sources parent err =
     (let (ast, asnap) = anomaly_state env anomaly;
          ss = source_state_of env sources;
          pp = parent_effect m parent err;
          own = material_reasons m
      in \<lparr>as_reasons = own \<union> anomaly_reasons ast \<union> source_reasons ss
            \<union> code_if (err \<noteq> PNone) ''ancestry_provenance_unresolved'' \<union> ancestry_code err
            \<union> pp_reasons pp \<union> code_if (pp_unresolved pp) ''ancestry_provenance_unresolved'',
          as_quarantine = (material_quarantine m \<or> ''record_provenance_quarantined'' \<in> own \<or> pp_quarantine pp),
          as_unresolved = pp_unresolved pp, as_parent = pp, as_sources = ss, as_anomaly = asnap\<rparr>)"

definition assessed_state :: "pyval \<Rightarrow> assessment \<Rightarrow> string" where
  "assessed_state m a =
     state_of (as_quarantine a) (states (as_sources a)) (record_governance (pget m ''records'')) (as_reasons a)"

definition archive_ok :: "assessment \<Rightarrow> string \<Rightarrow> bool" where
  "archive_ok a st = (st \<noteq> ''quarantined'' \<and> \<not> as_unresolved a \<and> ''record_governance_unresolved'' \<notin> as_reasons a)"

definition warnings_of :: "pyval \<Rightarrow> assessment \<Rightarrow> string \<Rightarrow> string set" where
  "warnings_of m a st =
     {''catalogue_is_not_scientific_acceptance''}
     \<union> code_if (status_missing m) ''legacy_status_unspecified''
     \<union> source_warnings (as_sources a)
     \<union> code_if (pp_hold (as_parent a)) ''parent_review_hold''
     \<union> (if archive_ok a st \<and> st \<noteq> ''catalogue'' then {''archive_only''}
        else if \<not> archive_ok a st \<and> st \<noteq> ''quarantined'' then {''archive_access_unresolved''} else {})"

definition parent_check :: "pyval \<Rightarrow> (py_error, bool) res" where
  "parent_check parent = (if parent = PNone then Inr False else valid_parent parent)"

definition material_id_text :: "vis_env \<Rightarrow> pyval \<Rightarrow> (py_error, string) res" where
  "material_id_text env m = ve_str env (pget_default m ''id'' (PStr ''unknown-material''))"

definition visibility_for_material ::
  "vis_env \<Rightarrow> pyval \<Rightarrow> pyval \<Rightarrow> pyval \<Rightarrow> pyval \<Rightarrow> pyval \<Rightarrow> (py_error, visibility) res" where
  "visibility_for_material env m anomaly sources parent err =
     rbind (parent_check parent) (\<lambda>_.
     (let a = assess env m anomaly sources parent err;
          st = assessed_state m a;
          rs = sorted_list_of_set (as_reasons a);
          ws = sorted_list_of_set (warnings_of m a st)
      in rbind (material_id_text env m) (\<lambda>ident.
         rbind (rmapM (lookup_message REASONS) rs) (\<lambda>rmsgs.
         rbind (rmapM (lookup_message WARNINGS) ws) (\<lambda>wmsgs.
         Inr \<lparr>vis_state = st, eligible = (st = ''catalogue''), archive_available = archive_ok a st,
              reason_codes = rs, warning_codes = ws, reason_messages = rmsgs, warning_messages = wmsgs,
              review_revision = ve_digest env (visibility_snapshot env m ident st rs ws (as_anomaly a)
                 (snapshot (as_sources a)) (pp_snapshot (as_parent a))),
              source_status = aggregate (as_sources a)\<rparr>)))))"

text \<open>The DTO as the mapping that is returned, stored and passed on as a parent.\<close>

definition visibility_dto :: "visibility \<Rightarrow> pyval" where
  "visibility_dto v =
     PDict [(PStr ''version'', PStr MATERIAL_VISIBILITY_VERSION), (PStr ''state'', PStr (vis_state v)),
       (PStr ''public_catalogue_eligible'', PBool (eligible v)),
       (PStr ''archive_available'', PBool (archive_available v)),
       (PStr ''scientific_acceptance'', PBool False),
       (PStr ''reason_codes'', PList (map PStr (reason_codes v))),
       (PStr ''warning_codes'', PList (map PStr (warning_codes v))),
       (PStr ''reason_messages'', PList (map PStr (reason_messages v))),
       (PStr ''warning_messages'', PList (map PStr (warning_messages v))),
       (PStr ''review_revision'', PStr (review_revision v)), (PStr ''source_status'', PStr (source_status v))]"

definition visibility_allows_view :: "pyval \<Rightarrow> pyval \<Rightarrow> (py_error, bool) res" where
  "visibility_allows_view v include_archive =
     (if pget v ''version'' \<noteq> PStr MATERIAL_VISIBILITY_VERSION then Inr False
      else rbind (in_str_set (pget v ''state'') [''catalogue'', ''pending'', ''disputed'', ''corrected'', ''retracted'', ''unknown'']) (\<lambda>known.
        Inr (known \<and> pget v ''archive_available'' = PBool True \<and>
          (include_archive = PBool True \<or>
           pget v ''state'' = PStr ''catalogue'' \<and> pget v ''public_catalogue_eligible'' = PBool True))))"

fun join_words :: "string list \<Rightarrow> string" where
  "join_words [] = []"
| "join_words [w] = w"
| "join_words (w # v # ws) = w @ '' '' @ join_words (v # ws)"

definition safe_public_review_reason :: "pyval \<Rightarrow> string option" where
  "safe_public_review_reason v =
     (case pget_default v ''reason_codes'' (PList []) of
        PList cs \<Rightarrow>
          (let known = sorted_list_of_set (str_of ` {c \<in> set cs. is_str c \<and> str_of c \<in> fst ` set REASONS});
               text = take 1000 (join_words (map (\<lambda>c. the (map_of REASONS c)) known))
           in if text = [] then None else Some text)
      | _ \<Rightarrow> None)"

section \<open>Every code has a message\<close>

definition reason_known :: "string \<Rightarrow> bool" where
  "reason_known c \<longleftrightarrow> c \<in> fst ` set REASONS"

definition warning_known :: "string \<Rightarrow> bool" where
  "warning_known c \<longleftrightarrow> c \<in> fst ` set WARNINGS"

lemma reason_fsts: "map fst REASONS =
     [''provenance_quarantined'',
      ''parent_provenance_quarantined'',
      ''material_retracted'',
      ''material_disputed'',
      ''material_corrected'',
      ''source_lifecycle_review_required'',
      ''material_review_required'',
      ''scientific_anomaly_review_required'',
      ''source_retracted'',
      ''source_corrected'',
      ''source_disputed'',
      ''review_status_unknown'',
      ''review_metadata_invalid'',
      ''anomaly_assessment_unavailable'',
      ''anomaly_assessment_invalid'',
      ''source_metadata_invalid'',
      ''parent_review_hold'',
      ''parent_visibility_unavailable'',
      ''ancestry_provenance_unresolved'',
      ''ancestry_missing_parent'',
      ''ancestry_cycle_detected'',
      ''ancestry_depth_exceeded'',
      ''record_provenance_quarantined'',
      ''record_review_required'',
      ''record_disputed'',
      ''record_retracted'',
      ''record_corrected'',
      ''record_review_metadata_invalid'',
      ''record_governance_unresolved'']"
  by (simp only: REASONS_def list.map fst_conv)

lemma all_reasons_known: "list_all reason_known (map fst REASONS)"
  by (simp add: list_all_iff reason_known_def)

lemmas reason_codes_known [simp] = all_reasons_known [unfolded reason_fsts list.pred_inject simp_thms]

lemma warning_fsts: "map fst WARNINGS =
     [''catalogue_is_not_scientific_acceptance'',
      ''source_status_unknown'',
      ''source_status_incomplete'',
      ''legacy_status_unspecified'',
      ''archive_only'',
      ''parent_review_hold'',
      ''archive_access_unresolved'']"
  by (simp only: WARNINGS_def list.map fst_conv)

lemma all_warnings_known: "list_all warning_known (map fst WARNINGS)"
  by (simp add: list_all_iff warning_known_def)

lemmas warning_codes_known [simp] = all_warnings_known [unfolded warning_fsts list.pred_inject simp_thms]

lemma code_if_iff [simp]: "c \<in> code_if b d \<longleftrightarrow> b \<and> c = d"
  by (simp add: code_if_def)

lemma finite_code_if [simp]: "finite (code_if b d)"
  by (simp add: code_if_def)

lemma record_flags_known: "c \<in> record_flags r \<Longrightarrow> reason_known c"
  unfolding record_flags_def Let_def by (elim UnE) simp_all

lemma record_governance_known: "c \<in> record_governance v \<Longrightarrow> reason_known c"
proof -
  have "c \<in> record_governance_list rs \<Longrightarrow> reason_known c" for rs
    using record_flags_known by (auto simp: record_governance_list_def split: if_splits)
  then show "c \<in> record_governance v \<Longrightarrow> reason_known c"
    by (cases v) auto
qed

lemma material_reasons_known: "c \<in> material_reasons m \<Longrightarrow> reason_known c"
  unfolding material_reasons_def Let_def
  by (elim UnE) (simp_all add: record_governance_known)

lemma anomaly_state_cases: "fst (anomaly_state env v) \<in> {''unavailable'', ''invalid'', ''pending'', ''clear''}"
  by (simp add: anomaly_state_def Let_def)

lemma anomaly_reasons_known:
  "st \<in> {''unavailable'', ''invalid'', ''pending'', ''clear''} \<Longrightarrow> c \<in> anomaly_reasons st \<Longrightarrow> reason_known c"
  by (auto simp: anomaly_reasons_def split: if_splits)

lemma source_reasons_known: "c \<in> source_reasons s \<Longrightarrow> reason_known c"
  unfolding source_reasons_def by (elim UnE) simp_all

lemma parent_effect_known: "c \<in> pp_reasons (parent_effect m p e) \<Longrightarrow> reason_known c"
  by (auto simp: parent_effect_def Let_def split: if_splits)

lemma ancestry_code_known: "c \<in> ancestry_code e \<Longrightarrow> reason_known c"
  by (auto simp: ancestry_code_def split: if_splits)

lemma as_reasons_known:
  assumes "c \<in> as_reasons (assess env m an so p e)"
  shows "reason_known c"
proof -
  obtain st sn where an: "anomaly_state env an = (st, sn)" by fastforce
  then have "st \<in> {''unavailable'', ''invalid'', ''pending'', ''clear''}"
    using anomaly_state_cases [of env an] by simp
  then show ?thesis
    using assms an material_reasons_known anomaly_reasons_known [of st] source_reasons_known
      parent_effect_known ancestry_code_known
    unfolding assess_def by (auto simp: Let_def)
qed

lemma finite_as_reasons: "finite (as_reasons (assess env m an so p e))"
proof (rule finite_subset)
  show "as_reasons (assess env m an so p e) \<subseteq> fst ` set REASONS"
    using as_reasons_known by (auto simp: reason_known_def)
qed simp

lemma warnings_known: "c \<in> warnings_of m a st \<Longrightarrow> warning_known c"
  by (auto simp: warnings_of_def source_warnings_def split: if_splits)

lemma finite_warnings: "finite (warnings_of m a st)"
  by (simp add: warnings_of_def source_warnings_def)

lemma lookup_message_known: "c \<in> fst ` set tab \<Longrightarrow> \<exists>msg. lookup_message tab c = Inr msg"
  by (cases "map_of tab c") (auto simp: lookup_message_def map_of_eq_None_iff)

lemma rmapM_exists: "(\<And>x. x \<in> set xs \<Longrightarrow> \<exists>y. f x = Inr y) \<Longrightarrow> \<exists>ys. rmapM f xs = Inr ys"
proof (induction xs)
  case (Cons x xs)
  then obtain y ys where "f x = Inr y" "rmapM f xs = Inr ys" by fastforce
  then show ?case by simp
qed simp

section \<open>Structure of an assessment\<close>

lemma visibility_Inr:
  assumes "visibility_for_material env m an so p e = Inr v"
  shows "vis_state v = assessed_state m (assess env m an so p e)"
    and "eligible v = (vis_state v = ''catalogue'')"
    and "archive_available v = archive_ok (assess env m an so p e) (vis_state v)"
    and "set (reason_codes v) = as_reasons (assess env m an so p e)"
    and "\<exists>x. review_revision v = ve_digest env x"
  using assms finite_as_reasons [of env m an so p e] by (auto simp: visibility_for_material_def Let_def)

lemma assess_fields:
  "as_reasons (assess env m an so p e) =
     material_reasons m \<union> anomaly_reasons (fst (anomaly_state env an)) \<union> source_reasons (source_state_of env so)
     \<union> code_if (e \<noteq> PNone) ''ancestry_provenance_unresolved'' \<union> ancestry_code e
     \<union> pp_reasons (parent_effect m p e) \<union> code_if (pp_unresolved (parent_effect m p e)) ''ancestry_provenance_unresolved''"
  "as_quarantine (assess env m an so p e) =
     (material_quarantine m \<or> ''record_provenance_quarantined'' \<in> material_reasons m \<or> pp_quarantine (parent_effect m p e))"
  "as_unresolved (assess env m an so p e) = pp_unresolved (parent_effect m p e)"
  "as_sources (assess env m an so p e) = source_state_of env so"
  by (simp_all add: assess_def Let_def split: prod.split)

lemma material_quarantine_reason: "material_quarantine m \<Longrightarrow> ''provenance_quarantined'' \<in> material_reasons m"
  unfolding material_reasons_def Let_def by (intro UnI1) simp

lemma parent_quarantine_reason:
  "pp_quarantine (parent_effect m p e) \<Longrightarrow> ''parent_provenance_quarantined'' \<in> pp_reasons (parent_effect m p e)"
  by (auto simp: parent_effect_def Let_def split: if_splits)

lemma quarantine_has_reason:
  "as_quarantine (assess env m an so p e) \<Longrightarrow> as_reasons (assess env m an so p e) \<noteq> {}"
  unfolding assess_fields using material_quarantine_reason parent_quarantine_reason by blast

lemma retracted_sources_reason:
  "states (as_sources (assess env m an so p e)) - {''lifecycle_review_required''} = {''retracted''} \<Longrightarrow>
   ''source_retracted'' \<in> as_reasons (assess env m an so p e)"
  unfolding assess_fields source_reasons_def by auto

lemma record_governance_reason:
  "c \<in> record_governance (pget m ''records'') \<Longrightarrow> c \<in> as_reasons (assess env m an so p e)"
  unfolding assess_fields material_reasons_def Let_def by blast

lemma state_of_catalogue:
  "state_of q ss rr rs = ''catalogue'' \<longleftrightarrow>
     \<not> q \<and> rs = {} \<and> ss - {''lifecycle_review_required''} \<noteq> {''retracted''} \<and>
     rr - {''record_governance_unresolved'', ''record_provenance_quarantined''} = {}"
  by (simp add: state_of_def)

lemma assessed_catalogue_iff:
  "assessed_state m (assess env m an so p e) = ''catalogue'' \<longleftrightarrow> as_reasons (assess env m an so p e) = {}"
  unfolding assessed_state_def state_of_catalogue
  using quarantine_has_reason [of env m an so p e] retracted_sources_reason [of env m an so p e]
    record_governance_reason [of _ m env an so p e] by blast

lemma state_of_values:
  "state_of q ss rr rs \<in> {''catalogue'', ''pending'', ''disputed'', ''corrected'', ''retracted'', ''quarantined'', ''unknown''}"
  by (simp add: state_of_def)

lemma state_of_quarantined: "state_of q ss rr rs = ''quarantined'' \<longleftrightarrow> q"
  by (simp add: state_of_def)

lemma unresolved_reason:
  "as_unresolved (assess env m an so p e) \<Longrightarrow> ''ancestry_provenance_unresolved'' \<in> as_reasons (assess env m an so p e)"
  by (simp add: assess_fields)

lemma dto_get [simp]:
  "is_mapping (visibility_dto v)"
  "pget (visibility_dto v) ''version'' = PStr MATERIAL_VISIBILITY_VERSION"
  "pget (visibility_dto v) ''state'' = PStr (vis_state v)"
  "pget (visibility_dto v) ''public_catalogue_eligible'' = PBool (eligible v)"
  "pget (visibility_dto v) ''archive_available'' = PBool (archive_available v)"
  "pget (visibility_dto v) ''reason_codes'' = PList (map PStr (reason_codes v))"
  "pget (visibility_dto v) ''review_revision'' = PStr (review_revision v)"
  by (simp_all add: visibility_dto_def)

lemma visibility_returns:
  assumes "parent_check p = Inr b" and "material_id_text env m = Inr t"
  shows "\<exists>v. visibility_for_material env m an so p e = Inr v"
proof -
  let ?a = "assess env m an so p e"
  let ?rs = "sorted_list_of_set (as_reasons ?a)"
  let ?ws = "sorted_list_of_set (warnings_of m ?a (assessed_state m ?a))"
  have "\<exists>ys. rmapM (lookup_message REASONS) ?rs = Inr ys"
    using as_reasons_known finite_as_reasons lookup_message_known
    by (intro rmapM_exists) (auto simp: reason_known_def)
  moreover have "\<exists>ys. rmapM (lookup_message WARNINGS) ?ws = Inr ys"
    using warnings_known finite_warnings lookup_message_known
    by (intro rmapM_exists) (auto simp: warning_known_def)
  ultimately show ?thesis using assms by (auto simp: visibility_for_material_def Let_def)
qed

lemma visibility_raises:
  "parent_check p = Inl x \<Longrightarrow> visibility_for_material env m an so p e = Inl x"
  "parent_check p = Inr b \<Longrightarrow> material_id_text env m = Inl x \<Longrightarrow> visibility_for_material env m an so p e = Inl x"
  by (simp_all add: visibility_for_material_def Let_def)

lemma valid_parent_Inr_True:
  "valid_parent p = Inr True \<longleftrightarrow>
     is_mapping p \<and> pget p ''version'' = PStr MATERIAL_VISIBILITY_VERSION \<and>
     is_bool (pget p ''public_catalogue_eligible'') \<and> is_bool (pget p ''archive_available'') \<and>
     pget p ''state'' \<in> PStr ` set PARENT_STATES \<and>
     pget p ''public_catalogue_eligible'' = PBool (pget p ''state'' = PStr ''catalogue'') \<and>
     (pget p ''archive_available'' = PBool (pget p ''state'' \<noteq> PStr ''quarantined'') \<or>
      pget p ''archive_available'' = PBool False \<and>
      (case pget p ''reason_codes'' of
         PList cs \<Rightarrow> \<exists>c \<in> set cs. c = PStr ''ancestry_provenance_unresolved'' \<or> c = PStr ''record_governance_unresolved''
       | _ \<Rightarrow> False)) \<and>
     is_str (pget p ''review_revision'') \<and> length (str_of (pget p ''review_revision'')) \<le> 100"
  by (auto simp: valid_parent_def in_str_set_def)

lemma parent_check_cases:
  "parent_check p = (if is_mapping p \<and> pget p ''version'' = PStr MATERIAL_VISIBILITY_VERSION \<and> is_bool (pget p ''public_catalogue_eligible'') \<and>
       is_bool (pget p ''archive_available'') \<and> \<not> hashable (pget p ''state'') then Inl TypeError else Inr (valid_parent p = Inr True))"
  by (auto simp: parent_check_def valid_parent_def in_str_set_def)

lemma eligible_parts:
  assumes "visibility_for_material env m an so p e = Inr v" and "eligible v"
  shows "pget m ''retracted'' \<noteq> PBool True \<and> pget m ''disputed'' \<noteq> PBool True \<and> pget m ''needs_review'' \<noteq> PBool True"
    and "states (source_state_of env so) \<inter> {''retracted'', ''corrected'', ''disputed'', ''lifecycle_review_required''} = {}"
    and "fst (anomaly_state env an) = ''clear''"
    and "record_governance (pget m ''records'') = {}"
    and "e = PNone \<and> (p = PNone \<and> \<not> truthy (pget m ''parent_material_id'') \<or>
           valid_parent p = Inr True \<and> pget p ''state'' = PStr ''catalogue'')"
proof -
  let ?a = "assess env m an so p e"
  have none: "as_reasons ?a = {}"
    using visibility_Inr(1,2) [OF assms(1)] assms(2) assessed_catalogue_iff by simp
  from none have parts: "material_reasons m = {}" "anomaly_reasons (fst (anomaly_state env an)) = {}" "source_reasons (source_state_of env so) = {}"
      "e = PNone" "pp_reasons (parent_effect m p e) = {}" "\<not> pp_unresolved (parent_effect m p e)"
    by (auto simp: assess_fields code_if_def split: if_splits)
  have mat: "c \<notin> material_reasons m" for c using parts(1) by simp
  show "pget m ''retracted'' \<noteq> PBool True \<and> pget m ''disputed'' \<noteq> PBool True \<and> pget m ''needs_review'' \<noteq> PBool True"
    using mat [of "''material_retracted''"] mat [of "''material_disputed''"] mat [of "''material_review_required''"]
    by (simp add: material_reasons_def Let_def)
  show "states (source_state_of env so) \<inter> {''retracted'', ''corrected'', ''disputed'', ''lifecycle_review_required''} = {}"
    using parts(3) by (auto simp: source_reasons_def code_if_def split: if_splits)
  show "fst (anomaly_state env an) = ''clear''"
    using parts(2) by (auto simp: anomaly_reasons_def split: if_splits)
  show "record_governance (pget m ''records'') = {}"
    using parts(1) by (simp add: material_reasons_def Let_def)
  show "e = PNone \<and> (p = PNone \<and> \<not> truthy (pget m ''parent_material_id'') \<or>
           valid_parent p = Inr True \<and> pget p ''state'' = PStr ''catalogue'')"
    using parts(4-6) by (auto simp: parent_effect_def Let_def valid_parent_Inr_True split: if_splits)
qed

section \<open>Properties\<close>

text \<open>
  C3. When the visibility computation returns, when it raises, and what decides its verdict. It
  raises \<open>TypeError\<close> exactly for a parent DTO of the right version and flags whose state is
  unhashable, and otherwise raises only what \<open>str()\<close> raises on the identifier of the material;
  on every other input it returns a DTO (each reason and warning code has its message, no lookup
  fails), and the material is eligible for the public catalogue exactly when no reason was
  recorded.
\<close>
theorem visibility_catalogue_iff_no_reason:
  "case visibility_for_material env m an so p e of
     Inl x \<Rightarrow> (if is_mapping p \<and> pget p ''version'' = PStr MATERIAL_VISIBILITY_VERSION \<and> is_bool (pget p ''public_catalogue_eligible'') \<and>
            is_bool (pget p ''archive_available'') \<and> \<not> hashable (pget p ''state'') then x = TypeError
          else material_id_text env m = Inl x)
   | Inr v \<Rightarrow> \<not> (is_mapping p \<and> pget p ''version'' = PStr MATERIAL_VISIBILITY_VERSION \<and> is_bool (pget p ''public_catalogue_eligible'') \<and>
            is_bool (pget p ''archive_available'') \<and> \<not> hashable (pget p ''state'')) \<and> (\<exists>t. material_id_text env m = Inr t) \<and>
        (eligible v \<longleftrightarrow> reason_codes v = []) \<and> (eligible v \<longleftrightarrow> vis_state v = ''catalogue'')"
proof (cases "parent_check p")
  case (Inl x)
  then show ?thesis using visibility_raises(1) [OF Inl] by (auto simp: parent_check_cases split: if_splits)
next
  case (Inr b)
  note bad = Inr [unfolded parent_check_cases]
  show ?thesis
  proof (cases "material_id_text env m")
    case (Inl x)
    then show ?thesis using visibility_raises(2) [OF Inr Inl, of an so e] bad by (auto split: if_splits)
  next
    case t: (Inr t)
    obtain v where v: "visibility_for_material env m an so p e = Inr v" using visibility_returns [OF Inr t] by blast
    note f = visibility_Inr [OF v]
    have "eligible v \<longleftrightarrow> reason_codes v = []"
      using f(1,2,4) assessed_catalogue_iff [of m env an so p e] by (metis set_empty)
    then show ?thesis using v f(2) bad t by (auto split: if_splits)
  qed
qed

text \<open>
  C19. What public catalogue eligibility guarantees: the material carries no retraction,
  dispute or review flag, no listed source is retracted, corrected or disputed and none
  carries a lifecycle envelope, the anomaly assessment is current and clear, no retained
  record is flagged, and the parent, if one is declared, is itself resolved and eligible.
\<close>
theorem visibility_eligible_is_clean:
  assumes "visibility_for_material env m an so p e = Inr v" and "eligible v"
  shows "pget m ''retracted'' \<noteq> PBool True \<and> pget m ''disputed'' \<noteq> PBool True \<and> pget m ''needs_review'' \<noteq> PBool True \<and>
    states (source_state_of env so) \<inter> {''retracted'', ''corrected'', ''disputed'', ''lifecycle_review_required''} = {} \<and>
    fst (anomaly_state env an) = ''clear'' \<and> record_governance (pget m ''records'') = {} \<and>
    e = PNone \<and> (p = PNone \<and> \<not> truthy (pget m ''parent_material_id'') \<or>
      valid_parent p = Inr True \<and> pget p ''state'' = PStr ''catalogue'')"
  using eligible_parts [OF assms] by blast

text \<open>
  Every DTO the function returns is accepted as a parent DTO, provided the digest is at
  most 100 characters: the parent check never rejects a resolved ancestor.
\<close>
theorem visibility_dto_valid_parent:
  assumes "visibility_for_material env m an so p e = Inr v" and "\<forall>x. length (ve_digest env x) \<le> 100"
  shows "valid_parent (visibility_dto v) = Inr True"
proof -
  note f = visibility_Inr [OF assms(1)]
  let ?a = "assess env m an so p e"
  have st: "vis_state v \<in> {''catalogue'', ''pending'', ''disputed'', ''corrected'', ''retracted'', ''quarantined'', ''unknown''}"
    using f(1) state_of_values by (simp only: assessed_state_def)
  have arch: "archive_available v = (vis_state v \<noteq> ''quarantined'') \<or>
      \<not> archive_available v \<and> (''ancestry_provenance_unresolved'' \<in> set (reason_codes v) \<or>
         ''record_governance_unresolved'' \<in> set (reason_codes v))"
    using f(3,4) unresolved_reason [of env m an so p e] by (auto simp: archive_ok_def)
  have "length (review_revision v) \<le> 100" using f(5) assms(2) by auto
  with st arch f(2) show ?thesis
    unfolding valid_parent_Inr_True PARENT_STATES_def by (auto simp: image_iff)
qed

text \<open>
  C27. Provenance quarantine is inherited and never bypassed: a child whose parent DTO is
  quarantined is quarantined, and no view of it is allowed, with or without the archive
  option.
\<close>
theorem visibility_quarantine_inherited:
  assumes "visibility_for_material env m an so p e = Inr v"
    and "valid_parent p = Inr True" and "pget p ''state'' = PStr ''quarantined''"
  shows "vis_state v = ''quarantined'' \<and> visibility_allows_view (visibility_dto v) include_archive = Inr False"
proof -
  have "p \<noteq> PNone" using assms(2) by (auto simp: valid_parent_Inr_True)
  then have "as_quarantine (assess env m an so p e)"
    using assms(2,3) by (simp add: assess_fields parent_effect_def Let_def)
  then have "vis_state v = ''quarantined''"
    using visibility_Inr(1) [OF assms(1)] by (simp add: assessed_state_def state_of_quarantined)
  then show ?thesis by (simp add: visibility_allows_view_def)
qed

section \<open>Concrete materials\<close>

definition demo_env :: vis_env where
  "demo_env = \<lparr>ve_digest = (\<lambda>_. ''d''), ve_iso = (\<lambda>_. None), ve_str = (\<lambda>v. Inr (str_of v))\<rparr>"

definition demo_material :: pyval where
  "demo_material = PDict [(PStr ''id'', PStr ''mat:mgb2''), (PStr ''status'', PStr ''active'')]"

definition demo_anomaly :: pyval where
  "demo_anomaly = PDict [(PStr ''version'', PStr ANOMALY_POLICY_VERSION), (PStr ''needs_review'', PBool False)]"

definition demo_sources :: pyval where
  "demo_sources = PList [PStr ''published'']"

definition demo_parent :: pyval where
  "demo_parent = PDict [(PStr ''version'', PStr MATERIAL_VISIBILITY_VERSION), (PStr ''state'', PStr ''quarantined''),
     (PStr ''public_catalogue_eligible'', PBool False), (PStr ''archive_available'', PBool False),
     (PStr ''reason_codes'', PList [PStr ''provenance_quarantined'']), (PStr ''review_revision'', PStr ''d'')]"

lemma demo_reasons: "as_reasons (assess demo_env demo_material demo_anomaly demo_sources PNone PNone) = {}"
proof -
  have "material_reasons demo_material = {}"
    by (simp add: material_reasons_def demo_material_def Let_def code_if_def material_quarantine_def quarantine_note_def
        token_def token_in_def status_missing_def known_statuses_def py_strip_def is_space_def char_nat_def py_lower_def lower_char_def)
  moreover have "fst (anomaly_state demo_env demo_anomaly) = ''clear''"
    by (simp add: anomaly_state_def demo_anomaly_def Let_def pget_default_def anomaly_count_keys_def count_ok_def)
  moreover have "source_reasons (source_state_of demo_env demo_sources) = {}"
    by (simp add: source_reasons_def demo_sources_def SOURCE_LIMIT_def summarize_sources_def Let_def code_if_def
        normalize_source_status_def lifecycle_status_def is_disputed_def lifecycle_review_required_def token_def token_in_def
        py_strip_def is_space_def char_nat_def py_lower_def lower_char_def)
  moreover have "parent_effect demo_material PNone PNone =
      \<lparr>pp_reasons = {}, pp_hold = False, pp_quarantine = False, pp_unresolved = False, pp_snapshot = PNone\<rparr>"
    by (simp add: parent_effect_def demo_material_def Let_def)
  ultimately show ?thesis by (simp add: assess_fields anomaly_reasons_def ancestry_code_def code_if_def)
qed

lemma demo_id: "material_id_text demo_env m = Inr (str_of (pget_default m ''id'' (PStr ''unknown-material'')))"
  by (simp add: material_id_text_def demo_env_def)

lemma demo_visibility:
  obtains v where "visibility_for_material demo_env demo_material demo_anomaly demo_sources PNone PNone = Inr v" "eligible v"
proof -
  obtain v where v: "visibility_for_material demo_env demo_material demo_anomaly demo_sources PNone PNone = Inr v"
    using visibility_returns [OF _ demo_id, of PNone False demo_material demo_anomaly demo_sources PNone] by (auto simp: parent_check_def)
  moreover have "eligible v"
    using visibility_Inr(1,2) [OF v] assessed_catalogue_iff demo_reasons by simp
  ultimately show thesis using that by blast
qed

theorem visibility_eligible_is_clean_witness:
  "pget demo_material ''retracted'' \<noteq> PBool True \<and> fst (anomaly_state demo_env demo_anomaly) = ''clear''"
proof -
  obtain v where v: "visibility_for_material demo_env demo_material demo_anomaly demo_sources PNone PNone = Inr v" "eligible v"
    by (rule demo_visibility)
  from visibility_eligible_is_clean [OF v] show ?thesis by blast
qed

theorem visibility_dto_valid_parent_witness:
  "\<exists>v. visibility_for_material demo_env demo_material demo_anomaly demo_sources PNone PNone = Inr v \<and>
       valid_parent (visibility_dto v) = Inr True"
proof -
  obtain v where v: "visibility_for_material demo_env demo_material demo_anomaly demo_sources PNone PNone = Inr v"
    by (rule demo_visibility)
  from visibility_dto_valid_parent [OF v] v show ?thesis by (auto simp: demo_env_def)
qed

theorem visibility_quarantine_inherited_witness:
  "\<exists>v. visibility_for_material demo_env demo_material demo_anomaly demo_sources demo_parent PNone = Inr v \<and>
       vis_state v = ''quarantined'' \<and> visibility_allows_view (visibility_dto v) (PBool True) = Inr False"
proof -
  have p: "valid_parent demo_parent = Inr True" "pget demo_parent ''state'' = PStr ''quarantined''"
    by (simp_all add: valid_parent_def PARENT_STATES_def demo_parent_def MATERIAL_VISIBILITY_VERSION_def)
  then have "parent_check demo_parent = Inr True" by (simp add: parent_check_def demo_parent_def)
  then obtain v where v: "visibility_for_material demo_env demo_material demo_anomaly demo_sources demo_parent PNone = Inr v"
    using visibility_returns [OF _ demo_id] by blast
  from visibility_quarantine_inherited [OF v p, of "PBool True"] v show ?thesis by blast
qed

end
