(* ===== verification/Review_Sanitizer.thy ===== *)
theory Review_Sanitizer
  imports SC_Prelude
begin

text \<open>
  The public projection of review metadata (\<open>sanitize_review_metadata\<close> in
  \<open>api/services/material_visibility.py\<close>).

  The function walks arbitrary Python containers, which may be shared or cyclic, so the input
  lives in a store: a container is a reference into \<open>heap\<close>. The walk keeps a node budget,
  a depth limit of 12 and the set of containers it is inside of. The recursion is on the
  number of levels left, \<open>13 - depth\<close>.
\<close>

section \<open>Values in a store\<close>

datatype hval =
    HNone | HBool bool | HInt int | HFloat pyfloat | HStr string
  | HRef nat
  | HUnsupported nat

datatype hobj = HMapping "(hval \<times> hval) list" | HSequence "hval list"

type_synonym heap = "nat \<Rightarrow> hobj"

definition PRIVATE_REVIEW_KEYS :: "string list" where
  "PRIVATE_REVIEW_KEYS =
     [''admindecision'', ''reviewreason'', ''reviewnote'', ''reviewnotes'', ''reviewmetadata'',
      ''reviewermetadata'', ''privatereview'', ''internalreview'', ''reviewedby'', ''approvedby'',
      ''email'', ''name'']"

definition private_key :: "string \<Rightarrow> bool" where
  "private_key key =
     (let normalized = filter is_alnum_char (py_lower key)
      in normalized \<in> set PRIVATE_REVIEW_KEYS \<or>
         startswith normalized ''reviewer'' \<or> startswith normalized ''curator'' \<or>
         startswith normalized ''privatereview'' \<or> startswith normalized ''internalreview'')"

definition redacted :: "string \<Rightarrow> pyval" where
  "redacted why = PDict [(PStr ''redacted'', PStr why)]"

fun dict_put :: "(pyval \<times> pyval) list \<Rightarrow> pyval \<Rightarrow> pyval \<Rightarrow> (pyval \<times> pyval) list" where
  "dict_put [] k v = [(k, v)]"
| "dict_put ((k', v') # kvs) k v = (if k' = k then (k, v) # kvs else (k', v') # dict_put kvs k v)"

section \<open>The walk\<close>

function (sequential) visit :: "nat \<Rightarrow> heap \<Rightarrow> nat set \<Rightarrow> int \<Rightarrow> hval \<Rightarrow> pyval \<times> int"
  and visit_mapping :: "nat \<Rightarrow> heap \<Rightarrow> nat set \<Rightarrow> int \<Rightarrow> (hval \<times> hval) list \<Rightarrow> (pyval \<times> pyval) list
      \<Rightarrow> (pyval \<times> pyval) list \<times> int"
  and visit_sequence :: "nat \<Rightarrow> heap \<Rightarrow> nat set \<Rightarrow> int \<Rightarrow> hval list \<Rightarrow> pyval list \<times> int" where
  "visit 0 heap active budget item = (redacted ''review_metadata_projection_limit'', budget - 1)"
| "visit (Suc levels) heap active budget item =
     (let budget' = budget - 1
      in if budget' < 0 then (redacted ''review_metadata_projection_limit'', budget')
         else case item of
             HNone \<Rightarrow> (PNone, budget')
           | HBool b \<Rightarrow> (PBool b, budget')
           | HInt i \<Rightarrow> (PInt i, budget')
           | HFloat x \<Rightarrow> (PFloat x, budget')
           | HStr s \<Rightarrow> (PStr s, budget')
           | HUnsupported _ \<Rightarrow> (redacted ''unsupported_metadata_type'', budget')
           | HRef a \<Rightarrow>
               if a \<in> active then (redacted ''cyclic_metadata'', budget')
               else (case heap a of
                       HMapping kvs \<Rightarrow>
                         (let (out, b) = visit_mapping levels heap (insert a active) budget' kvs [] in (PDict out, b))
                     | HSequence vs \<Rightarrow>
                         (let (out, b) = visit_sequence levels heap (insert a active) budget' vs in (PList out, b))))"
| "visit_mapping levels heap active budget [] out = (out, budget)"
| "visit_mapping levels heap active budget ((k, child) # kvs) out =
     (if budget \<le> 0
      then (dict_put out (PStr ''_projection_warning'') (PStr ''review_metadata_projection_limit''), budget)
      else case k of
          HStr key \<Rightarrow>
            if private_key key then visit_mapping levels heap active (budget - 1) kvs out
            else (let (v, b) = visit levels heap active budget child
                  in visit_mapping levels heap active b kvs (dict_put out (PStr key) v))
        | _ \<Rightarrow> visit_mapping levels heap active (budget - 1) kvs out)"
| "visit_sequence levels heap active budget [] = ([], budget)"
| "visit_sequence levels heap active budget (child # vs) =
     (if budget \<le> 0 then ([redacted ''review_metadata_projection_limit''], budget)
      else (let (v, b) = visit levels heap active budget child;
                (rest, b') = visit_sequence levels heap active b vs
            in (v # rest, b')))"
  by pat_completeness auto
termination
  by (relation "measures [\<lambda>x. case x of Inl (levels, _) \<Rightarrow> 2 * levels
                              | Inr (Inl (levels, _)) \<Rightarrow> 2 * levels + 1
                              | Inr (Inr (levels, _)) \<Rightarrow> 2 * levels + 1,
                          \<lambda>x. case x of Inl _ \<Rightarrow> 0
                              | Inr (Inl (_, _, _, _, kvs, _)) \<Rightarrow> length kvs
                              | Inr (Inr (_, _, _, _, vs)) \<Rightarrow> length vs]") auto

definition sanitize_review_metadata :: "heap \<Rightarrow> hval \<Rightarrow> pyval" where
  "sanitize_review_metadata heap v = fst (visit 13 heap {} 20000 v)"

section \<open>Public trees\<close>

text \<open>A value of nesting depth at most \<open>n\<close> whose mappings have only public string keys.\<close>

fun public_key :: "pyval \<Rightarrow> bool" where
  "public_key (PStr s) = (\<not> private_key s)"
| "public_key _ = False"

fun public_tree :: "nat \<Rightarrow> pyval \<Rightarrow> bool" where
  "public_tree n (PDict kvs) = (case n of 0 \<Rightarrow> False | Suc m \<Rightarrow> \<forall>(k, v) \<in> set kvs. public_key k \<and> public_tree m v)"
| "public_tree n (PList vs) = (case n of 0 \<Rightarrow> False | Suc m \<Rightarrow> \<forall>v \<in> set vs. public_tree m v)"
| "public_tree n (PTuple vs) = (case n of 0 \<Rightarrow> False | Suc m \<Rightarrow> \<forall>v \<in> set vs. public_tree m v)"
| "public_tree n _ = True"

lemma fixed_keys_public [simp]: "\<not> private_key ''redacted''" "\<not> private_key ''_projection_warning''"
  by (simp_all add: private_key_def Let_def PRIVATE_REVIEW_KEYS_def startswith_def py_lower_def lower_char_def
      is_alnum_char_def is_digit_char_def char_nat_def)

lemma public_redacted [simp]: "public_tree (Suc n) (redacted why)"
  by (simp add: redacted_def)

lemma set_dict_put: "set (dict_put out k v) \<subseteq> insert (k, v) (set out)"
proof (induction out)
  case (Cons a out)
  then show ?case by (cases a) auto
qed simp

abbreviation public_entry :: "nat \<Rightarrow> pyval \<times> pyval \<Rightarrow> bool" where
  "public_entry n e \<equiv> public_key (fst e) \<and> public_tree n (snd e)"

lemma dict_put_all:
  "list_all P out \<Longrightarrow> P (k, v) \<Longrightarrow> list_all P (dict_put out k v)"
  using set_dict_put [of out k v] by (auto simp: list_all_iff)

lemma public_PDict: "list_all (public_entry n) kvs \<Longrightarrow> public_tree (Suc n) (PDict kvs)"
  by (auto simp: list_all_iff)

lemma visit_public:
  "public_tree (Suc levels) (fst (visit levels heap active budget item))"
  "list_all (public_entry (Suc levels)) out \<Longrightarrow>
   list_all (public_entry (Suc levels)) (fst (visit_mapping levels heap active budget kvs out))"
  "list_all (public_tree (Suc levels)) (fst (visit_sequence levels heap active budget vs))"
proof (induction levels heap active budget item and levels heap active budget kvs out
    and levels heap active budget vs rule: visit_visit_mapping_visit_sequence.induct)
  case (2 levels heap active budget item)
  show ?case
  proof (cases "budget - 1 < 0")
    case False
    note IH = "2.IH" [OF refl False]
    show ?thesis
    proof (cases item)
      case (HRef a)
      show ?thesis
      proof (cases "a \<in> active")
        case fresh: False
        show ?thesis
        proof (cases "heap a")
          case (HMapping kvs)
          then show ?thesis using IH(1) [OF HRef fresh HMapping] HRef fresh False
            by (simp add: Let_def list_all_iff case_prod_beta)
        next
          case (HSequence vs)
          then show ?thesis using IH(2) [OF HRef fresh HSequence] HRef fresh False
            by (auto simp: Let_def list_all_iff split: prod.split)
        qed
      qed (use HRef False in \<open>simp add: Let_def\<close>)
    qed (use False in \<open>simp_all add: Let_def\<close>)
  qed (simp add: Let_def)
next
  case (4 levels heap active budget k child kvs out)
  show ?case
  proof (cases "budget \<le> 0")
    case True
    then show ?thesis using dict_put_all [OF "4.prems"] by simp
  next
    case False
    show ?thesis
    proof (cases k)
      case (HStr key)
      show ?thesis
      proof (cases "private_key key")
        case True
        then show ?thesis using "4.IH"(5) [OF False HStr True "4.prems"] HStr False by simp
      next
        case pub: False
        obtain v b where vb: "visit levels heap active budget child = (v, b)" by fastforce
        have "list_all (public_entry (Suc levels)) (dict_put out (PStr key) v)"
          using dict_put_all [OF "4.prems", of "PStr key" v] "4.IH"(6) [OF False HStr pub] vb pub by simp
        then show ?thesis using "4.IH"(7) [OF False HStr pub vb [symmetric] refl] HStr False pub vb by simp
      qed
    qed (use "4.IH"(1-4,8-9) [OF False] "4.prems" False in simp_all)
  qed
next
  case (6 levels heap active budget child vs)
  then show ?case by (auto simp: Let_def split: prod.splits)
qed auto

section \<open>Properties\<close>

text \<open>
  C28. The projection never publishes a private review key: for every store, shared and cyclic
  ones included, the result is a finite tree of nesting depth at most 14 in which every
  mapping key, at every level, is a string outside the private key set and prefixes.
\<close>
theorem sanitize_review_metadata_public:
  "public_tree 14 (sanitize_review_metadata heap v)"
  using visit_public(1) [of 13 heap "{}" 20000 v] by (simp add: sanitize_review_metadata_def)

text \<open>
  A container that contains itself is cut, not followed: a mapping whose only public entry
  refers back to the mapping comes out with that entry replaced by the cyclic marker.
\<close>
theorem sanitize_cuts_self_reference:
  assumes "heap a = HMapping [(HStr key, HRef a)]" and "\<not> private_key key"
  shows "sanitize_review_metadata heap (HRef a) = PDict [(PStr key, redacted ''cyclic_metadata'')]"
  using assms by (simp add: sanitize_review_metadata_def eval_nat_numeral Let_def)

theorem sanitize_cuts_self_reference_witness:
  "sanitize_review_metadata (\<lambda>_. HMapping [(HStr ''self'', HRef 0)]) (HRef 0) =
     PDict [(PStr ''self'', redacted ''cyclic_metadata'')]"
  by (rule sanitize_cuts_self_reference)
     (simp_all add: private_key_def Let_def PRIVATE_REVIEW_KEYS_def startswith_def py_lower_def lower_char_def
      is_alnum_char_def is_digit_char_def char_nat_def)

end
