(* ===== verification/Evaluation_Metrics.thy ===== *)
theory Evaluation_Metrics
  imports SC_Prelude
begin

text \<open>
  Metrics of a frozen evaluation package (\<open>api/services/scientific_evaluation_metrics.py\<close>).

  The records carry the fields the metrics read. A metrics dictionary is a function on metric
  names together with the list of its keys, \<open>metric_names\<close>. \<open>value\<close> is the exact quotient,
  costs and latencies are exact rationals: float rounding is not modelled, and no decision of
  the code depends on it (paired outcomes compare integers).
\<close>

section \<open>The evaluation package\<close>

record expected_claim =
  ec_id :: string
  evidence_alternatives :: "string list list"

record eval_case =
  case_id :: string
  split :: string
  language :: string
  task :: string
  families :: "string list"
  tags :: "string list"
  expected :: "expected_claim list"

record observation =
  obs_case_id :: string
  status :: string
  retrieved_source_ids :: "string list"
  selected_source_ids :: "string list"
  answer :: string
  latency_ms :: "rat option"
  input_tokens :: "int option"
  total_tokens :: "int option"
  cost_usd :: "rat option"
  provider_fallback :: "bool option"

record claim_judgment =
  cj_status :: string
  expected_claim_ids :: "string list"

record output_labels =
  condition_match :: string
  numerical_correct :: string
  unit_correct :: string
  refusal_correct :: string
  answer_claims_complete :: bool
  claims :: "claim_judgment list"

record captured_source =
  src_id :: string
  root_id :: "string option"

record eval_run =
  run_id :: string
  arm :: string
  execution :: string
  observations :: "observation list"

record quota =
  dimension :: string
  key :: string
  min_n :: nat

record package =
  cases :: "eval_case list"
  runs :: "eval_run list"
  sources :: "captured_source list"
  k_values :: "nat list"
  strata :: "quota list"
  target_question_count :: nat

section \<open>Ratios\<close>

datatype metric =
    ConditionMatch | NumericalCorrect | UnitCorrect | RefusalCorrect
  | ClaimSupportPrecision | ExpectedClaimCoverage | MechanicalCitationPrecision
  | EvidenceBundleCompletionAt nat | DeclaredRootRecallAt nat

record ratio =
  numerator :: nat
  denominator :: nat
  scored_cases :: nat
  missing :: nat
  undetermined :: nat
  not_applicable :: nat
  denominator_unit :: string

definition ratio :: "string \<Rightarrow> ratio" where
  "ratio unit = \<lparr>numerator = 0, denominator = 0, scored_cases = 0, missing = 0, undetermined = 0,
     not_applicable = 0, denominator_unit = unit\<rparr>"

text \<open>The \<open>value\<close> entry that \<open>_finish\<close> writes.\<close>

definition finish_value :: "ratio \<Rightarrow> rat option" where
  "finish_value r = (if denominator r \<noteq> 0 then Some (of_nat (numerator r) / of_nat (denominator r)) else None)"

definition LABEL_METRICS :: "metric list" where
  "LABEL_METRICS = [ConditionMatch, NumericalCorrect, UnitCorrect, RefusalCorrect]"

definition DECISIONS :: "string list" where
  "DECISIONS = [''accept'', ''reject'', ''needs_revision'', ''unreviewed'', ''disputed'']"

definition metric_names :: "nat list \<Rightarrow> metric list" where
  "metric_names ks = LABEL_METRICS @ [ClaimSupportPrecision, ExpectedClaimCoverage, MechanicalCitationPrecision]
     @ concat (map (\<lambda>k. [EvidenceBundleCompletionAt k, DeclaredRootRecallAt k]) (remdups ks))"

fun metric_unit :: "metric \<Rightarrow> string" where
  "metric_unit ClaimSupportPrecision = ''declared_answer_claim''"
| "metric_unit ExpectedClaimCoverage = ''expected_claim''"
| "metric_unit MechanicalCitationPrecision = ''citation_occurrence''"
| "metric_unit (EvidenceBundleCompletionAt _) = ''expected_claim''"
| "metric_unit (DeclaredRootRecallAt _) = ''declared_relevant_root''"
| "metric_unit _ = ''case_label''"

type_synonym metrics = "metric \<Rightarrow> ratio"

definition empty_metrics :: metrics where
  "empty_metrics name = ratio (metric_unit name)"

section \<open>Citations in an answer\<close>

text \<open>
  \<open>_CITATION.findall\<close> and \<open>_GROUPED.findall\<close>: the patterns are deterministic (digits,
  separators and the closing bracket are disjoint), so a match at a position is decided by
  one scan and the search continues after it. The en dash of the source pattern is outside
  the ASCII strings of the model.
\<close>

definition match_citation :: "string \<Rightarrow> (string \<times> string) option" where
  "match_citation s =
     (case s of
        [] \<Rightarrow> None
      | c # cs \<Rightarrow>
          (let ds = takeWhile is_digit_char cs; rest = dropWhile is_digit_char cs
           in if c = CHR ''['' \<and> ds \<noteq> [] \<and> rest \<noteq> [] \<and> hd rest = CHR '']'' then Some (ds, tl rest) else None))"

lemma match_citation_shorter: "match_citation s = Some (ds, rest) \<Longrightarrow> length rest < length s"
proof -
  assume a: "match_citation s = Some (ds, rest)"
  then obtain c cs where s: "s = c # cs" by (cases s) (auto simp: match_citation_def)
  with a have "rest = tl (dropWhile is_digit_char cs)"
    by (auto simp: match_citation_def Let_def split: if_splits)
  then show ?thesis using s length_dropWhile_le [of is_digit_char cs] by (simp add: le_diff_conv)
qed

function find_citations :: "string \<Rightarrow> string list" where
  "find_citations s =
     (if s = [] then []
      else case match_citation s of
          Some (ds, rest) \<Rightarrow> ds # find_citations rest
        | None \<Rightarrow> find_citations (tl s))"
  by auto

termination
  by (relation "measure length") (auto dest: match_citation_shorter)

declare find_citations.simps [simp del]

definition is_separator :: "char \<Rightarrow> bool" where
  "is_separator c = (c \<in> {CHR '','', CHR '';'', CHR ''-''})"

text \<open>One repetition \<open>\s*[,;-]\s*\d+\<close>: the text after it, if it matches.\<close>

definition match_group_item :: "string \<Rightarrow> string option" where
  "match_group_item s =
     (let t = dropWhile is_space s
      in if t = [] \<or> \<not> is_separator (hd t) then None
         else let u = dropWhile is_space (tl t)
              in if takeWhile is_digit_char u = [] then None else Some (dropWhile is_digit_char u))"

lemma match_group_item_shorter: "match_group_item s = Some t \<Longrightarrow> length t < length s"
proof -
  assume a: "match_group_item s = Some t"
  let ?u = "dropWhile is_space s"
  from a have ne: "?u \<noteq> []" and t: "t = dropWhile is_digit_char (dropWhile is_space (tl ?u))"
    by (auto simp: match_group_item_def Let_def split: if_splits)
  have "length t \<le> length (tl ?u)" using t length_dropWhile_le le_trans by metis
  moreover have "length (tl ?u) < length ?u" using ne by (cases ?u) auto
  ultimately show ?thesis using length_dropWhile_le [of is_space s] by linarith
qed

function match_group_rest :: "string \<Rightarrow> string" where
  "match_group_rest s = (case match_group_item s of None \<Rightarrow> s | Some t \<Rightarrow> match_group_rest t)"
  by auto
termination
  by (relation "measure length") (auto dest: match_group_item_shorter)

declare match_group_rest.simps [simp del]

definition match_grouped :: "string \<Rightarrow> string option" where
  "match_grouped s =
     (case s of
        [] \<Rightarrow> None
      | c # cs \<Rightarrow>
          if c = CHR ''['' \<and> takeWhile is_digit_char cs \<noteq> []
          then (case match_group_item (dropWhile is_digit_char cs) of
                  None \<Rightarrow> None
                | Some t \<Rightarrow>
                    (let r = match_group_rest t
                     in if r \<noteq> [] \<and> hd r = CHR '']'' then Some (tl r) else None))
          else None)"

lemma match_group_rest_le: "length (match_group_rest s) \<le> length s"
proof (induction s rule: match_group_rest.induct)
  case (1 s)
  show ?case
  proof (cases "match_group_item s")
    case (Some t)
    then show ?thesis using 1 [OF Some] match_group_item_shorter [OF Some]
      by (subst match_group_rest.simps) simp
  qed (subst match_group_rest.simps, simp)
qed

lemma match_grouped_shorter: "match_grouped s = Some r \<Longrightarrow> length r < length s"
proof -
  assume a: "match_grouped s = Some r"
  then obtain c cs where s: "s = c # cs" by (cases s) (auto simp: match_grouped_def)
  with a obtain t where t: "match_group_item (dropWhile is_digit_char cs) = Some t" and r: "r = tl (match_group_rest t)"
    by (auto simp: match_grouped_def Let_def split: if_splits option.splits)
  have "length r \<le> length t" using r match_group_rest_le [of t] by simp
  then show ?thesis using s match_group_item_shorter [OF t] length_dropWhile_le [of is_digit_char cs] by simp
qed

function find_grouped :: "string \<Rightarrow> nat" where
  "find_grouped s =
     (if s = [] then 0
      else case match_grouped s of
          Some rest \<Rightarrow> Suc (find_grouped rest)
        | None \<Rightarrow> find_grouped (tl s))"
  by auto
termination
  by (relation "measure length") (auto dest: match_grouped_shorter)

declare find_grouped.simps [simp del]

definition citation_ok :: "nat \<Rightarrow> string \<Rightarrow> bool" where
  "citation_ok selected raw =
     (\<not> startswith raw ''0'' \<and> length raw \<le> 2 \<and> 1 \<le> digits_value raw \<and> digits_value raw \<le> selected)"

section \<open>Metrics of one case\<close>

datatype metrics_error = UnknownSource | IncompleteInventory | ArmsRequired | DuplicateSources | RunInventory | CostOverflow

definition retrieved_ids :: "nat \<Rightarrow> observation \<Rightarrow> string list" where
  "retrieved_ids k obs = take k (retrieved_source_ids obs)"

definition relevant_ids :: "eval_case \<Rightarrow> string list" where
  "relevant_ids c = concat (map (\<lambda>cl. concat (evidence_alternatives cl)) (expected c))"

definition claim_bundled :: "string list \<Rightarrow> expected_claim \<Rightarrow> bool" where
  "claim_bundled retrieved cl = (\<exists>alt \<in> set (evidence_alternatives cl). set alt \<subseteq> set retrieved)"

definition bundle_ratio :: "eval_case \<Rightarrow> observation \<Rightarrow> string \<Rightarrow> nat \<Rightarrow> ratio" where
  "bundle_ratio c obs decision k =
     (let r = empty_metrics (EvidenceBundleCompletionAt k)
      in if decision \<noteq> ''accept'' \<or> status obs \<noteq> ''completed'' then r\<lparr>missing := 1\<rparr>
         else if expected c = [] then r\<lparr>not_applicable := 1\<rparr>
         else r\<lparr>denominator := length (expected c),
                numerator := count_if (claim_bundled (retrieved_ids k obs)) (expected c)\<rparr>)"

text \<open>
  Root recall looks every relevant source up, and, when all their roots are declared, every
  retrieved source; a missing source raises. (The source stops its scan at the first
  undeclared root, in set order; the model raises whenever a relevant source is missing.)
\<close>

definition roots_list :: "(string \<Rightarrow> captured_source option) \<Rightarrow> string list \<Rightarrow> string list" where
  "roots_list srcs ids = List.map_filter (\<lambda>i. Option.bind (srcs i) root_id) ids"

definition root_ratio ::
  "(string \<Rightarrow> captured_source option) \<Rightarrow> eval_case \<Rightarrow> observation \<Rightarrow> string \<Rightarrow> nat \<Rightarrow> (metrics_error, ratio) res" where
  "root_ratio srcs c obs decision k =
     (let r = empty_metrics (DeclaredRootRecallAt k); relevant = relevant_ids c; retrieved = retrieved_ids k obs
      in if decision \<noteq> ''accept'' \<or> status obs \<noteq> ''completed'' then Inr (r\<lparr>missing := 1\<rparr>)
         else if expected c = [] then Inr (r\<lparr>not_applicable := 1\<rparr>)
         else if \<exists>i \<in> set relevant. srcs i = None then Inl UnknownSource
         else if \<exists>i \<in> set relevant. Option.bind (srcs i) root_id = None then Inr (r\<lparr>missing := 1\<rparr>)
         else if \<exists>i \<in> set retrieved. srcs i = None then Inl UnknownSource
         else Inr (r\<lparr>denominator := len_set (roots_list srcs relevant),
                     numerator := len_set (filter (\<lambda>x. x \<in> set (roots_list srcs retrieved)) (roots_list srcs relevant))\<rparr>))"

fun label_judgment :: "output_labels \<Rightarrow> metric \<Rightarrow> string" where
  "label_judgment l ConditionMatch = condition_match l"
| "label_judgment l NumericalCorrect = numerical_correct l"
| "label_judgment l UnitCorrect = unit_correct l"
| "label_judgment l RefusalCorrect = refusal_correct l"
| "label_judgment l _ = []"

definition label_ratio :: "observation \<Rightarrow> output_labels option \<Rightarrow> string \<Rightarrow> metric \<Rightarrow> ratio" where
  "label_ratio obs labels decision name =
     (let r = empty_metrics name
      in if decision \<noteq> ''accept'' \<or> status obs \<noteq> ''completed'' then r\<lparr>missing := 1\<rparr>
         else case labels of
             None \<Rightarrow> r\<lparr>missing := 1\<rparr>
           | Some l \<Rightarrow>
               if label_judgment l name = ''not_applicable'' then r\<lparr>not_applicable := 1\<rparr>
               else r\<lparr>denominator := 1, numerator := (if label_judgment l name = ''correct'' then 1 else 0),
                      undetermined := (if label_judgment l name = ''undetermined'' then 1 else 0)\<rparr>)"

definition adjudicated :: "observation \<Rightarrow> output_labels option \<Rightarrow> string \<Rightarrow> bool" where
  "adjudicated obs labels decision \<longleftrightarrow>
     decision = ''accept'' \<and> status obs = ''completed'' \<and>
     (case labels of None \<Rightarrow> False | Some l \<Rightarrow> answer_claims_complete l)"

definition precision_ratio :: "observation \<Rightarrow> output_labels option \<Rightarrow> string \<Rightarrow> ratio" where
  "precision_ratio obs labels decision =
     (let r = empty_metrics ClaimSupportPrecision
      in if \<not> adjudicated obs labels decision then r\<lparr>missing := 1\<rparr>
         else let cs = claims (the labels)
              in r\<lparr>denominator := length cs,
                   numerator := count_if (\<lambda>c. cj_status c = ''supported'') cs,
                   undetermined := count_if (\<lambda>c. cj_status c = ''undetermined'') cs,
                   not_applicable := (if cs = [] then 1 else 0)\<rparr>)"

definition claimed_ids :: "string \<Rightarrow> claim_judgment list \<Rightarrow> string list" where
  "claimed_ids st cs = concat (map expected_claim_ids (filter (\<lambda>c. cj_status c = st) cs))"

definition coverage_ratio :: "eval_case \<Rightarrow> observation \<Rightarrow> output_labels option \<Rightarrow> string \<Rightarrow> ratio" where
  "coverage_ratio c obs labels decision =
     (let r = empty_metrics ExpectedClaimCoverage
      in if \<not> adjudicated obs labels decision then r\<lparr>missing := 1\<rparr>
         else let ids = map ec_id (expected c);
                  supported = set (claimed_ids ''supported'' (claims (the labels)));
                  open_ids = set (claimed_ids ''undetermined'' (claims (the labels)))
              in r\<lparr>denominator := len_set ids,
                   numerator := len_set (filter (\<lambda>i. i \<in> supported) ids),
                   undetermined := len_set (filter (\<lambda>i. i \<in> open_ids \<and> i \<notin> supported) ids),
                   not_applicable := (if ids = [] then 1 else 0)\<rparr>)"

definition grouped_count :: "observation \<Rightarrow> nat" where
  "grouped_count obs = (if status obs = ''completed'' then find_grouped (answer obs) else 0)"

definition citation_ratio :: "observation \<Rightarrow> ratio" where
  "citation_ratio obs =
     (let r = empty_metrics MechanicalCitationPrecision
      in if status obs \<noteq> ''completed'' then r\<lparr>missing := 1\<rparr>
         else let raw = find_citations (answer obs); n = length raw + grouped_count obs
              in r\<lparr>denominator := n,
                   numerator := count_if (citation_ok (length (selected_source_ids obs))) raw,
                   not_applicable := (if n = 0 then 1 else 0)\<rparr>)"

definition set_scored :: "ratio \<Rightarrow> ratio" where
  "set_scored r = r\<lparr>scored_cases := (if denominator r > 0 then 1 else 0)\<rparr>"

fun case_metric ::
  "(string \<Rightarrow> captured_source option) \<Rightarrow> eval_case \<Rightarrow> observation \<Rightarrow> output_labels option \<Rightarrow> string \<Rightarrow> metric
     \<Rightarrow> (metrics_error, ratio) res" where
  "case_metric srcs c obs labels decision (EvidenceBundleCompletionAt k) = Inr (bundle_ratio c obs decision k)"
| "case_metric srcs c obs labels decision (DeclaredRootRecallAt k) = root_ratio srcs c obs decision k"
| "case_metric srcs c obs labels decision ClaimSupportPrecision = Inr (precision_ratio obs labels decision)"
| "case_metric srcs c obs labels decision ExpectedClaimCoverage = Inr (coverage_ratio c obs labels decision)"
| "case_metric srcs c obs labels decision MechanicalCitationPrecision = Inr (citation_ratio obs)"
| "case_metric srcs c obs labels decision name = Inr (label_ratio obs labels decision name)"

text \<open>The metrics dictionary as an association list in key order.\<close>

type_synonym metrics_dict = "(metric \<times> ratio) list"

definition case_metrics ::
  "(string \<Rightarrow> captured_source option) \<Rightarrow> nat list \<Rightarrow> eval_case \<Rightarrow> observation \<Rightarrow> output_labels option \<Rightarrow> string
     \<Rightarrow> (metrics_error, metrics_dict \<times> nat) res" where
  "case_metrics srcs ks c obs labels decision =
     rbind (rmapM (\<lambda>name. rbind (case_metric srcs c obs labels decision name) (\<lambda>r. Inr (name, set_scored r))) (metric_names ks))
       (\<lambda>ms. Inr (ms, grouped_count obs))"

definition metric_at :: "metrics_dict \<Rightarrow> metric \<Rightarrow> ratio" where
  "metric_at ms name = (case map_of ms name of Some r \<Rightarrow> r | None \<Rightarrow> empty_metrics name)"

section \<open>Aggregation over a split\<close>

definition aggregate_ratio :: "metrics_dict list \<Rightarrow> metric \<Rightarrow> ratio" where
  "aggregate_ratio items name =
     \<lparr>numerator = sum_list (map (\<lambda>ms. numerator (metric_at ms name)) items),
      denominator = sum_list (map (\<lambda>ms. denominator (metric_at ms name)) items),
      scored_cases = sum_list (map (\<lambda>ms. scored_cases (metric_at ms name)) items),
      missing = sum_list (map (\<lambda>ms. missing (metric_at ms name)) items),
      undetermined = sum_list (map (\<lambda>ms. undetermined (metric_at ms name)) items),
      not_applicable = sum_list (map (\<lambda>ms. not_applicable (metric_at ms name)) items),
      denominator_unit = (case items of [] \<Rightarrow> metric_unit name | ms # _ \<Rightarrow> denominator_unit (metric_at ms name))\<rparr>"

definition aggregate :: "nat list \<Rightarrow> metrics_dict list \<Rightarrow> metrics_dict" where
  "aggregate ks items = map (\<lambda>name. (name, aggregate_ratio items name)) (metric_names ks)"

record 'a known_total =
  known_total :: "'a option"
  observed_count :: nat
  missing_count :: nat
  complete_total :: "'a option"

definition known_sum :: "'a::comm_monoid_add option list \<Rightarrow> 'a known_total" where
  "known_sum vs =
     (let obs = List.map_filter id vs; known = (if obs = [] then None else Some (sum_list obs))
      in \<lparr>known_total = known, observed_count = length obs, missing_count = length vs - length obs,
          complete_total = (if length obs = length vs \<and> obs \<noteq> [] then known else None)\<rparr>)"

definition FLOAT_OVERFLOW :: rat where
  "FLOAT_OVERFLOW = 2 ^ 1024 - 2 ^ 970"

definition known_cost :: "rat option list \<Rightarrow> (metrics_error, rat known_total) res" where
  "known_cost vs =
     rbind (guard (sum_list (List.map_filter id vs) < FLOAT_OVERFLOW) CostOverflow) (\<lambda>_. Inr (known_sum vs))"

definition nearest_rank_p95 :: "rat list \<Rightarrow> rat option" where
  "nearest_rank_p95 ls = (if ls = [] then None else Some (sort ls ! ((95 * length ls + 99) div 100 - 1)))"

definition fallback_ratio :: "observation list \<Rightarrow> ratio" where
  "fallback_ratio os =
     foldl (\<lambda>r ob. case provider_fallback ob of
                Some b \<Rightarrow> r\<lparr>denominator := denominator r + 1, scored_cases := scored_cases r + 1,
                             numerator := numerator r + (if b then 1 else 0)\<rparr>
              | None \<Rightarrow> r\<lparr>missing := missing r + 1\<rparr>)
       (ratio ''observed_provider_fallback_flag'') os"

definition support_resolved :: "observation \<Rightarrow> output_labels option \<Rightarrow> string \<Rightarrow> bool" where
  "support_resolved obs labels decision \<longleftrightarrow>
     adjudicated obs labels decision \<and> (\<forall>c \<in> set (claims (the labels)). cj_status c \<noteq> ''undetermined'')"

definition supported_answer :: "observation \<Rightarrow> output_labels option \<Rightarrow> string \<Rightarrow> bool" where
  "supported_answer obs labels decision \<longleftrightarrow>
     support_resolved obs labels decision \<and> claims (the labels) \<noteq> [] \<and>
     (\<forall>c \<in> set (claims (the labels)). cj_status c = ''supported'')"

record operations =
  measurement_scope :: string
  status_counts :: "(string \<times> nat) list"
  latency_observed :: nat
  latency_missing :: nat
  p95_nearest_rank :: "rat option"
  op_fallback :: ratio
  op_input_tokens :: "int known_total"
  op_total_tokens :: "int known_total"
  op_cost :: "rat known_total"
  supported_answer_count :: nat
  support_adjudication_complete :: bool
  cost_per_supported_answer :: "rat option"

text \<open>One entry per case of the split: its observation, its labels and its decision.\<close>

type_synonym judged = "observation \<times> output_labels option \<times> string"

definition operations_of :: "judged list \<Rightarrow> string \<Rightarrow> (metrics_error, operations) res" where
  "operations_of js exec =
     (let os = map fst js; ls = List.map_filter latency_ms os;
          supported = count_if (\<lambda>(ob, l, d). supported_answer ob l d) js;
          complete = (js \<noteq> [] \<and> list_all (\<lambda>(ob, l, d). support_resolved ob l d) js)
      in rbind (known_cost (map cost_usd os)) (\<lambda>cost.
         Inr \<lparr>measurement_scope = (if exec = ''synthetic'' then ''synthetic_not_production''
                                    else ''captured_observations_not_production_benchmark''),
              status_counts = map (\<lambda>st. (st, count_if (\<lambda>ob. status ob = st) os)) [''completed'', ''unavailable'', ''not_run''],
              latency_observed = length ls, latency_missing = length os - length ls,
              p95_nearest_rank = nearest_rank_p95 ls,
              op_fallback = fallback_ratio os,
              op_input_tokens = known_sum (map input_tokens os),
              op_total_tokens = known_sum (map total_tokens os),
              op_cost = cost, supported_answer_count = supported,
              support_adjudication_complete = complete,
              cost_per_supported_answer =
                (case complete_total cost of
                   Some t \<Rightarrow> if complete \<and> supported \<noteq> 0 then Some (t / of_nat supported) else None
                 | None \<Rightarrow> None)\<rparr>))"

section \<open>Strata\<close>

record bucket =
  b_planned :: nat
  b_accepted :: nat
  b_completed :: nat

definition empty_bucket :: bucket where
  "empty_bucket = \<lparr>b_planned = 0, b_accepted = 0, b_completed = 0\<rparr>"

type_synonym buckets = "(string \<times> bucket) list"

fun bump :: "bool \<Rightarrow> bool \<Rightarrow> buckets \<Rightarrow> string \<Rightarrow> buckets" where
  "bump acc fin [] k =
     [(k, \<lparr>b_planned = 1, b_accepted = (if acc then 1 else 0), b_completed = (if fin then 1 else 0)\<rparr>)]"
| "bump acc fin ((k', b) # bs) k =
     (if k' = k
      then (k', \<lparr>b_planned = b_planned b + 1, b_accepted = b_accepted b + (if acc then 1 else 0),
                 b_completed = b_completed b + (if fin then 1 else 0)\<rparr>) # bs
      else (k', b) # bump acc fin bs k)"

definition dimension_values :: "string \<Rightarrow> eval_case \<Rightarrow> string list" where
  "dimension_values dm c =
     (if dm = ''task'' then [task c] else if dm = ''language'' then [language c]
      else if dm = ''family'' then families c else if dm = ''tag'' then tags c else [])"

definition DIMENSIONS :: "string list" where
  "DIMENSIONS = [''task'', ''language'', ''family'', ''tag'']"

definition strata_dim :: "(eval_case \<Rightarrow> string) \<Rightarrow> (eval_case \<Rightarrow> bool) \<Rightarrow> eval_case list \<Rightarrow> string \<Rightarrow> buckets" where
  "strata_dim decision completed cs dm =
     foldl (\<lambda>bs c. foldl (bump (decision c = ''accept'') (completed c)) bs (dimension_values dm c)) [] cs"

definition strata_of ::
  "(eval_case \<Rightarrow> string) \<Rightarrow> (eval_case \<Rightarrow> bool) \<Rightarrow> eval_case list \<Rightarrow> (string \<times> buckets) list" where
  "strata_of decision completed cs = map (\<lambda>dm. (dm, strata_dim decision completed cs dm)) DIMENSIONS"

definition bucket_at :: "(string \<times> buckets) list \<Rightarrow> string \<Rightarrow> string \<Rightarrow> bucket" where
  "bucket_at st dm k =
     (case map_of st dm of None \<Rightarrow> empty_bucket
      | Some bs \<Rightarrow> (case map_of bs k of None \<Rightarrow> empty_bucket | Some b \<Rightarrow> b))"

section \<open>Both arms, the paired comparison and coverage\<close>

type_synonym decisions = "(string \<times> string) list"
type_synonym labels_by_case = "(string \<times> output_labels option) list"

record split_report =
  planned_cases :: nat
  accepted_cases :: nat
  decision_counts :: "(string \<times> nat) list"
  split_metrics :: metrics_dict
  unsupported_grouped_citation_count :: nat
  split_operations :: operations
  split_strata :: "(string \<times> buckets) list"

record arm_report =
  ar_run :: string
  ar_arm :: string
  ar_execution :: string
  all_planned_cases :: nat
  splits :: "(string \<times> split_report) list"
  case_values :: "(string \<times> metrics_dict) list"

text \<open>The inventory checks make every lookup below succeed; the default is never read.\<close>

definition decision_of :: "decisions \<Rightarrow> eval_case \<Rightarrow> string" where
  "decision_of cd c = (case map_of cd (case_id c) of Some d \<Rightarrow> d | None \<Rightarrow> [])"

definition observation_of :: "eval_run \<Rightarrow> eval_case \<Rightarrow> observation" where
  "observation_of run c = the (find (\<lambda>ob. obs_case_id ob = case_id c) (observations run))"

definition labels_of :: "labels_by_case \<Rightarrow> eval_case \<Rightarrow> output_labels option" where
  "labels_of ls c = (case map_of ls (case_id c) of Some l \<Rightarrow> l | None \<Rightarrow> None)"

definition SPLITS :: "string list" where
  "SPLITS = [''all'', ''development'', ''held_out'']"

definition split_cases :: "string \<Rightarrow> eval_case list \<Rightarrow> eval_case list" where
  "split_cases sp cs = filter (\<lambda>c. sp = ''all'' \<or> split c = sp) cs"

definition split_report_of ::
  "nat list \<Rightarrow> decisions \<Rightarrow> labels_by_case \<Rightarrow> eval_run \<Rightarrow> (string \<times> metrics_dict \<times> nat) list \<Rightarrow> eval_case list
     \<Rightarrow> string \<Rightarrow> (metrics_error, string \<times> split_report) res" where
  "split_report_of ks cd ls run vals cs sp =
     (let subset = split_cases sp cs;
          cells = map (\<lambda>c. the (map_of vals (case_id c))) subset;
          ds = map (decision_of cd) subset
      in rbind (operations_of (map (\<lambda>c. (observation_of run c, labels_of ls c, decision_of cd c)) subset) (execution run)) (\<lambda>ops.
         Inr (sp, \<lparr>planned_cases = length subset, accepted_cases = count_if (\<lambda>d. d = ''accept'') ds,
                   decision_counts = map (\<lambda>d. (d, count_if (\<lambda>x. x = d) ds)) DECISIONS,
                   split_metrics = aggregate ks (map fst cells),
                   unsupported_grouped_citation_count = sum_list (map snd cells),
                   split_operations = ops,
                   split_strata = strata_of (decision_of cd) (\<lambda>c. status (observation_of run c) = ''completed'') subset\<rparr>)))"

definition run_inventory_ok :: "eval_case list \<Rightarrow> labels_by_case \<Rightarrow> eval_run \<Rightarrow> bool" where
  "run_inventory_ok cs ls run \<longleftrightarrow>
     distinct (map obs_case_id (observations run)) \<and>
     set (map obs_case_id (observations run)) = set (map case_id cs) \<and> set (map fst ls) = set (map case_id cs)"

definition arm_report_of ::
  "package \<Rightarrow> decisions \<Rightarrow> (string \<times> labels_by_case) list \<Rightarrow> eval_run \<Rightarrow> (metrics_error, arm_report) res" where
  "arm_report_of pkg cd ol run =
     (let ls = (case map_of ol (run_id run) of Some l \<Rightarrow> l | None \<Rightarrow> []); cs = cases pkg;
          srcs = map_of (map (\<lambda>s. (src_id s, s)) (sources pkg))
      in rbind (guard (run_inventory_ok cs ls run) RunInventory) (\<lambda>_.
         rbind (rmapM (\<lambda>c. rbind (case_metrics srcs (k_values pkg) c (observation_of run c) (labels_of ls c) (decision_of cd c))
                              (\<lambda>v. Inr (case_id c, v))) cs) (\<lambda>vals.
         rbind (rmapM (split_report_of (k_values pkg) cd ls run vals cs) SPLITS) (\<lambda>sps.
         Inr \<lparr>ar_run = run_id run, ar_arm = arm run, ar_execution = execution run, all_planned_cases = length cs,
              splits = sps, case_values = map (\<lambda>(i, ms, _). (i, ms)) vals\<rparr>))))"

datatype outcome = Improved | Regressed | Tied | Unscored

definition outcome_of :: "ratio \<Rightarrow> ratio \<Rightarrow> outcome" where
  "outcome_of before after =
     (if finish_value before = None \<or> finish_value after = None then Unscored
      else let delta = int (numerator after) * int (denominator before) - int (numerator before) * int (denominator after)
           in if delta > 0 then Improved else if delta < 0 then Regressed else Tied)"

definition case_outcome :: "arm_report \<Rightarrow> arm_report \<Rightarrow> metric \<Rightarrow> eval_case \<Rightarrow> outcome" where
  "case_outcome base cand name c =
     outcome_of (metric_at (the (map_of (case_values base) (case_id c))) name)
                (metric_at (the (map_of (case_values cand) (case_id c))) name)"

record paired_count =
  improved :: nat
  regressed :: nat
  tied :: nat
  unscored :: nat
  planned_pairs :: nat

fun count_outcome :: "paired_count \<Rightarrow> outcome \<Rightarrow> paired_count" where
  "count_outcome p Improved = p\<lparr>improved := improved p + 1\<rparr>"
| "count_outcome p Regressed = p\<lparr>regressed := regressed p + 1\<rparr>"
| "count_outcome p Tied = p\<lparr>tied := tied p + 1\<rparr>"
| "count_outcome p Unscored = p\<lparr>unscored := unscored p + 1\<rparr>"

definition paired_of :: "eval_case list \<Rightarrow> arm_report \<Rightarrow> arm_report \<Rightarrow> metric \<Rightarrow> paired_count" where
  "paired_of cs base cand name =
     foldl count_outcome \<lparr>improved = 0, regressed = 0, tied = 0, unscored = 0, planned_pairs = length cs\<rparr>
       (map (case_outcome base cand name) cs)"

record quota_report =
  q_dimension :: string
  q_key :: string
  q_min_n :: nat
  q_planned :: nat
  q_accepted :: nat
  q_held_out_planned :: nat
  q_held_out_accepted :: nat
  declared_quota_met :: bool

definition quota_report_of :: "(string \<times> buckets) list \<Rightarrow> (string \<times> buckets) list \<Rightarrow> quota \<Rightarrow> quota_report" where
  "quota_report_of coverage held_out q =
     (let b = bucket_at coverage (dimension q) (key q); h = bucket_at held_out (dimension q) (key q)
      in \<lparr>q_dimension = dimension q, q_key = key q, q_min_n = min_n q, q_planned = b_planned b, q_accepted = b_accepted b,
          q_held_out_planned = b_planned h, q_held_out_accepted = b_accepted h,
          declared_quota_met = (b_accepted b \<ge> min_n q)\<rparr>)"

record comparison =
  arms :: "arm_report list"
  baseline_run_id :: string
  candidate_run_id :: string
  paired :: "(metric \<times> paired_count) list"
  paired_cases :: "(string \<times> string \<times> (metric \<times> outcome) list) list"
  cov_planned :: nat
  cov_target :: nat
  cov_accepted :: nat
  cov_strata :: "(string \<times> buckets) list"
  quotas :: "quota_report list"

definition inventory_ok :: "package \<Rightarrow> decisions \<Rightarrow> (string \<times> labels_by_case) list \<Rightarrow> bool" where
  "inventory_ok pkg cd ol \<longleftrightarrow>
     distinct (map case_id (cases pkg)) \<and> set (map fst cd) = set (map case_id (cases pkg)) \<and>
     list_all (\<lambda>(_, v). v \<in> set DECISIONS) cd \<and>
     distinct (map run_id (runs pkg)) \<and> set (map fst ol) = set (map run_id (runs pkg))"

definition arms_ok :: "package \<Rightarrow> bool" where
  "arms_ok pkg \<longleftrightarrow> length (runs pkg) = 2 \<and> set (map arm (runs pkg)) = {''baseline'', ''candidate''}"

definition report_arm :: "string \<Rightarrow> arm_report list \<Rightarrow> arm_report" where
  "report_arm a rs = the (find (\<lambda>r. ar_arm r = a) rs)"

definition compute_metrics ::
  "package \<Rightarrow> decisions \<Rightarrow> (string \<times> labels_by_case) list \<Rightarrow> (metrics_error, comparison) res" where
  "compute_metrics pkg cd ol =
     rbind (guard (inventory_ok pkg cd ol) IncompleteInventory) (\<lambda>_.
     rbind (guard (arms_ok pkg) ArmsRequired) (\<lambda>_.
     rbind (guard (distinct (map src_id (sources pkg))) DuplicateSources) (\<lambda>_.
     rbind (rmapM (arm_report_of pkg cd ol) (runs pkg)) (\<lambda>rs.
       let cs = cases pkg; names = metric_names (k_values pkg);
           base = report_arm ''baseline'' rs; cand = report_arm ''candidate'' rs;
           coverage = strata_of (decision_of cd) (\<lambda>_. False) cs;
           held_out = strata_of (decision_of cd) (\<lambda>_. False) (filter (\<lambda>c. split c = ''held_out'') cs)
       in Inr \<lparr>arms = rs, baseline_run_id = ar_run base, candidate_run_id = ar_run cand,
               paired = map (\<lambda>name. (name, paired_of cs base cand name)) names,
               paired_cases = map (\<lambda>c. (case_id c, split c, map (\<lambda>name. (name, case_outcome base cand name c)) names)) cs,
               cov_planned = length cs, cov_target = target_question_count pkg,
               cov_accepted = count_if (\<lambda>(_, v). v = ''accept'') cd, cov_strata = coverage,
               quotas = map (quota_report_of coverage held_out) (strata pkg)\<rparr>))))"

section \<open>Accounting of one case\<close>

text \<open>
  Every ratio of a case counts the case exactly once, as missing, as not applicable or as
  scored, and its numerator and undetermined counts fit into the denominator.
\<close>

definition bounded_ratio :: "ratio \<Rightarrow> bool" where
  "bounded_ratio r \<longleftrightarrow> numerator r + undetermined r \<le> denominator r"

definition accounted :: "ratio \<Rightarrow> bool" where
  "accounted r \<longleftrightarrow> missing r + not_applicable r + (if denominator r > 0 then 1 else 0) = 1"

text \<open>The package contract: an expected claim has an alternative, and alternatives are not empty.\<close>

definition claims_supported_by_sources :: "eval_case \<Rightarrow> bool" where
  "claims_supported_by_sources c \<longleftrightarrow>
     list_all (\<lambda>cl. evidence_alternatives cl \<noteq> [] \<and> list_all (\<lambda>a. a \<noteq> []) (evidence_alternatives cl)) (expected c)"

lemma ratio_sels [simp]:
  "numerator (ratio u) = 0" "denominator (ratio u) = 0" "scored_cases (ratio u) = 0" "missing (ratio u) = 0"
  "undetermined (ratio u) = 0" "not_applicable (ratio u) = 0" "denominator_unit (ratio u) = u"
  by (simp_all add: ratio_def)

lemma count_if_disjoint:
  "(\<And>x. x \<in> set xs \<Longrightarrow> \<not> (P x \<and> Q x)) \<Longrightarrow> count_if P xs + count_if Q xs \<le> length xs"
  by (induction xs) force+

lemma len_set_filter_disjoint:
  assumes "\<And>x. \<not> (P x \<and> Q x)"
  shows "len_set (filter P xs) + len_set (filter Q xs) \<le> len_set xs"
proof -
  have "card (set (filter P xs)) + card (set (filter Q xs)) = card (set (filter P xs) \<union> set (filter Q xs))"
    using assms by (intro card_Un_disjoint [symmetric]) auto
  also have "\<dots> \<le> card (set xs)" by (intro card_mono) auto
  finally show ?thesis by (simp add: len_set_card)
qed

lemma len_set_pos: "0 < len_set xs \<longleftrightarrow> xs \<noteq> []"
  by (simp add: len_set_card card_gt_0_iff)

lemma bundle_ratio_ok: "bounded_ratio (bundle_ratio c obs d k) \<and> accounted (bundle_ratio c obs d k)"
  by (auto simp: bundle_ratio_def Let_def bounded_ratio_def accounted_def empty_metrics_def count_if_le_length)

lemma label_ratio_ok: "bounded_ratio (label_ratio obs l d name) \<and> accounted (label_ratio obs l d name)"
  by (auto simp: label_ratio_def Let_def bounded_ratio_def accounted_def empty_metrics_def split: option.splits)

lemma precision_ratio_ok: "bounded_ratio (precision_ratio obs l d) \<and> accounted (precision_ratio obs l d)"
  using count_if_disjoint [of "claims (the l)" "\<lambda>c. cj_status c = ''supported''" "\<lambda>c. cj_status c = ''undetermined''"]
  by (auto simp: precision_ratio_def Let_def bounded_ratio_def accounted_def empty_metrics_def)

lemma coverage_ratio_ok: "bounded_ratio (coverage_ratio c obs l d) \<and> accounted (coverage_ratio c obs l d)"
proof -
  let ?s = "set (claimed_ids ''supported'' (claims (the l)))" and ?u = "set (claimed_ids ''undetermined'' (claims (the l)))"
  have "len_set (filter (\<lambda>i. i \<in> ?s) (map ec_id (expected c)))
      + len_set (filter (\<lambda>i. i \<in> ?u \<and> i \<notin> ?s) (map ec_id (expected c))) \<le> len_set (map ec_id (expected c))"
    by (rule len_set_filter_disjoint) blast
  moreover have "len_set (map ec_id (expected c)) = 0 \<longleftrightarrow> expected c = []"
    by (simp add: len_set_card)
  ultimately show ?thesis
    by (auto simp: coverage_ratio_def Let_def bounded_ratio_def accounted_def empty_metrics_def len_set_def)
qed

lemma citation_ratio_ok: "bounded_ratio (citation_ratio obs) \<and> accounted (citation_ratio obs)"
  using count_if_le_length [of "citation_ok (length (selected_source_ids obs))" "find_citations (answer obs)"]
  by (auto simp: citation_ratio_def Let_def bounded_ratio_def accounted_def empty_metrics_def)

lemma relevant_ids_nonempty:
  assumes "claims_supported_by_sources c" and "expected c \<noteq> []"
  shows "relevant_ids c \<noteq> []"
proof -
  obtain cl cs where e: "expected c = cl # cs" using assms(2) by (cases "expected c") auto
  then obtain a as where "evidence_alternatives cl = a # as" and "a \<noteq> []"
    using assms(1) by (cases "evidence_alternatives cl") (auto simp: claims_supported_by_sources_def)
  then show ?thesis using e by (simp add: relevant_ids_def)
qed

lemma roots_list_nonempty:
  assumes "ids \<noteq> []" and "\<forall>i \<in> set ids. Option.bind (srcs i) root_id \<noteq> None"
  shows "roots_list srcs ids \<noteq> []"
  using assms by (cases ids) (auto simp: roots_list_def List.map_filter_simps split: option.splits)

lemma root_ratio_ok:
  assumes "root_ratio srcs c obs d k = Inr r" and "claims_supported_by_sources c"
  shows "bounded_ratio r \<and> accounted r"
proof (cases "d = ''accept'' \<and> status obs = ''completed'' \<and> expected c \<noteq> [] \<and>
    (\<forall>i \<in> set (relevant_ids c). Option.bind (srcs i) root_id \<noteq> None)")
  case True
  let ?rel = "roots_list srcs (relevant_ids c)"
  let ?hit = "filter (\<lambda>x. x \<in> set (roots_list srcs (retrieved_ids k obs))) ?rel"
  have r: "r = empty_metrics (DeclaredRootRecallAt k)\<lparr>denominator := len_set ?rel, numerator := len_set ?hit\<rparr>"
    using assms(1) True by (auto simp: root_ratio_def Let_def split: if_splits)
  have "0 < len_set ?rel"
    using True relevant_ids_nonempty [OF assms(2)] roots_list_nonempty by (simp add: len_set_pos)
  moreover have "len_set ?hit \<le> len_set ?rel"
    using len_set_filter_disjoint [of "\<lambda>x. x \<in> set (roots_list srcs (retrieved_ids k obs))" "\<lambda>_. False" ?rel] by simp
  ultimately show ?thesis using r by (simp add: bounded_ratio_def accounted_def empty_metrics_def)
next
  case False
  then show ?thesis using assms(1)
    by (auto simp: root_ratio_def Let_def bounded_ratio_def accounted_def empty_metrics_def split: if_splits)
qed

lemma case_metric_ok:
  assumes "case_metric srcs c obs l d name = Inr r" and "claims_supported_by_sources c"
  shows "bounded_ratio r \<and> accounted r"
  using assms root_ratio_ok bundle_ratio_ok label_ratio_ok precision_ratio_ok coverage_ratio_ok citation_ratio_ok
  by (cases name) auto

lemma distinct_metric_names: "distinct (metric_names ks)"
proof -
  have "distinct (concat (map (\<lambda>k. [EvidenceBundleCompletionAt k, DeclaredRootRecallAt k]) xs))" if "distinct xs" for xs
    using that by (induction xs) auto
  moreover have "m \<in> set (concat (map (\<lambda>k. [EvidenceBundleCompletionAt k, DeclaredRootRecallAt k]) xs)) \<Longrightarrow>
      \<exists>k. m = EvidenceBundleCompletionAt k \<or> m = DeclaredRootRecallAt k" for m and xs :: "nat list"
    by (induction xs) auto
  ultimately show ?thesis by (auto simp: metric_names_def LABEL_METRICS_def)
qed

text \<open>All cells of one case.\<close>

definition cells_ok :: "nat list \<Rightarrow> metrics_dict \<Rightarrow> bool" where
  "cells_ok ks ms \<longleftrightarrow>
     (\<forall>name \<in> set (metric_names ks). bounded_ratio (metric_at ms name) \<and> accounted (metric_at ms name) \<and>
        scored_cases (metric_at ms name) = (if denominator (metric_at ms name) > 0 then 1 else 0))"

lemma case_metrics_cells:
  assumes "case_metrics srcs ks c obs l d = Inr (ms, g)" and "claims_supported_by_sources c"
  shows "cells_ok ks ms"
  unfolding cells_ok_def
proof
  fix name assume n: "name \<in> set (metric_names ks)"
  have "rmapM (\<lambda>name. rbind (case_metric srcs c obs l d name) (\<lambda>r. Inr (name, set_scored r))) (metric_names ks) = Inr ms"
    using assms(1) by (simp add: case_metrics_def)
  from rmapM_keyed [where kf = "\<lambda>x. x", OF this _ n] distinct_metric_names obtain r where
    "case_metric srcs c obs l d name = Inr r" and "map_of ms name = Some (set_scored r)" by auto
  then show "bounded_ratio (metric_at ms name) \<and> accounted (metric_at ms name) \<and>
        scored_cases (metric_at ms name) = (if denominator (metric_at ms name) > 0 then 1 else 0)"
    using case_metric_ok [OF _ assms(2)]
    by (auto simp: metric_at_def set_scored_def bounded_ratio_def accounted_def)
qed

section \<open>Accounting of a split\<close>

lemma aggregate_accounts:
  assumes "\<forall>ms \<in> set items. cells_ok ks ms" and "name \<in> set (metric_names ks)"
  shows "scored_cases (aggregate_ratio items name) + missing (aggregate_ratio items name)
           + not_applicable (aggregate_ratio items name) = length items"
    and "numerator (aggregate_ratio items name) + undetermined (aggregate_ratio items name)
           \<le> denominator (aggregate_ratio items name)"
    and "scored_cases (aggregate_ratio items name) = 0 \<longleftrightarrow> denominator (aggregate_ratio items name) = 0"
proof -
  have ok: "bounded_ratio (metric_at ms name)" "accounted (metric_at ms name)"
    "scored_cases (metric_at ms name) = (if denominator (metric_at ms name) > 0 then 1 else 0)"
    if "ms \<in> set items" for ms
    using assms that by (auto simp: cells_ok_def)
  show "scored_cases (aggregate_ratio items name) + missing (aggregate_ratio items name)
           + not_applicable (aggregate_ratio items name) = length items"
    using ok unfolding aggregate_ratio_def accounted_def by (induction items) fastforce+
  show "numerator (aggregate_ratio items name) + undetermined (aggregate_ratio items name)
           \<le> denominator (aggregate_ratio items name)"
    using ok unfolding aggregate_ratio_def bounded_ratio_def by (induction items) fastforce+
  show "scored_cases (aggregate_ratio items name) = 0 \<longleftrightarrow> denominator (aggregate_ratio items name) = 0"
    using ok(3) unfolding aggregate_ratio_def by (induction items) auto
qed

definition sources_map :: "package \<Rightarrow> string \<Rightarrow> captured_source option" where
  "sources_map pkg = map_of (map (\<lambda>s. (src_id s, s)) (sources pkg))"

definition run_labels :: "(string \<times> labels_by_case) list \<Rightarrow> eval_run \<Rightarrow> labels_by_case" where
  "run_labels ol run = (case map_of ol (run_id run) of Some l \<Rightarrow> l | None \<Rightarrow> [])"

definition case_cells ::
  "package \<Rightarrow> decisions \<Rightarrow> (string \<times> labels_by_case) list \<Rightarrow> eval_run \<Rightarrow> eval_case \<Rightarrow> (metrics_error, metrics_dict \<times> nat) res" where
  "case_cells pkg cd ol run c =
     case_metrics (sources_map pkg) (k_values pkg) c (observation_of run c) (labels_of (run_labels ol run) c) (decision_of cd c)"

lemma arm_report_parts:
  assumes "arm_report_of pkg cd ol run = Inr a" and "distinct (map case_id (cases pkg))"
  obtains vals where
    "\<And>c. c \<in> set (cases pkg) \<Longrightarrow> \<exists>v. case_cells pkg cd ol run c = Inr v \<and> map_of vals (case_id c) = Some v"
    "case_values a = map (\<lambda>(i, ms, _). (i, ms)) vals"
    "\<And>sp s. (sp, s) \<in> set (splits a) \<Longrightarrow>
       split_report_of (k_values pkg) cd (run_labels ol run) run vals (cases pkg) sp = Inr (sp, s)"
    "ar_arm a = arm run" "ar_run a = run_id run"
proof -
  obtain vals sps where v: "rmapM (\<lambda>c. rbind (case_cells pkg cd ol run c) (\<lambda>v. Inr (case_id c, v))) (cases pkg) = Inr vals"
    and sp: "rmapM (split_report_of (k_values pkg) cd (run_labels ol run) run vals (cases pkg)) SPLITS = Inr sps"
    and a: "a = \<lparr>ar_run = run_id run, ar_arm = arm run, ar_execution = execution run, all_planned_cases = length (cases pkg),
              splits = sps, case_values = map (\<lambda>(i, ms, _). (i, ms)) vals\<rparr>"
    using assms(1) by (auto simp: arm_report_of_def Let_def case_cells_def sources_map_def run_labels_def)
  have "split_report_of (k_values pkg) cd (run_labels ol run) run vals (cases pkg) sp' = Inr (sp', s)"
    if "(sp', s) \<in> set sps" for sp' s
  proof -
    from rmapM_Inr_set [OF sp that] obtain x where
      x: "split_report_of (k_values pkg) cd (run_labels ol run) run vals (cases pkg) x = Inr (sp', s)" by blast
    then have "x = sp'" by (auto simp: split_report_of_def Let_def)
    with x show ?thesis by simp
  qed
  moreover have "\<exists>w. case_cells pkg cd ol run c = Inr w \<and> map_of vals (case_id c) = Some w" if "c \<in> set (cases pkg)" for c
    using rmapM_keyed [where g = "\<lambda>v. v" and kf = case_id, OF v assms(2) that] by simp
  ultimately show thesis using a that [of vals] by simp
qed

lemma split_report_accounts:
  assumes "split_report_of ks cd ls run vals cs sp = Inr (sp', s)"
    and "\<And>c. c \<in> set cs \<Longrightarrow> \<exists>ms g. map_of vals (case_id c) = Some (ms, g) \<and> cells_ok ks ms"
    and "(name, r) \<in> set (split_metrics s)"
  shows "scored_cases r + missing r + not_applicable r = planned_cases s \<and> numerator r + undetermined r \<le> denominator r \<and>
    (finish_value r = None \<longleftrightarrow> scored_cases r = 0)"
proof -
  define items where "items = map (\<lambda>c. fst (the (map_of vals (case_id c)))) (split_cases sp cs)"
  have s: "split_metrics s = aggregate ks items" "planned_cases s = length items"
    using assms(1) by (auto simp: split_report_of_def Let_def items_def comp_def)
  have "cells_ok ks ms" if "ms \<in> set items" for ms
    using that assms(2) by (fastforce simp: items_def split_cases_def)
  moreover have "name \<in> set (metric_names ks)" and "r = aggregate_ratio items name"
    using assms(3) s by (auto simp: aggregate_def)
  ultimately show ?thesis using aggregate_accounts [of items ks name] s(2) by (simp add: finish_value_def)
qed

section \<open>The paired comparison is exact\<close>

definition arm_value :: "arm_report \<Rightarrow> metric \<Rightarrow> eval_case \<Rightarrow> rat option" where
  "arm_value a name c = finish_value (metric_at (the (map_of (case_values a) (case_id c))) name)"

definition both_values :: "(rat \<Rightarrow> rat \<Rightarrow> bool) \<Rightarrow> rat option \<Rightarrow> rat option \<Rightarrow> bool" where
  "both_values R x y = (case (x, y) of (Some a, Some b) \<Rightarrow> R a b | _ \<Rightarrow> False)"

lemma quotient_less:
  assumes "0 < q" and "0 < t"
  shows "of_nat p / of_nat q < (of_nat r / of_nat t :: rat) \<longleftrightarrow> p * t < r * q"
proof -
  have "of_nat p / of_nat q < (of_nat r / of_nat t :: rat) \<longleftrightarrow> of_nat p * of_nat t < (of_nat r * of_nat q :: rat)"
    using assms by (simp add: divide_less_eq less_divide_eq mult.commute)
  then show ?thesis by (metis of_nat_less_iff of_nat_mult)
qed

lemma outcome_of_exact:
  "outcome_of b a = Improved \<longleftrightarrow> both_values (<) (finish_value b) (finish_value a)"
  "outcome_of b a = Regressed \<longleftrightarrow> both_values (>) (finish_value b) (finish_value a)"
  "outcome_of b a = Tied \<longleftrightarrow> both_values (=) (finish_value b) (finish_value a)"
proof -
  let ?less = "\<lambda>x y. numerator x * denominator y < numerator y * denominator x"
  have gt: "outcome_of b a = Improved \<longleftrightarrow> denominator b \<noteq> 0 \<and> denominator a \<noteq> 0 \<and> ?less b a"
    and lt: "outcome_of b a = Regressed \<longleftrightarrow> denominator b \<noteq> 0 \<and> denominator a \<noteq> 0 \<and> ?less a b"
    by (auto simp: outcome_of_def finish_value_def Let_def simp flip: of_nat_mult)
  have less: "both_values (<) (finish_value x) (finish_value y) \<longleftrightarrow> denominator x \<noteq> 0 \<and> denominator y \<noteq> 0 \<and> ?less x y" for x y
    using quotient_less [of "denominator x" "denominator y" "numerator x" "numerator y"]
    by (auto simp: both_values_def finish_value_def)
  have swap: "both_values (>) x y \<longleftrightarrow> both_values (<) y x" for x y
    by (auto simp: both_values_def split: option.splits)
  show i: "outcome_of b a = Improved \<longleftrightarrow> both_values (<) (finish_value b) (finish_value a)"
    using gt less by simp
  show r: "outcome_of b a = Regressed \<longleftrightarrow> both_values (>) (finish_value b) (finish_value a)"
    using lt less [of a b] swap by auto
  have "outcome_of b a = Unscored \<longleftrightarrow> finish_value b = None \<or> finish_value a = None"
    by (auto simp: outcome_of_def Let_def)
  then have "outcome_of b a = Tied \<longleftrightarrow> finish_value b \<noteq> None \<and> finish_value a \<noteq> None \<and>
      \<not> both_values (<) (finish_value b) (finish_value a) \<and> \<not> both_values (>) (finish_value b) (finish_value a)"
    using i r by (cases "outcome_of b a") auto
  also have "\<dots> \<longleftrightarrow> both_values (=) (finish_value b) (finish_value a)"
    by (cases "finish_value b"; cases "finish_value a") (auto simp: both_values_def)
  finally show "outcome_of b a = Tied \<longleftrightarrow> both_values (=) (finish_value b) (finish_value a)" .
qed

lemma count_outcomes:
  "improved (foldl count_outcome p os) = improved p + count_if (\<lambda>x. x = Improved) os"
  "regressed (foldl count_outcome p os) = regressed p + count_if (\<lambda>x. x = Regressed) os"
  "tied (foldl count_outcome p os) = tied p + count_if (\<lambda>x. x = Tied) os"
  "unscored (foldl count_outcome p os) = unscored p + count_if (\<lambda>x. x = Unscored) os"
  "planned_pairs (foldl count_outcome p os) = planned_pairs p"
proof (induction os arbitrary: p)
  case (Cons x os)
  { case 1 then show ?case using Cons(1) by (cases x) simp_all
  next case 2 then show ?case using Cons(2) by (cases x) simp_all
  next case 3 then show ?case using Cons(3) by (cases x) simp_all
  next case 4 then show ?case using Cons(4) by (cases x) simp_all
  next case 5 then show ?case using Cons(5) by (cases x) simp_all }
qed simp_all

lemma outcomes_partition:
  "count_if (\<lambda>x. x = Improved) os + count_if (\<lambda>x. x = Regressed) os + count_if (\<lambda>x. x = Tied) os
     + count_if (\<lambda>x. x = Unscored) os = length os"
proof (induction os)
  case (Cons x os)
  then show ?case by (cases x) simp_all
qed simp

lemma paired_counts:
  "improved (paired_of cs b a name) = count_if (\<lambda>c. both_values (<) (arm_value b name c) (arm_value a name c)) cs"
  "regressed (paired_of cs b a name) = count_if (\<lambda>c. both_values (>) (arm_value b name c) (arm_value a name c)) cs"
  "tied (paired_of cs b a name) = count_if (\<lambda>c. both_values (=) (arm_value b name c) (arm_value a name c)) cs"
  by (simp_all add: paired_of_def count_outcomes count_if_map case_outcome_def outcome_of_exact arm_value_def)

lemma paired_total:
  "improved (paired_of cs b a name) + regressed (paired_of cs b a name) + tied (paired_of cs b a name)
     + unscored (paired_of cs b a name) = length cs"
  using outcomes_partition [of "map (case_outcome b a name) cs"] by (simp add: paired_of_def count_outcomes)

section \<open>The whole computation\<close>

lemma compute_metrics_parts:
  assumes "compute_metrics pkg cd ol = Inr rep"
  shows "inventory_ok pkg cd ol" "arms_ok pkg" "rmapM (arm_report_of pkg cd ol) (runs pkg) = Inr (arms rep)"
    "paired rep = map (\<lambda>name. (name, paired_of (cases pkg) (report_arm ''baseline'' (arms rep))
        (report_arm ''candidate'' (arms rep)) name)) (metric_names (k_values pkg))"
    "baseline_run_id rep = ar_run (report_arm ''baseline'' (arms rep))"
    "candidate_run_id rep = ar_run (report_arm ''candidate'' (arms rep))"
    "cov_strata rep = strata_of (decision_of cd) (\<lambda>_. False) (cases pkg)"
    "quotas rep = map (quota_report_of (strata_of (decision_of cd) (\<lambda>_. False) (cases pkg))
        (strata_of (decision_of cd) (\<lambda>_. False) (filter (\<lambda>c. split c = ''held_out'') (cases pkg)))) (strata pkg)"
  using assms by (auto simp: compute_metrics_def Let_def)

lemma report_arm_in:
  assumes "rmapM (arm_report_of pkg cd ol) (runs pkg) = Inr rs" and "arms_ok pkg" and "distinct (map case_id (cases pkg))"
    and "a \<in> {''baseline'', ''candidate''}"
  shows "report_arm a rs \<in> set rs \<and> ar_arm (report_arm a rs) = a"
proof -
  have "a \<in> set (map arm (runs pkg))" using assms(2,4) unfolding arms_ok_def by blast
  then obtain run where run: "run \<in> set (runs pkg)" "arm run = a" by auto
  then obtain i where i: "i < length (runs pkg)" "runs pkg ! i = run" by (auto simp: in_set_conv_nth)
  then have rep: "arm_report_of pkg cd ol run = Inr (rs ! i)" using rmapM_Inr_nth [OF assms(1)] by auto
  have "ar_arm (rs ! i) = a" by (rule arm_report_parts [OF rep assms(3)]) (simp add: run(2))
  moreover have "rs ! i \<in> set rs" using i rmapM_Inr_length [OF assms(1)] by simp
  ultimately have "find (\<lambda>r. ar_arm r = a) rs \<noteq> None" by (auto simp: find_None_iff)
  then obtain r where r: "find (\<lambda>r. ar_arm r = a) rs = Some r" by blast
  then have "r \<in> set rs \<and> ar_arm r = a" by (auto simp: find_Some_iff)
  then show ?thesis using r by (simp add: report_arm_def)
qed

text \<open>When the inventories are complete, the sources are known and the costs are finite, the computation returns.\<close>

definition sources_known :: "package \<Rightarrow> bool" where
  "sources_known pkg \<longleftrightarrow>
     (\<forall>c \<in> set (cases pkg). set (relevant_ids c) \<subseteq> set (map src_id (sources pkg))) \<and>
     (\<forall>run \<in> set (runs pkg). \<forall>ob \<in> set (observations run). set (retrieved_source_ids ob) \<subseteq> set (map src_id (sources pkg)))"

definition costs_finite :: "package \<Rightarrow> bool" where
  "costs_finite pkg \<longleftrightarrow>
     (\<forall>run \<in> set (runs pkg). sum_list (List.map_filter cost_usd (observations run)) < FLOAT_OVERFLOW \<and>
        (\<forall>ob \<in> set (observations run). case cost_usd ob of None \<Rightarrow> True | Some x \<Rightarrow> 0 \<le> x))"

lemma sources_map_known: "i \<in> set (map src_id (sources pkg)) \<Longrightarrow> sources_map pkg i \<noteq> None"
  unfolding sources_map_def by (induction "sources pkg") (auto simp: map_of_eq_None_iff image_image)

lemma case_metric_returns:
  assumes "\<forall>i \<in> set (relevant_ids c) \<union> set (retrieved_source_ids obs). srcs i \<noteq> None"
  shows "\<exists>r. case_metric srcs c obs l d name = Inr r"
proof (cases name)
  case (DeclaredRootRecallAt k)
  have "set (retrieved_ids k obs) \<subseteq> set (retrieved_source_ids obs)" by (auto simp: retrieved_ids_def dest: in_set_takeD)
  then have "\<not> (\<exists>i \<in> set (retrieved_ids k obs). srcs i = None)" "\<not> (\<exists>i \<in> set (relevant_ids c). srcs i = None)"
    using assms by blast+
  then show ?thesis
    unfolding DeclaredRootRecallAt case_metric.simps root_ratio_def Let_def
    by (simp only: if_False) (simp split: if_split)
qed auto

lemma rmapM_returns: "\<forall>x \<in> set xs. \<exists>y. f x = Inr y \<Longrightarrow> \<exists>ys. rmapM f xs = Inr ys"
  by (induction xs) auto

lemma case_cells_return:
  assumes "\<forall>i \<in> set (relevant_ids c) \<union> set (retrieved_source_ids (observation_of run c)). sources_map pkg i \<noteq> None"
  shows "\<exists>v. case_cells pkg cd ol run c = Inr v"
proof -
  let ?f = "\<lambda>name. rbind (case_metric (sources_map pkg) c (observation_of run c) (labels_of (run_labels ol run) c) (decision_of cd c) name)
      (\<lambda>r. Inr (name, set_scored r))"
  have "\<forall>name \<in> set (metric_names (k_values pkg)). \<exists>y. ?f name = Inr y"
    using case_metric_returns [OF assms] by fastforce
  from rmapM_returns [OF this] show ?thesis by (auto simp: case_cells_def case_metrics_def)
qed

lemma observation_of_in:
  assumes "run_inventory_ok cs ls run" and "c \<in> set cs"
  shows "observation_of run c \<in> set (observations run) \<and> obs_case_id (observation_of run c) = case_id c"
proof -
  have "case_id c \<in> set (map obs_case_id (observations run))" using assms by (auto simp: run_inventory_ok_def)
  then have "find (\<lambda>ob. obs_case_id ob = case_id c) (observations run) \<noteq> None" by (auto simp: find_None_iff)
  then obtain ob where "find (\<lambda>ob. obs_case_id ob = case_id c) (observations run) = Some ob" by blast
  moreover from this have "ob \<in> set (observations run) \<and> obs_case_id ob = case_id c" by (auto simp: find_Some_iff)
  ultimately show ?thesis by (simp add: observation_of_def)
qed

lemma sum_list_subset:
  fixes f :: "'a \<Rightarrow> rat option"
  assumes "distinct xs" and "distinct ys" and "set xs \<subseteq> set ys" and "\<forall>y \<in> set ys. case f y of None \<Rightarrow> True | Some v \<Rightarrow> 0 \<le> v"
  shows "sum_list (List.map_filter f xs) \<le> sum_list (List.map_filter f ys)"
proof -
  let ?g = "\<lambda>x. case f x of None \<Rightarrow> 0 | Some v \<Rightarrow> v"
  have eq: "sum_list (List.map_filter f zs) = sum_list (map ?g zs)" for zs
    by (induction zs) (auto simp: List.map_filter_simps split: option.splits)
  have "sum_list (map ?g xs) = sum ?g (set xs)" using assms(1) by (rule sum_list_distinct_conv_sum_set)
  also have "\<dots> \<le> sum ?g (set ys)"
    using assms(3,4) by (intro sum_mono2) (auto split: option.splits)
  also have "\<dots> = sum_list (map ?g ys)" using assms(2) by (rule sum_list_distinct_conv_sum_set [symmetric])
  finally show ?thesis by (simp add: eq)
qed

lemma split_report_returns:
  assumes "run_inventory_ok cs ls run" and "distinct (map case_id cs)"
    and "sum_list (List.map_filter cost_usd (observations run)) < FLOAT_OVERFLOW"
    and "\<forall>ob \<in> set (observations run). case cost_usd ob of None \<Rightarrow> True | Some x \<Rightarrow> 0 \<le> x"
  shows "\<exists>y. split_report_of ks cd ls run vals cs sp = Inr y"
proof -
  let ?sub = "split_cases sp cs" and ?obs = "map (observation_of run) (split_cases sp cs)"
  have sub: "set ?sub \<subseteq> set cs" "distinct (map case_id ?sub)"
    using assms(2) by (auto simp: split_cases_def distinct_map_filter)
  have ids: "map obs_case_id ?obs = map case_id ?sub"
    using observation_of_in [OF assms(1)] sub(1) by (auto simp: comp_def)
  have "distinct ?obs" using ids sub(2) by (metis distinct_map)
  moreover have "distinct (observations run)" using assms(1) by (auto simp: run_inventory_ok_def distinct_map)
  moreover have "set ?obs \<subseteq> set (observations run)" using observation_of_in [OF assms(1)] sub(1) by auto
  ultimately have "sum_list (List.map_filter cost_usd ?obs) < FLOAT_OVERFLOW"
    using sum_list_subset [OF _ _ _ assms(4)] assms(3) by fastforce
  moreover have "List.map_filter id (map cost_usd xs) = List.map_filter cost_usd xs" for xs :: "observation list"
    by (induction xs) (auto simp: List.map_filter_simps split: option.splits)
  ultimately show ?thesis
    by (simp add: split_report_of_def Let_def operations_of_def known_cost_def comp_def)
qed

lemma arm_report_returns:
  assumes "run \<in> set (runs pkg)" and "run_inventory_ok (cases pkg) (run_labels ol run) run"
    and "distinct (map case_id (cases pkg))" and "sources_known pkg" and "costs_finite pkg"
  shows "\<exists>a. arm_report_of pkg cd ol run = Inr a"
proof -
  let ?f = "\<lambda>c. rbind (case_cells pkg cd ol run c) (\<lambda>v. Inr (case_id c, v))"
  have "\<exists>v. case_cells pkg cd ol run c = Inr v" if c: "c \<in> set (cases pkg)" for c
  proof (rule case_cells_return)
    have "set (relevant_ids c) \<union> set (retrieved_source_ids (observation_of run c)) \<subseteq> set (map src_id (sources pkg))"
      using assms(1,4) c observation_of_in [OF assms(2) c] unfolding sources_known_def by blast
    then show "\<forall>i \<in> set (relevant_ids c) \<union> set (retrieved_source_ids (observation_of run c)). sources_map pkg i \<noteq> None"
      using sources_map_known by blast
  qed
  then have "\<forall>c \<in> set (cases pkg). \<exists>y. ?f c = Inr y" by fastforce
  from rmapM_returns [OF this] obtain vals where vals: "rmapM ?f (cases pkg) = Inr vals" by blast
  have "\<forall>sp \<in> set SPLITS. \<exists>y. split_report_of (k_values pkg) cd (run_labels ol run) run vals (cases pkg) sp = Inr y"
    using split_report_returns [OF assms(2,3)] assms(1,5) unfolding costs_finite_def by blast
  from rmapM_returns [OF this] obtain sps where
    "rmapM (split_report_of (k_values pkg) cd (run_labels ol run) run vals (cases pkg)) SPLITS = Inr sps" by blast
  then show ?thesis using vals assms(2)
    by (simp add: arm_report_of_def Let_def case_cells_def sources_map_def run_labels_def)
qed

lemma compute_metrics_returns:
  assumes "inventory_ok pkg cd ol" and "arms_ok pkg" and "distinct (map src_id (sources pkg))"
    and "\<forall>run \<in> set (runs pkg). run_inventory_ok (cases pkg) (run_labels ol run) run"
    and "sources_known pkg" and "costs_finite pkg"
  shows "\<exists>rep. compute_metrics pkg cd ol = Inr rep"
proof -
  have "distinct (map case_id (cases pkg))" using assms(1) by (simp add: inventory_ok_def)
  then have "\<forall>run \<in> set (runs pkg). \<exists>a. arm_report_of pkg cd ol run = Inr a"
    using arm_report_returns assms(4-6) by blast
  from rmapM_returns [OF this] show ?thesis using assms(1-3) by (auto simp: compute_metrics_def Let_def)
qed

section \<open>Strata count cases\<close>

lemma map_of_bump:
  "map_of (bump acc fin bs k) k' =
     (if k' = k then (let b = (case map_of bs k of None \<Rightarrow> empty_bucket | Some b \<Rightarrow> b)
        in Some \<lparr>b_planned = b_planned b + 1, b_accepted = b_accepted b + (if acc then 1 else 0),
                 b_completed = b_completed b + (if fin then 1 else 0)\<rparr>)
      else map_of bs k')"
proof (induction bs)
  case (Cons a bs)
  then show ?case by (cases a) (auto simp: Let_def)
qed (simp add: empty_bucket_def)

definition bucket_of :: "buckets \<Rightarrow> string \<Rightarrow> bucket" where
  "bucket_of bs k = (case map_of bs k of None \<Rightarrow> empty_bucket | Some b \<Rightarrow> b)"

lemma bucket_of_bump:
  "b_planned (bucket_of (bump acc fin bs k) k') = b_planned (bucket_of bs k') + (if k' = k then 1 else 0)"
  "b_accepted (bucket_of (bump acc fin bs k) k') = b_accepted (bucket_of bs k') + (if k' = k \<and> acc then 1 else 0)"
  by (auto simp: bucket_of_def map_of_bump Let_def)

lemma bucket_of_bumps:
  "distinct ks \<Longrightarrow> b_planned (bucket_of (foldl (bump acc fin) bs ks) k) = b_planned (bucket_of bs k) + (if k \<in> set ks then 1 else 0)"
  "distinct ks \<Longrightarrow> b_accepted (bucket_of (foldl (bump acc fin) bs ks) k) = b_accepted (bucket_of bs k) + (if k \<in> set ks \<and> acc then 1 else 0)"
  by (induction ks arbitrary: bs) (auto simp: bucket_of_bump)

lemma strata_dim_counts:
  assumes "\<forall>c \<in> set cs. distinct (dimension_values dm c)"
  shows "b_planned (bucket_of (strata_dim dec fin cs dm) k) = count_if (\<lambda>c. k \<in> set (dimension_values dm c)) cs"
    and "b_accepted (bucket_of (strata_dim dec fin cs dm) k) =
           count_if (\<lambda>c. k \<in> set (dimension_values dm c) \<and> dec c = ''accept'') cs"
proof -
  let ?step = "\<lambda>bs c. foldl (bump (dec c = ''accept'') (fin c)) bs (dimension_values dm c)"
  have "b_planned (bucket_of (foldl ?step bs cs) k) = b_planned (bucket_of bs k) + count_if (\<lambda>c. k \<in> set (dimension_values dm c)) cs"
    and "b_accepted (bucket_of (foldl ?step bs cs) k) =
      b_accepted (bucket_of bs k) + count_if (\<lambda>c. k \<in> set (dimension_values dm c) \<and> dec c = ''accept'') cs" for bs
    using assms by (induction cs arbitrary: bs) (auto simp: bucket_of_bumps)
  then show "b_planned (bucket_of (strata_dim dec fin cs dm) k) = count_if (\<lambda>c. k \<in> set (dimension_values dm c)) cs"
    and "b_accepted (bucket_of (strata_dim dec fin cs dm) k) =
           count_if (\<lambda>c. k \<in> set (dimension_values dm c) \<and> dec c = ''accept'') cs"
    by (simp_all add: strata_dim_def bucket_of_def empty_bucket_def)
qed

lemma bucket_at_strata:
  assumes "dm \<in> set DIMENSIONS"
  shows "bucket_at (strata_of dec fin cs) dm k = bucket_of (strata_dim dec fin cs dm) k"
proof -
  have "map_of (map (\<lambda>d. (d, f d)) xs) x = (if x \<in> set xs then Some (f x) else None)" for f :: "string \<Rightarrow> buckets" and xs x
    by (induction xs) auto
  then show ?thesis using assms by (simp add: bucket_at_def strata_of_def bucket_of_def)
qed

section \<open>Properties\<close>

text \<open>
  C29. No case is silently dropped or counted twice: in every arm, split and metric of a computed
  comparison, scored, missing and not-applicable cases add up to the planned cases of the
  split, the numerator and the undetermined count fit into the denominator, and the ratio has
  a value exactly when at least one case was scored.
\<close>
theorem evaluation_split_accounts:
  assumes "compute_metrics pkg cd ol = Inr rep" and "list_all claims_supported_by_sources (cases pkg)"
    and "a \<in> set (arms rep)" and "(sp, s) \<in> set (splits a)" and "(name, r) \<in> set (split_metrics s)"
  shows "scored_cases r + missing r + not_applicable r = planned_cases s \<and>
    numerator r + undetermined r \<le> denominator r \<and> (finish_value r = None \<longleftrightarrow> scored_cases r = 0)"
proof -
  note parts = compute_metrics_parts [OF assms(1)]
  have ids: "distinct (map case_id (cases pkg))" using parts(1) by (simp add: inventory_ok_def)
  from rmapM_Inr_set [OF parts(3) assms(3)] obtain run where run: "arm_report_of pkg cd ol run = Inr a" by blast
  from arm_report_parts [OF run ids] obtain vals where
    cells: "\<And>c. c \<in> set (cases pkg) \<Longrightarrow> \<exists>v. case_cells pkg cd ol run c = Inr v \<and> map_of vals (case_id c) = Some v"
    and sp: "split_report_of (k_values pkg) cd (run_labels ol run) run vals (cases pkg) sp = Inr (sp, s)"
    using assms(4) by metis
  have "\<exists>ms g. map_of vals (case_id c) = Some (ms, g) \<and> cells_ok (k_values pkg) ms" if c: "c \<in> set (cases pkg)" for c
  proof -
    from cells [OF c] obtain ms g where "case_cells pkg cd ol run c = Inr (ms, g)" "map_of vals (case_id c) = Some (ms, g)"
      by (metis surj_pair)
    moreover have "claims_supported_by_sources c" using assms(2) c by (auto simp: list_all_iff)
    ultimately show ?thesis using case_metrics_cells by (auto simp: case_cells_def)
  qed
  from split_report_accounts [OF sp this assms(5)] show ?thesis .
qed

text \<open>
  The paired comparison is exact: for every metric, the improved, regressed and tied counts
  are the numbers of cases whose candidate value is above, below or equal to the baseline
  value as rational numbers, and with the unscored cases they add up to all planned cases.
\<close>
theorem evaluation_paired_exact:
  assumes "compute_metrics pkg cd ol = Inr rep" and "(name, p) \<in> set (paired rep)"
  shows "\<exists>base \<in> set (arms rep). \<exists>cand \<in> set (arms rep).
     ar_arm base = ''baseline'' \<and> ar_arm cand = ''candidate'' \<and>
     ar_run base = baseline_run_id rep \<and> ar_run cand = candidate_run_id rep \<and>
     improved p = count_if (\<lambda>c. both_values (<) (arm_value base name c) (arm_value cand name c)) (cases pkg) \<and>
     regressed p = count_if (\<lambda>c. both_values (>) (arm_value base name c) (arm_value cand name c)) (cases pkg) \<and>
     tied p = count_if (\<lambda>c. both_values (=) (arm_value base name c) (arm_value cand name c)) (cases pkg) \<and>
     improved p + regressed p + tied p + unscored p = length (cases pkg)"
proof -
  note parts = compute_metrics_parts [OF assms(1)]
  have ids: "distinct (map case_id (cases pkg))" using parts(1) by (simp add: inventory_ok_def)
  let ?b = "report_arm ''baseline'' (arms rep)" and ?c = "report_arm ''candidate'' (arms rep)"
  have p: "p = paired_of (cases pkg) ?b ?c name" using assms(2) parts(4) by auto
  have "?b \<in> set (arms rep) \<and> ar_arm ?b = ''baseline''" "?c \<in> set (arms rep) \<and> ar_arm ?c = ''candidate''"
    using report_arm_in [OF parts(3,2) ids] by blast+
  then show ?thesis unfolding p parts(5,6) by (intro bexI [of _ ?b] bexI [of _ ?c] conjI paired_counts paired_total) simp_all
qed

text \<open>
  The comparison is computed whenever the inventories are complete and unique, the two arms
  are present, every referenced source was captured and the observed costs are finite.
\<close>
theorem evaluation_computes:
  assumes "inventory_ok pkg cd ol" and "arms_ok pkg" and "distinct (map src_id (sources pkg))"
    and "\<forall>run \<in> set (runs pkg). run_inventory_ok (cases pkg) (run_labels ol run) run"
    and "sources_known pkg" and "costs_finite pkg"
  shows "\<exists>rep. compute_metrics pkg cd ol = Inr rep \<and> length (arms rep) = 2"
proof -
  from compute_metrics_returns [OF assms] obtain rep where rep: "compute_metrics pkg cd ol = Inr rep" by blast
  have "length (arms rep) = 2"
    using rmapM_Inr_length [OF compute_metrics_parts(3) [OF rep]] assms(2) by (simp add: arms_ok_def)
  with rep show ?thesis by blast
qed

text \<open>
  A declared quota is reported as met exactly when enough accepted cases carry its key, where
  a case with repeated labels cannot occur (labels of a case are unique).
\<close>
theorem evaluation_quota_exact:
  assumes "compute_metrics pkg cd ol = Inr rep" and "q \<in> set (strata pkg)" and "dimension q \<in> set DIMENSIONS"
    and "list_all (\<lambda>c. distinct (families c) \<and> distinct (tags c)) (cases pkg)"
  shows "\<exists>qr \<in> set (quotas rep). q_key qr = key q \<and> q_dimension qr = dimension q \<and>
     (declared_quota_met qr \<longleftrightarrow>
        min_n q \<le> count_if (\<lambda>c. key q \<in> set (dimension_values (dimension q) c) \<and> decision_of cd c = ''accept'') (cases pkg))"
proof -
  let ?cov = "strata_of (decision_of cd) (\<lambda>_. False) (cases pkg)"
  let ?held = "strata_of (decision_of cd) (\<lambda>_. False) (filter (\<lambda>c. split c = ''held_out'') (cases pkg))"
  have "\<forall>c \<in> set (cases pkg). distinct (dimension_values (dimension q) c)"
    using assms(4) by (auto simp: dimension_values_def list_all_iff)
  then have "declared_quota_met (quota_report_of ?cov ?held q) \<longleftrightarrow>
      min_n q \<le> count_if (\<lambda>c. key q \<in> set (dimension_values (dimension q) c) \<and> decision_of cd c = ''accept'') (cases pkg)"
    by (simp add: quota_report_of_def Let_def bucket_at_strata [OF assms(3)] strata_dim_counts(2))
  moreover have "quota_report_of ?cov ?held q \<in> set (quotas rep)"
    using assms(2) compute_metrics_parts(8) [OF assms(1)] by simp
  moreover have "q_key (quota_report_of ?cov ?held q) = key q" "q_dimension (quota_report_of ?cov ?held q) = dimension q"
    by (simp_all add: quota_report_of_def Let_def)
  ultimately show ?thesis by blast
qed

section \<open>A concrete package\<close>

definition demo_case :: eval_case where
  "demo_case = \<lparr>case_id = ''c1'', split = ''held_out'', language = ''en'', task = ''numerical'',
     families = [''cuprate''], tags = [], expected = [\<lparr>ec_id = ''e1'', evidence_alternatives = [[''s1'']]\<rparr>]\<rparr>"

definition demo_observation :: "string list \<Rightarrow> observation" where
  "demo_observation ids = \<lparr>obs_case_id = ''c1'', status = ''completed'', retrieved_source_ids = ids,
     selected_source_ids = ids, answer = ''Tc is 92 K [1]'', latency_ms = Some 12, input_tokens = Some 7, total_tokens = None,
     cost_usd = None, provider_fallback = Some False\<rparr>"

definition demo_package :: package where
  "demo_package = \<lparr>cases = [demo_case],
     runs = [\<lparr>run_id = ''r1'', arm = ''baseline'', execution = ''captured'', observations = [demo_observation []]\<rparr>,
             \<lparr>run_id = ''r2'', arm = ''candidate'', execution = ''captured'', observations = [demo_observation [''s1'']]\<rparr>],
     sources = [\<lparr>src_id = ''s1'', root_id = Some ''root''\<rparr>], k_values = [5],
     strata = [\<lparr>dimension = ''family'', key = ''cuprate'', min_n = 1\<rparr>], target_question_count = 120\<rparr>"

definition demo_decisions :: decisions where "demo_decisions = [(''c1'', ''accept'')]"

definition demo_labels :: "(string \<times> labels_by_case) list" where
  "demo_labels = [(''r1'', [(''c1'', None)]), (''r2'', [(''c1'', None)])]"

lemmas demo_defs = demo_case_def demo_observation_def demo_package_def demo_decisions_def demo_labels_def

lemma demo_inventory:
  "inventory_ok demo_package demo_decisions demo_labels" "arms_ok demo_package"
  "distinct (map src_id (sources demo_package))"
  "\<forall>run \<in> set (runs demo_package). run_inventory_ok (cases demo_package) (run_labels demo_labels run) run"
  "sources_known demo_package" "costs_finite demo_package" "list_all claims_supported_by_sources (cases demo_package)"
  by (simp_all add: demo_defs inventory_ok_def arms_ok_def run_inventory_ok_def run_labels_def sources_known_def
      costs_finite_def DECISIONS_def relevant_ids_def claims_supported_by_sources_def FLOAT_OVERFLOW_def
      List.map_filter_simps insert_commute)

lemma arm_report_splits:
  assumes "arm_report_of pkg cd ol run = Inr a"
  shows "\<exists>vals. rmapM (split_report_of (k_values pkg) cd (run_labels ol run) run vals (cases pkg)) SPLITS = Inr (splits a)"
proof -
  obtain vals sps where "rmapM (split_report_of (k_values pkg) cd (run_labels ol run) run vals (cases pkg)) SPLITS = Inr sps"
    and "a = \<lparr>ar_run = run_id run, ar_arm = arm run, ar_execution = execution run, all_planned_cases = length (cases pkg),
              splits = sps, case_values = map (\<lambda>(i, ms, _). (i, ms)) vals\<rparr>"
    using assms by (auto simp: arm_report_of_def Let_def run_labels_def)
  then show ?thesis by auto
qed

lemma demo_split:
  assumes "compute_metrics demo_package demo_decisions demo_labels = Inr rep"
  shows "\<exists>a s r. a \<in> set (arms rep) \<and> (''all'', s) \<in> set (splits a) \<and> (MechanicalCitationPrecision, r) \<in> set (split_metrics s)"
proof -
  note parts = compute_metrics_parts [OF assms]
  obtain run where run: "run \<in> set (runs demo_package)" by (auto simp: demo_package_def)
  then obtain i where i: "i < length (runs demo_package)" "runs demo_package ! i = run" by (auto simp: in_set_conv_nth)
  then have a: "arm_report_of demo_package demo_decisions demo_labels run = Inr (arms rep ! i)"
    using rmapM_Inr_nth [OF parts(3)] by auto
  have "arms rep ! i \<in> set (arms rep)" using i rmapM_Inr_length [OF parts(3)] by simp
  moreover from arm_report_splits [OF a] obtain vals where
    sps: "rmapM (split_report_of (k_values demo_package) demo_decisions (run_labels demo_labels run) run vals (cases demo_package)) SPLITS
      = Inr (splits (arms rep ! i))" by blast
  moreover obtain sp s where first: "splits (arms rep ! i) ! 0 = (sp, s)" by fastforce
  have one: "split_report_of (k_values demo_package) demo_decisions (run_labels demo_labels run) run vals (cases demo_package) ''all'' = Inr (sp, s)"
    using rmapM_Inr_nth [OF sps, of 0] first by (simp add: SPLITS_def)
  moreover from one have "sp = ''all''" and "MechanicalCitationPrecision \<in> fst ` set (split_metrics s)"
    by (auto simp: split_report_of_def Let_def aggregate_def metric_names_def image_image)
  moreover have "(sp, s) \<in> set (splits (arms rep ! i))"
    using first nth_mem [of 0 "splits (arms rep ! i)"] rmapM_Inr_length [OF sps] by (simp add: SPLITS_def)
  ultimately show ?thesis by fastforce
qed

theorem evaluation_split_accounts_witness:
  "\<exists>rep a s r. compute_metrics demo_package demo_decisions demo_labels = Inr rep \<and> a \<in> set (arms rep) \<and>
     (''all'', s) \<in> set (splits a) \<and> (MechanicalCitationPrecision, r) \<in> set (split_metrics s) \<and>
     scored_cases r + missing r + not_applicable r = planned_cases s"
proof -
  obtain rep where rep: "compute_metrics demo_package demo_decisions demo_labels = Inr rep"
    using compute_metrics_returns [OF demo_inventory(1-6)] by blast
  then obtain a s r where m: "a \<in> set (arms rep)" "(''all'', s) \<in> set (splits a)"
    "(MechanicalCitationPrecision, r) \<in> set (split_metrics s)" using demo_split by blast
  from evaluation_split_accounts [OF rep demo_inventory(7) m] rep m show ?thesis by blast
qed

theorem evaluation_paired_exact_witness:
  "\<exists>rep p. compute_metrics demo_package demo_decisions demo_labels = Inr rep \<and>
     (MechanicalCitationPrecision, p) \<in> set (paired rep) \<and> improved p + regressed p + tied p + unscored p = 1"
proof -
  obtain rep where rep: "compute_metrics demo_package demo_decisions demo_labels = Inr rep"
    using compute_metrics_returns [OF demo_inventory(1-6)] by blast
  then obtain p where p: "(MechanicalCitationPrecision, p) \<in> set (paired rep)"
    using compute_metrics_parts(4) [OF rep] by (auto simp: metric_names_def)
  have "length (cases demo_package) = 1" by (simp add: demo_package_def)
  with evaluation_paired_exact [OF rep p] rep p show ?thesis by auto
qed

theorem evaluation_computes_witness:
  "\<exists>rep. compute_metrics demo_package demo_decisions demo_labels = Inr rep \<and> length (arms rep) = 2"
  by (rule evaluation_computes [OF demo_inventory(1-6)])

theorem evaluation_quota_exact_witness:
  "\<exists>rep qr. compute_metrics demo_package demo_decisions demo_labels = Inr rep \<and> qr \<in> set (quotas rep) \<and> declared_quota_met qr"
proof -
  obtain rep where rep: "compute_metrics demo_package demo_decisions demo_labels = Inr rep"
    using compute_metrics_returns [OF demo_inventory(1-6)] by blast
  let ?q = "\<lparr>dimension = ''family'', key = ''cuprate'', min_n = 1\<rparr>"
  have "\<exists>qr \<in> set (quotas rep). q_key qr = key ?q \<and> q_dimension qr = dimension ?q \<and>
     (declared_quota_met qr \<longleftrightarrow> min_n ?q \<le> count_if (\<lambda>c. key ?q \<in> set (dimension_values (dimension ?q) c) \<and>
        decision_of demo_decisions c = ''accept'') (cases demo_package))"
    by (rule evaluation_quota_exact [OF rep]) (simp_all add: demo_defs DIMENSIONS_def)
  then show ?thesis using rep by (auto simp: demo_defs dimension_values_def decision_of_def)
qed

end
