(* ===== verification/Result_Semantics.thy ===== *)
theory Result_Semantics
  imports Py_Runtime
begin

text \<open>
  The result-origin contract (\<open>api/services/result_semantics.py\<close>) and the negative-outcome
  shape contract (\<open>api/services/claim_outcomes.py\<close>).

  A record is a Python mapping. Its classification is computed from explicit labels and
  methods only; \<open>origin_evidence\<close> and \<open>role_evidence\<close> state what a record asserts, and the
  lemmas show that the classifier resolves exactly when the assertions agree.
\<close>

section \<open>Tables\<close>

definition CLASSIFIER_VERSION :: string where
  "CLASSIFIER_VERSION = ''sclib-result-origin/v1''"

definition ORIGINS :: "string list" where
  "ORIGINS = [''Observed'', ''Computed'', ''Inferred'', ''AI-Proposed'', ''Unknown'']"

definition ORIGIN_ALIASES :: "(string \<times> string) list" where
  "ORIGIN_ALIASES =
     [(''observed'', ''Observed''), (''experimental'', ''Observed''), (''experiment'', ''Observed''),
      (''measured'', ''Observed''), (''primary_experimental'', ''Observed''),
      (''computed'', ''Computed''), (''computational'', ''Computed''), (''theoretical'', ''Computed''),
      (''theory'', ''Computed''), (''calculated'', ''Computed''), (''primary_theoretical'', ''Computed''),
      (''inferred'', ''Inferred''), (''physics_prior'', ''Inferred''), (''family_prior'', ''Inferred''),
      (''ai_proposed'', ''AI-Proposed''), (''llm_generated_hypothesis'', ''AI-Proposed'')]"

definition ROLE_ALIASES :: "(string \<times> string) list" where
  "ROLE_ALIASES =
     [(''primary'', ''primary''), (''primary_result'', ''primary''),
      (''primary_experimental'', ''primary''), (''primary_theoretical'', ''primary''),
      (''cited'', ''cited''), (''cited_prior_work'', ''cited''), (''secondary'', ''cited''),
      (''citation'', ''cited''), (''referenced'', ''cited'')]"

definition OBSERVED_METHODS :: "string list" where
  "OBSERVED_METHODS =
     [''resistivity'', ''resistance'', ''resistive'', ''electrical_resistivity'',
      ''susceptibility'', ''magnetic_susceptibility'', ''ac_susceptibility'', ''dc_susceptibility'',
      ''specific_heat'', ''heat_capacity'', ''specific_heat_capacity'',
      ''arpes'', ''musr'', ''mu_sr'', ''muon_spin_rotation'', ''muon_spin_relaxation'',
      ''stm'', ''neutron'', ''nmr'', ''nqr'', ''magnetization'', ''thermal_conductivity'',
      ''raman_scattering'', ''raman'', ''andreev_reflection'', ''nernst'', ''tunneling'',
      ''esr'', ''torque_magnetometry'', ''hall_effect'', ''transport'', ''electrical_transport'']"

definition COMPUTED_METHODS :: "string list" where
  "COMPUTED_METHODS =
     [''calculation'', ''dft'', ''dfpt'', ''first_principles'', ''first_principle'',
      ''first_principles_calculation'', ''computational'', ''ab_initio'', ''abinitio'',
      ''density_functional_theory'', ''allen_dynes'', ''allen_dynes_calculation'',
      ''eliashberg'', ''tight_binding'', ''scdft'']"

definition LABEL_KEYS :: "string list" where
  "LABEL_KEYS = [''knowledge_origin'', ''result_origin'', ''evidence_role'', ''evidence_type'', ''claim_kind'']"

definition METHOD_KEYS :: "string list" where
  "METHOD_KEYS = [''measurement'', ''measurement_method'', ''method'']"

section \<open>Classification of a record\<close>

definition slug_class :: "char \<Rightarrow> bool" where
  "slug_class c = (is_space c \<or> c = CHR ''-'')"

definition slug :: "pyval \<Rightarrow> string" where
  "slug v = (if is_str v then sub_runs slug_class (py_lower (py_strip (str_of v))) else [])"

record result_classification =
  knowledge_origin :: string
  classification_status :: string
  source_role :: string
  reasons :: "string list"
  classifier_version :: string

definition as_dict :: "result_classification \<Rightarrow> pyval" where
  "as_dict c = PDict
     [(PStr ''knowledge_origin'', PStr (knowledge_origin c)),
      (PStr ''classification_status'', PStr (classification_status c)),
      (PStr ''source_role'', PStr (source_role c)),
      (PStr ''classification_reasons'', PList (map PStr (reasons c))),
      (PStr ''classifier_version'', PStr (classifier_version c))]"

text \<open>
  The three sets of the function body, as lists of what is added in order: origins, roles
  and reasons. A label may name an origin, a role or both.
\<close>

record origin_sets =
  origins :: "string list"
  roles :: "string list"
  why :: "string list"

definition label_step :: "pyval \<Rightarrow> origin_sets \<Rightarrow> string \<Rightarrow> origin_sets" where
  "label_step r s k =
     (let value = slug (pget r k);
          s1 = (case map_of ORIGIN_ALIASES value of None \<Rightarrow> s
                | Some o' \<Rightarrow> s\<lparr>origins := o' # origins s, why := (''origin_label:'' @ k) # why s\<rparr>)
      in case map_of ROLE_ALIASES value of None \<Rightarrow> s1 | Some q \<Rightarrow> s1\<lparr>roles := q # roles s1\<rparr>)"

definition role_step :: "pyval \<Rightarrow> origin_sets \<Rightarrow> origin_sets" where
  "role_step r s = (case map_of ROLE_ALIASES (slug (pget r ''source_role'')) of None \<Rightarrow> s
     | Some q \<Rightarrow> s\<lparr>roles := q # roles s\<rparr>)"

definition method_step :: "pyval \<Rightarrow> origin_sets \<Rightarrow> string \<Rightarrow> origin_sets" where
  "method_step r s k =
     (let value = slug (pget r k)
      in if value \<in> set OBSERVED_METHODS
         then s\<lparr>origins := ''Observed'' # origins s, why := (''observed_method:'' @ k) # why s\<rparr>
         else if value \<in> set COMPUTED_METHODS
         then s\<lparr>origins := ''Computed'' # origins s, why := (''computed_method:'' @ k) # why s\<rparr>
         else s)"

definition collect_evidence :: "pyval \<Rightarrow> origin_sets" where
  "collect_evidence r =
     foldl (method_step r)
       (role_step r (foldl (label_step r) \<lparr>origins = [], roles = [], why = []\<rparr> LABEL_KEYS)) METHOD_KEYS"

definition resolve_origin :: "pyval \<Rightarrow> string list \<Rightarrow> string \<times> string \<times> string list" where
  "resolve_origin r os =
     (case remdups os of
        [] \<Rightarrow> (''Unknown'', ''unknown'',
               ''missing_result_origin'' #
               (if truthy (pget r ''paper_type'') then [''paper_type_is_not_result_evidence''] else []))
      | [x] \<Rightarrow> (x, ''resolved'', [])
      | _ \<Rightarrow> (''Unknown'', ''conflicted'', [''conflicting_result_origins'']))"

definition resolve_role :: "string list \<Rightarrow> string \<times> string list" where
  "resolve_role rs =
     (case remdups rs of
        [] \<Rightarrow> (''unknown'', [''missing_source_role''])
      | [x] \<Rightarrow> (x, [])
      | _ \<Rightarrow> (''conflicted'', [''conflicting_source_roles'']))"

definition classify_result :: "pyval \<Rightarrow> result_classification" where
  "classify_result r =
     (let s = collect_evidence r;
          (org, status, w1) = resolve_origin r (origins s);
          (rl, w2) = resolve_role (roles s)
      in \<lparr>knowledge_origin = org, classification_status = status, source_role = rl,
          reasons = sort (remdups (why s @ w1 @ w2)), classifier_version = CLASSIFIER_VERSION\<rparr>)"

section \<open>Annotation and summaries\<close>

definition annotate_record :: "pyval \<Rightarrow> pyval" where
  "annotate_record r = pput r ''result_classification'' (as_dict (classify_result r))"

definition mappings :: "pyval \<Rightarrow> (py_error, pyval list) res" where
  "mappings records = rbind (iter_or_empty records) (\<lambda>xs. Inr (filter is_mapping xs))"

definition annotate_records :: "pyval \<Rightarrow> (py_error, pyval list) res" where
  "annotate_records records = rbind (mappings records) (\<lambda>xs. Inr (map annotate_record xs))"

definition classification_item :: "pyval \<Rightarrow> pyval" where
  "classification_item r =
     (let item = PDict [(PStr ''result_classification'', as_dict (classify_result r))];
          formula = pget r ''formula''
      in if is_str formula \<and> 0 < length (str_of formula) \<and> length (str_of formula) \<le> 200
         then pput item ''formula'' formula else item)"

text \<open>The loop leaves at fifty items, also when that many exist exactly.\<close>

fun take_items :: "nat \<Rightarrow> pyval list \<Rightarrow> pyval list" where
  "take_items n [] = []"
| "take_items n (r # rs) =
     (if \<not> is_mapping r then take_items n rs
      else classification_item r # (if n + 1 = 50 then [] else take_items (n + 1) rs))"

definition evidence_classifications :: "pyval \<Rightarrow> (py_error, pyval list) res" where
  "evidence_classifications records = rbind (iter_or_empty records) (\<lambda>xs. Inr (take_items 0 xs))"

definition is_observed_result :: "pyval \<Rightarrow> bool" where
  "is_observed_result r =
     (let c = classify_result r
      in knowledge_origin c = ''Observed'' \<and> classification_status c = ''resolved'' \<and> source_role c \<noteq> ''conflicted'')"

definition is_computed_result :: "pyval \<Rightarrow> bool" where
  "is_computed_result r =
     (let c = classify_result r
      in knowledge_origin c = ''Computed'' \<and> classification_status c = ''resolved'' \<and> source_role c \<noteq> ''conflicted'')"

definition legacy_evidence_role :: "pyval \<Rightarrow> string" where
  "legacy_evidence_role r =
     (let c = classify_result r
      in if source_role c = ''cited'' then ''cited''
         else if source_role c \<noteq> ''primary'' \<or> classification_status c \<noteq> ''resolved'' then ''unknown''
         else if knowledge_origin c = ''Observed'' then ''primary_experimental''
         else if knowledge_origin c = ''Computed'' then ''primary_theoretical''
         else ''unknown'')"

text \<open>\<open>counts[k] += 1\<close> raises \<open>KeyError\<close> for a key the dict does not have.\<close>

fun bump_count :: "(string \<times> nat) list \<Rightarrow> string \<Rightarrow> (py_error, (string \<times> nat) list) res" where
  "bump_count [] k = Inl KeyError"
| "bump_count ((j, n) # d) k =
     (if j = k then Inr ((j, n + 1) # d) else rbind (bump_count d k) (\<lambda>d'. Inr ((j, n) # d')))"

record origin_summary =
  summary_version :: string
  origin_counts :: "(string \<times> nat) list"
  conflicted_records :: nat

fun summary_loop :: "(string \<times> nat) list \<Rightarrow> nat \<Rightarrow> pyval list \<Rightarrow> (py_error, (string \<times> nat) list \<times> nat) res" where
  "summary_loop d n [] = Inr (d, n)"
| "summary_loop d n (r # rs) =
     (if \<not> is_mapping r then summary_loop d n rs
      else let c = classify_result r
           in rbind (bump_count d (knowledge_origin c)) (\<lambda>d'.
                summary_loop d'
                  (n + (if classification_status c = ''conflicted'' \<or> source_role c = ''conflicted'' then 1 else 0)) rs))"

definition classification_summary :: "pyval \<Rightarrow> (py_error, origin_summary) res" where
  "classification_summary records =
     rbind (iter_or_empty records) (\<lambda>xs.
     rbind (summary_loop (map (\<lambda>k. (k, 0)) ORIGINS) 0 xs) (\<lambda>(d, n).
     Inr \<lparr>summary_version = CLASSIFIER_VERSION, origin_counts = d, conflicted_records = n\<rparr>))"

section \<open>Headline checks\<close>

definition headline_label :: "result_classification \<Rightarrow> string" where
  "headline_label c = (if source_role c \<noteq> ''conflicted'' then knowledge_origin c else ''Unknown'')"

definition matches_tc :: "rat \<Rightarrow> pyval \<Rightarrow> bool" where
  "matches_tc q r = (finite_number (pget r ''tc_kelvin'') = Some q)"

definition headline_origin :: "pyval \<Rightarrow> pyval \<Rightarrow> (py_error, string) res" where
  "headline_origin records v = (case finite_number v of None \<Rightarrow> Inr ''Unknown'' | Some q \<Rightarrow>
     rbind (mappings records) (\<lambda>xs.
       Inr (case remdups (map (\<lambda>r. headline_label (classify_result r)) (filter (matches_tc q) xs)) of
              [x] \<Rightarrow> x | _ \<Rightarrow> ''Unknown'')))"

definition supports_split :: "rat \<Rightarrow> string \<Rightarrow> pyval \<Rightarrow> bool" where
  "supports_split q org r =
     (let c = classify_result r
      in matches_tc q r \<and> knowledge_origin c = org \<and> classification_status c = ''resolved''
         \<and> source_role c \<noteq> ''conflicted'' \<and> (org \<noteq> ''Observed'' \<or> source_role c \<noteq> ''cited''))"

definition checked_legacy_split :: "pyval \<Rightarrow> pyval \<Rightarrow> string \<Rightarrow> (py_error, rat option) res" where
  "checked_legacy_split records v org = (case finite_number v of None \<Rightarrow> Inr None | Some q \<Rightarrow>
     rbind (mappings records) (\<lambda>xs.
       Inr (case find (supports_split q org) xs of None \<Rightarrow> None | Some _ \<Rightarrow> Some q)))"

definition primary_origins :: "result_classification list \<Rightarrow> string list" where
  "primary_origins cs =
     map knowledge_origin
       (filter (\<lambda>c. source_role c \<notin> {''cited'', ''conflicted''} \<and> classification_status c = ''resolved'') cs)"

definition evidence_summary :: "pyval \<Rightarrow> (py_error, string option) res" where
  "evidence_summary records = rbind (mappings records) (\<lambda>xs.
     let cs = map classify_result xs; po = set (primary_origins cs)
     in Inr (if ''Observed'' \<in> po \<and> ''Computed'' \<in> po then Some ''mixed''
             else if ''Observed'' \<in> po then Some ''experimental''
             else if ''Computed'' \<in> po then Some ''theoretical''
             else if cs \<noteq> [] \<and> list_all (\<lambda>c. source_role c = ''cited'') cs then Some ''cited_only''
             else None))"

section \<open>Negative outcomes\<close>

definition MISSING_METHODS :: "string list" where
  "MISSING_METHODS = [[], ''unknown'', ''none'', ''n/a'', ''not_reported'', ''not_measured'']"

definition NONPOSITIVE_STATUSES :: "string list" where
  "NONPOSITIVE_STATUSES =
     [''not_detected'', ''not_observed'', ''notdetected'', ''no_transition'', ''no_superconductivity'',
      ''non_superconducting'', ''negative'', ''inconclusive'', ''ambiguous'', ''uncertain'',
      ''unknown'', ''unreported'', ''non_transition_observed'', ''refuted'']"

definition outcome_class :: "char \<Rightarrow> bool" where
  "outcome_class c = (\<not> (97 \<le> char_nat c \<and> char_nat c \<le> 122 \<or> is_digit_char c))"

definition outcome_slug :: "string \<Rightarrow> string" where
  "outcome_slug s = strip_char (CHR ''_'') (sub_runs outcome_class (py_lower (py_strip s)))"

definition nonpositive_marker :: "pyval \<Rightarrow> bool" where
  "nonpositive_marker v = (is_str v \<and> outcome_slug (str_of v) \<in> set NONPOSITIVE_STATUSES)"

definition outcome_conflicts_with_positive :: "pyval \<Rightarrow> bool" where
  "outcome_conflicts_with_positive r =
     (list_ex (\<lambda>k. nonpositive_marker (pget r k)) [''result_status'', ''outcome_state'', ''outcome'']
      \<or> list_ex (\<lambda>k. pget r k = PBool True) [''no_transition'', ''not_detected'']
      \<or> list_ex (\<lambda>k. pget r k = PBool False)
           [''superconductivity_observed'', ''transition_observed'', ''is_superconducting''])"

text \<open>
  \<open>math.isfinite(value)\<close> converts an integer to a float and raises \<open>OverflowError\<close> beyond its
  range; the handler answers \<open>False\<close>. The comparison itself is on the unconverted value.
\<close>

fun finite_nonnegative :: "pyval \<Rightarrow> bool" where
  "finite_nonnegative (PInt i) = (float_of_int i \<noteq> None \<and> 0 \<le> i)"
| "finite_nonnegative (PFloat (Finite q)) = (0 \<le> q)"
| "finite_nonnegative _ = False"

definition shape_issues :: "pyval \<Rightarrow> (py_error, string list) res" where
  "shape_issues c =
     (let relation = pget c ''value_relation''; value = pget c ''value_kelvin'';
          lower = pget c ''value_lower_kelvin''; upper = pget c ''value_upper_kelvin''
      in rbind (in_str_set relation [''unreported'', ''lt'', ''le'']) (\<lambda>known.
         Inr (if \<not> known then [''negative_result_conflicts_with_tc_relation'']
              else if relation = PStr ''unreported''
              then (if value \<noteq> PNone \<or> lower \<noteq> PNone \<or> upper \<noteq> PNone
                    then [''negative_result_invalid_value_shape''] else [])
              else if value \<noteq> PNone \<or> lower \<noteq> PNone \<or> \<not> finite_nonnegative upper
              then [''negative_result_invalid_value_shape''] else [])))"

definition negative_outcome_issues :: "pyval \<Rightarrow> (py_error, string list) res" where
  "negative_outcome_issues c =
     rbind (shape_issues c) (\<lambda>shape.
     Inr ((if pget c ''result_status'' \<noteq> PStr ''not_detected'' then [''negative_result_not_explicit''] else [])
          @ (if pget c ''property_type'' \<noteq> PStr ''non_transition'' then [''negative_result_property_mismatch''] else [])
          @ shape
          @ (if \<not> finite_nonnegative (pget c ''minimum_temperature_k'')
             then [''negative_result_missing_minimum_temperature''] else [])
          @ (let m = pget c ''measurement_method''
             in if \<not> is_str m \<or> py_lower (py_strip (str_of m)) \<in> set MISSING_METHODS
                then [''negative_result_missing_measurement_method''] else [])))"

section \<open>What a record asserts\<close>

text \<open>The origins and roles a record names explicitly, independently of the order of inspection.\<close>

definition origin_evidence :: "pyval \<Rightarrow> string set" where
  "origin_evidence r =
     {x. (\<exists>k \<in> set LABEL_KEYS. map_of ORIGIN_ALIASES (slug (pget r k)) = Some x)
       \<or> x = ''Observed'' \<and> (\<exists>k \<in> set METHOD_KEYS. slug (pget r k) \<in> set OBSERVED_METHODS)
       \<or> x = ''Computed'' \<and> (\<exists>k \<in> set METHOD_KEYS. slug (pget r k) \<in> set COMPUTED_METHODS)}"

definition role_evidence :: "pyval \<Rightarrow> string set" where
  "role_evidence r =
     {x. \<exists>k \<in> insert ''source_role'' (set LABEL_KEYS). map_of ROLE_ALIASES (slug (pget r k)) = Some x}"

text \<open>What the batch summary counts.\<close>

definition counted :: "string \<Rightarrow> pyval \<Rightarrow> bool" where
  "counted org r = (is_mapping r \<and> knowledge_origin (classify_result r) = org)"

definition conflicted_record :: "pyval \<Rightarrow> bool" where
  "conflicted_record r = (is_mapping r \<and> (classification_status (classify_result r) = ''conflicted''
     \<or> source_role (classify_result r) = ''conflicted''))"

lemma methods_disjoint: "set OBSERVED_METHODS \<inter> set COMPUTED_METHODS = {}"
  by (simp add: OBSERVED_METHODS_def COMPUTED_METHODS_def)

lemma label_step_sets:
  "set (origins (label_step r s k)) = set (origins s) \<union> set_option (map_of ORIGIN_ALIASES (slug (pget r k)))"
  "set (roles (label_step r s k)) = set (roles s) \<union> set_option (map_of ROLE_ALIASES (slug (pget r k)))"
  by (auto simp: label_step_def Let_def split: option.splits)

lemma method_step_sets:
  "set (origins (method_step r s k)) = set (origins s)
     \<union> (if slug (pget r k) \<in> set OBSERVED_METHODS then {''Observed''} else {})
     \<union> (if slug (pget r k) \<in> set COMPUTED_METHODS then {''Computed''} else {})"
  "roles (method_step r s k) = roles s"
  using methods_disjoint by (auto simp: method_step_def Let_def)

lemma foldl_label_sets:
  "set (origins (foldl (label_step r) s ks)) =
     set (origins s) \<union> {x. \<exists>k \<in> set ks. map_of ORIGIN_ALIASES (slug (pget r k)) = Some x}"
  "set (roles (foldl (label_step r) s ks)) =
     set (roles s) \<union> {x. \<exists>k \<in> set ks. map_of ROLE_ALIASES (slug (pget r k)) = Some x}"
  by (induction ks arbitrary: s) (auto simp: label_step_sets)

lemma foldl_method_sets:
  "set (origins (foldl (method_step r) s ks)) = set (origins s)
     \<union> {x. x = ''Observed'' \<and> (\<exists>k \<in> set ks. slug (pget r k) \<in> set OBSERVED_METHODS)
         \<or> x = ''Computed'' \<and> (\<exists>k \<in> set ks. slug (pget r k) \<in> set COMPUTED_METHODS)}"
  "roles (foldl (method_step r) s ks) = roles s"
proof (induction ks arbitrary: s)
  case (Cons k ks)
  case 1 show ?case by (simp add: Cons method_step_sets) blast
  case 2 show ?case by (simp add: Cons method_step_sets)
qed simp_all

lemma role_step_sets:
  "origins (role_step r s) = origins s"
  "set (roles (role_step r s)) = set (roles s) \<union> set_option (map_of ROLE_ALIASES (slug (pget r ''source_role'')))"
  by (auto simp: role_step_def split: option.splits)

lemma collect_origins: "set (origins (collect_evidence r)) = origin_evidence r"
  by (auto simp: collect_evidence_def foldl_method_sets role_step_sets foldl_label_sets origin_evidence_def)

lemma collect_roles: "set (roles (collect_evidence r)) = role_evidence r"
  by (auto simp: collect_evidence_def foldl_method_sets role_step_sets foldl_label_sets role_evidence_def)

section \<open>The classifier resolves exactly agreeing assertions\<close>

lemma remdups_single: "remdups xs = [x] \<longleftrightarrow> set xs = {x}"
proof
  assume "set xs = {x}"
  then have "length (remdups xs) = 1" "set (remdups xs) = {x}"
    by (simp_all add: length_remdups_card_conv)
  then show "remdups xs = [x]" by (cases "remdups xs") auto
qed (metis set_remdups list.set(1) list.set(2))

lemma remdups_many: "remdups xs = a # b # zs \<Longrightarrow> a \<in> set xs \<and> b \<in> set xs \<and> a \<noteq> b"
  by (metis distinct_length_2_or_more distinct_remdups list.set_intros set_remdups)

lemma resolve_origin_cases:
  obtains (none) "os = []" "fst (resolve_origin r os) = ''Unknown''" "fst (snd (resolve_origin r os)) = ''unknown''"
  | (one) x where "set os = {x}" "fst (resolve_origin r os) = x" "fst (snd (resolve_origin r os)) = ''resolved''"
  | (many) x y where "x \<in> set os" "y \<in> set os" "x \<noteq> y" "fst (resolve_origin r os) = ''Unknown''"
      "fst (snd (resolve_origin r os)) = ''conflicted''"
proof (cases "remdups os")
  case Nil
  then show thesis by (intro none) (simp_all add: resolve_origin_def)
next
  case (Cons a zs)
  show thesis
  proof (cases zs)
    case Nil
    then have "set os = {a}" using Cons remdups_single [of os a] by simp
    then show thesis by (rule one) (simp_all add: resolve_origin_def Cons Nil)
  next
    case (Cons b zs')
    then have r: "remdups os = a # b # zs'" using \<open>remdups os = a # zs\<close> by simp
    show thesis using remdups_many [OF r] by (intro many [of a b]) (simp_all add: resolve_origin_def r)
  qed
qed

lemma resolve_role_cases:
  obtains (none) "rs = []" "fst (resolve_role rs) = ''unknown''"
  | (one) x where "set rs = {x}" "fst (resolve_role rs) = x"
  | (many) x y where "x \<in> set rs" "y \<in> set rs" "x \<noteq> y" "fst (resolve_role rs) = ''conflicted''"
proof (cases "remdups rs")
  case Nil
  then show thesis by (intro none) (simp_all add: resolve_role_def)
next
  case (Cons a zs)
  show thesis
  proof (cases zs)
    case Nil
    then have "set rs = {a}" using Cons remdups_single [of rs a] by simp
    then show thesis by (rule one) (simp_all add: resolve_role_def Cons Nil)
  next
    case (Cons b zs')
    then have r: "remdups rs = a # b # zs'" using \<open>remdups rs = a # zs\<close> by simp
    show thesis using remdups_many [OF r] by (intro many [of a b]) (simp_all add: resolve_role_def r)
  qed
qed

lemma classify_fields:
  "knowledge_origin (classify_result r) = fst (resolve_origin r (origins (collect_evidence r)))"
  "classification_status (classify_result r) = fst (snd (resolve_origin r (origins (collect_evidence r))))"
  "source_role (classify_result r) = fst (resolve_role (roles (collect_evidence r)))"
  by (simp_all add: classify_result_def Let_def split: prod.splits)

lemma map_of_range: "map_of xs k = Some y \<Longrightarrow> snd ` set xs \<subseteq> A \<Longrightarrow> y \<in> A"
  by (force dest: map_of_SomeD)

lemma alias_ranges:
  "map_of ORIGIN_ALIASES k = Some x \<Longrightarrow> x \<in> {''Observed'', ''Computed'', ''Inferred'', ''AI-Proposed''}"
  "map_of ROLE_ALIASES k = Some y \<Longrightarrow> y \<in> {''primary'', ''cited''}"
  by (erule map_of_range, simp add: ORIGIN_ALIASES_def) (erule map_of_range, simp add: ROLE_ALIASES_def)

lemma origin_evidence_range: "origin_evidence r \<subseteq> {''Observed'', ''Computed'', ''Inferred'', ''AI-Proposed''}"
proof
  fix x assume "x \<in> origin_evidence r"
  then consider k where "map_of ORIGIN_ALIASES (slug (pget r k)) = Some x" | "x = ''Observed''" | "x = ''Computed''"
    unfolding origin_evidence_def by blast
  then show "x \<in> {''Observed'', ''Computed'', ''Inferred'', ''AI-Proposed''}"
    by cases (rule alias_ranges(1), assumption, simp_all)
qed

lemma role_evidence_range: "role_evidence r \<subseteq> {''primary'', ''cited''}"
  unfolding role_evidence_def using alias_ranges(2) by blast

text \<open>The three verdicts on the origin and on the role, over the asserted sets.\<close>

lemma origin_verdict:
  obtains (none) "origin_evidence r = {}" "knowledge_origin (classify_result r) = ''Unknown''"
      "classification_status (classify_result r) = ''unknown''"
  | (one) x where "origin_evidence r = {x}" "knowledge_origin (classify_result r) = x"
      "classification_status (classify_result r) = ''resolved''"
  | (many) x y where "x \<in> origin_evidence r" "y \<in> origin_evidence r" "x \<noteq> y"
      "knowledge_origin (classify_result r) = ''Unknown''" "classification_status (classify_result r) = ''conflicted''"
proof (cases rule: resolve_origin_cases [of "origins (collect_evidence r)" r])
  case none
  then show thesis using collect_origins [of r] by (intro that(1)) (simp_all add: classify_fields)
next
  case (one x)
  then show thesis using collect_origins [of r] by (intro that(2) [of x]) (simp_all add: classify_fields)
next
  case (many x y)
  then show thesis using collect_origins [of r] by (intro that(3) [of x y]) (simp_all add: classify_fields)
qed

lemma role_verdict:
  obtains (none) "role_evidence r = {}" "source_role (classify_result r) = ''unknown''"
  | (one) x where "role_evidence r = {x}" "source_role (classify_result r) = x"
  | (many) x y where "x \<in> role_evidence r" "y \<in> role_evidence r" "x \<noteq> y" "source_role (classify_result r) = ''conflicted''"
proof (cases rule: resolve_role_cases [of "roles (collect_evidence r)"])
  case none
  then show thesis using collect_roles [of r] by (intro that(1)) (simp_all add: classify_fields)
next
  case (one x)
  then show thesis using collect_roles [of r] by (intro that(2) [of x]) (simp_all add: classify_fields)
next
  case (many x y)
  then show thesis using collect_roles [of r] by (intro that(3) [of x y]) (simp_all add: classify_fields)
qed

lemma two_not_single: "x \<in> A \<Longrightarrow> y \<in> A \<Longrightarrow> x \<noteq> y \<Longrightarrow> A \<noteq> {z}"
  by blast

lemma resolved_iff:
  "classification_status (classify_result r) = ''resolved'' \<longleftrightarrow> origin_evidence r = {knowledge_origin (classify_result r)}"
proof (cases rule: origin_verdict [of r])
  case none
  then show ?thesis by simp
next
  case (one x)
  then show ?thesis by simp
next
  case (many x y)
  have "origin_evidence r \<noteq> {z}" for z using many(1-3) by (rule two_not_single)
  then show ?thesis using many(5) by simp
qed

lemma unresolved_origin:
  "classification_status (classify_result r) \<noteq> ''resolved'' \<Longrightarrow> knowledge_origin (classify_result r) = ''Unknown''"
  by (rule origin_verdict [of r]) simp_all

lemma conflicted_iff:
  "classification_status (classify_result r) = ''conflicted'' \<longleftrightarrow> (\<exists>x \<in> origin_evidence r. \<exists>y \<in> origin_evidence r. x \<noteq> y)"
  by (rule origin_verdict [of r]) auto

lemma unknown_iff: "classification_status (classify_result r) = ''unknown'' \<longleftrightarrow> origin_evidence r = {}"
  by (rule origin_verdict [of r]) auto

lemma conflicted_role_iff:
  "source_role (classify_result r) = ''conflicted'' \<longleftrightarrow> role_evidence r = {''primary'', ''cited''}"
proof (rule role_verdict [of r])
  fix x y
  assume xy: "x \<in> role_evidence r" "y \<in> role_evidence r" "x \<noteq> y"
    and c: "source_role (classify_result r) = ''conflicted''"
  have "x \<in> {''primary'', ''cited''}" "y \<in> {''primary'', ''cited''}" using xy role_evidence_range by blast+
  then have "{''primary'', ''cited''} \<subseteq> role_evidence r" using xy by blast
  then have "role_evidence r = {''primary'', ''cited''}" using role_evidence_range [of r] by (rule equalityI [rotated])
  then show ?thesis using c by simp
next
  fix x
  assume x: "role_evidence r = {x}" "source_role (classify_result r) = x"
  then have "x \<in> {''primary'', ''cited''}" using role_evidence_range [of r] by blast
  then have "x \<noteq> ''conflicted''" by (elim insertE emptyE) simp_all
  moreover have "{''primary'', ''cited''} \<noteq> {x}"
    by (rule two_not_single [of "''primary''" _ "''cited''"]) simp_all
  ultimately show ?thesis using x by metis
qed simp

lemma origin_in_ORIGINS: "knowledge_origin (classify_result r) \<in> set ORIGINS"
proof (cases "classification_status (classify_result r) = ''resolved''")
  case True
  then have "knowledge_origin (classify_result r) \<in> origin_evidence r" by (simp add: resolved_iff)
  then show ?thesis using origin_evidence_range [of r] by (auto simp: ORIGINS_def)
qed (simp add: unresolved_origin ORIGINS_def)

section \<open>Annotation is stable\<close>

lemma steps_other_key:
  "k \<noteq> j \<Longrightarrow> label_step (pput r j v) s k = label_step r s k"
  "k \<noteq> j \<Longrightarrow> method_step (pput r j v) s k = method_step r s k"
  "j \<noteq> ''source_role'' \<Longrightarrow> role_step (pput r j v) s = role_step r s"
  by (simp_all add: label_step_def method_step_def role_step_def)

lemma collect_annotated: "collect_evidence (pput r ''result_classification'' v) = collect_evidence r"
  by (simp add: collect_evidence_def LABEL_KEYS_def METHOD_KEYS_def steps_other_key)

lemma classify_annotated [simp]: "classify_result (pput r ''result_classification'' v) = classify_result r"
  by (simp add: classify_result_def collect_annotated resolve_origin_def)

lemma annotate_idem: "annotate_record (annotate_record r) = annotate_record r"
  by (simp add: annotate_record_def)

section \<open>Properties\<close>

text \<open>
  C9. The classifier fails closed. A record is resolved exactly when its explicit labels and
  methods name one origin, which is then its origin; it is conflicted exactly when they name
  two, unknown exactly when they name none, and outside the resolved case the origin is
  Unknown. The role is conflicted exactly when both roles are named. Annotating a record
  changes neither its classification nor, a second time, the record.
\<close>

theorem classify_result_fails_closed:
  "(classification_status (classify_result r) = ''resolved'' \<longleftrightarrow> origin_evidence r = {knowledge_origin (classify_result r)})
    \<and> (classification_status (classify_result r) = ''conflicted'' \<longleftrightarrow> (\<exists>x y. x \<in> origin_evidence r \<and> y \<in> origin_evidence r \<and> x \<noteq> y))
    \<and> (classification_status (classify_result r) = ''unknown'' \<longleftrightarrow> origin_evidence r = {})
    \<and> (classification_status (classify_result r) = ''resolved'' \<or> knowledge_origin (classify_result r) = ''Unknown'')
    \<and> (source_role (classify_result r) = ''conflicted'' \<longleftrightarrow> role_evidence r = {''primary'', ''cited''})
    \<and> classify_result (annotate_record r) = classify_result r
    \<and> annotate_record (annotate_record r) = annotate_record r"
proof (intro conjI)
  show "classification_status (classify_result r) = ''resolved'' \<or> knowledge_origin (classify_result r) = ''Unknown''"
    using unresolved_origin by blast
  show "classify_result (annotate_record r) = classify_result r" by (simp add: annotate_record_def)
qed (use resolved_iff conflicted_iff unknown_iff conflicted_role_iff annotate_idem in \<open>simp_all add: Bex_def\<close>)

lemma bump_count_ok:
  "k \<in> set (map fst d) \<Longrightarrow> distinct (map fst d) \<Longrightarrow>
     \<exists>d'. bump_count d k = Inr d' \<and> map fst d' = map fst d
        \<and> (\<forall>j. map_of d' j = (if j = k then map_option Suc (map_of d j) else map_of d j))
        \<and> sum_list (map snd d') = Suc (sum_list (map snd d))"
proof (induction d)
  case (Cons p d)
  obtain j n where p: "p = (j, n)" by force
  show ?case
  proof (cases "j = k")
    case True
    then show ?thesis using p by auto
  next
    case False
    then obtain d' where "bump_count d k = Inr d'" "map fst d' = map fst d"
      "\<forall>j. map_of d' j = (if j = k then map_option Suc (map_of d j) else map_of d j)"
      "sum_list (map snd d') = Suc (sum_list (map snd d))"
      using Cons p by auto
    then show ?thesis using False p by auto
  qed
qed simp

lemma summary_loop_counts:
  "map fst d = ORIGINS \<Longrightarrow>
     \<exists>d'. summary_loop d n rs = Inr (d', n + count_if conflicted_record rs) \<and> map fst d' = ORIGINS
        \<and> (\<forall>k \<in> set ORIGINS. map_of d' k = map_option (\<lambda>m. m + count_if (counted k) rs) (map_of d k))
        \<and> sum_list (map snd d') = sum_list (map snd d) + count_if is_mapping rs"
proof (induction rs arbitrary: d n)
  case Nil
  then show ?case by (simp add: option.map_ident)
next
  case (Cons r rs)
  show ?case
  proof (cases "is_mapping r")
    case False
    then show ?thesis using Cons.IH [OF Cons.prems] by (simp add: counted_def conflicted_record_def)
  next
    case True
    let ?c = "classify_result r"
    let ?n = "n + (if classification_status ?c = ''conflicted'' \<or> source_role ?c = ''conflicted'' then 1 else 0)"
    have "distinct (map fst d)" using Cons.prems by (simp add: ORIGINS_def)
    then obtain d1 where d1: "bump_count d (knowledge_origin ?c) = Inr d1" "map fst d1 = ORIGINS"
      "\<forall>j. map_of d1 j = (if j = knowledge_origin ?c then map_option Suc (map_of d j) else map_of d j)"
      "sum_list (map snd d1) = Suc (sum_list (map snd d))"
      using bump_count_ok [of "knowledge_origin ?c" d] Cons.prems origin_in_ORIGINS by metis
    obtain d2 where d2: "summary_loop d1 ?n rs = Inr (d2, ?n + count_if conflicted_record rs)" "map fst d2 = ORIGINS"
      "\<forall>k \<in> set ORIGINS. map_of d2 k = map_option (\<lambda>m. m + count_if (counted k) rs) (map_of d1 k)"
      "sum_list (map snd d2) = sum_list (map snd d1) + count_if is_mapping rs"
      using Cons.IH [OF d1(2), of ?n] by blast
    have s: "summary_loop d n (r # rs) = Inr (d2, n + count_if conflicted_record (r # rs))"
      using True d1(1) d2(1) by (simp add: Let_def conflicted_record_def)
    have k: "map_of d2 k = map_option (\<lambda>m. m + count_if (counted k) (r # rs)) (map_of d k)"
      if "k \<in> set ORIGINS" for k
      using that d1(3) d2(3) True by (simp add: counted_def option.map_comp o_def)
    show ?thesis
      using s k d2(2) d2(4) d1(4) True by auto
  qed
qed

text \<open>
  C33. The origin of a classification is one of the five origins, so the summary of a batch
  never raises a missing key: it counts, under each origin, exactly the records of that
  origin, the counts add up to the number of records, and the conflict counter is the number
  of records whose origin or role is conflicted.
\<close>

theorem classification_summary_counts:
  assumes "iter_or_empty records = Inr xs"
  shows "knowledge_origin (classify_result r) \<in> set ORIGINS
    \<and> (\<exists>s. classification_summary records = Inr s
        \<and> origin_counts s = map (\<lambda>k. (k, count_if (counted k) xs)) ORIGINS
        \<and> sum_list (map snd (origin_counts s)) = count_if is_mapping xs
        \<and> conflicted_records s = count_if conflicted_record xs)"
proof -
  let ?d = "map (\<lambda>k. (k, 0::nat)) ORIGINS"
  have f: "map fst ?d = ORIGINS" by (simp add: o_def)
  obtain d where d: "summary_loop ?d 0 xs = Inr (d, count_if conflicted_record xs)" "map fst d = ORIGINS"
    "\<forall>k \<in> set ORIGINS. map_of d k = map_option (\<lambda>m. m + count_if (counted k) xs) (map_of ?d k)"
    "sum_list (map snd d) = count_if is_mapping xs"
    using summary_loop_counts [OF f, of 0 xs] by (auto simp: o_def)
  have z: "map_of ?d k = Some 0" if "k \<in> set ORIGINS" for k using that by (auto simp: ORIGINS_def)
  have "snd p = count_if (counted (fst p)) xs" if "p \<in> set d" for p
  proof -
    have "fst p \<in> set ORIGINS" using that d(2) by (metis image_eqI list.set_map)
    moreover have "map_of d (fst p) = Some (snd p)"
      using that d(2) by (intro map_of_is_SomeI) (simp_all add: ORIGINS_def)
    ultimately show ?thesis using d(3) z by simp
  qed
  then have "d = map (\<lambda>p. (fst p, count_if (counted (fst p)) xs)) d"
    by (simp add: map_idI prod_eq_iff)
  also have "\<dots> = map (\<lambda>k. (k, count_if (counted k) xs)) (map fst d)" by simp
  finally have e: "d = map (\<lambda>k. (k, count_if (counted k) xs)) ORIGINS" unfolding d(2) .
  show ?thesis
    using assms d(1) d(4) e origin_in_ORIGINS [of r] by (simp add: classification_summary_def)
qed


theorem classification_summary_counts_witness:
  "origin_counts (projr (classification_summary
      (PList [PDict [(PStr ''method'', PStr '' DFT '')], PInt 3, PDict []]))) =
     [(''Observed'', 0), (''Computed'', 1), (''Inferred'', 0), (''AI-Proposed'', 0), (''Unknown'', 1)]"
proof -
  let ?x = "PDict [(PStr ''method'', PStr '' DFT '')]"
  have i: "iter_or_empty (PList [?x, PInt 3, PDict []]) = Inr [?x, PInt 3, PDict []]" by simp
  obtain s where s: "classification_summary (PList [?x, PInt 3, PDict []]) = Inr s"
    "origin_counts s = map (\<lambda>k. (k, count_if (counted k) [?x, PInt 3, PDict []])) ORIGINS"
    using classification_summary_counts [OF i] by blast
  have "knowledge_origin (classify_result ?x) = ''Computed''" by code_simp
  moreover have "knowledge_origin (classify_result (PDict [])) = ''Unknown''" by code_simp
  ultimately show ?thesis using s by (simp add: ORIGINS_def counted_def)
qed

lemma remdups_case:
  "(case remdups ys of [x] \<Rightarrow> x | _ \<Rightarrow> u) = h \<Longrightarrow> h \<noteq> u \<Longrightarrow> set ys = {h}"
  using remdups_single [of ys h] by (auto split: list.splits)

lemma headline_origin_matching:
  assumes "headline_origin records v = Inr h" "h \<noteq> ''Unknown''"
  obtains q xs where "finite_number v = Some q" "iter_or_empty records = Inr xs"
    "(\<lambda>r. headline_label (classify_result r)) ` {r \<in> set xs. is_mapping r \<and> matches_tc q r} = {h}"
proof -
  obtain q where q: "finite_number v = Some q" using assms by (cases "finite_number v") (auto simp: headline_origin_def)
  obtain xs where xs: "iter_or_empty records = Inr xs"
    and c: "(case remdups (map (\<lambda>r. headline_label (classify_result r)) (filter (matches_tc q) (filter is_mapping xs))) of
              [x] \<Rightarrow> x | _ \<Rightarrow> ''Unknown'') = h"
    using assms(1) q by (auto simp: headline_origin_def mappings_def)
  show thesis using that [OF q xs] remdups_case [OF c assms(2)] by (simp add: image_Collect conj_commute conj_left_commute)
qed

text \<open>
  The two displays of a stored critical temperature agree. A split value is retained
  exactly when some listed record reports that temperature, asserts that single origin, has no
  conflicting role and, for observations, is not a citation; it is the stored value itself. When
  in addition the headline carries an origin other than Unknown, it is the origin of the split,
  and every record with that temperature is labelled so.
\<close>

theorem retained_split_is_supported:
  assumes xs: "iter_or_empty records = Inr xs" and q: "finite_number v = Some q"
  shows "\<exists>out. checked_legacy_split records v org = Inr out
    \<and> (out = None \<or> out = Some q)
    \<and> (out = Some q \<longleftrightarrow> (\<exists>r. r \<in> set xs \<and> is_mapping r \<and> finite_number (pget r ''tc_kelvin'') = Some q
          \<and> origin_evidence r = {org} \<and> role_evidence r \<noteq> {''primary'', ''cited''}
          \<and> \<not> (org = ''Observed'' \<and> role_evidence r = {''cited''})))
    \<and> (\<forall>h. out = Some q \<longrightarrow> headline_origin records v = Inr h \<longrightarrow> h \<noteq> ''Unknown'' \<longrightarrow> h = org)"
proof -
  have cited: "source_role (classify_result r) = ''cited'' \<longleftrightarrow> role_evidence r = {''cited''}" for r
  proof (cases rule: role_verdict [of r])
    case (many x y)
    have "role_evidence r \<noteq> {z}" for z using many(1-3) by (rule two_not_single)
    then show ?thesis using many(4) by simp
  qed simp_all
  have res: "classification_status (classify_result r) = ''resolved'' \<and> knowledge_origin (classify_result r) = org
      \<longleftrightarrow> origin_evidence r = {org}" for r
  proof (cases rule: origin_verdict [of r])
    case (many x y)
    have "origin_evidence r \<noteq> {z}" for z using many(1-3) by (rule two_not_single)
    then show ?thesis using many(5) by simp
  qed auto
  have sup: "supports_split q org r \<longleftrightarrow> finite_number (pget r ''tc_kelvin'') = Some q
          \<and> origin_evidence r = {org} \<and> role_evidence r \<noteq> {''primary'', ''cited''}
          \<and> \<not> (org = ''Observed'' \<and> role_evidence r = {''cited''})" for r
    using res [of r] cited [of r] conflicted_role_iff [of r]
    unfolding supports_split_def matches_tc_def Let_def by blast
  define out where "out = (case find (supports_split q org) (filter is_mapping xs) of None \<Rightarrow> None | Some _ \<Rightarrow> Some q)"
  have o1: "checked_legacy_split records v org = Inr out"
    by (simp add: checked_legacy_split_def q mappings_def xs out_def)
  have o2: "out = Some q \<longleftrightarrow> (\<exists>r \<in> set xs. is_mapping r \<and> supports_split q org r)"
    using find_None_iff [of "supports_split q org" "filter is_mapping xs"]
    by (auto simp: out_def split: option.splits)
  have o3: "h = org" if out: "out = Some q" and hd: "headline_origin records v = Inr h" "h \<noteq> ''Unknown''" for h
  proof -
    obtain r where r: "r \<in> set xs" "is_mapping r" "supports_split q org r" using out o2 by blast
    obtain q' xs' where m: "finite_number v = Some q'" "iter_or_empty records = Inr xs'"
      "(\<lambda>r. headline_label (classify_result r)) ` {r \<in> set xs'. is_mapping r \<and> matches_tc q' r} = {h}"
      using headline_origin_matching [OF hd] .
    have "q' = q" "xs' = xs" using m(1,2) q xs by simp_all
    moreover have "matches_tc q r" using r(3) by (simp add: supports_split_def Let_def)
    ultimately have "r \<in> {r \<in> set xs'. is_mapping r \<and> matches_tc q' r}" using r(1,2) by simp
    then have "headline_label (classify_result r) \<in> {h}" unfolding m(3) [symmetric] by (rule imageI)
    moreover have "headline_label (classify_result r) = org"
      using r(3) by (simp add: supports_split_def Let_def headline_label_def)
    ultimately show ?thesis by simp
  qed
  have o4: "out = None \<or> out = Some q" by (simp add: out_def split: option.splits)
  show ?thesis
    by (rule exI [of _ out], intro conjI allI impI)
       (rule o1, rule o4, rule o2 [unfolded sup Bex_def], rule o3)
qed


theorem retained_split_is_supported_witness:
  "checked_legacy_split (PList [PDict [(PStr ''tc_kelvin'', PInt 39), (PStr ''method'', PStr ''Resistivity'')]]) (PInt 39) ''Observed''
     = Inr (Some 39)"
proof -
  let ?r = "PDict [(PStr ''tc_kelvin'', PInt 39), (PStr ''method'', PStr ''Resistivity'')]"
  have i: "iter_or_empty (PList [?r]) = Inr [?r]" and q: "finite_number (PInt 39) = Some 39"
    by (simp_all add: float_of_int_exact)
  have st: "classification_status (classify_result ?r) = ''resolved''" "knowledge_origin (classify_result ?r) = ''Observed''"
    "source_role (classify_result ?r) = ''unknown''" by code_simp+
  have e: "origin_evidence ?r = {''Observed''}" using resolved_iff [of ?r] st by simp
  have n: "role_evidence ?r = {}"
  proof (cases rule: role_verdict [of ?r])
    case (one x)
    then have "''unknown'' \<in> role_evidence ?r" using st(3) by simp
    then have "''unknown'' \<in> {''primary'', ''cited''}" using role_evidence_range by (rule set_rev_mp)
    then show ?thesis by simp
  qed (use st(3) in simp_all)
  obtain out where o: "checked_legacy_split (PList [?r]) (PInt 39) ''Observed'' = Inr out"
    "out = Some 39 \<longleftrightarrow> (\<exists>r. r \<in> set [?r] \<and> is_mapping r \<and> finite_number (pget r ''tc_kelvin'') = Some 39
          \<and> origin_evidence r = {''Observed''} \<and> role_evidence r \<noteq> {''primary'', ''cited''}
          \<and> \<not> (''Observed'' = ''Observed'' \<and> role_evidence r = {''cited''}))"
    using retained_split_is_supported [OF i q, of "''Observed''"] by (elim exE conjE) (rule that)
  have "out = Some 39" unfolding o(2) using q e n by (intro exI [of _ ?r]) simp
  then show ?thesis using o(1) by simp
qed

text \<open>
  A claim accepted as a negative result vetoes every positive reading. When no issue is
  reported, the claim states no temperature value of its own, an upper bound only with one of
  the two upper-bound relations, a finite minimum temperature and a measurement method, and
  the claim conflicts with a positive outcome; setting any other field afterwards, a positive
  outcome marker included, cannot lift that veto.
\<close>

theorem negative_outcome_vetoes_positive:
  assumes "negative_outcome_issues c = Inr []" and "k \<noteq> ''result_status''"
  shows "outcome_conflicts_with_positive c \<and> outcome_conflicts_with_positive (pput c k v)
    \<and> pget c ''value_kelvin'' = PNone \<and> pget c ''value_lower_kelvin'' = PNone
    \<and> (pget c ''value_upper_kelvin'' = PNone \<or> finite_nonnegative (pget c ''value_upper_kelvin'')
        \<and> (pget c ''value_relation'' = PStr ''lt'' \<or> pget c ''value_relation'' = PStr ''le''))
    \<and> finite_nonnegative (pget c ''minimum_temperature_k'') \<and> is_str (pget c ''measurement_method'')"
proof -
  have rs: "pget c ''result_status'' = PStr ''not_detected''"
    and sh: "shape_issues c = Inr []"
    and mt: "finite_nonnegative (pget c ''minimum_temperature_k'')"
    and mm: "is_str (pget c ''measurement_method'')"
    using assms(1) by (auto simp: negative_outcome_issues_def Let_def split: if_splits)
  have "nonpositive_marker (PStr ''not_detected'')" by code_simp
  then have v: "outcome_conflicts_with_positive d" if "pget d ''result_status'' = PStr ''not_detected''" for d
    using that by (simp add: outcome_conflicts_with_positive_def)
  have "pget (pput c k v) ''result_status'' = PStr ''not_detected''" using rs assms(2) by auto
  moreover have "pget c ''value_kelvin'' = PNone" "pget c ''value_lower_kelvin'' = PNone"
    "pget c ''value_upper_kelvin'' = PNone \<or> finite_nonnegative (pget c ''value_upper_kelvin'')
        \<and> (pget c ''value_relation'' = PStr ''lt'' \<or> pget c ''value_relation'' = PStr ''le'')"
    using sh by (auto simp: shape_issues_def Let_def in_str_set_def split: if_splits)
  ultimately show ?thesis using rs mt mm v by blast
qed

theorem negative_outcome_vetoes_positive_witness:
  "outcome_conflicts_with_positive (pput (PDict
     [(PStr ''result_status'', PStr ''not_detected''), (PStr ''property_type'', PStr ''non_transition''),
      (PStr ''value_relation'', PStr ''lt''), (PStr ''value_upper_kelvin'', PInt 2),
      (PStr ''minimum_temperature_k'', PInt 2), (PStr ''measurement_method'', PStr ''Resistivity'')])
     ''outcome'' (PStr ''superconducting''))"
proof -
  let ?c = "PDict [(PStr ''result_status'', PStr ''not_detected''), (PStr ''property_type'', PStr ''non_transition''),
      (PStr ''value_relation'', PStr ''lt''), (PStr ''value_upper_kelvin'', PInt 2),
      (PStr ''minimum_temperature_k'', PInt 2), (PStr ''measurement_method'', PStr ''Resistivity'')]"
  have "negative_outcome_issues ?c = Inr []" by code_simp
  then show ?thesis
    using negative_outcome_vetoes_positive [of ?c "''outcome''" "PStr ''superconducting''"] by simp
qed

end
