(* ===== verification/Evidence_Contract.thy ===== *)
theory Evidence_Contract
  imports Result_Semantics
begin

text \<open>
  The extraction and evidence contract (\<open>ingestion/ingestion/rag_evidence_contract.py\<close>):
  canonical JSON with its resource limits, the text-free projection of an extraction record,
  source locators, evidence candidates, the rows of a revision and the wire descriptor.

  \<open>contract_env\<close> holds what only feeds digests or comes from elsewhere: the shortest decimal
  text of a float, SHA-256, \<open>uuid5\<close> in the contract's namespace, and the quantity parser
  \<open>record_quantity\<close> of \<open>scientific_values.py\<close>, whose result is only copied field by field
  (\<open>Quantity_Review\<close> supplies its model).
  Strings are ASCII, so characters and UTF-8 bytes coincide.
\<close>

record contract_env =
  ce_float :: "rat \<Rightarrow> string"
  ce_sha :: "string \<Rightarrow> string"
  ce_uuid5 :: "string \<Rightarrow> string"
  ce_quantity :: "pyval \<Rightarrow> string \<Rightarrow> (py_error, pyval) res"

section \<open>Tables\<close>

definition EVIDENCE_VERSION :: string where "EVIDENCE_VERSION = ''rag-evidence/1.0.0''"

definition PROJECTION_VERSION :: string where "PROJECTION_VERSION = ''rag-result-projection/1.0.0''"

definition MAX_INPUT_BYTES :: int where "MAX_INPUT_BYTES = 1024 * 1024"

definition MAX_PROJECTION_BYTES :: int where "MAX_PROJECTION_BYTES = 16384"

definition QUANTITY_FIELDS :: "string list" where
  "QUANTITY_FIELDS = [''status'', ''relation'', ''value_kind'', ''value'', ''lower'', ''upper'', ''uncertainty'',
     ''approximate'', ''unit'', ''unit_basis'']"

definition EVIDENCE_KINDS :: "string list" where
  "EVIDENCE_KINDS = [''original_passage'', ''abstract'', ''derived_fact'', ''retained_legacy_snapshot'']"

definition EVIDENCE_REASONS :: "string list" where
  "EVIDENCE_REASONS = [''legacy_unresolved'', ''original_binding_unreviewed'', ''missing_original_source'',
     ''secondary_origin_unresolved'']"

definition LOCATOR_TEXT :: "string list" where
  "LOCATOR_TEXT = [''section'', ''table'', ''figure'', ''equation'', ''xml_xpath'', ''section_path'']"

definition LOCATOR_INT :: "string list" where
  "LOCATOR_INT = [''page'', ''page_start'', ''page_end'', ''row'', ''column'', ''char_start'', ''char_end'',
     ''span_start'', ''span_end'']"

definition FIELD_UNITS :: "(string \<times> string) list" where
  "FIELD_UNITS =
     [(''tc_kelvin'', ''K''), (''minimum_temperature_k'', ''K''), (''temperature_k'', ''K''),
      (''measurement_temperature_k'', ''K''), (''hc2_temperature_k'', ''K''), (''omega_log_k'', ''K''),
      (''t_cdw_k'', ''K''), (''t_sdw_k'', ''K''), (''t_afm_k'', ''K''), (''pressure_gpa'', ''GPa''),
      (''hc2_tesla'', ''T''), (''magnetic_field_t'', ''T''), (''lattice_a'', ''angstrom''),
      (''lattice_b'', ''angstrom''), (''lattice_c'', ''angstrom''), (''lattice_alpha'', ''degree''),
      (''lattice_beta'', ''degree''), (''lattice_gamma'', ''degree''), (''lambda_london_nm'', ''nm''),
      (''xi_gl_nm'', ''nm''), (''layer_thickness_nm'', ''nm''), (''rho_s_mev'', ''meV''), (''lambda_eph'', ''1''),
      (''rho_exponent'', ''1''), (''doping_level'', ''1''), (''confidence'', ''1''), (''mu_star'', ''1''),
      (''omega_log_source_value'', ''K'')]"

section \<open>Canonical JSON\<close>

fun joined :: "string list \<Rightarrow> string" where
  "joined [] = []"
| "joined [x] = x"
| "joined (x # y # ys) = x @ '','' @ joined (y # ys)"

text \<open>
  \<open>json.dumps(v, sort_keys=True, separators=(",", ":"), ensure_ascii=False, allow_nan=False)\<close>.
  Members are rendered in the order of their sorted keys, and the first failing one decides the
  error. A dict whose keys are not all strings is refused: the limits loop has rejected it
  before, except below a tuple, which these inputs do not contain.
\<close>

fun json_text :: "(rat \<Rightarrow> string) \<Rightarrow> pyval \<Rightarrow> (py_error, string) res"
  and json_texts :: "(rat \<Rightarrow> string) \<Rightarrow> pyval list \<Rightarrow> (py_error, string list) res"
  and json_members :: "(rat \<Rightarrow> string) \<Rightarrow> (pyval \<times> pyval) list \<Rightarrow> (string \<times> (py_error, string) res) list" where
  "json_text fr PNone = Inr ''null''"
| "json_text fr (PBool b) = Inr (if b then ''true'' else ''false'')"
| "json_text fr (PInt i) = (if too_many_digits i then Inl digits_error else Inr (int_text i))"
| "json_text fr (PFloat (Finite q)) = Inr (fr q)"
| "json_text fr (PFloat _) = Inl (ValueError ''Out of range float values are not JSON compliant'')"
| "json_text fr (PStr s) = Inr (json_string s)"
| "json_text fr (PList xs) = rbind (json_texts fr xs) (\<lambda>ts. Inr (''['' @ joined ts @ '']''))"
| "json_text fr (PTuple xs) = rbind (json_texts fr xs) (\<lambda>ts. Inr (''['' @ joined ts @ '']''))"
| "json_text fr (PDict kvs) =
     (if list_all (is_str \<circ> fst) kvs
      then rbind (rmapM (\<lambda>(k, r). rbind r (\<lambda>t. Inr (json_string k @ '':'' @ t))) (sort_key fst (json_members fr kvs)))
             (\<lambda>ts. Inr (''{'' @ joined ts @ ''}''))
      else Inl TypeError)"
| "json_text fr (POpaque n) = Inl TypeError"
| "json_texts fr [] = Inr []"
| "json_texts fr (x # xs) = rbind (json_text fr x) (\<lambda>t. rbind (json_texts fr xs) (\<lambda>ts. Inr (t # ts)))"
| "json_members fr [] = []"
| "json_members fr ((k, v) # kvs) = (str_of k, json_text fr v) # json_members fr kvs"

text \<open>\<open>json.loads\<close> of that text: sorted keys, tuples as lists.\<close>

fun json_norm :: "pyval \<Rightarrow> pyval"
  and norm_items :: "pyval list \<Rightarrow> pyval list"
  and norm_members :: "(pyval \<times> pyval) list \<Rightarrow> (pyval \<times> pyval) list" where
  "json_norm (PList xs) = PList (norm_items xs)"
| "json_norm (PTuple xs) = PList (norm_items xs)"
| "json_norm (PDict kvs) = PDict (sort_key (\<lambda>(k, _). str_of k) (norm_members kvs))"
| "json_norm v = v"
| "norm_items [] = []"
| "norm_items (x # xs) = json_norm x # norm_items xs"
| "norm_members [] = []"
| "norm_members ((k, v) # kvs) = (k, json_norm v) # norm_members kvs"

text \<open>
  The limits loop. The stack is a list with its top first, so the children of a node are pushed
  in reverse. At most 20001 nodes are popped, which bounds the recursion.
\<close>

function scan_limits :: "nat \<Rightarrow> (pyval \<times> nat) list \<Rightarrow> (py_error, unit) res" where
  "scan_limits nodes pending = (case pending of [] \<Rightarrow> Inr ()
     | (item, depth) # rest \<Rightarrow>
         if int nodes + 1 > 20000 \<or> depth > 20 then Inl (ValueError ''Evidence input JSON resource limit'')
         else (case item of
             PDict kvs \<Rightarrow>
               if list_ex (\<lambda>(k, _). \<not> is_str k) kvs then Inl (ValueError ''Evidence input object keys must be strings'')
               else scan_limits (nodes + 1) (rev (map (\<lambda>(_, v). (v, depth + 1)) kvs) @ rest)
           | PList xs \<Rightarrow> scan_limits (nodes + 1) (rev (map (\<lambda>v. (v, depth + 1)) xs) @ rest)
           | _ \<Rightarrow> scan_limits (nodes + 1) rest))"
  by pat_completeness auto
termination
  by (relation "measure (\<lambda>(nodes, _). nat (20001 - int nodes))") auto

declare scan_limits.simps [simp del]

definition canonical :: "(rat \<Rightarrow> string) \<Rightarrow> pyval \<Rightarrow> (py_error, string) res" where
  "canonical fr v =
     rbind (scan_limits 0 [(v, 0)]) (\<lambda>_.
     rbind (json_text fr v) (\<lambda>body.
       if int (length body) > MAX_INPUT_BYTES then Inl (ValueError ''Evidence input byte limit'') else Inr body))"

definition input_record_sha256 :: "contract_env \<Rightarrow> pyval \<Rightarrow> (py_error, string) res" where
  "input_record_sha256 env r =
     (if is_mapping r then rbind (canonical (ce_float env) r) (\<lambda>b. Inr (ce_sha env b))
      else Inl (ValueError ''An extraction record object is required''))"

section \<open>Projection of an extraction record\<close>

definition origin_fields :: "string list" where
  "origin_fields = [''knowledge_origin'', ''result_origin'', ''evidence_role'', ''evidence_type'', ''claim_kind'',
     ''source_role'', ''measurement'', ''measurement_method'', ''method'']"

definition outcome_fields :: "string list" where
  "outcome_fields = [''result_status'', ''outcome_state'', ''outcome'']"

definition bool_fields :: "string list" where
  "bool_fields = [''no_transition'', ''not_detected'', ''superconductivity_observed'', ''transition_observed'',
     ''is_superconducting'']"

definition quantity_differs :: "pyval \<Rightarrow> pyval \<Rightarrow> string list \<Rightarrow> (py_error, bool) res" where
  "quantity_differs a b ks =
     foldr (\<lambda>k rest. rbind (pindex a k) (\<lambda>x. rbind (pindex b k) (\<lambda>y. if \<not> py_eq x y then Inr True else rest)))
       ks (Inr False)"

definition invalidate :: "pyval \<Rightarrow> pyval" where
  "invalidate p =
     foldl (\<lambda>d (k, v). pput d k v) p
       [(''status'', PStr ''invalid''), (''relation'', PStr ''unreported''), (''value_kind'', PStr ''unreported''),
        (''value'', PNone), (''lower'', PNone), (''upper'', PNone), (''uncertainty'', PNone)]"

definition field_proposal :: "contract_env \<Rightarrow> pyval \<Rightarrow> string \<Rightarrow> (py_error, pyval) res" where
  "field_proposal env r field =
     rbind (ce_quantity env r field) (\<lambda>proposal.
       let raw = pget r ''raw_extraction''; typed = pget r ''scientific_values''
       in if is_mapping raw \<and> phas raw field
          then rbind (ce_quantity env raw field) (\<lambda>original.
            if is_mapping typed \<and> phas typed field
            then rbind (quantity_differs proposal original QUANTITY_FIELDS) (\<lambda>d.
                   Inr (if d then invalidate proposal else proposal))
            else Inr original)
          else Inr proposal)"

definition copy_quantity :: "pyval \<Rightarrow> (py_error, pyval) res" where
  "copy_quantity p =
     rbind (rmapM (\<lambda>k. rbind (pindex p k) (\<lambda>v. Inr (PStr k, v))) QUANTITY_FIELDS) (\<lambda>kvs. Inr (PDict kvs))"

fun quantities_of :: "contract_env \<Rightarrow> pyval \<Rightarrow> string list \<Rightarrow> (py_error, (pyval \<times> pyval) list) res" where
  "quantities_of env r [] = Inr []"
| "quantities_of env r (f # fs) =
     rbind (field_proposal env r f) (\<lambda>p.
     rbind (pindex p ''status'') (\<lambda>st.
     rbind (if st \<noteq> PStr ''unreported'' then rbind (copy_quantity p) (\<lambda>q. Inr [(PStr f, q)]) else Inr []) (\<lambda>here.
     rbind (quantities_of env r fs) (\<lambda>rest. Inr (here @ rest)))))"

definition projection_inputs :: "pyval \<Rightarrow> pyval list" where
  "projection_inputs r = (let raw = pget r ''raw_extraction'' in if is_mapping raw then [r, raw] else [r])"

definition flag_in :: "string list \<Rightarrow> pyval \<Rightarrow> bool" where
  "flag_in ks item = (case pget item ''validation_flags'' of
     PList flags \<Rightarrow> list_ex (\<lambda>f. is_str f \<and> takeWhile (\<lambda>c. c \<noteq> CHR '':'') (str_of f) \<in> set ks) flags
   | _ \<Rightarrow> False)"

definition mistyped :: "(pyval \<Rightarrow> bool) \<Rightarrow> string list \<Rightarrow> pyval \<Rightarrow> bool" where
  "mistyped ok ks item = list_ex (\<lambda>k. pget item k \<noteq> PNone \<and> \<not> ok (pget item k)) ks"

definition projected_origins :: "pyval list \<Rightarrow> string list" where
  "projected_origins inputs =
     remdups (filter (\<lambda>x. x \<noteq> ''Unknown'') (map (\<lambda>i. knowledge_origin (classify_result i)) inputs))"

definition projected_roles :: "pyval list \<Rightarrow> string list" where
  "projected_roles inputs =
     remdups (filter (\<lambda>x. x \<noteq> ''unknown'') (map (\<lambda>i. source_role (classify_result i)) inputs))"

definition projection_conflicted :: "pyval list \<Rightarrow> bool" where
  "projection_conflicted inputs =
     (length (projected_origins inputs) > 1
      \<or> list_ex (\<lambda>i. classification_status (classify_result i) = ''conflicted'') inputs
      \<or> list_ex (mistyped is_str origin_fields) inputs
      \<or> list_ex (flag_in origin_fields) inputs)"

definition malformed_outcome :: "pyval list \<Rightarrow> bool" where
  "malformed_outcome inputs =
     (list_ex (mistyped is_str outcome_fields) inputs \<or> list_ex (mistyped is_bool bool_fields) inputs
      \<or> list_ex (flag_in (outcome_fields @ bool_fields)) inputs)"

definition projection_result :: "pyval list \<Rightarrow> (pyval \<times> pyval) list \<Rightarrow> pyval" where
  "projection_result inputs quantities =
     (let os = projected_origins inputs; rs = projected_roles inputs; conflicted = projection_conflicted inputs
      in PDict [(PStr ''version'', PStr PROJECTION_VERSION),
           (PStr ''quantities'', PDict quantities),
           (PStr ''knowledge_origin'', PStr (if length os = 1 \<and> \<not> conflicted then hd os else ''Unknown'')),
           (PStr ''source_role'', PStr (if length rs = 1 then hd rs else if rs \<noteq> [] then ''conflicted'' else ''unknown'')),
           (PStr ''classification_status'',
              PStr (if conflicted then ''conflicted'' else if os \<noteq> [] then ''resolved'' else ''unknown'')),
           (PStr ''positive_interpretation_blocked'',
              PBool (malformed_outcome inputs \<or> list_ex outcome_conflicts_with_positive inputs))])"

definition extraction_projection :: "contract_env \<Rightarrow> pyval \<Rightarrow> (py_error, pyval) res" where
  "extraction_projection env r =
     rbind (input_record_sha256 env r) (\<lambda>_.
     rbind (quantities_of env r (map fst FIELD_UNITS)) (\<lambda>quantities.
       let result = projection_result (projection_inputs r) quantities
       in rbind (canonical (ce_float env) result) (\<lambda>body.
            if int (length body) > MAX_PROJECTION_BYTES then Inl (ValueError ''Evidence projection byte limit'')
            else Inr result)))"

section \<open>Locators and candidates\<close>

definition bounded_label :: "nat \<Rightarrow> string \<Rightarrow> bool" where
  "bounded_label n s = (py_strip s \<noteq> [] \<and> length s \<le> n \<and> list_all (\<lambda>c. 32 \<le> char_nat c) s)"

definition check_version :: "pyval \<Rightarrow> (py_error, unit) res" where
  "check_version v = guard (is_str v \<and> bounded_label 160 (str_of v)) (ValueError ''A bounded producer version is required'')"

fun check_coordinates :: "(pyval \<times> pyval) list \<Rightarrow> (py_error, unit) res" where
  "check_coordinates [] = Inr ()"
| "check_coordinates ((k, item) # kvs) =
     rbind (if is_str k \<and> str_of k \<in> set LOCATOR_TEXT
            then guard (is_str item \<and> bounded_label 300 (str_of item)) (ValueError ''Invalid text source coordinate'')
            else guard (type_is_int item \<and> 0 \<le> int_of item \<and> int_of item \<le> 1000000000)
                   (ValueError ''Invalid numeric source coordinate''))
       (\<lambda>_. check_coordinates kvs)"

definition span_ok :: "pyval \<Rightarrow> string \<times> string \<Rightarrow> bool" where
  "span_ok v b = (case b of (lower, upper) \<Rightarrow>
     phas v lower = phas v upper \<and>
     (phas v lower \<longrightarrow> int_of (pget v lower) \<le> int_of (pget v upper)
        \<and> (lower = ''page_start'' \<or> int_of (pget v lower) \<noteq> int_of (pget v upper))))"

definition SPANS :: "(string \<times> string) list" where
  "SPANS = [(''page_start'', ''page_end''), (''char_start'', ''char_end''), (''span_start'', ''span_end'')]"

definition coordinate_key :: "pyval \<Rightarrow> bool" where
  "coordinate_key k = (is_str k \<and> str_of k \<in> set (LOCATOR_TEXT @ LOCATOR_INT))"

definition validate_locator :: "(rat \<Rightarrow> string) \<Rightarrow> pyval \<Rightarrow> (py_error, pyval) res" where
  "validate_locator fr v =
     rbind (guard (is_mapping v \<and> list_all coordinate_key (pkeys v)) (ValueError ''Only bounded source coordinates are allowed'')) (\<lambda>_.
     rbind (canonical fr v) (\<lambda>body.
     rbind (guard (int (length body) \<le> 4096) (ValueError ''Only bounded source coordinates are allowed'')) (\<lambda>_.
     rbind (case v of PDict kvs \<Rightarrow> check_coordinates kvs | _ \<Rightarrow> Inr ()) (\<lambda>_.
     rbind (guard (list_all (span_ok v) SPANS) (ValueError ''Incomplete or invalid source span'')) (\<lambda>_. Inr v)))))"

definition CANDIDATE_FIELDS :: "string list" where
  "CANDIDATE_FIELDS = [''version'', ''chunk_kind'', ''parent_record'', ''extraction_version'', ''rendering_version'',
     ''source_capture_id'', ''source_locator'', ''unresolved_reason'', ''permission_status'']"

definition CANDIDATE_DEFAULTS :: "(pyval \<times> pyval) list" where
  "CANDIDATE_DEFAULTS =
     [(PStr ''parent_record'', PNone), (PStr ''extraction_version'', PNone), (PStr ''rendering_version'', PNone),
      (PStr ''source_capture_id'', PNone), (PStr ''source_locator'', PDict []),
      (PStr ''unresolved_reason'', PStr ''missing_original_source''), (PStr ''permission_status'', PStr ''unresolved'')]"

text \<open>
  \<open>str(UUID(str(x)))\<close> of a JSON value: the text of a float is too short for a UUID and that of
  a container holds brackets or quotes, so only strings and integers can be accepted.
\<close>

fun capture_uuid :: "pyval \<Rightarrow> (py_error, string) res" where
  "capture_uuid (PStr s) = (case uuid_norm s of None \<Rightarrow> Inl (ValueError ''badly formed hexadecimal UUID string'') | Some u \<Rightarrow> Inr u)"
| "capture_uuid (PInt i) =
     (case uuid_norm (int_text i) of None \<Rightarrow> Inl (ValueError ''badly formed hexadecimal UUID string'') | Some u \<Rightarrow> Inr u)"
| "capture_uuid _ = Inl (ValueError ''badly formed hexadecimal UUID string'')"

definition check_parent :: "contract_env \<Rightarrow> pyval \<Rightarrow> (py_error, unit) res" where
  "check_parent env r =
     (if pget r ''chunk_kind'' = PStr ''derived_fact''
      then rbind (input_record_sha256 env (pget r ''parent_record'')) (\<lambda>_.
           rbind (check_version (pget r ''extraction_version'')) (\<lambda>_. check_version (pget r ''rendering_version'')))
      else guard (pget r ''parent_record'' = PNone \<and> pget r ''extraction_version'' = PNone)
             (ValueError ''Original evidence cannot claim a derived parent''))"

definition admission_ok :: "pyval \<Rightarrow> bool" where
  "admission_ok r =
     (is_str (pget r ''unresolved_reason'') \<and> is_str (pget r ''permission_status'')
      \<and> str_of (pget r ''unresolved_reason'') \<in> set EVIDENCE_REASONS
      \<and> str_of (pget r ''permission_status'') \<in> {''unresolved'', ''restricted''})"

definition exact_window_keys :: "pyval \<Rightarrow> bool" where
  "exact_window_keys l = (set (pkeys l) = {PStr ''char_start'', PStr ''char_end''})"

definition snapshot_ok :: "pyval \<Rightarrow> bool" where
  "snapshot_ok r =
     (pget r ''chunk_kind'' = PStr ''retained_legacy_snapshot'' \<longrightarrow>
        pget r ''rendering_version'' = PStr ''sclib-legacy-input-pack/1.0.0'' \<and> pget r ''source_capture_id'' = PNone
        \<and> pget r ''unresolved_reason'' = PStr ''legacy_unresolved'' \<and> exact_window_keys (pget r ''source_locator''))"

definition candidate_shape :: "pyval \<Rightarrow> bool" where
  "candidate_shape v =
     (is_mapping v \<and> list_all (\<lambda>k. is_str k \<and> str_of k \<in> set CANDIDATE_FIELDS) (pkeys v)
      \<and> pget v ''version'' = PStr EVIDENCE_VERSION \<and> is_str (pget v ''chunk_kind'')
      \<and> str_of (pget v ''chunk_kind'') \<in> set EVIDENCE_KINDS)"

fun members_of :: "pyval \<Rightarrow> (pyval \<times> pyval) list" where
  "members_of (PDict kvs) = kvs"
| "members_of _ = []"

definition validate_candidate :: "contract_env \<Rightarrow> pyval \<Rightarrow> (py_error, pyval) res" where
  "validate_candidate env v =
     rbind (guard (candidate_shape v) (ValueError ''Invalid evidence candidate version or kind'')) (\<lambda>_.
     rbind (canonical (ce_float env) v) (\<lambda>_.
       let r = PDict (dict_merge CANDIDATE_DEFAULTS (members_of (json_norm v)))
       in rbind (check_parent env r) (\<lambda>_.
          rbind (if pget r ''rendering_version'' \<noteq> PNone then check_version (pget r ''rendering_version'') else Inr ()) (\<lambda>_.
          rbind (if pget r ''source_capture_id'' \<noteq> PNone
                 then rbind (capture_uuid (pget r ''source_capture_id'')) (\<lambda>u. Inr (pput r ''source_capture_id'' (PStr u)))
                 else Inr r) (\<lambda>r1.
          rbind (validate_locator (ce_float env) (pget r1 ''source_locator'')) (\<lambda>loc.
            let r2 = pput r1 ''source_locator'' loc
            in rbind (guard (admission_ok r2) (ValueError ''Evidence candidates cannot grant roots or permission'')) (\<lambda>_.
               rbind (guard (snapshot_ok r2)
                 (ValueError ''Retained legacy snapshots require exact new windows and unresolved original lineage''))
                 (\<lambda>_. Inr r2))))))))"

section \<open>Revision rows\<close>

definition parent_row :: "contract_env \<Rightarrow> pyval \<Rightarrow> string \<Rightarrow> pyval \<Rightarrow> (py_error, pyval) res" where
  "parent_row env paper_id snapshot sel =
     rbind (input_record_sha256 env (pget sel ''parent_record'')) (\<lambda>h.
     rbind (extraction_projection env (pget sel ''parent_record'')) (\<lambda>proj.
       let parent = PDict
             [(PStr ''paper_id'', paper_id), (PStr ''input_record_sha256'', PStr h),
              (PStr ''extractor_version'', pget sel ''extraction_version''),
              (PStr ''projection_version'', PStr PROJECTION_VERSION), (PStr ''projection_json'', proj),
              (PStr ''source_snapshot_sha256'', PStr snapshot), (PStr ''scientific_acceptance'', PBool False)]
       in rbind (canonical (ce_float env) parent) (\<lambda>body.
            Inr (pput parent ''id'' (PStr (ce_uuid5 env (''extraction:'' @ ce_sha env body)))))))"

definition evidence_row :: "contract_env \<Rightarrow> pyval \<Rightarrow> string \<Rightarrow> string \<Rightarrow> string \<Rightarrow> string \<Rightarrow> pyval \<Rightarrow> pyval \<Rightarrow> (py_error, pyval) res" where
  "evidence_row env paper_id chunk_id chunk_text binding snapshot sel parent =
     (let evidence = PDict
        ([(PStr ''paper_id'', paper_id), (PStr ''chunk_key'', PStr chunk_id), (PStr ''version'', PStr EVIDENCE_VERSION),
          (PStr ''chunk_kind'', pget sel ''chunk_kind''), (PStr ''content_sha256'', PStr (ce_sha env chunk_text)),
          (PStr ''chunk_binding_sha256'', PStr binding), (PStr ''source_snapshot_sha256'', PStr snapshot),
          (PStr ''parent_extraction_revision_id'', pget parent ''id'')]
         @ map (\<lambda>k. (PStr k, pget sel k))
             [''source_capture_id'', ''source_locator'', ''extraction_version'', ''rendering_version'',
              ''unresolved_reason'', ''permission_status'']
         @ [(PStr ''root_status'', PStr ''unresolved'')])
      in rbind (canonical (ce_float env) evidence) (\<lambda>body.
           Inr (pput evidence ''id'' (PStr (ce_uuid5 env (''evidence:'' @ ce_sha env body))))))"

record revision_rows =
  extraction :: pyval
  evidence :: pyval

definition build_revision_rows ::
  "contract_env \<Rightarrow> pyval \<Rightarrow> pyval \<Rightarrow> pyval \<Rightarrow> pyval \<Rightarrow> pyval \<Rightarrow> pyval \<Rightarrow> (py_error, revision_rows) res" where
  "build_revision_rows env paper_id chunk_id chunk_text binding snapshot candidate =
     rbind (validate_candidate env candidate) (\<lambda>sel.
     rbind (guard (is_str chunk_id \<and> 1 \<le> length (str_of chunk_id) \<and> length (str_of chunk_id) \<le> 200)
              (ValueError ''An actual chunk identity is required'')) (\<lambda>_.
     rbind (guard (is_str chunk_text \<and> int (length (str_of chunk_text)) \<le> MAX_INPUT_BYTES)
              (ValueError ''Bounded actual chunk text required'')) (\<lambda>_.
     rbind (guard (list_all (\<lambda>h. is_str h \<and> is_sha256 (str_of h)) [binding, snapshot])
              (ValueError ''Actual SQL snapshot hashes required'')) (\<lambda>_.
     rbind (if pget sel ''chunk_kind'' = PStr ''derived_fact'' then parent_row env paper_id (str_of snapshot) sel else Inr PNone) (\<lambda>parent.
     rbind (evidence_row env paper_id (str_of chunk_id) (str_of chunk_text) (str_of binding) (str_of snapshot) sel parent) (\<lambda>ev.
       Inr \<lparr>extraction = parent, evidence = ev\<rparr>))))))"

section \<open>Wire descriptor\<close>

definition DESCRIPTOR_FIELDS :: "string list" where
  "DESCRIPTOR_FIELDS = [''version'', ''chunk_kind'', ''evidence_revision_id'', ''evidence_record_sha256'', ''content_sha256'',
     ''parent_result_revision_id'', ''parent_result_sha256'', ''extraction_version'', ''rendering_version'',
     ''source_capture_id'', ''source_locator'', ''root_status'', ''permission_status'', ''currentness'',
     ''warning_codes'', ''support_eligible'', ''independent_evidence'', ''scientific_acceptance'']"

definition str_in :: "pyval \<Rightarrow> string list \<Rightarrow> bool" where
  "str_in v xs = (is_str v \<and> str_of v \<in> set xs)"

definition warning_code :: "pyval \<Rightarrow> bool" where
  "warning_code v = (case v of
     PStr (c # s) \<Rightarrow> 97 \<le> char_nat c \<and> char_nat c \<le> 122 \<and> length s \<le> 79
        \<and> list_all (\<lambda>x. 97 \<le> char_nat x \<and> char_nat x \<le> 122 \<or> is_digit_char x \<or> x = CHR ''_'') s
   | _ \<Rightarrow> False)"

definition digest_ok :: "pyval \<Rightarrow> string \<Rightarrow> bool" where
  "digest_ok v k = (pget v k = PNone \<and> k \<noteq> ''content_sha256'' \<or> is_str (pget v k) \<and> is_sha256 (str_of (pget v k)))"

definition lineage_ok :: "pyval \<Rightarrow> (py_error, unit) res" where
  "lineage_ok v =
     (let none = (\<lambda>k. pget v k = PNone);
          parent_keys = [''parent_result_revision_id'', ''parent_result_sha256'', ''extraction_version'']
      in if pget v ''chunk_kind'' = PStr ''legacy_unknown''
         then guard (list_all none [''evidence_revision_id'', ''evidence_record_sha256'', ''parent_result_revision_id'',
                ''parent_result_sha256'', ''source_capture_id'', ''extraction_version'', ''rendering_version'']
                \<and> pget v ''currentness'' \<noteq> PStr ''current'') (ValueError ''Legacy lineage cannot fabricate retained revisions'')
         else rbind (guard (\<not> none ''evidence_revision_id'' \<and> \<not> none ''evidence_record_sha256'')
                (ValueError ''Typed evidence requires an exact retained revision'')) (\<lambda>_.
              if pget v ''chunk_kind'' = PStr ''derived_fact''
              then guard (list_all (\<lambda>k. \<not> none k) (parent_keys @ [''rendering_version'']))
                     (ValueError ''Derived evidence requires an exact retained parent'')
              else guard (list_all none parent_keys) (ValueError ''Original evidence cannot fabricate a derived parent'')))"

definition replay_ok :: "pyval \<Rightarrow> (py_error, unit) res" where
  "replay_ok v =
     (let refused = ValueError ''Retained legacy lineage requires exact replay coordinates''
      in if pget v ''chunk_kind'' \<noteq> PStr ''retained_legacy_snapshot'' then Inr ()
         else if pget v ''rendering_version'' \<noteq> PStr ''sclib-legacy-input-pack/1.0.0'' \<or> pget v ''source_capture_id'' \<noteq> PNone
         then Inl refused
         else rbind (elements (pget v ''source_locator'')) (\<lambda>ks.
                guard (set ks = {PStr ''char_start'', PStr ''char_end''}) refused))"

definition validate_evidence_descriptor :: "(rat \<Rightarrow> string) \<Rightarrow> pyval \<Rightarrow> (py_error, pyval) res" where
  "validate_evidence_descriptor fr v =
     rbind (guard (is_mapping v \<and> set (pkeys v) = PStr ` set DESCRIPTOR_FIELDS \<and> pget v ''version'' = PStr EVIDENCE_VERSION)
              (ValueError ''Malformed evidence descriptor'')) (\<lambda>_.
     rbind (guard (str_in (pget v ''chunk_kind'') (''legacy_unknown'' # EVIDENCE_KINDS) \<and> pget v ''root_status'' = PStr ''unresolved'')
              (ValueError ''Unrecognized evidence provenance'')) (\<lambda>_.
     rbind (guard (str_in (pget v ''permission_status'') [''unresolved'', ''restricted'']
                   \<and> str_in (pget v ''currentness'') [''current'', ''stale'', ''unresolved''])
              (ValueError ''Unrecognized evidence admission state'')) (\<lambda>_.
     rbind (guard (list_all (\<lambda>k. pget v k = PBool False) [''support_eligible'', ''independent_evidence'', ''scientific_acceptance''])
              (ValueError ''Evidence lineage cannot assert scientific authority'')) (\<lambda>_.
     rbind (guard (list_all (\<lambda>k. pget v k = PNone \<or> is_str (pget v k) \<and> canonical_uuid (str_of (pget v k)))
                     [''evidence_revision_id'', ''parent_result_revision_id'', ''source_capture_id''])
              (ValueError ''Invalid evidence identifier'')) (\<lambda>_.
     rbind (guard (list_all (digest_ok v) [''content_sha256'', ''evidence_record_sha256'', ''parent_result_sha256''])
              (ValueError ''Invalid evidence digest'')) (\<lambda>_.
     rbind (rmapM (\<lambda>k. if pget v k \<noteq> PNone then check_version (pget v k) else Inr ()) [''extraction_version'', ''rendering_version'']) (\<lambda>_.
     rbind (lineage_ok v) (\<lambda>_.
     rbind (replay_ok v) (\<lambda>_.
     rbind (validate_locator fr (pget v ''source_locator'')) (\<lambda>_.
     rbind (guard (case pget v ''warning_codes'' of PList ws \<Rightarrow> length ws \<le> 12 \<and> list_all warning_code ws | _ \<Rightarrow> False)
              (ValueError ''Invalid evidence warnings'')) (\<lambda>_.
     rbind (canonical fr v) (\<lambda>_. Inr (json_norm v)))))))))))))"

section \<open>Coordinates and a concrete environment\<close>

text \<open>The test of one coordinate, and an environment for concrete runs.\<close>

definition coordinate_ok :: "pyval \<Rightarrow> pyval \<Rightarrow> bool" where
  "coordinate_ok k item =
     (if is_str k \<and> str_of k \<in> set LOCATOR_TEXT then is_str item \<and> bounded_label 300 (str_of item)
      else type_is_int item \<and> 0 \<le> int_of item \<and> int_of item \<le> 1000000000)"

definition demo_env :: contract_env where
  "demo_env = \<lparr>ce_float = (\<lambda>_. ''1.5''), ce_sha = (\<lambda>s. replicate 64 (CHR ''0'')), ce_uuid5 = (\<lambda>s. s),
     ce_quantity = (\<lambda>r f. Inr (PDict [(PStr ''status'', PStr ''unreported'')]))\<rparr>"

section \<open>What canonical JSON accepts\<close>

lemma scan_limits_leaves:
  "int n + int (length ps) \<le> 20000 \<Longrightarrow> list_all (\<lambda>(v, d). d \<le> 20 \<and> \<not> is_mapping v \<and> \<not> is_list v) ps \<Longrightarrow>
     scan_limits n ps = Inr ()"
proof (induction ps arbitrary: n)
  case (Cons p ps)
  obtain v d where p: "p = (v, d)" by force
  have "scan_limits (n + 1) ps = Inr ()" by (rule Cons.IH) (use Cons.prems in auto)
  then show ?case using Cons.prems p by (subst scan_limits.simps) (cases v; simp)
qed (subst scan_limits.simps, simp)

lemma joined_length: "\<forall>t \<in> set ts. length t \<le> b \<Longrightarrow> length (joined ts) \<le> length ts * (b + 1)"
proof (induction ts rule: joined.induct)
  case (3 x y ys)
  then have "length (joined (y # ys)) \<le> length (y # ys) * (b + 1)" "length x \<le> b" by auto
  then show ?case by simp
qed auto

lemma json_members_set: "set (json_members fr kvs) = (\<lambda>(k, v). (str_of k, json_text fr v)) ` set kvs"
  by (induction kvs) auto

lemma json_members_length [simp]: "length (json_members fr kvs) = length kvs"
  by (induction kvs) auto

lemma json_text_dict_bounded:
  assumes "\<forall>(k, v) \<in> set kvs. is_str k \<and> (\<exists>t. json_text fr v = Inr t \<and> length (json_string (str_of k)) + 1 + length t \<le> b)"
  shows "\<exists>t. json_text fr (PDict kvs) = Inr t \<and> length t \<le> 2 + length kvs * (b + 1)"
proof -
  let ?ms = "sort_key fst (json_members fr kvs)"
  let ?f = "\<lambda>(k, r). rbind r (\<lambda>t. Inr (json_string k @ '':'' @ t))"
  have ok: "\<exists>t. ?f m = Inr t \<and> length t \<le> b" if "m \<in> set ?ms" for m
    using that assms by (fastforce simp: json_members_set)
  then have "\<forall>m \<in> set ?ms. ?f m = Inr (projr (?f m))" by fastforce
  then have "rmapM ?f ?ms = Inr (map (\<lambda>m. projr (?f m)) ?ms)" by (rule rmapM_all_Inr)
  then obtain ts where ts: "rmapM ?f ?ms = Inr ts" ..
  have "\<forall>t \<in> set ts. length t \<le> b"
    using ok rmapM_Inr_set [OF ts] by fastforce
  moreover have "length ts = length kvs" using rmapM_Inr_length [OF ts] by simp
  ultimately have "length (joined ts) \<le> length kvs * (b + 1)" using joined_length by metis
  moreover have "list_all (is_str \<circ> fst) kvs" using assms by (auto simp: list_all_iff)
  ultimately show ?thesis using ts by simp
qed

lemma json_escape_printable: "32 \<le> char_nat c \<Longrightarrow> length (json_escape c) \<le> 2"
  by (simp add: json_escape_def split: option.splits)

lemma json_string_printable:
  "list_all (\<lambda>c. 32 \<le> char_nat c) s \<Longrightarrow> length (json_string s) \<le> 2 + 2 * length s"
proof (induction s)
  case (Cons c s)
  then show ?case using json_escape_printable [of c] by (simp add: json_string_def)
qed (simp add: json_string_def)

lemma nat_digits_length: "n < 10 ^ k \<Longrightarrow> 0 < k \<Longrightarrow> length (nat_digits n) \<le> k"
proof (induction k arbitrary: n)
  case (Suc k)
  show ?case
  proof (cases "n < 10")
    case False
    then have "n div 10 < 10 ^ k" "0 < k" using Suc.prems by (cases k; auto)+
    then show ?thesis using Suc.IH [of "n div 10"] False by (subst nat_digits.simps) simp
  qed (simp add: nat_digits.simps)
qed simp

section \<open>Reading back canonical JSON\<close>

lemma norm_members_map: "norm_members kvs = map (\<lambda>(k, v). (k, json_norm v)) kvs"
  by (induction kvs) auto

lemma map_of_sort_key:
  assumes "distinct (map fst kvs)" shows "map_of (sort_key f kvs) = map_of kvs"
proof -
  have "distinct (map fst (sort_key f kvs))"
    using assms by (simp add: distinct_map inj_on_def)
  then show ?thesis using assms map_of_inject_set [of "sort_key f kvs" kvs] by simp
qed

lemma map_of_map_snd: "map_of (map (\<lambda>(k, v). (k, g v)) kvs) k = map_option g (map_of kvs k)"
  by (induction kvs) auto

lemma pget_json_norm:
  "distinct (map fst kvs) \<Longrightarrow> pget (json_norm (PDict kvs)) k = json_norm (pget (PDict kvs) k)"
  using map_of_sort_key [of "norm_members kvs" "\<lambda>(k, _). str_of k"]
  by (simp add: norm_members_map map_of_map_snd comp_def case_prod_beta split: option.splits)

lemma pkeys_json_norm: "set (pkeys (json_norm (PDict kvs))) = set (pkeys (PDict kvs))"
  by (force simp: norm_members_map)

lemma members_json_norm: "set (members_of (json_norm (PDict kvs))) = (\<lambda>(k, v). (k, json_norm v)) ` set kvs"
  by (simp add: norm_members_map)

lemma pget_merged_candidate:
  assumes "distinct (map fst kvs)" "list_all (is_str \<circ> fst) kvs"
  shows "pget (PDict (dict_merge d (members_of (json_norm (PDict kvs))))) k =
     (if phas (PDict kvs) k then json_norm (pget (PDict kvs) k) else pget (PDict d) k)"
proof -
  let ?m = "sort_key (\<lambda>(k, _). str_of k) (norm_members kvs)"
  have d: "distinct (map fst (norm_members kvs))"
    using assms(1) by (simp add: norm_members_map comp_def case_prod_beta)
  have "list_all (is_str \<circ> fst) ?m" using assms(2) by (auto simp: list_all_iff norm_members_map)
  moreover have "distinct (map fst ?m)" using d by (simp add: distinct_map inj_on_def)
  ultimately have "map_of (dict_merge d ?m) (PStr k) =
      (case map_option json_norm (map_of kvs (PStr k)) of Some v \<Rightarrow> Some v | None \<Rightarrow> map_of d (PStr k))"
    using map_of_dict_merge [of ?m d "PStr k"]
    by (simp only: map_of_sort_key [OF d]) (simp only: norm_members_map map_of_map_snd)
  then show ?thesis by (auto split: option.splits)
qed

section \<open>Locator acceptance\<close>

lemma check_coordinates_iff: "check_coordinates kvs = Inr u \<longleftrightarrow> (\<forall>(k, item) \<in> set kvs. coordinate_ok k item)"
  by (induction kvs rule: check_coordinates.induct) (auto simp: coordinate_ok_def)

lemma coordinate_text_length:
  assumes "coordinate_key k" "coordinate_ok k item"
  shows "is_str k \<and> (\<exists>t. json_text fr item = Inr t \<and> length (json_string (str_of k)) + 1 + length t \<le> 640)"
proof -
  have k: "is_str k" "str_of k \<in> set (LOCATOR_TEXT @ LOCATOR_INT)" using assms(1) by (auto simp: coordinate_key_def)
  then have "length (json_string (str_of k)) \<le> 14"
    by (auto simp: LOCATOR_TEXT_def LOCATOR_INT_def json_string_def json_escape_def short_escapes_def char_nat_def)
  moreover have "\<exists>t. json_text fr item = Inr t \<and> length t \<le> 602"
  proof (cases "str_of k \<in> set LOCATOR_TEXT")
    case True
    then obtain s where s: "item = PStr s" "bounded_label 300 s"
      using assms(2) k(1) by (cases item) (auto simp: coordinate_ok_def)
    then show ?thesis using json_string_printable [of s] by (simp add: bounded_label_def)
  next
    case False
    then obtain i where i: "item = PInt i" "0 \<le> i" "i \<le> 1000000000"
      using assms(2) by (cases item) (auto simp: coordinate_ok_def)
    then have "nat i < 10 ^ 10" by simp
    then have "length (nat_digits (nat i)) \<le> 10" by (rule nat_digits_length) simp
    then show ?thesis using i by (simp add: int_text_def too_many_digits_def)
  qed
  ultimately show ?thesis using k(1) by fastforce
qed

text \<open>A small locator whose coordinates and spans are right is accepted and returned unchanged.\<close>

lemma validate_locator_accepts:
  assumes "length kvs \<le> 6" and "\<forall>(k, item) \<in> set kvs. coordinate_key k \<and> coordinate_ok k item"
    and "list_all (span_ok (PDict kvs)) SPANS"
  shows "validate_locator fr (PDict kvs) = Inr (PDict kvs)"
proof -
  have leaf: "\<not> is_mapping v \<and> \<not> is_list v" if "(k, v) \<in> set kvs" for k v
  proof -
    have "coordinate_ok k v" using assms(2) that by blast
    then show ?thesis by (cases v) (auto simp: coordinate_ok_def split: if_splits)
  qed
  have "scan_limits 0 [(PDict kvs, 0)] = Inr ()"
  proof -
    have "\<not> list_ex (\<lambda>(k, _). \<not> is_str k) kvs" using assms(2) by (auto simp: list_ex_iff coordinate_key_def)
    moreover have "scan_limits 1 (rev (map (\<lambda>(_, v). (v, 1)) kvs)) = Inr ()"
      by (rule scan_limits_leaves) (use assms(1) leaf in \<open>auto simp: list_all_iff\<close>)
    ultimately show ?thesis by (subst scan_limits.simps) simp
  qed
  moreover obtain t where t: "json_text fr (PDict kvs) = Inr t" "length t \<le> 2 + length kvs * (640 + 1)"
    using json_text_dict_bounded [of kvs fr 640] assms(2) coordinate_text_length by blast
  moreover have "length t \<le> 4096" using t(2) assms(1) mult_le_mono1 [OF assms(1), of 641] by simp
  ultimately have "canonical fr (PDict kvs) = Inr t" "int (length t) \<le> 4096"
    by (simp_all add: canonical_def MAX_INPUT_BYTES_def)
  moreover have "check_coordinates kvs = Inr ()" using assms(2) by (auto simp: check_coordinates_iff)
  moreover have "list_all coordinate_key (pkeys (PDict kvs))" using assms(2) by (auto simp: list_all_iff)
  ultimately show ?thesis using assms(3) by (simp add: validate_locator_def)
qed

section \<open>Projection property\<close>

lemma projection_fields:
  "pget (projection_result inputs qs) ''knowledge_origin'' =
     PStr (if length (projected_origins inputs) = 1 \<and> \<not> projection_conflicted inputs then hd (projected_origins inputs) else ''Unknown'')"
  "pget (projection_result inputs qs) ''classification_status'' =
     PStr (if projection_conflicted inputs then ''conflicted'' else if projected_origins inputs \<noteq> [] then ''resolved'' else ''unknown'')"
  "pget (projection_result inputs qs) ''positive_interpretation_blocked'' =
     PBool (malformed_outcome inputs \<or> list_ex outcome_conflicts_with_positive inputs)"
  "pget (projection_result inputs qs) ''quantities'' = PDict qs"
  by (simp_all add: projection_result_def Let_def)

lemma unconflicted_origins:
  assumes "\<not> projection_conflicted inputs" "projected_origins inputs = x # xs"
  shows "xs = []" "\<forall>i \<in> set inputs. origin_evidence i \<subseteq> {x}" "\<exists>i \<in> set inputs. origin_evidence i = {x}"
proof -
  have "length (projected_origins inputs) \<le> 1" using assms(1) by (simp add: projection_conflicted_def)
  then show xs: "xs = []" using assms(2) by simp
  have xset: "{x} = {y \<in> (\<lambda>i. knowledge_origin (classify_result i)) ` set inputs. y \<noteq> ''Unknown''}"
  proof -
    have "set (projected_origins inputs) = {y \<in> (\<lambda>i. knowledge_origin (classify_result i)) ` set inputs. y \<noteq> ''Unknown''}"
      by (simp add: projected_origins_def)
    then show ?thesis by (simp add: assms(2) xs)
  qed
  have nc: "classification_status (classify_result i) \<noteq> ''conflicted''" if "i \<in> set inputs" for i
    using assms(1) that by (simp add: projection_conflicted_def list_ex_iff)
  have known: "knowledge_origin (classify_result i) \<noteq> ''Unknown'' \<Longrightarrow> origin_evidence i = {knowledge_origin (classify_result i)}" for i
    using unresolved_origin resolved_iff by blast
  show "\<forall>i \<in> set inputs. origin_evidence i \<subseteq> {x}"
  proof
    fix i assume i: "i \<in> set inputs"
    show "origin_evidence i \<subseteq> {x}"
    proof (cases rule: origin_verdict [of i])
      case (one y)
      have "y \<noteq> ''Unknown''" using one(1) origin_evidence_range [of i] by auto
      then have "y \<in> {x}" unfolding xset using i one(2) by blast
      then show ?thesis using one(1) by simp
    next
      case (many a b)
      then show ?thesis using nc [OF i] by simp
    qed simp
  qed
  have "x \<in> {y \<in> (\<lambda>i. knowledge_origin (classify_result i)) ` set inputs. y \<noteq> ''Unknown''}"
    using xset by blast
  then obtain i where "i \<in> set inputs" "x = knowledge_origin (classify_result i)" "x \<noteq> ''Unknown''" by blast
  then show "\<exists>i \<in> set inputs. origin_evidence i = {x}" using known [of i] by blast
qed

lemma copy_quantity_keys: "copy_quantity p = Inr q \<Longrightarrow> pkeys q = map PStr QUANTITY_FIELDS"
proof -
  have keys: "rmapM (\<lambda>k. rbind (pindex p k) (\<lambda>v. Inr (PStr k, v))) ks = Inr kvs \<Longrightarrow> map fst kvs = map PStr ks" for ks kvs
    by (induction ks arbitrary: kvs) auto
  assume "copy_quantity p = Inr q"
  then obtain kvs where "rmapM (\<lambda>k. rbind (pindex p k) (\<lambda>v. Inr (PStr k, v))) QUANTITY_FIELDS = Inr kvs" "q = PDict kvs"
    by (auto simp: copy_quantity_def)
  then show ?thesis using keys by simp
qed

lemma quantities_closed:
  "quantities_of env r fs = Inr qs \<Longrightarrow>
     list_all (\<lambda>(k, q). (\<exists>f \<in> set fs. k = PStr f) \<and> pkeys q = map PStr QUANTITY_FIELDS) qs"
proof (induction fs arbitrary: qs)
  case (Cons f fs)
  then obtain here rest where q: "qs = here @ rest" "quantities_of env r fs = Inr rest"
    and h: "here = [] \<or> (\<exists>p q. copy_quantity p = Inr q \<and> here = [(PStr f, q)])"
    by (auto split: if_splits)
  have "list_all (\<lambda>(k, q). (\<exists>f' \<in> set (f # fs). k = PStr f') \<and> pkeys q = map PStr QUANTITY_FIELDS) rest"
    using Cons.IH [OF q(2)] by (rule list.pred_mono_strong) auto
  then show ?case using q(1) h copy_quantity_keys by auto
qed simp

text \<open>
  C20. The projection of an extraction never claims more than its inputs agree on. It is resolved
  only when the record and its raw extraction name no other origin and one of them names that one;
  a positive reading is left open only when neither of them vetoes it and no outcome marker is
  mistyped or flagged; and every projected quantity carries exactly the ten closed fields, under
  a registered field name, so no source text is copied.
\<close>

theorem extraction_projection_agrees:
  assumes "extraction_projection env r = Inr p"
  shows "(pget p ''classification_status'' = PStr ''resolved'' \<longrightarrow>
        (\<exists>x. pget p ''knowledge_origin'' = PStr x \<and> (\<forall>i \<in> set (projection_inputs r). origin_evidence i \<subseteq> {x})
           \<and> (\<exists>i \<in> set (projection_inputs r). origin_evidence i = {x})))
    \<and> (pget p ''classification_status'' \<noteq> PStr ''resolved'' \<longrightarrow> pget p ''knowledge_origin'' = PStr ''Unknown'')
    \<and> (pget p ''positive_interpretation_blocked'' = PBool False \<longrightarrow>
        (\<forall>i \<in> set (projection_inputs r). \<not> outcome_conflicts_with_positive i \<and> \<not> mistyped is_str outcome_fields i
           \<and> \<not> mistyped is_bool bool_fields i))
    \<and> list_all (\<lambda>(k, q). (\<exists>f \<in> set FIELD_UNITS. k = PStr (fst f)) \<and> pkeys q = map PStr QUANTITY_FIELDS)
        (members_of (pget p ''quantities''))"
proof -
  let ?is = "projection_inputs r"
  obtain qs where qs: "quantities_of env r (map fst FIELD_UNITS) = Inr qs" and p: "p = projection_result ?is qs"
    using assms by (auto simp: extraction_projection_def Let_def split: if_splits)
  have origin: "\<exists>x. pget p ''knowledge_origin'' = PStr x \<and> (\<forall>i \<in> set ?is. origin_evidence i \<subseteq> {x}) \<and> (\<exists>i \<in> set ?is. origin_evidence i = {x})"
    if "pget p ''classification_status'' = PStr ''resolved''"
  proof -
    have nc: "\<not> projection_conflicted ?is" and ne: "projected_origins ?is \<noteq> []"
      using that by (auto simp: p projection_fields split: if_splits)
    then obtain x xs where x: "projected_origins ?is = x # xs" by (meson neq_Nil_conv)
    then show ?thesis
      using unconflicted_origins [OF nc x] nc by (intro exI [of _ x]) (simp add: p projection_fields)
  qed
  have unknown: "pget p ''knowledge_origin'' = PStr ''Unknown''" if "pget p ''classification_status'' \<noteq> PStr ''resolved''"
    using that by (auto simp: p projection_fields split: if_splits)
  have open_reading: "\<not> outcome_conflicts_with_positive i \<and> \<not> mistyped is_str outcome_fields i \<and> \<not> mistyped is_bool bool_fields i"
    if "pget p ''positive_interpretation_blocked'' = PBool False" "i \<in> set ?is" for i
    using that by (auto simp: p projection_fields malformed_outcome_def list_ex_iff)
  have quantities: "list_all (\<lambda>(k, q). (\<exists>f \<in> set FIELD_UNITS. k = PStr (fst f)) \<and> pkeys q = map PStr QUANTITY_FIELDS)
        (members_of (pget p ''quantities''))"
    using quantities_closed [OF qs] by (auto simp: p projection_fields list_all_iff)
  show ?thesis using origin unknown open_reading quantities by blast
qed


theorem extraction_projection_agrees_witness:
  "\<exists>p. extraction_projection demo_env (PDict [(PStr ''method'', PStr ''resistivity'')]) = Inr p
     \<and> (\<exists>x. pget p ''knowledge_origin'' = PStr x \<and> origin_evidence (PDict [(PStr ''method'', PStr ''resistivity'')]) = {x})"
proof -
  let ?r = "PDict [(PStr ''method'', PStr ''resistivity'')]"
  let ?p = "projection_result [?r] []"
  have c: "knowledge_origin (classify_result ?r) = ''Observed''" "classification_status (classify_result ?r) = ''resolved''"
    "source_role (classify_result ?r) = ''unknown''" by code_simp+
  have "input_record_sha256 demo_env ?r = Inr (replicate 64 (CHR ''0''))" by code_simp
  moreover have "quantities_of demo_env ?r (map fst FIELD_UNITS) = Inr []"
    by (simp add: FIELD_UNITS_def demo_env_def field_proposal_def pindex_def)
  moreover have "\<exists>b. canonical (ce_float demo_env) ?p = Inr b \<and> int (length b) \<le> 16384"
  proof -
    have p: "?p = PDict [(PStr ''version'', PStr ''rag-result-projection/1.0.0''), (PStr ''quantities'', PDict []),
        (PStr ''knowledge_origin'', PStr ''Observed''), (PStr ''source_role'', PStr ''unknown''),
        (PStr ''classification_status'', PStr ''resolved''), (PStr ''positive_interpretation_blocked'', PBool False)]"
      (is "_ = PDict ?kvs")
      using c by (simp add: projection_result_def Let_def projected_origins_def projected_roles_def projection_conflicted_def
        malformed_outcome_def mistyped_def flag_in_def outcome_conflicts_with_positive_def nonpositive_marker_def
        PROJECTION_VERSION_def list_ex_iff bool_fields_def)
    have "\<exists>t. json_text (ce_float demo_env) (PDict ?kvs) = Inr t \<and> length t \<le> 2 + length ?kvs * (130 + 1)"
    proof (rule json_text_dict_bounded)
      have short: "length (json_string s) \<le> 64" if "list_all (\<lambda>c. 32 \<le> char_nat c) s" "length s \<le> 31" for s
        using json_string_printable [OF that(1)] that(2) by simp
      have all: "\<forall>s \<in> set [''version'', ''rag-result-projection/1.0.0'', ''quantities'', ''knowledge_origin'', ''Observed'',
          ''source_role'', ''unknown'', ''classification_status'', ''resolved'', ''positive_interpretation_blocked''].
          length (json_string s) \<le> 64"
        by (simp add: short char_nat_def)
      show "\<forall>(k, v) \<in> set ?kvs. is_str k \<and> (\<exists>t. json_text (ce_float demo_env) v = Inr t
          \<and> length (json_string (str_of k)) + 1 + length t \<le> 130)"
        using all by simp
    qed
    moreover have "scan_limits 0 [(PDict ?kvs, 0)] = Inr ()" by (simp add: scan_limits.simps)
    ultimately show ?thesis unfolding p by (auto simp: canonical_def MAX_INPUT_BYTES_def)
  qed
  ultimately have e: "extraction_projection demo_env ?r = Inr ?p"
    by (force simp: extraction_projection_def projection_inputs_def Let_def MAX_PROJECTION_BYTES_def)
  have st: "pget ?p ''classification_status'' = PStr ''resolved''"
    using c by (simp add: projection_fields projection_conflicted_def projected_origins_def mistyped_def flag_in_def list_ex_iff)
  have "set (projection_inputs ?r) = {?r}" by (simp add: projection_inputs_def)
  then have "\<exists>x. pget ?p ''knowledge_origin'' = PStr x \<and> origin_evidence ?r = {x}"
    using extraction_projection_agrees [OF e, THEN conjunct1] st by auto
  then show ?thesis using e by simp
qed

end
