(* ===== verification/Chunker.thy ===== *)
theory Chunker
  imports Evidence_Contract
begin

text \<open>
  Section-aware chunking with a token bound (\<open>ingestion/ingestion/chunk/chunker.py\<close>).

  The tokenizer is a parameter \<open>ct\<close> (\<open>count_tokens\<close>) with \<open>mtb\<close>, the longest token in bytes;
  nothing is assumed about \<open>ct\<close> in the definitions, in particular not that it is monotone or
  additive. Positions are characters of the section text. The two search loops and the window
  loop are total functions: their measures are the distance to the end of the text.
\<close>

section \<open>Limits\<close>

definition MIN_CHUNK_TOKENS :: int where "MIN_CHUNK_TOKENS = 64"

definition CHUNKER_VERSION :: string where "CHUNKER_VERSION = ''sclib-section-chunker/2.0.0''"

definition TRUNCATION_MARKER :: string where "TRUNCATION_MARKER = '' [truncated]''"

datatype chunk_error =
    LimitTooSmall | BadOverlap | BudgetExceeded | PrefixTooLong | SectionTooLong | NextCharacterTooLarge | BadTailCount

type_synonym tokenizer = "string \<Rightarrow> nat"

definition validate_limit :: "int \<Rightarrow> (chunk_error, unit) res" where
  "validate_limit max_tokens = guard (MIN_CHUNK_TOKENS \<le> max_tokens) LimitTooSmall"

definition validate_chunk_settings :: "int \<Rightarrow> int \<Rightarrow> (chunk_error, unit) res" where
  "validate_chunk_settings sz overlap =
     rbind (validate_limit sz) (\<lambda>_. guard (0 \<le> overlap \<and> overlap < sz) BadOverlap)"

definition fits_token_budget :: "tokenizer \<Rightarrow> string \<Rightarrow> int \<Rightarrow> (chunk_error, bool) res" where
  "fits_token_budget ct text max_tokens =
     rbind (validate_limit max_tokens) (\<lambda>_. Inr (int (ct text) \<le> max_tokens))"

definition require_token_budget :: "tokenizer \<Rightarrow> string \<Rightarrow> int \<Rightarrow> (chunk_error, nat) res" where
  "require_token_budget ct text max_tokens =
     rbind (validate_limit max_tokens) (\<lambda>_.
     rbind (guard (int (ct text) \<le> max_tokens) BudgetExceeded) (\<lambda>_. Inr (ct text)))"

section \<open>Searching a fitting prefix\<close>

text \<open>The binary search of the second loop.\<close>

function bisect :: "(nat \<Rightarrow> bool) \<Rightarrow> nat \<Rightarrow> nat \<Rightarrow> nat" where
  "bisect fits low high =
     (if low + 1 < high
      then (let middle = (low + high) div 2
            in if fits middle then bisect fits middle high else bisect fits low middle)
      else low)"
  by auto
termination
  by (relation "measure (\<lambda>(fits, low, high). high - low)") auto

declare bisect.simps [simp del]

text \<open>
  The doubling look-ahead of the first loop. \<open>high\<close> is positive and at most \<open>stop\<close> whenever
  the loop runs; the last disjunct of the exit test only makes the function total.
\<close>

function grow :: "(nat \<Rightarrow> bool) \<Rightarrow> nat \<Rightarrow> nat \<Rightarrow> nat \<Rightarrow> nat" where
  "grow fits stop low high =
     (if fits high
      then (if high = stop \<or> high = 0 \<or> stop < high then high
            else grow fits stop high (min stop (high * 2)))
      else bisect fits low high)"
  by auto
termination
  by (relation "measure (\<lambda>(fits, stop, low, high). stop - high)") auto

declare grow.simps [simp del]

definition fitting_prefix_end :: "nat \<Rightarrow> (nat \<Rightarrow> bool) \<Rightarrow> nat" where
  "fitting_prefix_end stop fits = (if stop = 0 then 0 else grow fits stop 0 (min 64 stop))"

lemma bisect_bounds: "low \<le> bisect fits low high \<and> (bisect fits low high \<le> max low high)"
proof (induction fits low high rule: bisect.induct)
  case (1 fits low high)
  show ?case
  proof (cases "low + 1 < high")
    case True
    then show ?thesis using "1.IH" [OF True refl] by (subst (1 2) bisect.simps) (auto simp: Let_def)
  qed (subst (1 2) bisect.simps, simp)
qed

lemma bisect_fits: "fits low \<or> low = 0 \<Longrightarrow> fits (bisect fits low high) \<or> bisect fits low high = 0"
proof (induction fits low high rule: bisect.induct)
  case (1 fits low high)
  show ?case
  proof (cases "low + 1 < high")
    case True
    then show ?thesis using "1.IH" [OF True refl] "1.prems"
      by (subst (1 2) bisect.simps) (simp add: Let_def)
  qed (use "1.prems" in \<open>subst (1 2) bisect.simps, simp\<close>)
qed

lemma bisect_next_fails: "low < high \<Longrightarrow> \<not> fits high \<Longrightarrow> \<not> fits (bisect fits low high + 1)"
proof (induction fits low high rule: bisect.induct)
  case (1 fits low high)
  show ?case
  proof (cases "low + 1 < high")
    case True
    then have "(low + high) div 2 < high" "low < (low + high) div 2" by auto
    then show ?thesis using "1.IH" [OF True refl] "1.prems" True
      by (subst bisect.simps) (simp add: Let_def)
  next
    case False
    then have "high = low + 1" using "1.prems" by simp
    then show ?thesis using "1.prems" by (subst bisect.simps) simp
  qed
qed

lemma grow_bounds: "low \<le> stop \<Longrightarrow> high \<le> stop \<Longrightarrow> grow fits stop low high \<le> stop"
proof (induction fits stop low high rule: grow.induct)
  case (1 fits stop low high)
  then show ?case using bisect_bounds [of low fits high]
    by (subst grow.simps) (auto simp: max_def split: if_splits)
qed

lemma grow_fits: "fits low \<or> low = 0 \<Longrightarrow> fits (grow fits stop low high) \<or> grow fits stop low high = 0"
proof (induction fits stop low high rule: grow.induct)
  case (1 fits stop low high)
  then show ?case using bisect_fits [of fits low high] by (subst (1 2) grow.simps) auto
qed

lemma grow_next_fails:
  "low < high \<Longrightarrow> high \<le> stop \<Longrightarrow> grow fits stop low high = stop \<or> \<not> fits (grow fits stop low high + 1)"
proof (induction fits stop low high rule: grow.induct)
  case (1 fits stop low high)
  show ?case
  proof (cases "fits high \<and> high \<noteq> stop")
    case True
    then show ?thesis using 1 by (subst (1 2) grow.simps) auto
  next
    case False
    then show ?thesis using "1.prems" bisect_next_fails [of low high fits] by (subst (1 2) grow.simps) auto
  qed
qed

lemma fitting_prefix_end_le: "fitting_prefix_end stop fits \<le> stop"
  using grow_bounds [of 0 stop "min 64 stop" fits] by (simp add: fitting_prefix_end_def)

lemma fitting_prefix_end_fits: "fitting_prefix_end stop fits \<noteq> 0 \<Longrightarrow> fits (fitting_prefix_end stop fits)"
  using grow_fits [of fits 0 stop "min 64 stop"] by (auto simp: fitting_prefix_end_def split: if_splits)

lemma fitting_prefix_end_next:
  "fitting_prefix_end stop fits = stop \<or> \<not> fits (fitting_prefix_end stop fits + 1)"
  using grow_next_fails [of 0 "min 64 stop" stop fits] by (auto simp: fitting_prefix_end_def)

section \<open>The disclosed metadata prefix\<close>

definition bounded_metadata :: "tokenizer \<Rightarrow> nat \<Rightarrow> string \<Rightarrow> int \<Rightarrow> string" where
  "bounded_metadata ct mtb value token_limit =
     (if int (ct value) \<le> token_limit then value
      else (let stop = min (length value) (nat token_limit * mtb);
                e = fitting_prefix_end stop (\<lambda>e. int (ct (take e value @ TRUNCATION_MARKER)) \<le> token_limit)
            in take e value @ TRUNCATION_MARKER))"

definition render_prefix :: "string \<Rightarrow> string \<Rightarrow> string" where
  "render_prefix first second =
     ''Title: '' @ first @ [CHR 0x0A] @ ''Section: '' @ second @ [CHR 0x0A, CHR 0x0A]"

function prefix_loop :: "tokenizer \<Rightarrow> nat \<Rightarrow> string \<Rightarrow> string \<Rightarrow> int \<Rightarrow> int \<Rightarrow> int \<Rightarrow> (chunk_error, string) res" where
  "prefix_loop ct mtb title section_name prefix_limit marker_tokens field_limit =
     (if marker_tokens \<le> field_limit
      then (let p = render_prefix (bounded_metadata ct mtb title field_limit) (bounded_metadata ct mtb section_name field_limit)
            in if int (ct p) \<le> prefix_limit then Inr p
               else prefix_loop ct mtb title section_name prefix_limit marker_tokens (field_limit - 1))
      else Inl PrefixTooLong)"
  by auto
termination
  by (relation "measure (\<lambda>(ct, mtb, title, section_name, prefix_limit, marker_tokens, field_limit). nat (field_limit - marker_tokens + 1))") auto

declare prefix_loop.simps [simp del]

definition build_bounded_prefix :: "tokenizer \<Rightarrow> nat \<Rightarrow> string \<Rightarrow> string \<Rightarrow> int \<Rightarrow> (chunk_error, string) res" where
  "build_bounded_prefix ct mtb title section_name max_tokens =
     rbind (validate_limit max_tokens) (\<lambda>_.
       let prefix_limit = min 128 (max_tokens div 2);
           original = render_prefix title section_name;
           marker_tokens = int (ct TRUNCATION_MARKER)
       in if int (ct original) \<le> prefix_limit then Inr original
          else prefix_loop ct mtb title section_name prefix_limit marker_tokens
                 (max marker_tokens ((prefix_limit - int (ct (render_prefix [] []))) div 2)))"

lemma prefix_loop_bound: "prefix_loop ct mtb t sn pl mk fl = Inr p \<Longrightarrow> int (ct p) \<le> pl"
proof (induction ct mtb t sn pl mk fl rule: prefix_loop.induct)
  case (1 ct mtb t sn pl mk fl)
  show ?case
  proof (cases "mk \<le> fl")
    case True
    let ?p = "render_prefix (bounded_metadata ct mtb t fl) (bounded_metadata ct mtb sn fl)"
    show ?thesis
    proof (cases "int (ct ?p) \<le> pl")
      case fit: True
      then have "p = ?p" using "1.prems" True by (subst (asm) prefix_loop.simps) simp
      then show ?thesis using fit by simp
    next
      case False
      then have "prefix_loop ct mtb t sn pl mk (fl - 1) = Inr p"
        using "1.prems" True by (subst (asm) prefix_loop.simps) simp
      then show ?thesis using "1.IH" [OF True refl] False by blast
    qed
  next
    case False
    then show ?thesis using "1.prems" by (subst (asm) prefix_loop.simps) simp
  qed
qed

section \<open>Windows over one section\<close>

text \<open>\<open>text[a:b]\<close> for \<open>a \<le> b\<close>.\<close>

definition slice :: "string \<Rightarrow> nat \<Rightarrow> nat \<Rightarrow> string" where
  "slice text a b = take (b - a) (drop a text)"

definition tail_by_tokens :: "tokenizer \<Rightarrow> nat \<Rightarrow> string \<Rightarrow> int \<Rightarrow> (chunk_error, string) res" where
  "tail_by_tokens ct mtb text n_tokens =
     rbind (guard (0 \<le> n_tokens) BadTailCount) (\<lambda>_.
       if n_tokens = 0 then Inr []
       else (let stop = min (length text) (nat n_tokens * mtb);
                 len = fitting_prefix_end stop (\<lambda>len. int (ct (drop (length text - len) text)) \<le> n_tokens)
             in Inr (drop (length text - len) text)))"

text \<open>
  \<open>_BOUNDARY.finditer\<close>: a blank line, a sentence mark followed by white space or the end of
  the searched range, or a line break. \<open>match_boundary\<close> is the length of the match at the
  start of the text, \<open>boundary_ends\<close> the ends of all matches, left to right. (The CJK marks
  of the source pattern are outside the ASCII strings of the model.)
\<close>

definition match_boundary :: "string \<Rightarrow> nat option" where
  "match_boundary s =
     (case s of
        [] \<Rightarrow> None
      | c # cs \<Rightarrow>
          if c = CHR 0x0A
          then (let n = length (takeWhile (\<lambda>x. x = CHR 0x20 \<or> x = CHR 0x09) cs)
                in if n < length cs \<and> cs ! n = CHR 0x0A then Some (n + 2) else Some 1)
          else if c \<in> {CHR ''.'', CHR ''!'', CHR ''?''}
          then (let n = length (takeWhile is_space cs)
                in if 0 < n then Some (n + 1) else if cs = [] then Some 1 else None)
          else None)"

lemma match_boundary_bounds: "match_boundary s = Some n \<Longrightarrow> 0 < n \<and> n \<le> length s"
proof -
  assume a: "match_boundary s = Some n"
  then obtain c cs where s: "s = c # cs" by (cases s) (auto simp: match_boundary_def)
  show ?thesis using a s length_takeWhile_le [of is_space cs]
    by (auto simp: match_boundary_def Let_def split: if_splits)
qed

function boundary_ends :: "nat \<Rightarrow> string \<Rightarrow> nat list" where
  "boundary_ends pos s =
     (if s = [] then []
      else case match_boundary s of
          Some n \<Rightarrow> (pos + n) # boundary_ends (pos + n) (drop n s)
        | None \<Rightarrow> boundary_ends (pos + 1) (tl s))"
  by auto
termination
  by (relation "measure (\<lambda>(pos, s). length s)") (auto dest: match_boundary_bounds)

declare boundary_ends.simps [simp del]

lemma boundary_ends_le: "e \<in> set (boundary_ends pos s) \<Longrightarrow> e \<le> pos + length s"
proof (induction pos s rule: boundary_ends.induct)
  case (1 pos s)
  show ?case
  proof (cases "s = []")
    case False
    show ?thesis
    proof (cases "match_boundary s")
      case None
      then have "e \<in> set (boundary_ends (pos + 1) (tl s))"
        using "1.prems" False by (subst (asm) boundary_ends.simps) simp
      then show ?thesis using "1.IH"(1) [OF False None] False by (cases s) auto
    next
      case (Some n)
      then have "e = pos + n \<or> e \<in> set (boundary_ends (pos + n) (drop n s))"
        using "1.prems" False by (subst (asm) boundary_ends.simps) simp
      then show ?thesis using "1.IH"(2) [OF False Some] match_boundary_bounds [OF Some] by auto
    qed
  qed (use "1.prems" in \<open>subst (asm) boundary_ends.simps, simp\<close>)
qed

type_synonym window = "nat \<times> nat"

definition prefer_boundary :: "tokenizer \<Rightarrow> string \<Rightarrow> string \<Rightarrow> int \<Rightarrow> nat \<Rightarrow> nat \<Rightarrow> nat \<Rightarrow> nat \<Rightarrow> nat" where
  "prefer_boundary ct prefix text sz start len minimum_end end0 =
     (if end0 < length text
      then (let pos = start + len div 2
            in case find (\<lambda>m. minimum_end \<le> m \<and> int (ct (prefix @ slice text start m)) \<le> sz)
                      (rev (boundary_ends pos (slice text pos end0))) of
                 Some m \<Rightarrow> m
               | None \<Rightarrow> end0)
      else end0)"

lemma prefer_boundary_props:
  assumes "start + len \<le> end0" and "minimum_end \<le> end0" and "int (ct (prefix @ slice text start end0)) \<le> sz"
  shows "minimum_end \<le> prefer_boundary ct prefix text sz start len minimum_end end0"
    and "prefer_boundary ct prefix text sz start len minimum_end end0 \<le> end0"
    and "int (ct (prefix @ slice text start (prefer_boundary ct prefix text sz start len minimum_end end0))) \<le> sz"
proof -
  let ?pos = "start + len div 2"
  let ?P = "\<lambda>m. minimum_end \<le> m \<and> int (ct (prefix @ slice text start m)) \<le> sz"
  let ?r = "prefer_boundary ct prefix text sz start len minimum_end end0"
  have pos: "?pos \<le> end0" using assms(1) by linarith
  have "?P ?r \<and> ?r \<le> end0"
  proof (cases "end0 < length text")
    case True
    show ?thesis
    proof (cases "find ?P (rev (boundary_ends ?pos (slice text ?pos end0)))")
      case None
      then show ?thesis using True assms(2,3) by (simp add: prefer_boundary_def Let_def)
    next
      case (Some m)
      then have "m \<in> set (boundary_ends ?pos (slice text ?pos end0))" and "?P m"
        using find_SomeD [OF Some] by auto
      moreover from this(1) have "m \<le> end0" using boundary_ends_le pos by (fastforce simp: slice_def)
      moreover have "?r = m" using True Some by (simp add: prefer_boundary_def Let_def)
      ultimately show ?thesis by simp
    qed
  qed (use assms(2,3) in \<open>simp add: prefer_boundary_def\<close>)
  then show "minimum_end \<le> ?r" "?r \<le> end0" "int (ct (prefix @ slice text start ?r)) \<le> sz" by blast+
qed

text \<open>
  The window loop. \<open>prev\<close> is the end of the previous window, if there is one. Each iteration
  ends strictly after the previous one, so the distance from the last end to the end of the
  text decreases.
\<close>

definition minimum_end :: "nat option \<Rightarrow> nat \<Rightarrow> nat" where
  "minimum_end prev start = (case prev of Some e \<Rightarrow> e + 1 | None \<Rightarrow> start + 1)"

definition body_length :: "tokenizer \<Rightarrow> nat \<Rightarrow> string \<Rightarrow> string \<Rightarrow> int \<Rightarrow> nat \<Rightarrow> nat" where
  "body_length ct mtb prefix text sz start =
     fitting_prefix_end (min (length text - start) (nat sz * mtb))
       (\<lambda>n. int (ct (prefix @ slice text start (start + n))) \<le> sz)"

definition window_end :: "tokenizer \<Rightarrow> nat \<Rightarrow> string \<Rightarrow> string \<Rightarrow> int \<Rightarrow> nat option \<Rightarrow> nat \<Rightarrow> (chunk_error, nat) res" where
  "window_end ct mtb prefix text sz prev start =
     (let len = body_length ct mtb prefix text sz start;
          end0 = max (start + len) (minimum_end prev start)
      in if length text < end0 \<or> sz < int (ct (prefix @ slice text start end0)) then Inl NextCharacterTooLarge
         else Inr (prefer_boundary ct prefix text sz start len (minimum_end prev start) end0))"

definition next_start :: "tokenizer \<Rightarrow> string \<Rightarrow> string \<Rightarrow> int \<Rightarrow> int \<Rightarrow> nat \<Rightarrow> nat \<Rightarrow> nat \<Rightarrow> nat" where
  "next_start ct prefix text sz overlap start e tail_len =
     (let ns = max (start + 1) (e - tail_len)
      in if overlap < int (ct (slice text ns e)) \<or> sz < int (ct (prefix @ slice text ns (e + 1))) then e else ns)"

lemma window_end_props:
  assumes "window_end ct mtb prefix text sz prev start = Inr e"
  shows "minimum_end prev start \<le> e" "e \<le> length text" "int (ct (prefix @ slice text start e)) \<le> sz"
proof -
  let ?len = "body_length ct mtb prefix text sz start"
  let ?end0 = "max (start + ?len) (minimum_end prev start)"
  have ok: "?end0 \<le> length text" "int (ct (prefix @ slice text start ?end0)) \<le> sz"
    and e: "e = prefer_boundary ct prefix text sz start ?len (minimum_end prev start) ?end0"
    using assms by (auto simp: window_end_def Let_def split: if_splits)
  note p = prefer_boundary_props [of start ?len ?end0 "minimum_end prev start" ct prefix "text" sz]
  show "minimum_end prev start \<le> e" "e \<le> length text" "int (ct (prefix @ slice text start e)) \<le> sz"
    using p ok unfolding e by (auto intro: le_trans)
qed

function windows_from ::
  "tokenizer \<Rightarrow> nat \<Rightarrow> string \<Rightarrow> string \<Rightarrow> int \<Rightarrow> int \<Rightarrow> nat option \<Rightarrow> nat \<Rightarrow> (chunk_error, window list) res" where
  "windows_from ct mtb prefix text sz overlap prev start =
     (if start < length text
      then (case window_end ct mtb prefix text sz prev start of
              Inl err \<Rightarrow> Inl err
            | Inr e \<Rightarrow>
                if e = length text then Inr [(start, e)]
                else (case tail_by_tokens ct mtb (slice text start e) overlap of
                        Inl err \<Rightarrow> Inl err
                      | Inr t \<Rightarrow>
                          rbind (windows_from ct mtb prefix text sz overlap (Some e)
                                   (next_start ct prefix text sz overlap start e (length t)))
                            (\<lambda>ws. Inr ((start, e) # ws))))
      else Inr [])"
  by auto
termination
proof (relation "measure (\<lambda>(ct, mtb, prefix, text, sz, overlap, prev, start).
    case prev of None \<Rightarrow> length text + 1 | Some e \<Rightarrow> length text - e)", goal_cases)
  case (2 ct mtb prefix tx sz overlap prev start e t)
  then show ?case using window_end_props(1,2) [OF 2(2)] by (auto simp: minimum_end_def split: option.splits)
qed simp

declare windows_from.simps [simp del]

definition section_windows :: "tokenizer \<Rightarrow> nat \<Rightarrow> string \<Rightarrow> string \<Rightarrow> int \<Rightarrow> int \<Rightarrow> (chunk_error, window list) res" where
  "section_windows ct mtb text prefix sz overlap =
     rbind (guard (int (length text) \<le> 1000000000) SectionTooLong) (\<lambda>_. windows_from ct mtb prefix text sz overlap None 0)"

section \<open>The windows cover the section\<close>

definition window_ok :: "tokenizer \<Rightarrow> string \<Rightarrow> string \<Rightarrow> int \<Rightarrow> window \<Rightarrow> bool" where
  "window_ok ct prefix text sz w \<longleftrightarrow>
     fst w < snd w \<and> snd w \<le> length text \<and> int (ct (prefix @ slice text (fst w) (snd w))) \<le> sz"

definition window_step :: "tokenizer \<Rightarrow> string \<Rightarrow> int \<Rightarrow> window \<Rightarrow> window \<Rightarrow> bool" where
  "window_step ct text overlap v w \<longleftrightarrow>
     fst v < fst w \<and> fst w \<le> snd v \<and> snd v < snd w \<and>
     (fst w = snd v \<or> int (ct (slice text (fst w) (snd v))) \<le> overlap)"

lemma next_start_props:
  assumes "start < e"
  shows "start < next_start ct prefix text sz overlap start e n" "next_start ct prefix text sz overlap start e n \<le> e"
    "next_start ct prefix text sz overlap start e n = e \<or>
       int (ct (slice text (next_start ct prefix text sz overlap start e n) e)) \<le> overlap \<and>
       int (ct (prefix @ slice text (next_start ct prefix text sz overlap start e n) (e + 1))) \<le> sz"
  using assms by (auto simp: next_start_def Let_def)

definition windows_cover :: "tokenizer \<Rightarrow> string \<Rightarrow> string \<Rightarrow> int \<Rightarrow> int \<Rightarrow> nat \<Rightarrow> window list \<Rightarrow> bool" where
  "windows_cover ct prefix text sz overlap start ws \<longleftrightarrow>
     ws \<noteq> [] \<and> fst (hd ws) = start \<and> snd (last ws) = length text \<and>
     list_all (window_ok ct prefix text sz) ws \<and> successively (window_step ct text overlap) ws"

lemma windows_from_sound:
  assumes "windows_from ct mtb prefix tx sz overlap prev start = Inr ws"
    and "start < length tx" and "start < minimum_end prev start"
  shows "windows_cover ct prefix tx sz overlap start ws \<and> minimum_end prev start \<le> snd (hd ws)"
  using assms
proof (induction ct mtb prefix tx sz overlap prev start arbitrary: ws rule: windows_from.induct)
  case (1 ct mtb prefix tx sz overlap prev start)
  obtain e where e: "window_end ct mtb prefix tx sz prev start = Inr e"
    using "1.prems" by (subst (asm) windows_from.simps) (auto split: sum.splits)
  note we = window_end_props [OF e]
  have ok: "window_ok ct prefix tx sz (start, e)" using we "1.prems"(3) by (simp add: window_ok_def)
  show ?case
  proof (cases "e = length tx")
    case True
    then have "ws = [(start, e)]" using "1.prems" e by (subst (asm) windows_from.simps) simp
    then show ?thesis using True ok we by (simp add: windows_cover_def)
  next
    case False
    then obtain t ws' where t: "tail_by_tokens ct mtb (slice tx start e) overlap = Inr t"
      and ws': "windows_from ct mtb prefix tx sz overlap (Some e) (next_start ct prefix tx sz overlap start e (length t)) = Inr ws'"
      and ws: "ws = (start, e) # ws'"
      using "1.prems" e by (subst (asm) windows_from.simps) (auto split: sum.splits)
    let ?n = "next_start ct prefix tx sz overlap start e (length t)"
    have "start < e" using ok by (simp add: window_ok_def)
    note n = next_start_props [OF this, of ct prefix tx sz overlap "length t"]
    have "windows_cover ct prefix tx sz overlap ?n ws' \<and> minimum_end (Some e) ?n \<le> snd (hd ws')"
      using "1.IH" [OF "1.prems"(2) e False t ws'] n(2) False we(2) by (simp add: minimum_end_def)
    then show ?thesis using ok we n ws
      by (cases ws') (auto simp: windows_cover_def window_step_def minimum_end_def)
  qed
qed

lemma body_length_le: "body_length ct mtb prefix tx sz start \<le> length tx - start"
  using fitting_prefix_end_le [of "min (length tx - start) (nat sz * mtb)"] by (simp add: body_length_def)

lemma body_length_fits:
  "body_length ct mtb prefix tx sz start \<noteq> 0 \<Longrightarrow>
   int (ct (prefix @ slice tx start (start + body_length ct mtb prefix tx sz start))) \<le> sz"
  using fitting_prefix_end_fits unfolding body_length_def by fastforce

lemma window_end_returns:
  assumes "start < minimum_end prev start" and "minimum_end prev start \<le> length tx"
    and "int (ct (prefix @ slice tx start (minimum_end prev start))) \<le> sz"
  shows "\<exists>e. window_end ct mtb prefix tx sz prev start = Inr e"
proof -
  let ?len = "body_length ct mtb prefix tx sz start"
  let ?end0 = "max (start + ?len) (minimum_end prev start)"
  have "?end0 \<le> length tx" using body_length_le [of ct mtb prefix tx sz start] assms by simp
  moreover have "int (ct (prefix @ slice tx start ?end0)) \<le> sz"
    using body_length_fits [of ct mtb prefix tx sz start] assms by (cases "?len = 0") (auto simp: max_def)
  ultimately show ?thesis by (auto simp: window_end_def Let_def not_less)
qed

lemma slice_one: "i < length tx \<Longrightarrow> slice tx i (i + 1) = [tx ! i]"
  by (simp add: slice_def take_Suc_conv_app_nth hd_drop_conv_nth take_Suc)

lemma windows_from_returns:
  assumes "start < minimum_end prev start" and "minimum_end prev start \<le> length tx"
    and "int (ct (prefix @ slice tx start (minimum_end prev start))) \<le> sz"
    and "0 \<le> overlap" and "\<forall>c \<in> set tx. int (ct (prefix @ [c])) \<le> sz"
  shows "\<exists>ws. windows_from ct mtb prefix tx sz overlap prev start = Inr ws"
  using assms
proof (induction ct mtb prefix tx sz overlap prev start rule: windows_from.induct)
  case (1 ct mtb prefix tx sz overlap prev start)
  from window_end_returns [where ct = ct and prefix = prefix and sz = sz and tx = tx, OF "1.prems"(1-3)] obtain e where e: "window_end ct mtb prefix tx sz prev start = Inr e" by blast
  note we = window_end_props [OF e]
  have lt: "start < length tx" using "1.prems"(1,2) by simp
  show ?case
  proof (cases "e = length tx")
    case True
    then show ?thesis using e lt by (subst windows_from.simps) simp
  next
    case False
    obtain t where t: "tail_by_tokens ct mtb (slice tx start e) overlap = Inr t"
      using "1.prems"(4) by (cases "overlap = 0") (auto simp: tail_by_tokens_def Let_def)
    let ?n = "next_start ct prefix tx sz overlap start e (length t)"
    have se: "start < e" using we(1) "1.prems"(1) by simp
    note n = next_start_props [OF se, of ct prefix tx sz overlap "length t"]
    have "int (ct (prefix @ slice tx ?n (minimum_end (Some e) ?n))) \<le> sz"
    proof (cases "?n = e")
      case True
      then show ?thesis using False we(2) slice_one [of e tx] "1.prems"(5) by (simp add: minimum_end_def)
    qed (use n(3) in \<open>simp add: minimum_end_def\<close>)
    then have "\<exists>ws. windows_from ct mtb prefix tx sz overlap (Some e) ?n = Inr ws"
      using "1.IH" [OF lt e False t] n(2) False we(2) "1.prems"(4,5) by (simp add: minimum_end_def)
    then show ?thesis using e lt False t by (subst windows_from.simps) auto
  qed
qed

text \<open>The section text can be put together again from the windows and their bodies.\<close>

fun rebuild :: "nat \<Rightarrow> (window \<times> string) list \<Rightarrow> string" where
  "rebuild p [] = []"
| "rebuild p ((w, body) # rest) = drop (p - fst w) body @ rebuild (snd w) rest"

lemma rebuild_windows:
  assumes "windows_cover ct prefix tx sz overlap start ws" and "start \<le> p" and "p \<le> snd (hd ws)"
  shows "rebuild p (map (\<lambda>w. (w, slice tx (fst w) (snd w))) ws) = drop p tx"
  using assms
proof (induction ws arbitrary: start p)
  case (Cons w ws)
  have w: "fst w = start" "start < snd w" "snd w \<le> length tx"
    using Cons.prems by (auto simp: windows_cover_def window_ok_def)
  have first: "drop (p - start) (slice tx start (snd w)) = take (snd w - p) (drop p tx)"
    using Cons.prems(2) w by (simp add: slice_def drop_take)
  show ?case
  proof (cases ws)
    case Nil
    then have "snd w = length tx" using Cons.prems(1) by (simp add: windows_cover_def)
    then show ?thesis using Nil first w by simp
  next
    case (Cons v vs)
    have step: "window_step ct tx overlap w v" and cov: "windows_cover ct prefix tx sz overlap (fst v) ws"
      using Cons.prems(1) Cons by (auto simp: windows_cover_def)
    have "rebuild (snd w) (map (\<lambda>w. (w, slice tx (fst w) (snd w))) ws) = drop (snd w) tx"
      using Cons.IH [OF cov] step Cons by (simp add: window_step_def)
    moreover have "take (snd w - p) (drop p tx) @ drop (snd w) tx = drop p tx"
      using Cons.prems(3) by (metis append_take_drop_id drop_drop le_add_diff_inverse2 list.sel(1))
    ultimately show ?thesis using first w by simp
  qed
qed (simp add: windows_cover_def)

section \<open>Chunks of a paper\<close>

record chunk_settings =
  cs_count :: tokenizer
  cs_token_bytes :: nat
  chunk_size_tokens :: int
  chunk_overlap_tokens :: int

record paper_section =
  sec_name :: string
  sec_text :: string
  sec_has_equation :: bool
  sec_has_table :: bool

record parsed_paper =
  title :: string
  paper_id :: string
  abstract :: string
  sections :: "paper_section list"
  abstract_override :: "string option"
  parser_version :: "string option"

record chunk =
  chunk_id :: string
  chunk_index :: nat
  chunk_section :: string
  chunk_text :: string
  token_count :: nat
  has_equation :: bool
  has_table :: bool
  chunk_parser_version :: "string option"
  evidence_candidate :: pyval

definition representable_label :: "string \<Rightarrow> bool" where
  "representable_label name \<longleftrightarrow> py_strip name \<noteq> [] \<and> length name \<le> 300 \<and> list_all (\<lambda>c. 32 \<le> char_nat c) name"

definition original_evidence_candidate :: "string \<Rightarrow> string \<Rightarrow> string \<Rightarrow> nat \<Rightarrow> nat \<Rightarrow> pyval" where
  "original_evidence_candidate kind name path char_start char_end =
     PDict [(PStr ''version'', PStr EVIDENCE_VERSION), (PStr ''chunk_kind'', PStr kind),
       (PStr ''parent_record'', PNone), (PStr ''extraction_version'', PNone),
       (PStr ''rendering_version'', PStr CHUNKER_VERSION), (PStr ''source_capture_id'', PNone),
       (PStr ''source_locator'', PDict ([(PStr ''section_path'', PStr path), (PStr ''char_start'', PInt (int char_start)),
          (PStr ''char_end'', PInt (int char_end))] @ (if representable_label name then [(PStr ''section'', PStr name)] else []))),
       (PStr ''unresolved_reason'', PStr ''original_binding_unreviewed''),
       (PStr ''permission_status'', PStr ''unresolved'')]"

text \<open>\<open>f"{index:03d}"\<close>\<close>

definition pad3 :: "nat \<Rightarrow> string" where
  "pad3 n = (let ds = nat_digits n in replicate (3 - length ds) (CHR ''0'') @ ds)"

definition section_path :: "nat \<Rightarrow> string" where
  "section_path i = ''sections/'' @ nat_digits i"

definition chunk_of ::
  "chunk_settings \<Rightarrow> parsed_paper \<Rightarrow> paper_section \<Rightarrow> string \<Rightarrow> string \<Rightarrow> string \<Rightarrow> nat \<Rightarrow> window \<Rightarrow> (chunk_error, chunk) res" where
  "chunk_of cfg paper sec kind path prefix index w =
     (let body = prefix @ slice (sec_text sec) (fst w) (snd w)
      in rbind (require_token_budget (cs_count cfg) body (chunk_size_tokens cfg)) (\<lambda>n.
         Inr \<lparr>chunk_id = paper_id paper @ ''_chunk_'' @ pad3 index, chunk_index = index, chunk_section = sec_name sec,
              chunk_text = body, token_count = n, has_equation = sec_has_equation sec, has_table = sec_has_table sec,
              chunk_parser_version = (if path = ''metadata/abstract'' then Some ''sclib-metadata-abstract/1.0.0''
                                      else parser_version paper),
              evidence_candidate = original_evidence_candidate kind (sec_name sec) path (fst w) (snd w)\<rparr>))"

fun append_windows ::
  "chunk_settings \<Rightarrow> parsed_paper \<Rightarrow> paper_section \<Rightarrow> string \<Rightarrow> string \<Rightarrow> string \<Rightarrow> chunk list \<Rightarrow> window list
     \<Rightarrow> (chunk_error, chunk list) res" where
  "append_windows cfg paper sec kind path prefix out [] = Inr out"
| "append_windows cfg paper sec kind path prefix out (w # ws) =
     rbind (chunk_of cfg paper sec kind path prefix (length out) w)
       (\<lambda>c. append_windows cfg paper sec kind path prefix (out @ [c]) ws)"

definition append_section ::
  "chunk_settings \<Rightarrow> parsed_paper \<Rightarrow> paper_section \<Rightarrow> string \<Rightarrow> string \<Rightarrow> chunk list \<Rightarrow> (chunk_error, chunk list) res" where
  "append_section cfg paper sec kind path out =
     rbind (build_bounded_prefix (cs_count cfg) (cs_token_bytes cfg) (title paper) (sec_name sec) (chunk_size_tokens cfg)) (\<lambda>prefix.
     rbind (section_windows (cs_count cfg) (cs_token_bytes cfg) (sec_text sec) prefix
              (chunk_size_tokens cfg) (chunk_overlap_tokens cfg)) (\<lambda>ws.
       append_windows cfg paper sec kind path prefix out ws))"

fun append_sections ::
  "chunk_settings \<Rightarrow> parsed_paper \<Rightarrow> nat \<Rightarrow> paper_section list \<Rightarrow> chunk list \<Rightarrow> (chunk_error, chunk list) res" where
  "append_sections cfg paper i [] out = Inr out"
| "append_sections cfg paper i (sec # secs) out =
     rbind (if sec_text sec \<noteq> [] then append_section cfg paper sec ''original_passage'' (section_path i) out else Inr out)
       (append_sections cfg paper (Suc i) secs)"

text \<open>The fallback when no section has text: the abstract, under the path it came from.\<close>

definition abstract_text :: "parsed_paper \<Rightarrow> string" where
  "abstract_text paper =
     (if abstract paper \<noteq> [] then abstract paper
      else case abstract_override paper of Some a \<Rightarrow> a | None \<Rightarrow> [])"

definition abstract_path :: "parsed_paper \<Rightarrow> string" where
  "abstract_path paper = (if abstract paper \<noteq> [] then ''metadata/abstract'' else ''abstract_override'')"

definition abstract_section :: "parsed_paper \<Rightarrow> paper_section" where
  "abstract_section paper =
     \<lparr>sec_name = ''Abstract'', sec_text = abstract_text paper, sec_has_equation = False, sec_has_table = False\<rparr>"

definition chunk_paper :: "chunk_settings \<Rightarrow> parsed_paper \<Rightarrow> (chunk_error, chunk list) res" where
  "chunk_paper cfg paper =
     rbind (validate_chunk_settings (chunk_size_tokens cfg) (chunk_overlap_tokens cfg)) (\<lambda>_.
     rbind (append_sections cfg paper 0 (sections paper) []) (\<lambda>out.
       if out \<noteq> [] \<or> abstract_text paper = [] then Inr out
       else append_section cfg paper (abstract_section paper) ''abstract'' (abstract_path paper) out))"

section \<open>Chunks keep their sections\<close>

definition locator :: "chunk \<Rightarrow> string \<Rightarrow> pyval" where
  "locator c k = pget (pget (evidence_candidate c) ''source_locator'') k"

definition chunk_window :: "chunk \<Rightarrow> window" where
  "chunk_window c = (nat (int_of (locator c ''char_start'')), nat (int_of (locator c ''char_end'')))"

definition chunk_ok :: "chunk_settings \<Rightarrow> parsed_paper \<Rightarrow> nat \<Rightarrow> chunk \<Rightarrow> bool" where
  "chunk_ok cfg paper i c \<longleftrightarrow>
     chunk_index c = i \<and> chunk_id c = paper_id paper @ ''_chunk_'' @ pad3 i \<and>
     token_count c = cs_count cfg (chunk_text c) \<and> int (token_count c) \<le> chunk_size_tokens cfg"

definition chunks_at :: "string \<Rightarrow> chunk list \<Rightarrow> chunk list" where
  "chunks_at path out = filter (\<lambda>c. locator c ''section_path'' = PStr path) out"

text \<open>The chunks \<open>cs\<close> start with the disclosed prefix and give back the section text.\<close>

definition recovers :: "chunk_settings \<Rightarrow> parsed_paper \<Rightarrow> paper_section \<Rightarrow> chunk list \<Rightarrow> bool" where
  "recovers cfg paper sec cs \<longleftrightarrow>
     (\<exists>prefix. build_bounded_prefix (cs_count cfg) (cs_token_bytes cfg) (title paper) (sec_name sec) (chunk_size_tokens cfg) = Inr prefix \<and>
        list_all (\<lambda>c. take (length prefix) (chunk_text c) = prefix) cs \<and>
        rebuild 0 (map (\<lambda>c. (chunk_window c, drop (length prefix) (chunk_text c))) cs) = sec_text sec)"

lemma pad3_inj: "pad3 m = pad3 n \<longleftrightarrow> m = n"
proof
  assume "pad3 m = pad3 n"
  then have "digits_value (pad3 m) = digits_value (pad3 n)" by simp
  then show "m = n" by (simp add: pad3_def Let_def digits_value_zeros)
qed simp

lemma section_path_inj: "section_path i = section_path j \<longleftrightarrow> i = j"
  by (simp add: section_path_def)

lemma chunk_of_Inr:
  assumes "chunk_of cfg paper sec kind path prefix i w = Inr c"
  shows "chunk_ok cfg paper i c" "locator c ''section_path'' = PStr path" "chunk_window c = w"
    "chunk_text c = prefix @ slice (sec_text sec) (fst w) (snd w)"
  using assms
  by (auto simp: chunk_of_def Let_def chunk_ok_def require_token_budget_def locator_def chunk_window_def
      original_evidence_candidate_def)

lemma append_windows_Inr:
  "append_windows cfg paper sec kind path prefix out ws = Inr out' \<Longrightarrow>
   \<exists>cs. out' = out @ cs \<and> list_all2 (\<lambda>(i, w) c. chunk_of cfg paper sec kind path prefix i w = Inr c) (enumerate (length out) ws) cs"
proof (induction ws arbitrary: out)
  case (Cons w ws)
  then obtain c where c: "chunk_of cfg paper sec kind path prefix (length out) w = Inr c"
    and r: "append_windows cfg paper sec kind path prefix (out @ [c]) ws = Inr out'" by auto
  from Cons.IH [OF r] obtain cs where "out' = out @ c # cs"
    and "list_all2 (\<lambda>(i, w) c. chunk_of cfg paper sec kind path prefix i w = Inr c) (enumerate (Suc (length out)) ws) cs"
    by auto
  with c show ?case by (intro exI [of _ "c # cs"]) simp
qed simp

definition indexed :: "chunk_settings \<Rightarrow> parsed_paper \<Rightarrow> chunk list \<Rightarrow> bool" where
  "indexed cfg paper out \<longleftrightarrow> (\<forall>i < length out. chunk_ok cfg paper i (out ! i))"

lemma enumerated_chunks:
  assumes "list_all2 (\<lambda>(i, w) c. chunk_of cfg paper sec kind path prefix i w = Inr c) (enumerate n ws) cs"
  shows "length cs = length ws"
    and "\<forall>i < length cs. chunk_ok cfg paper (n + i) (cs ! i)"
    and "list_all (\<lambda>c. locator c ''section_path'' = PStr path) cs"
    and "map (\<lambda>c. (chunk_window c, chunk_text c)) cs = map (\<lambda>w. (w, prefix @ slice (sec_text sec) (fst w) (snd w))) ws"
  using assms
proof (induction ws arbitrary: n cs)
  case (Cons w ws)
  { case 1 then show ?case using Cons.IH(1) [of "Suc n"] by (auto simp: list_all2_Cons1)
  next
    case 2
    then obtain c cs' where cs: "cs = c # cs'" "chunk_of cfg paper sec kind path prefix n w = Inr c"
      "list_all2 (\<lambda>(i, w) c. chunk_of cfg paper sec kind path prefix i w = Inr c) (enumerate (Suc n) ws) cs'"
      by (auto simp: list_all2_Cons1)
    show ?case
    proof (intro allI impI)
      fix i assume "i < length cs"
      then show "chunk_ok cfg paper (n + i) (cs ! i)"
        using Cons.IH(2) [OF cs(3)] chunk_of_Inr(1) [OF cs(2)] cs(1) by (cases i) auto
    qed
  next
    case 3 then show ?case using Cons.IH(3) [of "Suc n"] by (auto simp: list_all2_Cons1 chunk_of_Inr)
  next
    case 4 then show ?case using Cons.IH(4) [of "Suc n"] by (auto simp: list_all2_Cons1 chunk_of_Inr) }
qed simp_all

lemma append_section_Inr:
  assumes "append_section cfg paper sec kind path out = Inr out'" and "sec_text sec \<noteq> []" and "indexed cfg paper out"
  shows "\<exists>cs. out' = out @ cs \<and> recovers cfg paper sec cs \<and>
    list_all (\<lambda>c. locator c ''section_path'' = PStr path) cs \<and> indexed cfg paper out'"
proof -
  let ?tx = "sec_text sec"
  obtain prefix ws where p: "build_bounded_prefix (cs_count cfg) (cs_token_bytes cfg) (title paper) (sec_name sec) (chunk_size_tokens cfg) = Inr prefix"
    and ws: "windows_from (cs_count cfg) (cs_token_bytes cfg) prefix ?tx (chunk_size_tokens cfg) (chunk_overlap_tokens cfg) None 0 = Inr ws"
    and out': "append_windows cfg paper sec kind path prefix out ws = Inr out'"
    using assms(1) by (auto simp: append_section_def section_windows_def)
  from append_windows_Inr [OF out'] obtain cs where cs: "out' = out @ cs"
    "list_all2 (\<lambda>(i, w) c. chunk_of cfg paper sec kind path prefix i w = Inr c) (enumerate (length out) ws) cs" by blast
  note e = enumerated_chunks [OF cs(2)]
  have cov: "windows_cover (cs_count cfg) prefix ?tx (chunk_size_tokens cfg) (chunk_overlap_tokens cfg) 0 ws"
    using windows_from_sound [OF ws] assms(2) by (simp add: minimum_end_def)
  have parts: "map (\<lambda>c. (chunk_window c, drop (length prefix) (chunk_text c))) cs =
      map (\<lambda>(w, t). (w, drop (length prefix) t)) (map (\<lambda>c. (chunk_window c, chunk_text c)) cs)" by simp
  have "rebuild 0 (map (\<lambda>c. (chunk_window c, drop (length prefix) (chunk_text c))) cs) = ?tx"
    unfolding parts e(4) using rebuild_windows [OF cov, of 0] by (simp add: comp_def)
  moreover have "list_all (\<lambda>c. take (length prefix) (chunk_text c) = prefix) cs"
  proof -
    have "list_all (\<lambda>t. take (length prefix) t = prefix) (map snd (map (\<lambda>c. (chunk_window c, chunk_text c)) cs))"
      unfolding e(4) by (simp add: list_all_iff)
    then show ?thesis by (simp add: list_all_iff)
  qed
  moreover have "indexed cfg paper out'"
    using assms(3) e(2) cs(1) unfolding indexed_def
    by (metis add_diff_inverse_nat add_less_cancel_left length_append nth_append)
  ultimately show ?thesis using cs(1) p e(3) by (auto simp: recovers_def)
qed

lemma append_sections_Inr:
  assumes "append_sections cfg paper i secs out = Inr out'" and "indexed cfg paper out"
  shows "\<exists>cs. out' = out @ cs \<and> indexed cfg paper out' \<and>
    list_all (\<lambda>c. \<exists>k \<ge> i. locator c ''section_path'' = PStr (section_path k)) cs \<and>
    (\<forall>j < length secs. sec_text (secs ! j) \<noteq> [] \<longrightarrow> recovers cfg paper (secs ! j) (chunks_at (section_path (i + j)) cs))"
  using assms
proof (induction secs arbitrary: i out)
  case (Cons sec secs)
  obtain mid cs1 where mid: "mid = out @ cs1" and r: "append_sections cfg paper (Suc i) secs mid = Inr out'"
    and ix: "indexed cfg paper mid" and path: "list_all (\<lambda>c. locator c ''section_path'' = PStr (section_path i)) cs1"
    and rec: "sec_text sec \<noteq> [] \<longrightarrow> recovers cfg paper sec cs1"
  proof (cases "sec_text sec = []")
    case True
    then show thesis using Cons.prems that [of out "[]"] by simp
  next
    case False
    then obtain mid where m: "append_section cfg paper sec ''original_passage'' (section_path i) out = Inr mid"
      and r: "append_sections cfg paper (Suc i) secs mid = Inr out'" using Cons.prems(1) by auto
    from append_section_Inr [OF m False Cons.prems(2)] that r show thesis by blast
  qed
  from Cons.IH [OF r ix] obtain cs2 where cs2: "out' = mid @ cs2" "indexed cfg paper out'"
    "list_all (\<lambda>c. \<exists>k \<ge> Suc i. locator c ''section_path'' = PStr (section_path k)) cs2"
    "\<And>j. j < length secs \<Longrightarrow> sec_text (secs ! j) \<noteq> [] \<Longrightarrow> recovers cfg paper (secs ! j) (chunks_at (section_path (Suc i + j)) cs2)"
    by blast
  have no2: "chunks_at (section_path i) cs2 = []"
    using cs2(3) by (auto simp: chunks_at_def filter_empty_conv list_all_iff section_path_inj)
  have all1: "chunks_at (section_path i) cs1 = cs1" and no1: "k > i \<Longrightarrow> chunks_at (section_path k) cs1 = []" for k
    using path by (auto simp: chunks_at_def filter_empty_conv filter_id_conv list_all_iff section_path_inj)
  have app: "chunks_at q (xs @ ys) = chunks_at q xs @ chunks_at q ys" for q xs ys by (simp add: chunks_at_def)
  have "recovers cfg paper ((sec # secs) ! j) (chunks_at (section_path (i + j)) (cs1 @ cs2))"
    if "j < length (sec # secs)" "sec_text ((sec # secs) ! j) \<noteq> []" for j
    using that rec cs2(4) by (cases j) (auto simp: app no2 all1 no1)
  moreover have "list_all (\<lambda>c. \<exists>k \<ge> i. locator c ''section_path'' = PStr (section_path k)) (cs1 @ cs2)"
    using path cs2(3) unfolding list_all_iff by (metis Suc_leD UnE order_refl set_append)
  ultimately show ?case using mid cs2(1,2) by (intro exI [of _ "cs1 @ cs2"]) simp
qed simp

lemma chunk_paper_sections:
  assumes "chunk_paper cfg paper = Inr out" and "j < length (sections paper)" and "sec_text (sections paper ! j) \<noteq> []"
  shows "append_sections cfg paper 0 (sections paper) [] = Inr out"
proof -
  obtain o1 where o1: "append_sections cfg paper 0 (sections paper) [] = Inr o1"
    using assms(1) by (auto simp: chunk_paper_def)
  have "recovers cfg paper (sections paper ! j) (chunks_at (section_path j) o1)"
    using append_sections_Inr [OF o1] assms(2,3) by (auto simp: indexed_def)
  then have "o1 \<noteq> []" using assms(3) by (auto simp: recovers_def chunks_at_def)
  then show ?thesis using assms(1) o1 by (auto simp: chunk_paper_def)
qed

lemma chunk_paper_index: "chunk_paper cfg paper = Inr out \<Longrightarrow> indexed cfg paper out"
proof -
  assume a: "chunk_paper cfg paper = Inr out"
  then obtain o1 where o1: "append_sections cfg paper 0 (sections paper) [] = Inr o1" by (auto simp: chunk_paper_def)
  have i1: "indexed cfg paper o1" using append_sections_Inr [OF o1] by (auto simp: indexed_def)
  show ?thesis
  proof (cases "out = o1")
    case False
    then have "append_section cfg paper (abstract_section paper) ''abstract'' (abstract_path paper) o1 = Inr out"
      and "sec_text (abstract_section paper) \<noteq> []"
      using a o1 by (auto simp: chunk_paper_def abstract_section_def split: if_splits)
    then show ?thesis using append_section_Inr [OF _ _ i1] by blast
  qed (use i1 in simp)
qed

section \<open>Properties\<close>

text \<open>
  C21. The window loop ends, never drops source text and never exceeds the budget: if every
  single character of the section fits after the prefix, the loop returns windows that start
  at the beginning, end at the end, advance strictly with each start inside or directly after
  the previous window and an overlap within its limit, each fit with the prefix into the token
  budget, and from which the section text is put together again exactly. Nothing is assumed
  about the tokenizer.
\<close>
theorem section_windows_cover:
  assumes "tx \<noteq> []" and "int (length tx) \<le> 1000000000" and "0 \<le> overlap"
    and "\<forall>c \<in> set tx. int (ct (prefix @ [c])) \<le> sz"
  shows "\<exists>ws. section_windows ct mtb tx prefix sz overlap = Inr ws \<and>
     windows_cover ct prefix tx sz overlap 0 ws \<and>
     rebuild 0 (map (\<lambda>w. (w, slice tx (fst w) (snd w))) ws) = tx"
proof -
  have first: "int (ct (prefix @ slice tx 0 (minimum_end None 0))) \<le> sz"
    using assms(1,4) slice_one [of 0 tx] by (simp add: minimum_end_def)
  obtain ws where ws: "windows_from ct mtb prefix tx sz overlap None 0 = Inr ws"
    using windows_from_returns [where ct = ct and prefix = prefix and sz = sz and tx = tx, OF _ _ first assms(3,4)] assms(1)
    by (auto simp: minimum_end_def Suc_le_eq)
  have cov: "windows_cover ct prefix tx sz overlap 0 ws"
    using windows_from_sound [OF ws] assms(1) by (simp add: minimum_end_def)
  with ws rebuild_windows [OF cov, of 0] assms(2) show ?thesis by (simp add: section_windows_def)
qed

theorem section_windows_cover_witness:
  "\<exists>ws. section_windows length 1 ''abc. def ghi'' ''P: '' 7 2 = Inr ws \<and>
     rebuild 0 (map (\<lambda>w. (w, slice ''abc. def ghi'' (fst w) (snd w))) ws) = ''abc. def ghi''"
proof -
  have "\<exists>ws. section_windows length 1 ''abc. def ghi'' ''P: '' 7 2 = Inr ws \<and>
     windows_cover length ''P: '' ''abc. def ghi'' 7 2 0 ws \<and>
     rebuild 0 (map (\<lambda>w. (w, slice ''abc. def ghi'' (fst w) (snd w))) ws) = ''abc. def ghi''"
    by (rule section_windows_cover) simp_all
  then show ?thesis by blast
qed

text \<open>
  C22. A chunked paper loses no section text: for every section with text, the chunks that point
  to it start with its disclosed metadata prefix, and their bodies at their declared
  locators give back the section text exactly.
\<close>
theorem chunk_paper_recovers_sections:
  assumes "chunk_paper cfg paper = Inr out" and "j < length (sections paper)" and "sec_text (sections paper ! j) \<noteq> []"
  shows "recovers cfg paper (sections paper ! j) (chunks_at (section_path j) out)"
  using append_sections_Inr [OF chunk_paper_sections [OF assms]] assms(2,3) by (auto simp: indexed_def)

text \<open>
  Chunks are numbered consecutively from zero with distinct identifiers, and each records the
  token count of its complete text, which is within the configured limit.
\<close>
theorem chunk_paper_indexed:
  assumes "chunk_paper cfg paper = Inr out"
  shows "distinct (map chunk_id out) \<and> map chunk_index out = [0..<length out] \<and>
     list_all (\<lambda>c. token_count c = cs_count cfg (chunk_text c) \<and> int (token_count c) \<le> chunk_size_tokens cfg) out"
proof -
  note ix = chunk_paper_index [OF assms, unfolded indexed_def]
  have "distinct (map chunk_id out)"
    using ix by (auto simp: distinct_conv_nth chunk_ok_def pad3_inj)
  moreover have "map chunk_index out = [0..<length out]"
    using ix by (intro nth_equalityI) (auto simp: chunk_ok_def)
  ultimately show ?thesis using ix by (auto simp: list_all_length chunk_ok_def)
qed

text \<open>
  C38. The prefix search only returns a length that fits, and when fitting is monotone (each
  prefix of a fitting prefix fits) it returns the longest one within the search range.
\<close>
theorem fitting_prefix_end_longest:
  assumes "fits 0" and "\<And>a b. a \<le> b \<Longrightarrow> fits b \<Longrightarrow> fits a"
  shows "fits (fitting_prefix_end stop fits) \<and> fitting_prefix_end stop fits \<le> stop \<and>
     (\<forall>n \<le> stop. fits n \<longrightarrow> n \<le> fitting_prefix_end stop fits)"
proof -
  let ?r = "fitting_prefix_end stop fits"
  have "n \<le> ?r" if "n \<le> stop" "fits n" for n
    using fitting_prefix_end_next [of stop fits] that assms(2) [of "?r + 1" n] by (cases "n \<le> ?r") auto
  moreover have "fits ?r" using fitting_prefix_end_fits [of stop fits] assms(1) by (cases "?r = 0") auto
  ultimately show ?thesis using fitting_prefix_end_le by blast
qed

theorem fitting_prefix_end_longest_witness:
  "fitting_prefix_end 300 (\<lambda>n. n \<le> 100) = 100"
proof -
  have "fitting_prefix_end 300 (\<lambda>n. n \<le> 100) \<le> 100 \<and> fitting_prefix_end 300 (\<lambda>n. n \<le> 100) \<le> 300 \<and>
      (\<forall>n \<le> 300. n \<le> 100 \<longrightarrow> n \<le> fitting_prefix_end 300 (\<lambda>n. n \<le> 100))"
    by (rule fitting_prefix_end_longest) auto
  then have "fitting_prefix_end 300 (\<lambda>n. n \<le> 100) \<le> 100" and "100 \<le> fitting_prefix_end 300 (\<lambda>n. n \<le> 100)"
    by (blast, simp)
  then show ?thesis by simp
qed

text \<open>
  The disclosed metadata prefix takes at most 128 tokens and at most half of the budget, and
  metadata that fits is kept unchanged.
\<close>
theorem build_bounded_prefix_bound:
  assumes "build_bounded_prefix ct mtb t sn max_tokens = Inr p"
  shows "int (ct p) \<le> min 128 (max_tokens div 2) \<and>
    (p = render_prefix t sn \<or> min 128 (max_tokens div 2) < int (ct (render_prefix t sn)))"
proof (cases "int (ct (render_prefix t sn)) \<le> min 128 (max_tokens div 2)")
  case True
  then have "p = render_prefix t sn" using assms unfolding build_bounded_prefix_def Let_def rbind_Inr_iff by auto
  then show ?thesis using True by blast
next
  case False
  then have "\<exists>mk fl. prefix_loop ct mtb t sn (min 128 (max_tokens div 2)) mk fl = Inr p"
    using assms unfolding build_bounded_prefix_def Let_def rbind_Inr_iff by (simp only: if_False) blast
  then have "int (ct p) \<le> min 128 (max_tokens div 2)" using prefix_loop_bound by blast
  then show ?thesis using False by linarith
qed

definition demo_settings :: chunk_settings where
  "demo_settings = \<lparr>cs_count = length, cs_token_bytes = 1, chunk_size_tokens = 64, chunk_overlap_tokens = 2\<rparr>"

definition demo_paper :: parsed_paper where
  "demo_paper = \<lparr>title = ''T'', paper_id = ''arxiv:1'', abstract = [],
     sections = [\<lparr>sec_name = ''S'', sec_text = ''Tc 92 K.'', sec_has_equation = False, sec_has_table = False\<rparr>],
     abstract_override = None, parser_version = None\<rparr>"

lemma demo_chunks: "\<exists>c. chunk_paper demo_settings demo_paper = Inr [c]"
proof -
  have "case chunk_paper demo_settings demo_paper of Inr [c] \<Rightarrow> True | _ \<Rightarrow> False" by code_simp
  then show ?thesis by (auto split: sum.splits list.splits)
qed

theorem chunk_paper_recovers_sections_witness:
  "\<exists>out. chunk_paper demo_settings demo_paper = Inr out \<and> recovers demo_settings demo_paper (sections demo_paper ! 0) (chunks_at (section_path 0) out)"
  using demo_chunks chunk_paper_recovers_sections [of demo_settings demo_paper _ 0] by (auto simp: demo_paper_def)

theorem chunk_paper_indexed_witness:
  "\<exists>out. chunk_paper demo_settings demo_paper = Inr out \<and> map chunk_index out = [0..<length out]"
  using demo_chunks chunk_paper_indexed [of demo_settings demo_paper] by blast

theorem build_bounded_prefix_bound_witness:
  "\<exists>p. build_bounded_prefix length 1 (replicate 40 (CHR ''x'')) ''S'' 90 = Inr p \<and> length p \<le> 45"
proof -
  have "case build_bounded_prefix length 1 (replicate 40 (CHR ''x'')) ''S'' 90 of Inr p \<Rightarrow> True | _ \<Rightarrow> False"
    by code_simp
  then obtain p where p: "build_bounded_prefix length 1 (replicate 40 (CHR ''x'')) ''S'' 90 = Inr p"
    by (auto split: sum.splits)
  then show ?thesis using build_bounded_prefix_bound [OF p] by auto
qed

end
