(* ===== verification/Chunk_Evidence.thy ===== *)
theory Chunk_Evidence
  imports Chunker
begin

text \<open>
  The interface between the chunker and the evidence contract: the candidate the chunker
  attaches to a chunk is one the contract's \<open>validate_candidate\<close> accepts.
\<close>

section \<open>Candidates of the chunks of a paper\<close>

definition attached :: "string \<Rightarrow> string \<Rightarrow> chunk \<Rightarrow> bool" where
  "attached kind path c \<longleftrightarrow>
     (\<exists>name a b. evidence_candidate c = original_evidence_candidate kind name path a b \<and> a < b \<and> int b \<le> 1000000000)"

lemma chunk_of_candidate:
  "chunk_of cfg paper sec kind path prefix i w = Inr c \<Longrightarrow>
     evidence_candidate c = original_evidence_candidate kind (sec_name sec) path (fst w) (snd w)"
  by (auto simp: chunk_of_def Let_def require_token_budget_def)

lemma append_section_attached:
  assumes "append_section cfg paper sec kind path out = Inr out'" and "sec_text sec \<noteq> []"
  shows "\<exists>cs. out' = out @ cs \<and> list_all (attached kind path) cs"
proof -
  let ?tx = "sec_text sec"
  obtain prefix ws where len: "int (length ?tx) \<le> 1000000000"
    and ws: "windows_from (cs_count cfg) (cs_token_bytes cfg) prefix ?tx (chunk_size_tokens cfg) (chunk_overlap_tokens cfg) None 0 = Inr ws"
    and out': "append_windows cfg paper sec kind path prefix out ws = Inr out'"
    using assms(1) by (auto simp: append_section_def section_windows_def)
  have cov: "windows_cover (cs_count cfg) prefix ?tx (chunk_size_tokens cfg) (chunk_overlap_tokens cfg) 0 ws"
    using windows_from_sound [OF ws] assms(2) by (simp add: minimum_end_def)
  have win: "fst w < snd w \<and> int (snd w) \<le> 1000000000" if "w \<in> set ws" for w
    using cov that len by (fastforce simp: windows_cover_def window_ok_def list_all_iff)
  obtain cs where cs: "out' = out @ cs"
    "list_all2 (\<lambda>(i, w) c. chunk_of cfg paper sec kind path prefix i w = Inr c) (enumerate (length out) ws) cs"
    using append_windows_Inr [OF out'] by blast
  have "attached kind path c" if c: "c \<in> set cs" for c
  proof -
    obtain i where i: "i < length cs" "c = cs ! i" using c by (metis in_set_conv_nth)
    then have "i < length ws" and ck: "chunk_of cfg paper sec kind path prefix (length out + i) (ws ! i) = Inr c"
      using list_all2_nthD2 [OF cs(2) i(1)] list_all2_lengthD [OF cs(2)] by (simp_all add: nth_enumerate_eq)
    then show ?thesis using win [of "ws ! i"] chunk_of_candidate [OF ck] by (auto simp: attached_def)
  qed
  then show ?thesis using cs(1) by (auto simp: list_all_iff)
qed

lemma append_sections_attached:
  assumes "append_sections cfg paper i secs out = Inr out'"
  shows "\<exists>cs. out' = out @ cs \<and> list_all (\<lambda>c. \<exists>j < i + length secs. attached ''original_passage'' (section_path j) c) cs"
  using assms
proof (induction secs arbitrary: i out)
  case (Cons sec secs)
  obtain mid cs1 where mid: "mid = out @ cs1" and r: "append_sections cfg paper (Suc i) secs mid = Inr out'"
    and cs1: "list_all (attached ''original_passage'' (section_path i)) cs1"
  proof (cases "sec_text sec = []")
    case True
    then show thesis using Cons.prems that [of out "[]"] by simp
  next
    case False
    then obtain mid where m: "append_section cfg paper sec ''original_passage'' (section_path i) out = Inr mid"
      and r: "append_sections cfg paper (Suc i) secs mid = Inr out'" using Cons.prems by auto
    from append_section_attached [OF m False] that r show thesis by blast
  qed
  from Cons.IH [OF r] obtain cs2 where cs2: "out' = mid @ cs2"
    "list_all (\<lambda>c. \<exists>j < Suc i + length secs. attached ''original_passage'' (section_path j) c) cs2" by blast
  have "list_all (\<lambda>c. \<exists>j < i + length (sec # secs). attached ''original_passage'' (section_path j) c) (cs1 @ cs2)"
  proof -
    have "list_all (\<lambda>c. \<exists>j < i + length (sec # secs). attached ''original_passage'' (section_path j) c) cs1"
      using cs1 by (auto simp: list_all_iff intro!: exI [of _ i])
    then show ?thesis using cs2(2) by simp
  qed
  then show ?case using mid cs2(1) by (intro exI [of _ "cs1 @ cs2"]) simp
qed simp

lemma chunk_paper_attached:
  assumes "chunk_paper cfg paper = Inr out" "c \<in> set out"
  obtains kind path where "attached kind path c" "kind \<in> {''original_passage'', ''abstract''}"
    "path \<in> {''metadata/abstract'', ''abstract_override''} \<union> section_path ` {..< length (sections paper)}"
proof -
  obtain o1 where o1: "append_sections cfg paper 0 (sections paper) [] = Inr o1"
    using assms(1) by (auto simp: chunk_paper_def)
  have s: "\<exists>j < length (sections paper). attached ''original_passage'' (section_path j) d" if "d \<in> set o1" for d
    using append_sections_attached [OF o1] that by (auto simp: list_all_iff)
  show thesis
  proof (cases "c \<in> set o1")
    case True
    then obtain j where "j < length (sections paper)" "attached ''original_passage'' (section_path j) c" using s by blast
    then show thesis using that by blast
  next
    case False
    then have ne: "out \<noteq> o1" using assms(2) by blast
    then have a: "append_section cfg paper (abstract_section paper) ''abstract'' (abstract_path paper) o1 = Inr out"
      and t: "sec_text (abstract_section paper) \<noteq> []"
      using assms(1) o1 by (auto simp: chunk_paper_def abstract_section_def split: if_splits)
    obtain cs where "out = o1 @ cs" "list_all (attached ''abstract'' (abstract_path paper)) cs"
      using append_section_attached [OF a t] by blast
    then have "attached ''abstract'' (abstract_path paper) c" using False assms(2) by (auto simp: list_all_iff)
    then show thesis using that [of "''abstract''" "abstract_path paper"] by (simp add: abstract_path_def)
  qed
qed

section \<open>Acceptance\<close>

lemma nat_digits_printable: "c \<in> set (nat_digits n) \<Longrightarrow> 48 \<le> char_nat c"
proof (induction n rule: nat_digits.induct)
  case (1 n)
  have digit: "48 \<le> char_nat (char_of (48 + m))" if "m < 10" for m :: nat
    using that by (simp add: char_nat_of)
  show ?case
  proof (cases "n < 10")
    case False
    then show ?thesis using "1.IH" "1.prems" digit [of "n mod 10"] by (subst (asm) nat_digits.simps) auto
  qed (use "1.prems" digit [of n] in \<open>subst (asm) nat_digits.simps, simp\<close>)
qed

lemma path_bounded:
  assumes "path \<in> {''metadata/abstract'', ''abstract_override''} \<union> section_path ` {..< n}" "int n \<le> 1000000000"
  shows "bounded_label 300 path"
proof -
  have strip: "py_strip (c # s) \<noteq> []" if "\<not> is_space c" for c s
    using that by (simp add: py_strip_def dropWhile_append)
  consider "path = ''metadata/abstract''" | "path = ''abstract_override''" | j where "j < n" "path = section_path j"
    using assms(1) by blast
  then show ?thesis
  proof cases
    case 3
    then have "j < 10 ^ 10" using assms(2) by simp
    then have "length (nat_digits j) \<le> 10" by (rule nat_digits_length) simp
    moreover have "\<forall>c \<in> set (nat_digits j). 32 \<le> char_nat c" using nat_digits_printable by fastforce
    ultimately show ?thesis using 3 strip [of "CHR ''s''" "''ections/'' @ nat_digits j"]
      by (simp add: bounded_label_def section_path_def list_all_iff is_space_def char_nat_def)
  qed (simp_all add: bounded_label_def strip is_space_def char_nat_def)
qed

lemma locator_kvs_ok:
  fixes name path a b
  defines "kvs \<equiv> [(PStr ''section_path'', PStr path), (PStr ''char_start'', PInt (int a)), (PStr ''char_end'', PInt (int b))]
     @ (if representable_label name then [(PStr ''section'', PStr name)] else [])"
  assumes "bounded_label 300 path" "a < b" "int b \<le> 1000000000"
  shows "\<forall>(k, item) \<in> set kvs. coordinate_key k \<and> coordinate_ok k item" "distinct (map fst kvs)" "length kvs \<le> 4"
  using assms(2-) unfolding kvs_def
  by (auto simp: coordinate_key_def coordinate_ok_def LOCATOR_TEXT_def LOCATOR_INT_def representable_label_def bounded_label_def)

lemma phas_json_norm: "phas (json_norm (PDict kvs)) k = phas (PDict kvs) k"
proof -
  have "phas (PDict kvs') k \<longleftrightarrow> PStr k \<in> set (pkeys (PDict kvs'))" for kvs'
    by (simp add: map_of_eq_None_iff)
  then show ?thesis using pkeys_json_norm [of kvs] by (metis json_norm.simps(3))
qed

lemma scan_candidate:
  "scan_limits 0 [(original_evidence_candidate kind name path a b, 0)] = Inr ()"
  by (simp add: original_evidence_candidate_def scan_limits.simps)

lemma candidate_text:
  assumes kind: "kind \<in> {''original_passage'', ''abstract''}" and path: "bounded_label 300 path" and ab: "a < b" "int b \<le> 1000000000"
  shows "\<exists>t. canonical fr (original_evidence_candidate kind name path a b) = Inr t"
proof -
  define L where "L = [(PStr ''section_path'', PStr path), (PStr ''char_start'', PInt (int a)), (PStr ''char_end'', PInt (int b))]
     @ (if representable_label name then [(PStr ''section'', PStr name)] else [])"
  note ok = locator_kvs_ok [OF path ab, of name, folded L_def]
  obtain tl where tl: "json_text fr (PDict L) = Inr tl" "length tl \<le> 2 + length L * (640 + 1)"
    using json_text_dict_bounded [of L fr 640] ok(1) coordinate_text_length by blast
  have "length tl \<le> 2566" using tl(2) mult_le_mono1 [OF ok(3), of 641] by simp
  have short: "length (json_string s) \<le> 64" if "list_all (\<lambda>c. 32 \<le> char_nat c) s" "length s \<le> 31" for s
    using json_string_printable [OF that(1)] that(2) by simp
  have all: "\<forall>s \<in> set [''version'', EVIDENCE_VERSION, ''chunk_kind'', kind, ''parent_record'', ''extraction_version'',
      ''rendering_version'', CHUNKER_VERSION, ''source_capture_id'', ''source_locator'', ''unresolved_reason'',
      ''original_binding_unreviewed'', ''permission_status'', ''unresolved'']. length (json_string s) \<le> 64"
    using kind by (auto simp: short char_nat_def EVIDENCE_VERSION_def CHUNKER_VERSION_def)
  define K where "K = [(PStr ''version'', PStr EVIDENCE_VERSION), (PStr ''chunk_kind'', PStr kind),
       (PStr ''parent_record'', PNone), (PStr ''extraction_version'', PNone), (PStr ''rendering_version'', PStr CHUNKER_VERSION),
       (PStr ''source_capture_id'', PNone), (PStr ''source_locator'', PDict L),
       (PStr ''unresolved_reason'', PStr ''original_binding_unreviewed''), (PStr ''permission_status'', PStr ''unresolved'')]"
  have K: "original_evidence_candidate kind name path a b = PDict K"
    by (simp add: original_evidence_candidate_def K_def L_def)
  have "\<forall>(k, v) \<in> set K. is_str k \<and> (\<exists>t. json_text fr v = Inr t \<and> length (json_string (str_of k)) + 1 + length t \<le> 2700)"
    using all tl(1) \<open>length tl \<le> 2566\<close> by (simp add: K_def del: json_text.simps(9-))
  then have "\<exists>t. json_text fr (PDict K) = Inr t \<and> length t \<le> 2 + length K * (2700 + 1)"
    by (rule json_text_dict_bounded)
  then have "\<exists>t. json_text fr (original_evidence_candidate kind name path a b) = Inr t \<and> length t \<le> 24311"
    unfolding K by (simp add: K_def del: json_text.simps)
  then obtain t where t: "json_text fr (original_evidence_candidate kind name path a b) = Inr t" "length t \<le> 24311" by blast
  then have "\<not> int (length t) > MAX_INPUT_BYTES" by (simp add: MAX_INPUT_BYTES_def)
  then show ?thesis using t(1) by (force simp: canonical_def scan_candidate)
qed

lemma candidate_accepted:
  assumes kind: "kind \<in> {''original_passage'', ''abstract''}" and path: "bounded_label 300 path" and ab: "a < b" "int b \<le> 1000000000"
  shows "\<exists>r. validate_candidate env (original_evidence_candidate kind name path a b) = Inr r
    \<and> pget r ''chunk_kind'' = PStr kind \<and> pget r ''permission_status'' = PStr ''unresolved''
    \<and> pget (pget r ''source_locator'') ''section_path'' = PStr path
    \<and> pget (pget r ''source_locator'') ''char_start'' = PInt (int a)
    \<and> pget (pget r ''source_locator'') ''char_end'' = PInt (int b)"
proof -
  define L where "L = [(PStr ''section_path'', PStr path), (PStr ''char_start'', PInt (int a)), (PStr ''char_end'', PInt (int b))]
     @ (if representable_label name then [(PStr ''section'', PStr name)] else [])"
  note ok = locator_kvs_ok [OF path ab, of name, folded L_def]
  define v where "v = original_evidence_candidate kind name path a b"
  have v: "v = PDict (members_of v)" by (simp add: v_def original_evidence_candidate_def)
  have loc: "pget v ''source_locator'' = PDict L" by (simp add: v_def original_evidence_candidate_def L_def)
  have shape: "candidate_shape v"
    using kind by (auto simp: v_def original_evidence_candidate_def candidate_shape_def CANDIDATE_FIELDS_def EVIDENCE_KINDS_def)
  obtain t where t: "canonical (ce_float env) v = Inr t" using candidate_text [OF assms] unfolding v_def by blast
  define r where "r = PDict (dict_merge CANDIDATE_DEFAULTS (members_of (json_norm v)))"
  have get: "pget r k = json_norm (pget v k)" if "phas v k" for k
    using pget_merged_candidate [of "members_of v" CANDIDATE_DEFAULTS k] that v
    by (simp add: r_def v_def original_evidence_candidate_def)
  have fields: "pget r ''chunk_kind'' = PStr kind" "pget r ''parent_record'' = PNone" "pget r ''extraction_version'' = PNone"
    "pget r ''rendering_version'' = PStr CHUNKER_VERSION" "pget r ''source_capture_id'' = PNone"
    "pget r ''unresolved_reason'' = PStr ''original_binding_unreviewed''" "pget r ''permission_status'' = PStr ''unresolved''"
    "pget r ''source_locator'' = json_norm (PDict L)"
    using loc by (simp_all add: get v_def original_evidence_candidate_def)
  obtain N where N: "json_norm (PDict L) = PDict N" by simp
  have Nset: "set N = (\<lambda>(k, v). (k, json_norm v)) ` set L" using members_json_norm [of L] unfolding N by simp
  have leaf: "json_norm item = item" if "(k, item) \<in> set L" for k item
    using that by (auto simp: L_def split: if_splits)
  have "\<forall>(k, item) \<in> set N. coordinate_key k \<and> coordinate_ok k item"
    using ok(1) leaf unfolding Nset by fastforce
  moreover have "length N \<le> 6" using ok(3) N by (auto simp: norm_members_map)
  moreover have Nget: "pget (PDict N) k = json_norm (pget (PDict L) k)" "phas (PDict N) k = phas (PDict L) k" for k
    using pget_json_norm [OF ok(2), of k] phas_json_norm [of L k] unfolding N by simp_all
  moreover have "list_all (span_ok (PDict N)) SPANS"
    using ab by (simp add: SPANS_def span_ok_def Nget del: pget.simps phas.simps) (simp add: L_def)
  ultimately have vl: "validate_locator (ce_float env) (PDict N) = Inr (PDict N)"
    by (intro validate_locator_accepts)
  have version: "check_version (PStr CHUNKER_VERSION) = Inr ()"
    by (simp add: check_version_def bounded_label_def CHUNKER_VERSION_def py_strip_def is_space_def char_nat_def)
  define r2 where "r2 = pput r ''source_locator'' (PDict N)"
  have m: "is_mapping r" by (simp add: r_def)
  have "admission_ok r2" "snapshot_ok r2"
    using kind m by (auto simp: admission_ok_def snapshot_ok_def r2_def fields EVIDENCE_REASONS_def)
  moreover have "check_parent env r = Inr ()" using kind by (auto simp: check_parent_def fields)
  ultimately have "validate_candidate env v = Inr r2"
    using shape t version vl
    by (simp add: validate_candidate_def r_def [symmetric] fields N Let_def del: json_norm.simps) (simp add: r2_def)
  moreover have "pget r2 ''source_locator'' = PDict N" using m by (simp add: r2_def)
  ultimately show ?thesis
    using m by (intro exI [of _ r2]) (simp add: v_def r2_def fields Nget del: pget.simps phas.simps, simp add: L_def)
qed

section \<open>Property\<close>

text \<open>
  C13. Every chunk the chunker produces carries a candidate the evidence contract accepts, with
  its kind, its section path and its character window unchanged and the permission unresolved.
\<close>

theorem chunk_candidates_accepted:
  assumes "chunk_paper cfg paper = Inr out" "c \<in> set out" "int (length (sections paper)) \<le> 1000000000"
  shows "\<exists>r. validate_candidate env (evidence_candidate c) = Inr r
    \<and> pget r ''permission_status'' = PStr ''unresolved''
    \<and> pget r ''chunk_kind'' = pget (evidence_candidate c) ''chunk_kind''
    \<and> pget (pget r ''source_locator'') ''section_path'' = locator c ''section_path''
    \<and> pget (pget r ''source_locator'') ''char_start'' = locator c ''char_start''
    \<and> pget (pget r ''source_locator'') ''char_end'' = locator c ''char_end''"
proof -
  obtain kind path where k: "attached kind path c" "kind \<in> {''original_passage'', ''abstract''}"
    and p: "path \<in> {''metadata/abstract'', ''abstract_override''} \<union> section_path ` {..< length (sections paper)}"
    using chunk_paper_attached [OF assms(1,2)] .
  obtain name a b where c: "evidence_candidate c = original_evidence_candidate kind name path a b" "a < b" "int b \<le> 1000000000"
    using k(1) by (auto simp: attached_def)
  obtain r where "validate_candidate env (evidence_candidate c) = Inr r" "pget r ''chunk_kind'' = PStr kind"
    "pget r ''permission_status'' = PStr ''unresolved''" "pget (pget r ''source_locator'') ''section_path'' = PStr path"
    "pget (pget r ''source_locator'') ''char_start'' = PInt (int a)" "pget (pget r ''source_locator'') ''char_end'' = PInt (int b)"
    using candidate_accepted [OF k(2) path_bounded [OF p assms(3)] c(2,3), of env name] unfolding c(1) by blast
  then show ?thesis by (intro exI [of _ r]) (simp add: locator_def c(1) original_evidence_candidate_def)
qed

theorem chunk_candidates_accepted_witness:
  "\<exists>c r. chunk_paper demo_settings demo_paper = Inr [c] \<and> validate_candidate demo_env (evidence_candidate c) = Inr r"
proof -
  obtain c where c: "chunk_paper demo_settings demo_paper = Inr [c]" using demo_chunks by blast
  have "\<exists>r. validate_candidate demo_env (evidence_candidate c) = Inr r"
    using chunk_candidates_accepted [OF c, of c demo_env] by (auto simp: demo_paper_def)
  then show ?thesis using c by blast
qed

end
