(* ===== verification/Research_Priority.thy ===== *)
theory Research_Priority
  imports SC_Prelude
begin

text \<open>
  The research-priority policy (\<open>api/services/research_priority.py\<close>): the pydantic contracts of
  an assessment and a campaign with their validators, and the evaluation of one assessment.

  The source computes with \<open>Decimal(str(x))\<close> of validated finite floats; here a number is the
  rational that decimal denotes and the arithmetic is exact. The final conversion of the
  results to binary floats and the 28 digit context of a cost quotient are left out. The
  digest of the action requirements and of the policy table are parameters.
\<close>

section \<open>Policy tables\<close>

definition POLICY_VERSION :: string where "POLICY_VERSION = ''RPS-v1.2''"

definition ACTION_CONTRACT_VERSION :: string where "ACTION_CONTRACT_VERSION = ''rps-action-contract/1''"

definition DIMENSIONS :: "string list" where
  "DIMENSIONS = [''stability'', ''electronic'', ''pairing'', ''coherence'', ''geometry'', ''competing_order'']"

definition PROFILES :: "(string \<times> rat list) list" where
  "PROFILES =
     [(''common'', [20, 20, 25, 15, 10, 10]),
      (''epc_hydride'', [20, 15, 35, 10, 10, 10]),
      (''layered_correlated'', [20, 20, 20, 15, 15, 10]),
      (''multiband'', [20, 20, 30, 15, 5, 10]),
      (''flatband'', [15, 15, 20, 25, 15, 10])]"

section \<open>Field types\<close>

datatype resource = CpuCoreHours | GpuHours | MemoryGib | StorageGib | HumanHours

fun resource_text :: "resource \<Rightarrow> string" where
  "resource_text CpuCoreHours = ''cpu_core_hours''"
| "resource_text GpuHours = ''gpu_hours''"
| "resource_text MemoryGib = ''memory_gib''"
| "resource_text StorageGib = ''storage_gib''"
| "resource_text HumanHours = ''human_hours''"

definition RESOURCES :: "resource list" where
  "RESOURCES = [CpuCoreHours, GpuHours, MemoryGib, StorageGib, HumanHours]"

datatype action_kind = Verification | Calculation | Conversion | Measurement
datatype dependency_kind = Structure | Sample | Equipment | Software | Data | External | OtherKind

definition identifier_char :: "char \<Rightarrow> bool" where
  "identifier_char c \<longleftrightarrow> is_alnum_char c \<or> c \<in> {CHR ''_'', CHR ''.'', CHR '':'', CHR ''-''}"

definition valid_identifier :: "string \<Rightarrow> bool" where
  "valid_identifier s \<longleftrightarrow> 1 \<le> length s \<and> length s \<le> 120 \<and> list_all identifier_char s"

definition bounded_text :: "nat \<Rightarrow> string \<Rightarrow> bool" where
  "bounded_text n s \<longleftrightarrow> 1 \<le> length s \<and> length s \<le> n"

definition valid_explanation :: "string \<Rightarrow> bool" where
  "valid_explanation s \<longleftrightarrow> bounded_text 4000 s \<and> (\<exists>c \<in> set s. \<not> is_space c)"

section \<open>Contracts and their validators\<close>

record reference =
  ref_id :: string
  ref_sha256 :: string

definition valid_reference :: "reference \<Rightarrow> bool" where
  "valid_reference r \<longleftrightarrow> valid_identifier (ref_id r) \<and> is_sha256 (ref_sha256 r)"

definition valid_evidence :: "reference list \<Rightarrow> bool" where
  "valid_evidence rs \<longleftrightarrow> length rs \<le> 100 \<and> list_all valid_reference rs"

datatype dimension_status = Assessed | UnknownStatus
datatype polarity = Supporting | Opposing | Mixed | Neutral | UnknownPolarity

record dimension =
  d_status :: dimension_status
  d_anchor :: "rat option"
  d_lower :: rat
  d_upper :: rat
  d_rule_id :: string
  d_rationale :: string
  d_evidence :: "reference list"
  d_missing_reason :: "string option"
  d_polarity :: polarity

definition ANCHORS :: "rat set" where "ANCHORS = {0, 25, 50, 75, 100}"

definition dimension_range_ok :: "dimension \<Rightarrow> bool" where
  "dimension_range_ok d \<longleftrightarrow>
     d_lower d \<in> ANCHORS \<and> d_upper d \<in> ANCHORS \<and>
     (case d_status d of
        UnknownStatus \<Rightarrow>
          d_anchor d = None \<and> d_lower d = 0 \<and> d_upper d = 100 \<and>
          (case d_missing_reason d of None \<Rightarrow> False | Some r \<Rightarrow> r \<noteq> []) \<and> d_polarity d = UnknownPolarity
      | Assessed \<Rightarrow>
          (case d_anchor d of None \<Rightarrow> False | Some a \<Rightarrow> a \<in> ANCHORS \<and> d_lower d \<le> a \<and> a \<le> d_upper d) \<and>
          d_evidence d \<noteq> [] \<and> d_missing_reason d = None)"

definition valid_dimension :: "dimension \<Rightarrow> bool" where
  "valid_dimension d \<longleftrightarrow>
     valid_identifier (d_rule_id d) \<and> bounded_text 4000 (d_rationale d) \<and> valid_evidence (d_evidence d) \<and>
     dimension_range_ok d"

record action_anchor =
  aa_anchor :: rat
  aa_lower :: rat
  aa_upper :: rat
  aa_rationale :: string
  aa_evidence :: "reference list"

definition QUARTERS :: "rat set" where "QUARTERS = {0, 1/4, 1/2, 3/4, 1}"

definition valid_action_anchor :: "action_anchor \<Rightarrow> bool" where
  "valid_action_anchor a \<longleftrightarrow>
     bounded_text 4000 (aa_rationale a) \<and> aa_evidence a \<noteq> [] \<and> valid_evidence (aa_evidence a) \<and>
     aa_lower a \<in> QUARTERS \<and> aa_anchor a \<in> QUARTERS \<and> aa_upper a \<in> QUARTERS \<and>
     aa_lower a \<le> aa_anchor a \<and> aa_anchor a \<le> aa_upper a"

record cost =
  c_resource :: resource
  c_lower :: rat
  c_upper :: "rat option"
  c_basis :: string
  c_evidence :: "reference list"

definition valid_cost :: "cost \<Rightarrow> bool" where
  "valid_cost c \<longleftrightarrow>
     0 \<le> c_lower c \<and> (case c_upper c of None \<Rightarrow> True | Some u \<Rightarrow> 0 \<le> u \<and> c_lower c \<le> u) \<and>
     bounded_text 2000 (c_basis c) \<and> c_evidence c \<noteq> [] \<and> valid_evidence (c_evidence c)"

record action_outcome =
  o_observation :: string
  o_decision :: string

definition valid_outcome :: "action_outcome \<Rightarrow> bool" where
  "valid_outcome o' \<longleftrightarrow> bounded_text 2000 (o_observation o') \<and> bounded_text 2000 (o_decision o')"

record prerequisite_rule =
  pr_key :: string
  pr_description :: string
  pr_kind :: dependency_kind
  pr_critical :: bool
  pr_allow_not_applicable :: bool

definition valid_prerequisite_rule :: "prerequisite_rule \<Rightarrow> bool" where
  "valid_prerequisite_rule r \<longleftrightarrow> valid_identifier (pr_key r) \<and> valid_explanation (pr_description r)"

datatype resource_rule = RuleRequired | RuleOptional | RuleNotApplicable

record action_template =
  t_version :: string
  t_title :: string
  t_kind :: action_kind
  t_scope :: string
  t_prerequisites :: "prerequisite_rule list"
  t_completeness_rationale :: string
  t_resource_rules :: "(resource \<times> resource_rule) list"

definition valid_template :: "action_template \<Rightarrow> bool" where
  "valid_template t \<longleftrightarrow>
     valid_identifier (t_version t) \<and> valid_explanation (t_title t) \<and> valid_explanation (t_scope t) \<and>
     length (t_prerequisites t) \<le> 30 \<and> list_all valid_prerequisite_rule (t_prerequisites t) \<and>
     valid_explanation (t_completeness_rationale t) \<and>
     set (map fst (t_resource_rules t)) = set RESOURCES \<and>
     RuleRequired \<in> set (map snd (t_resource_rules t)) \<and>
     distinct (map fst (t_resource_rules t)) \<and> distinct (map pr_key (t_prerequisites t))"

datatype dependency_status = DepAvailable | DepPending | DepBlocked | DepUnknown

record action_dependency =
  dep_id :: string
  dep_kind :: dependency_kind
  dep_status :: dependency_status
  dep_rationale :: string
  dep_evidence :: "reference list"

definition valid_dependency :: "action_dependency \<Rightarrow> bool" where
  "valid_dependency d \<longleftrightarrow>
     valid_identifier (dep_id d) \<and> valid_explanation (dep_rationale d) \<and> valid_evidence (dep_evidence d) \<and>
     \<not> (dep_status d \<in> {DepAvailable, DepBlocked} \<and> dep_evidence d = [])"

datatype prerequisite_status = Satisfied | PrePending | PreBlocked | PreUnknown | PreNotApplicable

record prerequisite_declaration =
  pd_key :: string
  pd_status :: prerequisite_status
  pd_rationale :: string
  pd_evidence :: "reference list"
  pd_dependency_ids :: "string list"

definition valid_prerequisite :: "prerequisite_declaration \<Rightarrow> bool" where
  "valid_prerequisite p \<longleftrightarrow>
     valid_identifier (pd_key p) \<and> valid_explanation (pd_rationale p) \<and> valid_evidence (pd_evidence p) \<and>
     length (pd_dependency_ids p) \<le> 30 \<and> list_all valid_identifier (pd_dependency_ids p) \<and>
     \<not> (pd_status p \<in> {Satisfied, PreBlocked, PreNotApplicable} \<and> pd_evidence p = []) \<and>
     distinct (pd_dependency_ids p)"

datatype applicability = Required | UnknownApplicability | NotApplicable

record resource_declaration =
  rd_resource :: resource
  rd_applicability :: applicability
  rd_rationale :: string
  rd_evidence :: "reference list"

definition valid_resource_declaration :: "resource_declaration \<Rightarrow> bool" where
  "valid_resource_declaration r \<longleftrightarrow>
     valid_explanation (rd_rationale r) \<and> valid_evidence (rd_evidence r) \<and>
     \<not> (rd_applicability r \<noteq> UnknownApplicability \<and> rd_evidence r = [])"

record action_requirements =
  ar_template_ref :: reference
  ar_template_review :: reference
  ar_template :: action_template
  ar_prerequisites :: "prerequisite_declaration list"
  ar_dependencies :: "action_dependency list"
  ar_resources :: "resource_declaration list"

definition rule_of :: "action_requirements \<Rightarrow> string \<Rightarrow> prerequisite_rule option" where
  "rule_of q k = find (\<lambda>r. pr_key r = k) (t_prerequisites (ar_template q))"

definition dependency_of :: "action_requirements \<Rightarrow> string \<Rightarrow> action_dependency option" where
  "dependency_of q i = find (\<lambda>d. dep_id d = i) (ar_dependencies q)"

text \<open>The loop over the declared prerequisites in \<open>ActionRequirements.complete\<close>.\<close>

definition prerequisite_consistent :: "action_requirements \<Rightarrow> prerequisite_declaration \<Rightarrow> bool" where
  "prerequisite_consistent q p \<longleftrightarrow>
     (case rule_of q (pd_key p) of
        None \<Rightarrow> False
      | Some rule \<Rightarrow>
          \<not> (pd_status p = PreNotApplicable \<and> \<not> pr_allow_not_applicable rule) \<and>
          set (pd_dependency_ids p) \<subseteq> set (map dep_id (ar_dependencies q)) \<and>
          (pd_status p = Satisfied \<longrightarrow>
             (let linked = List.map_filter (dependency_of q) (pd_dependency_ids p)
              in linked \<noteq> [] \<and> list_ex (\<lambda>d. dep_kind d = pr_kind rule) linked \<and>
                 list_all (\<lambda>d. dep_status d = DepAvailable) linked)))"

definition resource_consistent :: "action_template \<Rightarrow> resource_declaration \<Rightarrow> bool" where
  "resource_consistent t r \<longleftrightarrow>
     (case map_of (t_resource_rules t) (rd_resource r) of
        None \<Rightarrow> False
      | Some rule \<Rightarrow>
          \<not> (rule = RuleRequired \<and> rd_applicability r = NotApplicable) \<and>
          \<not> (rule = RuleNotApplicable \<and> rd_applicability r \<noteq> NotApplicable))"

definition valid_requirements :: "action_requirements \<Rightarrow> bool" where
  "valid_requirements q \<longleftrightarrow>
     valid_reference (ar_template_ref q) \<and> valid_reference (ar_template_review q) \<and> valid_template (ar_template q) \<and>
     length (ar_prerequisites q) \<le> 30 \<and> list_all valid_prerequisite (ar_prerequisites q) \<and>
     length (ar_dependencies q) \<le> 100 \<and> list_all valid_dependency (ar_dependencies q) \<and>
     length (ar_resources q) = 5 \<and> list_all valid_resource_declaration (ar_resources q) \<and>
     distinct (map pd_key (ar_prerequisites q)) \<and>
     set (map pd_key (ar_prerequisites q)) = set (map pr_key (t_prerequisites (ar_template q))) \<and>
     distinct (map dep_id (ar_dependencies q)) \<and>
     list_all (prerequisite_consistent q) (ar_prerequisites q) \<and>
     set (concat (map pd_dependency_ids (ar_prerequisites q))) = set (map dep_id (ar_dependencies q)) \<and>
     set (map rd_resource (ar_resources q)) = set RESOURCES \<and> distinct (map rd_resource (ar_resources q)) \<and>
     list_all (resource_consistent (ar_template q)) (ar_resources q)"

datatype role =
    NewCandidate | ConditionalCandidate | MechanismAnchor | ReferenceAnchor | BenchmarkControl | NegativeControl
datatype target_fit = Matches | ApprovedConversion | Mismatch | Unresolved

record assessment =
  as_id :: string
  as_revision :: int
  as_material :: reference
  as_state :: reference
  as_action :: reference
  as_profile_assignment :: reference
  as_formula :: string
  as_family :: string
  as_state_summary :: string
  as_action_summary :: string
  as_role :: role
  as_target_fit :: target_fit
  as_problem_resolved :: bool
  as_dimensions :: "(string \<times> dimension) list"
  as_decision_impact :: action_anchor
  as_discrimination :: action_anchor
  as_readiness :: action_anchor
  as_requirements :: action_requirements
  as_outcomes :: "action_outcome list"
  as_costs :: "cost list"

definition assessment_complete :: "assessment \<Rightarrow> bool" where
  "assessment_complete a \<longleftrightarrow>
     set (map fst (as_dimensions a)) = set DIMENSIONS \<and>
     distinct (map c_resource (as_costs a)) \<and>
     set (map c_resource (as_costs a)) =
       set (map rd_resource (filter (\<lambda>r. rd_applicability r = Required) (ar_resources (as_requirements a)))) \<and>
     2 \<le> len_set (map (\<lambda>x. py_strip (o_decision x)) (as_outcomes a)) \<and>
     len_set (map (\<lambda>x. py_strip (o_observation x)) (as_outcomes a)) = length (as_outcomes a)"

text \<open>
  A Python dictionary has distinct keys, hence the conjuncts on \<open>as_dimensions\<close> here and on
  \<open>t_resource_rules\<close> above.
\<close>

definition valid_assessment :: "assessment \<Rightarrow> bool" where
  "valid_assessment a \<longleftrightarrow>
     valid_identifier (as_id a) \<and> 1 \<le> as_revision a \<and>
     valid_reference (as_material a) \<and> valid_reference (as_state a) \<and> valid_reference (as_action a) \<and>
     valid_reference (as_profile_assignment a) \<and>
     bounded_text 200 (as_formula a) \<and> bounded_text 100 (as_family a) \<and> bounded_text 1000 (as_state_summary a) \<and>
     bounded_text 1000 (as_action_summary a) \<and>
     distinct (map fst (as_dimensions a)) \<and> list_all (\<lambda>(_, d). valid_dimension d) (as_dimensions a) \<and>
     valid_action_anchor (as_decision_impact a) \<and> valid_action_anchor (as_discrimination a) \<and>
     valid_action_anchor (as_readiness a) \<and> valid_requirements (as_requirements a) \<and>
     2 \<le> length (as_outcomes a) \<and> length (as_outcomes a) \<le> 10 \<and> list_all valid_outcome (as_outcomes a) \<and>
     length (as_costs a) \<le> 5 \<and> list_all valid_cost (as_costs a) \<and> assessment_complete a"

record campaign =
  cp_id :: string
  cp_version :: string
  cp_objective :: string
  cp_target_pressure_max_gpa :: rat
  cp_budget :: "(resource \<times> rat) list"
  cp_profile_mixes :: "(string \<times> (string \<times> rat) list) list"
  cp_dimension_rules :: "(string \<times> string) list"
  cp_action_templates :: "(string \<times> string) list"

text \<open>
  The proportions of one assignment. The model sums them exactly; the code adds
  \<open>Decimal(str(v))\<close> in the 28-digit context, which is the same number for proportions written
  with at most 28 decimal places and may round longer ones to 1.
\<close>

definition valid_mix :: "(string \<times> rat) list \<Rightarrow> bool" where
  "valid_mix mix \<longleftrightarrow>
     distinct (map fst mix) \<and> list_all (\<lambda>(_, v). 0 \<le> v) mix \<and>
     mix \<noteq> [] \<and> set (map fst mix) \<subseteq> set (map fst PROFILES) \<and> sum_list (map snd mix) = 1"

definition valid_campaign :: "campaign \<Rightarrow> bool" where
  "valid_campaign c \<longleftrightarrow>
     valid_identifier (cp_id c) \<and> valid_identifier (cp_version c) \<and> bounded_text 4000 (cp_objective c) \<and>
     0 \<le> cp_target_pressure_max_gpa c \<and> list_all (\<lambda>(_, v). 0 \<le> v) (cp_budget c) \<and>
     list_all (\<lambda>(k, mix). valid_identifier k \<and> valid_mix mix) (cp_profile_mixes c) \<and>
     list_all (\<lambda>(_, v). valid_identifier v) (cp_dimension_rules c) \<and>
     list_all (\<lambda>(k, v). valid_identifier k \<and> is_sha256 v) (cp_action_templates c) \<and>
     set (map fst (cp_dimension_rules c)) = set DIMENSIONS \<and>
     cp_profile_mixes c \<noteq> [] \<and> cp_action_templates c \<noteq> []"

section \<open>Scoring\<close>

definition profile_value :: "string \<Rightarrow> nat \<Rightarrow> rat" where
  "profile_value name i = (case map_of PROFILES name of Some ws \<Rightarrow> ws ! i | None \<Rightarrow> 0)"

definition effective_weight :: "(string \<times> rat) list \<Rightarrow> nat \<Rightarrow> rat" where
  "effective_weight mix i =
     (profile_value ''common'' i + sum_list (map (\<lambda>(profile, fraction). fraction * profile_value profile i) mix)) / 200"

definition effective_weights :: "(string \<times> rat) list \<Rightarrow> (string \<times> rat) list" where
  "effective_weights mix = map (\<lambda>(i, d). (d, effective_weight mix i)) (enumerate 0 DIMENSIONS)"

definition weight_of :: "(string \<times> rat) list \<Rightarrow> string \<Rightarrow> rat" where
  "weight_of mix d = (case map_of (effective_weights mix) d of Some w \<Rightarrow> w | None \<Rightarrow> 0)"

definition affordability :: "rat \<Rightarrow> rat" where
  "affordability r = (if r \<le> 1/10 then 1 else if r \<le> 1/4 then 3/4 else if r \<le> 1/2 then 1/2 else if r \<le> 1 then 1/4 else 0)"

text \<open>\<open>quantize(Decimal(1), ROUND_HALF_UP)\<close> rounds a tie away from zero.\<close>

definition round_half_up :: "rat \<Rightarrow> int" where
  "round_half_up x = (if 0 \<le> x then \<lfloor>x + 1/2\<rfloor> else - \<lfloor>- x + 1/2\<rfloor>)"

definition round_score :: "rat \<Rightarrow> int" where
  "round_score raw = round_half_up (raw / 50) * 50"

definition weighted_sum :: "(string \<times> rat) list \<Rightarrow> (dimension \<Rightarrow> rat) \<Rightarrow> (string \<times> dimension) list \<Rightarrow> rat" where
  "weighted_sum mix f dims = sum_list (map (\<lambda>(k, v). weight_of mix k * f v) dims)"

definition coverage :: "(string \<times> rat) list \<Rightarrow> (string \<times> dimension) list \<Rightarrow> rat" where
  "coverage mix dims = sum_list (map (\<lambda>(k, v). weight_of mix k) (filter (\<lambda>(_, v). d_status v = Assessed) dims))"

subsection \<open>Blocking and pending reasons\<close>

text \<open>The lists \<open>reasons\<close> and \<open>pending\<close> of the source, in the order of the code.\<close>

type_synonym note_lists = "string list \<times> string list"

definition add_reason :: "bool \<Rightarrow> string \<Rightarrow> note_lists \<Rightarrow> note_lists" where
  "add_reason b r ns = (if b then (fst ns @ [r], snd ns) else ns)"

definition add_pending :: "bool \<Rightarrow> string \<Rightarrow> note_lists \<Rightarrow> note_lists" where
  "add_pending b r ns = (if b then (fst ns, snd ns @ [r]) else ns)"

definition dependency_step :: "action_requirements \<Rightarrow> note_lists \<Rightarrow> string \<Rightarrow> note_lists" where
  "dependency_step q ns i =
     (let reason = ''critical_dependency_blocked:'' @ i;
          blocked = (case dependency_of q i of Some d \<Rightarrow> dep_status d = DepBlocked | None \<Rightarrow> False)
      in add_reason (blocked \<and> reason \<notin> set (fst ns)) reason ns)"

definition critical_prerequisite :: "action_requirements \<Rightarrow> prerequisite_declaration \<Rightarrow> bool" where
  "critical_prerequisite q p \<longleftrightarrow>
     (case rule_of q (pd_key p) of Some r \<Rightarrow> pr_critical r | None \<Rightarrow> False) \<and> pd_status p \<noteq> PreNotApplicable"

definition prerequisite_step :: "action_requirements \<Rightarrow> note_lists \<Rightarrow> prerequisite_declaration \<Rightarrow> note_lists" where
  "prerequisite_step q ns p =
     (if \<not> critical_prerequisite q p then ns
      else let ns1 = add_reason (pd_status p = PreBlocked) (''critical_prerequisite_blocked:'' @ pd_key p) ns;
               ns2 = add_pending (pd_status p = PrePending) (''critical_prerequisite_pending:'' @ pd_key p) ns1;
               ns3 = add_pending (pd_status p = PreUnknown) (''critical_prerequisite_unknown:'' @ pd_key p) ns2
           in foldl (dependency_step q) ns3 (pd_dependency_ids p))"

definition resource_step :: "note_lists \<Rightarrow> resource_declaration \<Rightarrow> note_lists" where
  "resource_step ns r =
     add_pending (rd_applicability r = UnknownApplicability) (''resource_applicability_unknown:'' @ resource_text (rd_resource r)) ns"

record cost_state =
  cs_notes :: note_lists
  ratios_lower :: "rat list"
  ratios_upper :: "rat list"

definition cost_step :: "campaign \<Rightarrow> cost_state \<Rightarrow> cost \<Rightarrow> cost_state" where
  "cost_step camp st c =
     (let name = resource_text (c_resource c)
      in case map_of (cp_budget camp) (c_resource c) of
           None \<Rightarrow> st\<lparr>cs_notes := add_reason True (''resource_unavailable:'' @ name) (cs_notes st)\<rparr>
         | Some budget \<Rightarrow>
             if budget = 0 then st\<lparr>cs_notes := add_reason True (''resource_unavailable:'' @ name) (cs_notes st)\<rparr>
             else let st1 = st\<lparr>ratios_lower := ratios_lower st @ [c_lower c / budget]\<rparr>
                  in case c_upper c of
                       None \<Rightarrow> st1\<lparr>cs_notes := add_pending True (''cost_unknown:'' @ name) (cs_notes st1)\<rparr>
                     | Some u \<Rightarrow>
                         st1\<lparr>ratios_upper := ratios_upper st1 @ [u / budget],
                             cs_notes := add_reason (u / budget > 1) (''budget_exceeded:'' @ name) (cs_notes st1)\<rparr>)"

definition notes_before_costs :: "assessment \<Rightarrow> campaign \<Rightarrow> note_lists" where
  "notes_before_costs a camp =
     (let q = as_requirements a;
          dl = aa_lower (as_decision_impact a); tl = aa_lower (as_discrimination a); rl = aa_lower (as_readiness a);
          n0 = add_reason (map_of (cp_action_templates camp) (ref_id (ar_template_ref q)) \<noteq> Some (ref_sha256 (ar_template_ref q)))
                 ''action_template_not_registered'' ([], []);
          n1 = foldl (prerequisite_step q) n0 (ar_prerequisites q);
          n2 = foldl resource_step n1 (ar_resources q);
          n3 = add_reason (as_target_fit a = Mismatch) ''target_mismatch'' n2;
          n4 = add_pending (as_target_fit a = Unresolved) ''target_unresolved'' n3;
          n5 = add_reason (as_problem_resolved a) ''problem_already_resolved'' n4;
          n6 = add_reason (dl = 0 \<or> tl = 0) ''no_supported_decision_gain'' n5;
          n7 = add_reason (rl = 0) ''action_not_ready'' n6
      in add_pending (rl = 1/4) ''readiness_critical_uncertainty'' n7)"

definition cost_result :: "assessment \<Rightarrow> campaign \<Rightarrow> cost_state" where
  "cost_result a camp =
     foldl (cost_step camp) \<lparr>cs_notes = notes_before_costs a camp, ratios_lower = [], ratios_upper = []\<rparr> (as_costs a)"

definition afford_lower :: "assessment \<Rightarrow> campaign \<Rightarrow> rat option" where
  "afford_lower a camp =
     (let us = ratios_upper (cost_result a camp)
      in if as_costs a \<noteq> [] \<and> length us = length (as_costs a) then Some (affordability (Max (set us))) else None)"

definition afford_upper :: "assessment \<Rightarrow> campaign \<Rightarrow> rat option" where
  "afford_upper a camp =
     (let ls = ratios_lower (cost_result a camp)
      in if as_costs a \<noteq> [] \<and> length ls = length (as_costs a) then Some (affordability (Max (set ls))) else None)"

subsection \<open>The evaluation\<close>

datatype eligibility = ReferenceOnly | Ineligible | Pending | Eligible

datatype priority_error = PriorityKeyError

record explanation =
  ex_polarity :: polarity
  ex_reason_codes :: "string list"
  anchor_contribution :: "rat option"
  uncertainty_discount :: "rat option"
  missing_support_contribution :: rat

fun polarity_reason :: "polarity \<Rightarrow> string" where
  "polarity_reason Opposing = ''adverse_evidence''"
| "polarity_reason Mixed = ''mixed_evidence''"
| "polarity_reason Supporting = ''assessed_support''"
| "polarity_reason Neutral = ''neutral_evidence''"
| "polarity_reason UnknownPolarity = ''evidence_polarity_unclassified''"

definition dimension_explanation :: "dimension \<Rightarrow> rat \<Rightarrow> explanation" where
  "dimension_explanation d w =
     (case d_status d of
        UnknownStatus \<Rightarrow>
          \<lparr>ex_polarity = UnknownPolarity, ex_reason_codes = [''missing_support''], anchor_contribution = None,
           uncertainty_discount = None, missing_support_contribution = - 2250 * w\<rparr>
      | Assessed \<Rightarrow>
          (let anchor = (case d_anchor d of Some x \<Rightarrow> x | None \<Rightarrow> 0)
           in \<lparr>ex_polarity = d_polarity d,
               ex_reason_codes = polarity_reason (d_polarity d) # (if d_lower d < anchor then [''uncertainty_discount''] else []),
               anchor_contribution = Some (45 * w * (anchor - 50)),
               uncertainty_discount = Some (45 * w * (d_lower d - anchor)),
               missing_support_contribution = 0\<rparr>))"

record evaluation =
  policy_version :: string
  policy_hash :: string
  action_contract_version :: string
  action_requirements_hash :: string
  eligibility_of :: eligibility
  reason_codes :: "string list"
  rank_group :: string
  score_raw :: "rat option"
  score_display :: "int option"
  score_upper :: "rat option"
  p_lower :: rat
  p_upper :: rat
  g_lower :: rat
  g_upper :: rat
  a_lower :: "rat option"
  a_upper :: "rat option"
  affordability_lower :: "rat option"
  affordability_upper :: "rat option"
  assessed_weight :: rat
  weights :: "(string \<times> rat) list"
  contrib_physical :: rat
  contrib_gain :: rat
  contrib_action :: "rat option"
  contrib_dimensions :: "(string \<times> rat) list"
  dimension_explanations :: "(string \<times> explanation) list"
  contrib_rounding :: "rat option"

record digests =
  dg_policy_hash :: string
  dg_requirements :: "action_requirements \<Rightarrow> string"

definition choose_eligibility :: "role \<Rightarrow> note_lists \<Rightarrow> eligibility" where
  "choose_eligibility r ns =
     (if r \<in> {ReferenceAnchor, BenchmarkControl, NegativeControl} then ReferenceOnly
      else if fst ns \<noteq> [] then Ineligible else if snd ns \<noteq> [] then Pending else Eligible)"

text \<open>
  Every dictionary lookup of \<open>evaluate\<close> raises \<open>KeyError\<close> when the key is missing: the profile
  assignment and its profiles, the dimension weights, and the rules and dependencies of the
  prerequisites.
\<close>

definition lookups_ok :: "assessment \<Rightarrow> (string \<times> rat) list \<Rightarrow> bool" where
  "lookups_ok a mix \<longleftrightarrow>
     set (map fst mix) \<subseteq> set (map fst PROFILES) \<and>
     set (map fst (as_dimensions a)) \<subseteq> set DIMENSIONS \<and>
     list_all (\<lambda>p. case rule_of (as_requirements a) (pd_key p) of
                      None \<Rightarrow> False
                    | Some r \<Rightarrow> critical_prerequisite (as_requirements a) p \<longrightarrow>
                        list_all (\<lambda>i. dependency_of (as_requirements a) i \<noteq> None) (pd_dependency_ids p))
       (ar_prerequisites (as_requirements a))"

definition evaluate_mix :: "digests \<Rightarrow> assessment \<Rightarrow> campaign \<Rightarrow> (string \<times> rat) list \<Rightarrow> evaluation" where
  "evaluate_mix dg a camp mix =
     (let dims = as_dimensions a;
          pl = weighted_sum mix d_lower dims; pu = weighted_sum mix d_upper dims;
          dl = aa_lower (as_decision_impact a); tl = aa_lower (as_discrimination a); rl = aa_lower (as_readiness a);
          ns = cs_notes (cost_result a camp);
          bl = afford_lower a camp; bu = afford_upper a camp;
          gl = 100 * dl * tl; gu = 100 * aa_upper (as_decision_impact a) * aa_upper (as_discrimination a);
          al = map_option (\<lambda>b. 50 * (b + rl)) bl; au = map_option (\<lambda>b. 50 * (b + aa_upper (as_readiness a))) bu;
          el = choose_eligibility (as_role a) ns;
          raw = (if el = Eligible then map_option (\<lambda>x. 1000 + 45 * pl + 27 * gl + 18 * x) al else None);
          upper = (if raw \<noteq> None then map_option (\<lambda>x. 1000 + 45 * pu + 27 * gu + 18 * x) au else None);
          display = map_option round_score raw
      in \<lparr>policy_version = POLICY_VERSION, policy_hash = dg_policy_hash dg,
          action_contract_version = ACTION_CONTRACT_VERSION,
          action_requirements_hash = dg_requirements dg (as_requirements a),
          eligibility_of = el, reason_codes = fst ns @ snd ns,
          rank_group = (if as_role a = MechanismAnchor then ''mechanism'' else ''discovery''),
          score_raw = raw, score_display = display, score_upper = upper,
          p_lower = pl, p_upper = pu, g_lower = gl, g_upper = gu, a_lower = al, a_upper = au,
          affordability_lower = bl, affordability_upper = bu,
          assessed_weight = coverage mix dims, weights = effective_weights mix,
          contrib_physical = 45 * (pl - 50), contrib_gain = 27 * (gl - 50),
          contrib_action = map_option (\<lambda>x. 18 * (x - 50)) al,
          contrib_dimensions = map (\<lambda>(k, v). (k, 45 * weight_of mix k * (d_lower v - 50))) dims,
          dimension_explanations = map (\<lambda>(k, v). (k, dimension_explanation v (weight_of mix k))) dims,
          contrib_rounding = (case (display, raw) of (Some d, Some r) \<Rightarrow> Some (of_int d - r) | _ \<Rightarrow> None)\<rparr>)"

definition evaluate :: "digests \<Rightarrow> assessment \<Rightarrow> campaign \<Rightarrow> (priority_error, evaluation) res" where
  "evaluate dg a camp =
     (case map_of (cp_profile_mixes camp) (ref_id (as_profile_assignment a)) of
        None \<Rightarrow> Inl PriorityKeyError
      | Some mix \<Rightarrow> rbind (guard (lookups_ok a mix) PriorityKeyError) (\<lambda>_. Inr (evaluate_mix dg a camp mix)))"

record action_spec =
  sp_summary :: string
  sp_outcomes :: "action_outcome list"
  sp_costs :: "cost list"
  sp_requirements :: action_requirements

definition action_specification :: "assessment \<Rightarrow> action_spec" where
  "action_specification a =
     \<lparr>sp_summary = as_action_summary a, sp_outcomes = as_outcomes a, sp_costs = as_costs a, sp_requirements = as_requirements a\<rparr>"

section \<open>Folds that can only add notes\<close>

text \<open>
  The evaluation collects its notes by loops that never remove one. The interface below is
  what the proofs use: if the state is clear after a step it was clear before, so a clear
  result means that every element was processed without a note.
\<close>

locale clearing =
  fixes clear :: "'s \<Rightarrow> bool" and step :: "'s \<Rightarrow> 'x \<Rightarrow> 's"
  assumes step_clear: "clear (step s x) \<Longrightarrow> clear s"
begin

lemma foldl_clear: "clear (foldl step s xs) \<Longrightarrow> clear s"
  by (induction xs arbitrary: s) (auto dest: step_clear)

lemma foldl_clear_elem: "clear (foldl step s xs) \<Longrightarrow> x \<in> set xs \<Longrightarrow> \<exists>s'. clear s' \<and> clear (step s' x)"
proof (induction xs arbitrary: s)
  case (Cons y ys)
  then have "clear (step s y)" using foldl_clear by simp
  then show ?case using Cons step_clear by (cases "x = y") auto
qed simp

end

abbreviation no_notes :: "note_lists \<Rightarrow> bool" where "no_notes ns \<equiv> ns = ([], [])"

lemma add_clear:
  "add_reason b r ns = ([], []) \<longleftrightarrow> ns = ([], []) \<and> \<not> b"
  "add_pending b r ns = ([], []) \<longleftrightarrow> ns = ([], []) \<and> \<not> b"
  by (auto simp: add_reason_def add_pending_def prod_eq_iff)

interpretation dependency: clearing no_notes "dependency_step q" for q
  by unfold_locales (auto simp: dependency_step_def Let_def add_clear split: if_splits)

interpretation prerequisite: clearing no_notes "prerequisite_step q" for q
proof
  fix ns p assume "no_notes (prerequisite_step q ns p)"
  then show "no_notes ns"
    by (auto simp: prerequisite_step_def Let_def add_clear split: if_splits dest!: dependency.foldl_clear)
qed

interpretation resource_notes: clearing no_notes resource_step
  by unfold_locales (auto simp: resource_step_def add_clear)

interpretation cost_notes: clearing "\<lambda>st. no_notes (cs_notes st)" "cost_step camp" for camp
  by unfold_locales (auto simp: cost_step_def Let_def add_clear split: option.splits if_splits)

section \<open>Weights\<close>

lemma profile_weights:
  assumes "name \<in> set (map fst PROFILES)"
  shows "\<forall>i < 6. 0 \<le> profile_value name i" and "(\<Sum>i < 6. profile_value name i) = 100"
  using assms by (auto simp: PROFILES_def profile_value_def eval_nat_numeral less_Suc_eq lessThan_Suc)

lemma effective_weight_nonneg:
  assumes "valid_mix mix" and "i < 6"
  shows "0 \<le> effective_weight mix i"
proof -
  have "0 \<le> fraction * profile_value profile i" if "(profile, fraction) \<in> set mix" for profile fraction
    using assms that profile_weights(1) [of profile] unfolding valid_mix_def list_all_iff by force
  then have "0 \<le> sum_list (map (\<lambda>(profile, fraction). fraction * profile_value profile i) mix)"
    by (intro sum_list_nonneg) auto
  moreover have "0 \<le> profile_value ''common'' i" using assms(2) profile_weights(1) [of "''common''"] by (simp add: PROFILES_def)
  ultimately show ?thesis by (simp add: effective_weight_def)
qed

lemma sum_effective_weight:
  assumes "valid_mix mix"
  shows "(\<Sum>i < 6. effective_weight mix i) = 1"
proof -
  have "(\<Sum>i < 6. sum_list (map (\<lambda>(profile, fraction). fraction * profile_value profile i) xs)) = 100 * sum_list (map snd xs)"
    if "set (map fst xs) \<subseteq> set (map fst PROFILES)" for xs
    using that
  proof (induction xs)
    case (Cons x xs)
    obtain profile fraction where x: "x = (profile, fraction)" by fastforce
    have "(\<Sum>i < 6. fraction * profile_value profile i) = fraction * 100"
      using Cons.prems x profile_weights(2) [of profile] by (simp flip: sum_distrib_left)
    then show ?case using Cons x by (simp add: sum.distrib algebra_simps)
  qed simp
  then have "(\<Sum>i < 6. sum_list (map (\<lambda>(profile, fraction). fraction * profile_value profile i) mix)) = 100"
    using assms by (simp add: valid_mix_def)
  moreover have "(\<Sum>i < 6. profile_value ''common'' i) = 100" using profile_weights(2) [of "''common''"] by (simp add: PROFILES_def)
  ultimately show ?thesis by (simp add: effective_weight_def sum.distrib flip: sum_divide_distrib)
qed

lemma weight_of_simps:
  "weight_of mix ''stability'' = effective_weight mix 0" "weight_of mix ''electronic'' = effective_weight mix 1"
  "weight_of mix ''pairing'' = effective_weight mix 2" "weight_of mix ''coherence'' = effective_weight mix 3"
  "weight_of mix ''geometry'' = effective_weight mix 4" "weight_of mix ''competing_order'' = effective_weight mix 5"
  by (simp_all add: weight_of_def effective_weights_def DIMENSIONS_def eval_nat_numeral)

lemma weight_of_nonneg: "valid_mix mix \<Longrightarrow> d \<in> set DIMENSIONS \<Longrightarrow> 0 \<le> weight_of mix d"
  using effective_weight_nonneg [of mix] by (auto simp: DIMENSIONS_def weight_of_simps)

lemma sum_weight_of:
  assumes "valid_mix mix"
  shows "(\<Sum>d \<in> set DIMENSIONS. weight_of mix d) = 1"
  using sum_effective_weight [OF assms]
  by (simp add: DIMENSIONS_def weight_of_simps eval_nat_numeral lessThan_Suc add.commute add.left_commute)

lemma sum_list_keys:
  assumes "distinct (map fst dims)"
  shows "sum_list (map (\<lambda>(k, v). w k) dims) = (\<Sum>k \<in> set (map fst dims). w k)"
  using assms by (induction dims) auto

lemma weighted_sum_range:
  assumes "valid_mix mix" and "distinct (map fst dims)" and "set (map fst dims) = set DIMENSIONS"
    and "\<And>k v. (k, v) \<in> set dims \<Longrightarrow> lo \<le> f v \<and> f v \<le> hi"
  shows "lo \<le> weighted_sum mix f dims \<and> weighted_sum mix f dims \<le> hi"
proof -
  have one: "sum_list (map (\<lambda>(k, v). weight_of mix k) dims) = 1"
    using sum_list_keys [OF assms(2), of "weight_of mix"] sum_weight_of [OF assms(1)] assms(3) by simp
  have w: "0 \<le> weight_of mix k" if "(k, v) \<in> set dims" for k v
    using that assms(1,3) weight_of_nonneg by (metis fst_conv image_eqI set_map)
  have "lo * sum_list (map (\<lambda>(k, v). weight_of mix k) xs) \<le> weighted_sum mix f xs \<and>
      weighted_sum mix f xs \<le> hi * sum_list (map (\<lambda>(k, v). weight_of mix k) xs)" if "set xs \<subseteq> set dims" for xs
    using that
  proof (induction xs)
    case (Cons x xs)
    obtain k v where x: "x = (k, v)" by fastforce
    have "weight_of mix k * lo \<le> weight_of mix k * f v" "weight_of mix k * f v \<le> weight_of mix k * hi"
      using Cons.prems x w [of k v] assms(4) [of k v] by (auto intro: mult_left_mono)
    then show ?case using Cons x by (simp add: weighted_sum_def algebra_simps)
  qed (simp add: weighted_sum_def)
  from this [of dims] one show ?thesis by simp
qed

lemma weighted_sum_mono:
  assumes "valid_mix mix" and "set (map fst dims) \<subseteq> set DIMENSIONS" and "\<And>k v. (k, v) \<in> set dims \<Longrightarrow> f v \<le> g v"
  shows "weighted_sum mix f dims \<le> weighted_sum mix g dims"
  unfolding weighted_sum_def
proof (rule sum_list_mono)
  fix x assume "x \<in> set dims"
  moreover obtain k v where x: "x = (k, v)" by fastforce
  ultimately have "0 \<le> weight_of mix k" "f v \<le> g v"
    using assms weight_of_nonneg by (auto simp: subset_iff image_iff)
  then show "(case x of (k, v) \<Rightarrow> weight_of mix k * f v) \<le> (case x of (k, v) \<Rightarrow> weight_of mix k * g v)"
    using x by (simp add: mult_left_mono)
qed

section \<open>Costs\<close>

definition lower_ratio :: "campaign \<Rightarrow> cost \<Rightarrow> rat option" where
  "lower_ratio camp c =
     (case map_of (cp_budget camp) (c_resource c) of
        None \<Rightarrow> None | Some b \<Rightarrow> if b = 0 then None else Some (c_lower c / b))"

definition upper_ratio :: "campaign \<Rightarrow> cost \<Rightarrow> rat option" where
  "upper_ratio camp c =
     (case map_of (cp_budget camp) (c_resource c) of
        None \<Rightarrow> None | Some b \<Rightarrow> if b = 0 then None else map_option (\<lambda>u. u / b) (c_upper c))"

lemma cost_ratios:
  "ratios_lower (foldl (cost_step camp) st cs) = ratios_lower st @ List.map_filter (lower_ratio camp) cs"
  "ratios_upper (foldl (cost_step camp) st cs) = ratios_upper st @ List.map_filter (upper_ratio camp) cs"
  by (induction cs arbitrary: st)
     (auto simp: cost_step_def Let_def List.map_filter_simps lower_ratio_def upper_ratio_def split: option.splits)

lemma map_filter_full:
  "length (List.map_filter f xs) = length xs \<Longrightarrow> x \<in> set xs \<Longrightarrow> f x \<noteq> None"
proof (induction xs)
  case (Cons y ys)
  have "length (List.map_filter f ys) \<le> length ys" by (simp add: map_filter_def)
  then show ?case using Cons by (auto simp: List.map_filter_simps split: option.splits)
qed simp

lemma map_filter_all: "(\<And>x. x \<in> set xs \<Longrightarrow> f x \<noteq> None) \<Longrightarrow> length (List.map_filter f xs) = length xs"
proof (induction xs)
  case (Cons a xs)
  obtain y where "f a = Some y" using Cons.prems [of a] by auto
  then show ?case using Cons by (simp add: List.map_filter_simps)
qed simp

lemma set_map_filter_iff: "y \<in> set (List.map_filter f xs) \<longleftrightarrow> (\<exists>x \<in> set xs. f x = Some y)"
  by (induction xs) (auto simp: List.map_filter_simps split: option.splits)

lemma affordability_range: "0 \<le> affordability r \<and> affordability r \<le> 1"
  by (simp add: affordability_def)

lemma affordability_antimono: "r \<le> t \<Longrightarrow> affordability t \<le> affordability r"
  by (simp add: affordability_def)

lemma budget_nonneg:
  assumes "valid_campaign camp" and "map_of (cp_budget camp) r = Some b"
  shows "0 \<le> b"
proof -
  have "(r, b) \<in> set (cp_budget camp)" using assms(2) by (rule map_of_SomeD)
  then show ?thesis using assms(1) by (auto simp: valid_campaign_def list_all_iff)
qed

lemma ratio_le:
  assumes "valid_campaign camp" and "valid_cost c" and "lower_ratio camp c = Some l" and "upper_ratio camp c = Some u"
  shows "l \<le> u"
proof -
  obtain b v where b: "map_of (cp_budget camp) (c_resource c) = Some b" "b \<noteq> 0" "l = c_lower c / b"
    and v: "c_upper c = Some v" "u = v / b"
    using assms(3,4) by (auto simp: lower_ratio_def upper_ratio_def split: option.splits if_splits)
  have "0 < b" using budget_nonneg [OF assms(1) b(1)] b(2) by simp
  moreover have "c_lower c \<le> v" using assms(2) v by (simp add: valid_cost_def)
  ultimately show ?thesis using b v by (simp add: divide_right_mono)
qed

lemma afford_le:
  assumes "valid_campaign camp" and "list_all valid_cost (as_costs a)"
    and "afford_lower a camp = Some bl" and "afford_upper a camp = Some bu"
  shows "bl \<le> bu"
proof -
  let ?ls = "List.map_filter (lower_ratio camp) (as_costs a)" and ?us = "List.map_filter (upper_ratio camp) (as_costs a)"
  have ls: "ratios_lower (cost_result a camp) = ?ls" and us: "ratios_upper (cost_result a camp) = ?us"
    by (simp_all add: cost_result_def cost_ratios)
  have ne: "as_costs a \<noteq> []" and lu: "length ?us = length (as_costs a)" and ll: "length ?ls = length (as_costs a)"
    and b: "bl = affordability (Max (set ?us))" "bu = affordability (Max (set ?ls))"
    using assms(3,4) by (auto simp: afford_lower_def afford_upper_def Let_def ls us split: if_splits)
  have "Max (set ?ls) \<le> Max (set ?us)"
  proof (rule Max.boundedI)
    show "set ?ls \<noteq> {}" using ne ll by auto
    fix l assume "l \<in> set ?ls"
    then obtain c where c: "c \<in> set (as_costs a)" "lower_ratio camp c = Some l" by (auto simp: set_map_filter_iff)
    obtain u where u: "upper_ratio camp c = Some u" using map_filter_full [OF lu c(1)] by blast
    have "l \<le> u" using ratio_le [OF assms(1) _ c(2) u] assms(2) c(1) by (auto simp: list_all_iff)
    moreover have "u \<in> set ?us" using c(1) u by (auto simp: set_map_filter_iff)
    ultimately show "l \<le> Max (set ?us)" by (meson List.finite_set Max.coboundedI order_trans)
  qed simp
  then show ?thesis using b affordability_antimono by simp
qed

section \<open>What a clear evaluation means\<close>

lemma cost_step_clear:
  assumes "no_notes (cs_notes (cost_step camp st c))"
  shows "\<exists>u. upper_ratio camp c = Some u \<and> u \<le> 1"
proof (cases "map_of (cp_budget camp) (c_resource c)")
  case None
  then show ?thesis using assms by (simp add: cost_step_def add_clear)
next
  case (Some b)
  have "b \<noteq> 0" using Some assms by (auto simp: cost_step_def add_clear)
  moreover obtain u where "c_upper c = Some u"
    using Some \<open>b \<noteq> 0\<close> assms by (cases "c_upper c") (auto simp: cost_step_def add_clear)
  ultimately show ?thesis using Some assms by (simp add: cost_step_def upper_ratio_def add_clear)
qed

lemma clear_notes:
  assumes "no_notes (cs_notes (cost_result a camp))"
  shows "no_notes (foldl (prerequisite_step (as_requirements a)) ([], []) (ar_prerequisites (as_requirements a)))"
    and "\<And>r. r \<in> set (ar_resources (as_requirements a)) \<Longrightarrow> rd_applicability r \<noteq> UnknownApplicability"
    and "\<And>c. c \<in> set (as_costs a) \<Longrightarrow> \<exists>u. upper_ratio camp c = Some u \<and> u \<le> 1"
proof -
  let ?q = "as_requirements a"
  have before: "no_notes (notes_before_costs a camp)"
    using cost_notes.foldl_clear [OF assms [unfolded cost_result_def]] by simp
  then have res: "no_notes (foldl resource_step (foldl (prerequisite_step ?q) ([], []) (ar_prerequisites ?q)) (ar_resources ?q))"
    by (auto simp: notes_before_costs_def Let_def add_clear) (auto simp: add_reason_def split: if_splits dest: resource_notes.foldl_clear prerequisite.foldl_clear)
  show "no_notes (foldl (prerequisite_step ?q) ([], []) (ar_prerequisites ?q))"
    using resource_notes.foldl_clear [OF res] .
  show "rd_applicability r \<noteq> UnknownApplicability" if "r \<in> set (ar_resources ?q)" for r
    using resource_notes.foldl_clear_elem [OF res that] by (auto simp: resource_step_def add_clear)
  show "\<exists>u. upper_ratio camp c = Some u \<and> u \<le> 1" if "c \<in> set (as_costs a)" for c
    using cost_notes.foldl_clear_elem [OF assms [unfolded cost_result_def] that] cost_step_clear by blast
qed

lemma clear_prerequisite:
  assumes "no_notes (cs_notes (cost_result a camp))" and "p \<in> set (ar_prerequisites (as_requirements a))"
    and "critical_prerequisite (as_requirements a) p"
  shows "pd_status p = Satisfied"
    and "\<And>i d. i \<in> set (pd_dependency_ids p) \<Longrightarrow> dependency_of (as_requirements a) i = Some d \<Longrightarrow> dep_status d \<noteq> DepBlocked"
proof -
  let ?q = "as_requirements a"
  obtain ns where "no_notes (prerequisite_step ?q ns p)"
    using prerequisite.foldl_clear_elem [OF clear_notes(1) [OF assms(1)] assms(2)] by blast
  moreover define ns3 where "ns3 = add_pending (pd_status p = PreUnknown) (''critical_prerequisite_unknown:'' @ pd_key p)
      (add_pending (pd_status p = PrePending) (''critical_prerequisite_pending:'' @ pd_key p)
        (add_reason (pd_status p = PreBlocked) (''critical_prerequisite_blocked:'' @ pd_key p) ns))"
  ultimately have deps: "no_notes (foldl (dependency_step ?q) ns3 (pd_dependency_ids p))"
    using assms(3) by (simp add: prerequisite_step_def Let_def)
  then have "no_notes ns3" by (rule dependency.foldl_clear)
  then have st: "pd_status p \<notin> {PreBlocked, PrePending, PreUnknown}" by (simp add: ns3_def add_clear)
  show "pd_status p = Satisfied" using st assms(3) by (cases "pd_status p") (auto simp: critical_prerequisite_def)
  show "dep_status d \<noteq> DepBlocked" if "i \<in> set (pd_dependency_ids p)" "dependency_of ?q i = Some d" for i d
    using dependency.foldl_clear_elem [OF deps that(1)] that(2) by (auto simp: dependency_step_def Let_def add_clear)
qed

lemma eligible_clear:
  assumes "eligibility_of (evaluate_mix dg a camp mix) = Eligible"
  shows "no_notes (cs_notes (cost_result a camp))"
  using assms
  by (auto simp: evaluate_mix_def Let_def choose_eligibility_def prod_eq_iff split: if_splits)

lemma required_resource:
  assumes "valid_requirements q" and "\<forall>r \<in> set (ar_resources q). rd_applicability r \<noteq> UnknownApplicability"
  shows "\<exists>r \<in> set (ar_resources q). rd_applicability r = Required"
proof -
  have t: "valid_template (ar_template q)" and cons: "list_all (resource_consistent (ar_template q)) (ar_resources q)"
    and all: "set (map rd_resource (ar_resources q)) = set RESOURCES"
    using assms(1) by (auto simp: valid_requirements_def)
  obtain k where k: "(k, RuleRequired) \<in> set (t_resource_rules (ar_template q))"
    using t by (auto simp: valid_template_def)
  then have rule: "map_of (t_resource_rules (ar_template q)) k = Some RuleRequired"
    using t by (simp add: valid_template_def)
  have "k \<in> set RESOURCES" by (cases k) (simp_all add: RESOURCES_def)
  then obtain r where r: "r \<in> set (ar_resources q)" "rd_resource r = k" using all by (metis image_iff set_map)
  then have "rd_applicability r \<noteq> NotApplicable"
    using cons rule by (auto simp: list_all_iff resource_consistent_def)
  then show ?thesis using r assms(2) by (cases "rd_applicability r") auto
qed

lemma eligible_affordable:
  assumes "valid_assessment a" and "no_notes (cs_notes (cost_result a camp))"
  shows "\<exists>bl bu. afford_lower a camp = Some bl \<and> afford_upper a camp = Some bu"
proof -
  have q: "valid_requirements (as_requirements a)" and comp: "assessment_complete a"
    using assms(1) by (auto simp: valid_assessment_def)
  from required_resource [OF q] clear_notes(2) [OF assms(2)] obtain r where
    "r \<in> set (ar_resources (as_requirements a))" "rd_applicability r = Required" by blast
  then have "rd_resource r \<in> set (map c_resource (as_costs a))"
    using comp unfolding assessment_complete_def by auto
  then have ne: "as_costs a \<noteq> []" by auto
  have up: "upper_ratio camp c \<noteq> None" and low: "lower_ratio camp c \<noteq> None" if "c \<in> set (as_costs a)" for c
    using clear_notes(3) [OF assms(2) that] by (auto simp: upper_ratio_def lower_ratio_def split: option.splits if_splits)
  show ?thesis using ne map_filter_all [of "as_costs a" "upper_ratio camp"] map_filter_all [of "as_costs a" "lower_ratio camp"] up low
    by (simp add: afford_lower_def afford_upper_def cost_result_def cost_ratios)
qed

lemma afford_range:
  "afford_lower a camp = Some b \<Longrightarrow> 0 \<le> b \<and> b \<le> 1" "afford_upper a camp = Some b \<Longrightarrow> 0 \<le> b \<and> b \<le> 1"
  using affordability_range by (auto simp: afford_lower_def afford_upper_def Let_def split: if_splits)



section \<open>Ranges of the evaluation\<close>

lemma dimension_bounds:
  assumes "valid_dimension d"
  shows "0 \<le> d_lower d \<and> d_lower d \<le> d_upper d \<and> d_upper d \<le> 100"
proof -
  have anch: "d_lower d \<in> ANCHORS" "d_upper d \<in> ANCHORS" and r: "dimension_range_ok d"
    using assms by (auto simp: valid_dimension_def dimension_range_ok_def)
  have "d_lower d \<le> d_upper d"
    using r by (cases "d_status d") (auto simp: dimension_range_ok_def split: option.splits)
  moreover have "0 \<le> x \<and> x \<le> 100" if "x \<in> ANCHORS" for x using that by (auto simp: ANCHORS_def)
  ultimately show ?thesis using anch by blast
qed

lemma action_bounds:
  assumes "valid_action_anchor x"
  shows "0 \<le> aa_lower x \<and> aa_lower x \<le> aa_upper x \<and> aa_upper x \<le> 1"
  using assms by (auto simp: valid_action_anchor_def QUARTERS_def)

lemma mult_unit: "0 \<le> x \<Longrightarrow> x \<le> x' \<Longrightarrow> x' \<le> 1 \<Longrightarrow> 0 \<le> y \<Longrightarrow> y \<le> y' \<Longrightarrow> y' \<le> 1 \<Longrightarrow>
    0 \<le> x * y \<and> x * y \<le> x' * y' \<and> x' * y' \<le> (1::rat)"
  by (auto intro: mult_mono mult_le_one)

lemma evaluate_Inr:
  assumes "evaluate dg a camp = Inr e"
  obtains mix where "map_of (cp_profile_mixes camp) (ref_id (as_profile_assignment a)) = Some mix"
    "lookups_ok a mix" "e = evaluate_mix dg a camp mix"
  using assms by (auto simp: evaluate_def split: option.splits)

lemma campaign_mix:
  assumes "valid_campaign camp" and "map_of (cp_profile_mixes camp) k = Some mix"
  shows "valid_mix mix"
  using assms(1) map_of_SomeD [OF assms(2)] by (auto simp: valid_campaign_def list_all_iff)

lemma part_ranges:
  assumes "valid_assessment a" and "valid_mix mix"
  shows "0 \<le> p_lower (evaluate_mix dg a camp mix)" "p_lower (evaluate_mix dg a camp mix) \<le> p_upper (evaluate_mix dg a camp mix)"
    "p_upper (evaluate_mix dg a camp mix) \<le> 100"
    "0 \<le> g_lower (evaluate_mix dg a camp mix)" "g_lower (evaluate_mix dg a camp mix) \<le> g_upper (evaluate_mix dg a camp mix)"
    "g_upper (evaluate_mix dg a camp mix) \<le> 100"
proof -
  let ?e = "evaluate_mix dg a camp mix" and ?dims = "as_dimensions a"
  have keys: "distinct (map fst ?dims)" "set (map fst ?dims) = set DIMENSIONS"
    using assms(1) by (auto simp: valid_assessment_def assessment_complete_def)
  have d: "0 \<le> d_lower v \<and> d_lower v \<le> d_upper v \<and> d_upper v \<le> 100" if "(k, v) \<in> set ?dims" for k v
    using assms(1) that by (intro dimension_bounds) (auto simp: valid_assessment_def list_all_iff)
  have pl: "p_lower ?e = weighted_sum mix d_lower ?dims" and pu: "p_upper ?e = weighted_sum mix d_upper ?dims"
    by (simp_all add: evaluate_mix_def Let_def)
  have "0 \<le> weighted_sum mix d_lower ?dims \<and> weighted_sum mix d_lower ?dims \<le> 100"
    by (rule weighted_sum_range [OF assms(2) keys]) (use d in fastforce)
  then show "0 \<le> p_lower ?e" using pl by simp
  have "0 \<le> weighted_sum mix d_upper ?dims \<and> weighted_sum mix d_upper ?dims \<le> 100"
    by (rule weighted_sum_range [OF assms(2) keys]) (use d in fastforce)
  then show "p_upper ?e \<le> 100" using pu by simp
  show "p_lower ?e \<le> p_upper ?e" unfolding pl pu
    by (rule weighted_sum_mono [OF assms(2)]) (use keys d in auto)
  have "valid_action_anchor (as_decision_impact a)" "valid_action_anchor (as_discrimination a)"
    using assms(1) by (auto simp: valid_assessment_def)
  note ab = action_bounds [OF this(1)] action_bounds [OF this(2)]
  have "0 \<le> aa_lower (as_decision_impact a) * aa_lower (as_discrimination a) \<and>
      aa_lower (as_decision_impact a) * aa_lower (as_discrimination a) \<le> aa_upper (as_decision_impact a) * aa_upper (as_discrimination a) \<and>
      aa_upper (as_decision_impact a) * aa_upper (as_discrimination a) \<le> 1"
    using ab by (intro mult_unit) auto
  then show "0 \<le> g_lower ?e" "g_lower ?e \<le> g_upper ?e" "g_upper ?e \<le> 100"
    by (simp_all add: evaluate_mix_def Let_def mult.assoc)
qed

lemma action_part:
  assumes "valid_assessment a" and "valid_campaign camp"
    and "afford_lower a camp = Some bl" and "afford_upper a camp = Some bu"
  shows "\<exists>al au. a_lower (evaluate_mix dg a camp mix) = Some al \<and> a_upper (evaluate_mix dg a camp mix) = Some au \<and>
    0 \<le> al \<and> al \<le> au \<and> au \<le> 100"
proof -
  have "valid_action_anchor (as_readiness a)" "list_all valid_cost (as_costs a)"
    using assms(1) by (auto simp: valid_assessment_def)
  note r = action_bounds [OF this(1)] and le = afford_le [OF assms(2) this(2) assms(3,4)]
  have "a_lower (evaluate_mix dg a camp mix) = Some (50 * (bl + aa_lower (as_readiness a)))"
    "a_upper (evaluate_mix dg a camp mix) = Some (50 * (bu + aa_upper (as_readiness a)))"
    using assms(3,4) by (simp_all add: evaluate_mix_def Let_def)
  then show ?thesis using r le afford_range(1) [OF assms(3)] afford_range(2) [OF assms(4)] by simp
qed

lemma round_half_up_near: "0 \<le> x \<Longrightarrow> \<bar>of_int (round_half_up x) - x\<bar> \<le> (1/2 :: rat)"
proof -
  assume "0 \<le> x"
  then have "round_half_up x = \<lfloor>x + 1/2\<rfloor>" by (simp add: round_half_up_def)
  moreover have "of_int \<lfloor>x + 1/2\<rfloor> \<le> x + 1/2" "x + 1/2 < of_int \<lfloor>x + 1/2\<rfloor> + 1" by linarith+
  ultimately show ?thesis unfolding abs_le_iff by linarith
qed

lemma round_score_near: "0 \<le> r \<Longrightarrow> \<bar>of_int (round_score r) - r\<bar> \<le> (25 :: rat)"
  using round_half_up_near [of "r / 50"] by (simp add: round_score_def abs_le_iff field_simps)

lemma score_fields:
  "score_raw (evaluate_mix dg a camp mix) =
     (if eligibility_of (evaluate_mix dg a camp mix) = Eligible
      then map_option (\<lambda>x. 1000 + 45 * p_lower (evaluate_mix dg a camp mix) + 27 * g_lower (evaluate_mix dg a camp mix) + 18 * x)
             (a_lower (evaluate_mix dg a camp mix)) else None)"
  "score_upper (evaluate_mix dg a camp mix) =
     (if score_raw (evaluate_mix dg a camp mix) \<noteq> None
      then map_option (\<lambda>x. 1000 + 45 * p_upper (evaluate_mix dg a camp mix) + 27 * g_upper (evaluate_mix dg a camp mix) + 18 * x)
             (a_upper (evaluate_mix dg a camp mix)) else None)"
  "score_display (evaluate_mix dg a camp mix) = map_option round_score (score_raw (evaluate_mix dg a camp mix))"
  "contrib_physical (evaluate_mix dg a camp mix) = 45 * (p_lower (evaluate_mix dg a camp mix) - 50)"
  "contrib_gain (evaluate_mix dg a camp mix) = 27 * (g_lower (evaluate_mix dg a camp mix) - 50)"
  "contrib_action (evaluate_mix dg a camp mix) = map_option (\<lambda>x. 18 * (x - 50)) (a_lower (evaluate_mix dg a camp mix))"
  by (simp_all only: evaluate_mix_def Let_def evaluation.simps)

lemma sum_dimension_contributions:
  assumes "valid_assessment a" and "valid_mix mix"
  shows "sum_list (map snd (contrib_dimensions (evaluate_mix dg a camp mix))) = contrib_physical (evaluate_mix dg a camp mix)"
proof -
  let ?dims = "as_dimensions a"
  have keys: "distinct (map fst ?dims)" "set (map fst ?dims) = set DIMENSIONS"
    using assms(1) by (auto simp: valid_assessment_def assessment_complete_def)
  have "sum_list (map snd (map (\<lambda>(k, v). (k, 45 * weight_of mix k * (d_lower v - 50))) xs)) =
      45 * (weighted_sum mix d_lower xs - 50 * sum_list (map (\<lambda>(k, v). weight_of mix k) xs))" for xs
    by (induction xs) (auto simp: weighted_sum_def algebra_simps)
  moreover have "sum_list (map (\<lambda>(k, v). weight_of mix k) ?dims) = 1"
    using sum_list_keys [OF keys(1), of "weight_of mix"] sum_weight_of [OF assms(2)] keys(2) by simp
  ultimately show ?thesis by (simp add: evaluate_mix_def Let_def)
qed

section \<open>Properties\<close>

text \<open>
  C15. A score exists exactly for eligible assessments, and it is well scaled: between 1000 and
  10000, at most its upper score, which is at most 10000 too, and displayed as the multiple
  of 50 within 25 points of it.
\<close>
theorem priority_score_bounds:
  assumes "valid_assessment a" and "valid_campaign camp" and "evaluate dg a camp = Inr e"
  shows "(score_raw e \<noteq> None \<longleftrightarrow> eligibility_of e = Eligible) \<and>
    (eligibility_of e = Eligible \<longrightarrow>
       (\<exists>r u d. score_raw e = Some r \<and> score_upper e = Some u \<and> score_display e = Some d \<and>
          1000 \<le> r \<and> r \<le> u \<and> u \<le> 10000 \<and> d mod 50 = 0 \<and> \<bar>of_int d - r\<bar> \<le> 25))"
proof -
  obtain mix where m: "map_of (cp_profile_mixes camp) (ref_id (as_profile_assignment a)) = Some mix"
    and e: "e = evaluate_mix dg a camp mix" using evaluate_Inr [OF assms(3)] by metis
  note mix = campaign_mix [OF assms(2) m]
  note ranges = part_ranges [OF assms(1) mix, of dg camp, folded e] and fields = score_fields [of dg a camp mix, folded e]
  have main: "\<exists>r u d. score_raw e = Some r \<and> score_upper e = Some u \<and> score_display e = Some d \<and>
          1000 \<le> r \<and> r \<le> u \<and> u \<le> 10000 \<and> d mod 50 = 0 \<and> \<bar>of_int d - r\<bar> \<le> 25" if el: "eligibility_of e = Eligible"
  proof -
    have "no_notes (cs_notes (cost_result a camp))" using el e eligible_clear by blast
    from eligible_affordable [OF assms(1) this] action_part [OF assms(1,2), of _ _ dg mix, folded e] obtain al au where
      al: "a_lower e = Some al" "a_upper e = Some au" "0 \<le> al" "al \<le> au" "au \<le> 100" by blast
    let ?r = "1000 + 45 * p_lower e + 27 * g_lower e + 18 * al" and ?u = "1000 + 45 * p_upper e + 27 * g_upper e + 18 * au"
    have s: "score_raw e = Some ?r" "score_upper e = Some ?u" "score_display e = Some (round_score ?r)"
      using fields(1-3) el al by simp_all
    have "1000 \<le> ?r" "?r \<le> ?u" "?u \<le> 10000" using ranges al by linarith+
    moreover have "round_score ?r mod 50 = 0" by (simp add: round_score_def)
    moreover have "\<bar>of_int (round_score ?r) - ?r\<bar> \<le> 25" using round_score_near [of ?r] \<open>1000 \<le> ?r\<close> by linarith
    ultimately show ?thesis using s by (intro exI [of _ ?r] exI [of _ ?u] exI [of _ "round_score ?r"] conjI)
  qed
  moreover have "score_raw e = None" if "eligibility_of e \<noteq> Eligible" using fields(1) that by simp
  ultimately show ?thesis by fastforce
qed

text \<open>
  The published decomposition adds up: a score is the baseline 5500 plus the physical, gain
  and action contributions, and the physical contribution is the sum of the six dimension
  contributions.
\<close>
theorem priority_contributions_add_up:
  assumes "valid_assessment a" and "valid_campaign camp" and "evaluate dg a camp = Inr e" and "score_raw e = Some r"
  shows "\<exists>act. contrib_action e = Some act \<and> r = 5500 + contrib_physical e + contrib_gain e + act \<and>
     contrib_physical e = sum_list (map snd (contrib_dimensions e))"
proof -
  obtain mix where m: "map_of (cp_profile_mixes camp) (ref_id (as_profile_assignment a)) = Some mix"
    and e: "e = evaluate_mix dg a camp mix" using evaluate_Inr [OF assms(3)] by metis
  note fields = score_fields [of dg a camp mix, folded e]
  obtain al where "a_lower e = Some al" "r = 1000 + 45 * p_lower e + 27 * g_lower e + 18 * al"
    using assms(4) fields(1) by (auto split: if_splits)
  then have "contrib_action e = Some (18 * (al - 50))" "r = 5500 + contrib_physical e + contrib_gain e + 18 * (al - 50)"
    using fields(4-6) by (simp_all add: algebra_simps)
  then show ?thesis using sum_dimension_contributions [OF assms(1) campaign_mix [OF assms(2) m], of dg camp, folded e] by auto
qed

text \<open>
  C17. What eligibility guarantees: every critical prerequisite that applies is satisfied by
  dependencies that are all available, every declared cost has an upper estimate within a
  positive budget, and the reason list is empty.
\<close>
theorem priority_eligible_ready:
  assumes "valid_assessment a" and "evaluate dg a camp = Inr e" and "eligibility_of e = Eligible"
    and "p \<in> set (ar_prerequisites (as_requirements a))" and "critical_prerequisite (as_requirements a) p"
    and "c \<in> set (as_costs a)"
  shows "reason_codes e = [] \<and> pd_status p = Satisfied \<and>
    list_all (\<lambda>i. case dependency_of (as_requirements a) i of Some d \<Rightarrow> dep_status d = DepAvailable | None \<Rightarrow> False)
      (pd_dependency_ids p) \<and>
    (\<exists>b u. map_of (cp_budget camp) (c_resource c) = Some b \<and> c_upper c = Some u \<and> b \<noteq> 0 \<and> u / b \<le> 1)"
proof -
  let ?q = "as_requirements a"
  obtain mix where e: "e = evaluate_mix dg a camp mix" using evaluate_Inr [OF assms(2)] by metis
  have clear: "no_notes (cs_notes (cost_result a camp))" using assms(3) e eligible_clear by blast
  have sat: "pd_status p = Satisfied" using clear_prerequisite(1) [OF clear assms(4,5)] .
  have cons: "prerequisite_consistent ?q p"
    using assms(1,4) by (auto simp: valid_assessment_def valid_requirements_def list_all_iff)
  have "case dependency_of ?q i of Some d \<Rightarrow> dep_status d = DepAvailable | None \<Rightarrow> False" if i: "i \<in> set (pd_dependency_ids p)" for i
  proof -
    have "i \<in> set (map dep_id (ar_dependencies ?q))" using cons i by (auto simp: prerequisite_consistent_def split: option.splits)
    then have "dependency_of ?q i \<noteq> None" by (auto simp: dependency_of_def find_None_iff)
    then obtain d where d: "dependency_of ?q i = Some d" by blast
    then have "d \<in> set (List.map_filter (dependency_of ?q) (pd_dependency_ids p))" using i by (auto simp: set_map_filter_iff)
    then have "dep_status d = DepAvailable"
      using cons sat by (auto simp: prerequisite_consistent_def Let_def list_all_iff split: option.splits)
    then show ?thesis using d by simp
  qed
  moreover have "\<exists>b u. map_of (cp_budget camp) (c_resource c) = Some b \<and> c_upper c = Some u \<and> b \<noteq> 0 \<and> u / b \<le> 1"
    using clear_notes(3) [OF clear assms(6)] by (auto simp: upper_ratio_def split: option.splits if_splits)
  moreover have "reason_codes e = []" using clear e by (simp add: evaluate_mix_def Let_def)
  ultimately show ?thesis using sat by (simp add: list_all_iff)
qed

text \<open>
  A validated assessment whose profile assignment the campaign knows is evaluated: none of
  the dictionary lookups of the evaluation fails.
\<close>
theorem priority_evaluates:
  assumes "valid_assessment a" and "valid_campaign camp"
    and "ref_id (as_profile_assignment a) \<in> set (map fst (cp_profile_mixes camp))"
  shows "\<exists>e. evaluate dg a camp = Inr e \<and> sum_list (map snd (weights e)) = 1"
proof -
  obtain mix where m: "map_of (cp_profile_mixes camp) (ref_id (as_profile_assignment a)) = Some mix"
    using assms(3) by (metis map_of_eq_None_iff option.exhaust set_map)
  note mix = campaign_mix [OF assms(2) m]
  let ?q = "as_requirements a"
  have q: "list_all (prerequisite_consistent ?q) (ar_prerequisites ?q)"
    using assms(1) by (auto simp: valid_assessment_def valid_requirements_def)
  have "case rule_of ?q (pd_key p) of None \<Rightarrow> False
      | Some r \<Rightarrow> critical_prerequisite ?q p \<longrightarrow> list_all (\<lambda>i. dependency_of ?q i \<noteq> None) (pd_dependency_ids p)"
    if "p \<in> set (ar_prerequisites ?q)" for p
  proof -
    have "prerequisite_consistent ?q p" using q that by (simp add: list_all_iff)
    then show ?thesis
      by (auto simp: prerequisite_consistent_def list_all_iff dependency_of_def find_None_iff split: option.splits)
  qed
  then have "lookups_ok a mix"
    using mix assms(1) by (auto simp: lookups_ok_def valid_mix_def valid_assessment_def assessment_complete_def list_all_iff)
  moreover have "sum_list (map snd (weights (evaluate_mix dg a camp mix))) = 1"
    using sum_effective_weight [OF mix]
    by (simp add: evaluate_mix_def Let_def effective_weights_def DIMENSIONS_def eval_nat_numeral lessThan_Suc add.commute add.left_commute)
  ultimately show ?thesis using m by (auto simp: evaluate_def)
qed

section \<open>A concrete assessment\<close>

definition demo_ref :: reference where
  "demo_ref = \<lparr>ref_id = ''r1'', ref_sha256 = replicate 64 (CHR ''a'')\<rparr>"

definition demo_dimension :: dimension where
  "demo_dimension = \<lparr>d_status = Assessed, d_anchor = Some 75, d_lower = 50, d_upper = 100, d_rule_id = ''rule'',
     d_rationale = ''known phase'', d_evidence = [demo_ref], d_missing_reason = None, d_polarity = Supporting\<rparr>"

definition demo_anchor :: action_anchor where
  "demo_anchor = \<lparr>aa_anchor = 1, aa_lower = 1/2, aa_upper = 1, aa_rationale = ''r'', aa_evidence = [demo_ref]\<rparr>"

definition demo_template :: action_template where
  "demo_template = \<lparr>t_version = ''v1'', t_title = ''DFPT'', t_kind = Calculation, t_scope = ''phonons'',
     t_prerequisites = [\<lparr>pr_key = ''structure'', pr_description = ''cell'', pr_kind = Structure, pr_critical = True,
        pr_allow_not_applicable = False\<rparr>],
     t_completeness_rationale = ''complete'',
     t_resource_rules = (CpuCoreHours, RuleRequired) # map (\<lambda>r. (r, RuleNotApplicable)) [GpuHours, MemoryGib, StorageGib, HumanHours]\<rparr>"

definition demo_requirements :: action_requirements where
  "demo_requirements = \<lparr>ar_template_ref = demo_ref, ar_template_review = demo_ref, ar_template = demo_template,
     ar_prerequisites = [\<lparr>pd_key = ''structure'', pd_status = Satisfied, pd_rationale = ''given'', pd_evidence = [demo_ref],
        pd_dependency_ids = [''cif'']\<rparr>],
     ar_dependencies = [\<lparr>dep_id = ''cif'', dep_kind = Structure, dep_status = DepAvailable, dep_rationale = ''file'',
        dep_evidence = [demo_ref]\<rparr>],
     ar_resources = map (\<lambda>r. \<lparr>rd_resource = r, rd_applicability = (if r = CpuCoreHours then Required else NotApplicable),
        rd_rationale = ''x'', rd_evidence = [demo_ref]\<rparr>) RESOURCES\<rparr>"

definition demo_cost :: cost where
  "demo_cost = \<lparr>c_resource = CpuCoreHours, c_lower = 5, c_upper = Some 20, c_basis = ''runs'', c_evidence = [demo_ref]\<rparr>"

definition demo_assessment :: assessment where
  "demo_assessment = \<lparr>as_id = ''a1'', as_revision = 1, as_material = demo_ref, as_state = demo_ref, as_action = demo_ref,
     as_profile_assignment = demo_ref, as_formula = ''MgB2'', as_family = ''boride'', as_state_summary = ''bulk'',
     as_action_summary = ''phonons'', as_role = NewCandidate, as_target_fit = Matches, as_problem_resolved = False,
     as_dimensions = map (\<lambda>d. (d, demo_dimension)) DIMENSIONS, as_decision_impact = demo_anchor,
     as_discrimination = demo_anchor, as_readiness = demo_anchor, as_requirements = demo_requirements,
     as_outcomes = [\<lparr>o_observation = ''stable'', o_decision = ''go''\<rparr>, \<lparr>o_observation = ''soft'', o_decision = ''stop''\<rparr>],
     as_costs = [demo_cost]\<rparr>"

definition demo_campaign :: campaign where
  "demo_campaign = \<lparr>cp_id = ''c1'', cp_version = ''v1'', cp_objective = ''ambient'', cp_target_pressure_max_gpa = 1,
     cp_budget = [(CpuCoreHours, 100)], cp_profile_mixes = [(''r1'', [(''multiband'', 1)])],
     cp_dimension_rules = map (\<lambda>d. (d, ''rule'')) DIMENSIONS,
     cp_action_templates = [(''r1'', replicate 64 (CHR ''a''))]\<rparr>"

definition demo_digests :: digests where
  "demo_digests = \<lparr>dg_policy_hash = ''p'', dg_requirements = (\<lambda>_. ''q'')\<rparr>"

lemmas demo_defs = demo_ref_def demo_dimension_def demo_anchor_def demo_template_def demo_requirements_def demo_cost_def
  demo_assessment_def demo_campaign_def

lemma demo_reference: "valid_reference demo_ref"
  by (simp add: demo_ref_def valid_reference_def valid_identifier_def identifier_char_def py_simps list_all_iff)

lemma demo_identifiers:
  "list_all valid_identifier [''r1'', ''a1'', ''c1'', ''v1'', ''rule'', ''structure'', ''cif'']"
  by (simp add: valid_identifier_def identifier_char_def is_alnum_char_def is_digit_char_def char_nat_def)

lemma demo_explanations:
  "list_all valid_explanation [''DFPT'', ''phonons'', ''cell'', ''complete'', ''given'', ''file'', ''x'']"
  by (simp add: valid_explanation_def bounded_text_def is_space_def char_nat_def)

lemma demo_evidence: "valid_evidence [demo_ref]"
  using demo_reference by (simp add: valid_evidence_def)

lemma demo_template_valid: "valid_template demo_template"
  using demo_identifiers demo_explanations
  by (simp add: valid_template_def demo_template_def valid_prerequisite_rule_def RESOURCES_def)

lemma demo_requirements_valid: "valid_requirements demo_requirements"
  using demo_identifiers demo_explanations demo_evidence demo_reference demo_template_valid
  by (simp add: valid_requirements_def demo_requirements_def valid_prerequisite_def valid_dependency_def
      valid_resource_declaration_def RESOURCES_def prerequisite_consistent_def rule_of_def dependency_of_def
      resource_consistent_def demo_template_def List.map_filter_simps)

lemma demo_assessment_valid: "valid_assessment demo_assessment"
  using demo_identifiers demo_evidence demo_reference demo_requirements_valid
  by (simp add: valid_assessment_def demo_assessment_def assessment_complete_def valid_dimension_def dimension_range_ok_def
      demo_dimension_def ANCHORS_def valid_action_anchor_def demo_anchor_def QUARTERS_def valid_outcome_def bounded_text_def
      valid_cost_def demo_cost_def demo_requirements_def RESOURCES_def DIMENSIONS_def len_set_def py_strip_def is_space_def char_nat_def)

lemma demo_campaign_valid: "valid_campaign demo_campaign"
  using demo_identifiers demo_reference
  by (simp add: valid_campaign_def demo_campaign_def bounded_text_def valid_mix_def PROFILES_def DIMENSIONS_def
      valid_reference_def demo_ref_def)

lemma demo_lookups: "lookups_ok demo_assessment [(''multiband'', 1)]"
  by (simp add: lookups_ok_def PROFILES_def demo_assessment_def demo_requirements_def demo_template_def rule_of_def
      critical_prerequisite_def dependency_of_def DIMENSIONS_def)

lemma demo_notes: "cs_notes (cost_result demo_assessment demo_campaign) = ([], [])"
  by (simp add: cost_result_def notes_before_costs_def Let_def demo_defs prerequisite_step_def critical_prerequisite_def
      rule_of_def dependency_step_def dependency_of_def resource_step_def RESOURCES_def cost_step_def add_reason_def add_pending_def)

lemma demo_evaluation:
  "\<exists>e. evaluate demo_digests demo_assessment demo_campaign = Inr e \<and> eligibility_of e = Eligible"
proof -
  have "evaluate demo_digests demo_assessment demo_campaign =
      Inr (evaluate_mix demo_digests demo_assessment demo_campaign [(''multiband'', 1)])"
    using demo_lookups by (simp add: evaluate_def demo_campaign_def demo_assessment_def demo_ref_def)
  moreover have "eligibility_of (evaluate_mix demo_digests demo_assessment demo_campaign [(''multiband'', 1)]) = Eligible"
    using demo_notes by (simp add: evaluate_mix_def Let_def choose_eligibility_def demo_assessment_def)
  ultimately show ?thesis by blast
qed

theorem priority_score_bounds_witness:
  "\<exists>e r. evaluate demo_digests demo_assessment demo_campaign = Inr e \<and> score_raw e = Some r \<and> 1000 \<le> r"
  using demo_evaluation priority_score_bounds [OF demo_assessment_valid demo_campaign_valid] by blast

theorem priority_contributions_add_up_witness:
  "\<exists>e r act. evaluate demo_digests demo_assessment demo_campaign = Inr e \<and> score_raw e = Some r \<and>
     r = 5500 + contrib_physical e + contrib_gain e + act"
proof -
  obtain e where e: "evaluate demo_digests demo_assessment demo_campaign = Inr e" "eligibility_of e = Eligible"
    using demo_evaluation by blast
  obtain mix where m: "e = evaluate_mix demo_digests demo_assessment demo_campaign mix" using evaluate_Inr [OF e(1)] by metis
  have "no_notes (cs_notes (cost_result demo_assessment demo_campaign))" by (rule demo_notes)
  from eligible_affordable [OF demo_assessment_valid this] action_part [OF demo_assessment_valid demo_campaign_valid]
  obtain al where "a_lower e = Some al" using m by blast
  then obtain r where r: "score_raw e = Some r" using score_fields(1) [of demo_digests demo_assessment demo_campaign mix] e(2) m by auto
  from priority_contributions_add_up [OF demo_assessment_valid demo_campaign_valid e(1) r] e(1) r show ?thesis by blast
qed

theorem priority_eligible_ready_witness:
  "\<exists>e. evaluate demo_digests demo_assessment demo_campaign = Inr e \<and> reason_codes e = []"
proof -
  obtain e where e: "evaluate demo_digests demo_assessment demo_campaign = Inr e" "eligibility_of e = Eligible"
    using demo_evaluation by blast
  let ?p = "hd (ar_prerequisites demo_requirements)"
  have "?p \<in> set (ar_prerequisites (as_requirements demo_assessment))" "critical_prerequisite (as_requirements demo_assessment) ?p"
    "demo_cost \<in> set (as_costs demo_assessment)"
    by (simp_all add: demo_assessment_def demo_requirements_def critical_prerequisite_def rule_of_def demo_template_def)
  from priority_eligible_ready [OF demo_assessment_valid e this] e(1) show ?thesis by blast
qed

theorem priority_evaluates_witness:
  "\<exists>e. evaluate demo_digests demo_assessment demo_campaign = Inr e \<and> sum_list (map snd (weights e)) = 1"
  by (rule priority_evaluates [OF demo_assessment_valid demo_campaign_valid])
     (simp add: demo_assessment_def demo_campaign_def demo_ref_def)

end
