(* ===== verification/Anomaly_Review.thy ===== *)
theory Anomaly_Review
  imports Evidence_Contract
begin

text \<open>
  Operational anomaly review (\<open>api/services/anomaly_review.py\<close>): the rule registry, the
  findings of one record, its assessment, and the review of all records of a material.

  \<open>review_env\<close> holds the two modules the review only calls: the quantity parser
  (\<open>record_quantity\<close> and \<open>parse_scientific_value\<close> of \<open>scientific_values.py\<close>) and the pressure
  classifier (\<open>classify_pressure\<close> of \<open>pressure_semantics.py\<close>), together with the SHA-256 of the
  sorted JSON text of a value, which raises where \<open>json.dumps\<close> does (keys of mixed types, integers
  beyond the digit limit). All calls of a record are collected before their findings are built, so
  of two errors the model may name the one the code would meet later. \<open>Quantity_Review\<close> fills them with their models. Proposals are Python mappings; their numbers are compared
  exactly and combined with binary64 rounding.
\<close>

record pressure_class =
  pressure_state :: string
  pc_relation :: pyval
  pressure_gpa :: pyval
  value_lower_gpa :: pyval
  value_upper_gpa :: pyval
  uncertainty_gpa :: pyval
  pc_uncertainty_interpretation :: pyval
  pc_approximate :: pyval
  pc_raw_value :: pyval
  pc_raw_unit :: pyval
  pc_unit_basis :: pyval
  pc_version :: pyval
  pc_reasons :: "string list"

record review_env =
  re_digest :: "pyval \<Rightarrow> (py_error, string) res"
  re_quantity :: "pyval \<Rightarrow> string \<Rightarrow> string list \<Rightarrow> (py_error, pyval) res"
  re_parse :: "pyval \<Rightarrow> string \<Rightarrow> pyval \<Rightarrow> (py_error, pyval) res"
  re_pressure :: "pyval \<Rightarrow> (py_error, pressure_class) res"

section \<open>Tables\<close>

definition PUBLIC_RECORD_LIMIT :: int where "PUBLIC_RECORD_LIMIT = 100"

definition PUBLIC_FINDING_LIMIT :: nat where "PUBLIC_FINDING_LIMIT = 40"

definition TC_REVIEW_REFERENCE_K :: rat where "TC_REVIEW_REFERENCE_K = 250"

definition AMBIENT_TC_REVIEW_REFERENCE_K :: rat where "AMBIENT_TC_REVIEW_REFERENCE_K = 152"

definition PRESSURE_REVIEW_REFERENCE_GPA :: rat where "PRESSURE_REVIEW_REFERENCE_GPA = 500"

definition FAMILY_TC_REVIEW_REFERENCES_K :: "(string \<times> rat) list" where
  "FAMILY_TC_REVIEW_REFERENCES_K =
     [(''cuprate'', 180), (''iron_based'', 110), (''nickelate'', 110), (''hydride'', 270), (''mgb2'', 50),
      (''fulleride'', 50), (''bismuthate'', 45), (''conventional'', 45), (''chalcogenide'', 40), (''elemental'', 40),
      (''borocarbide'', 30), (''bis2_layered'', 30), (''heavy_fermion'', 30), (''organic'', 25), (''kagome'', 15),
      (''ruthenate'', 10)]"

text \<open>The literal \<open>0.01\<close> is the nearest float to one hundredth.\<close>

definition PARAMETER_REVIEW_REFERENCES :: "(string \<times> pyfloat \<times> pyfloat) list" where
  "PARAMETER_REVIEW_REFERENCES =
     [(''lambda_eph'', round64 (1 / 100), Finite 10), (''mu_star'', Finite 0, Finite (1 / 2)),
      (''omega_log_k'', Finite 1, Finite 5000)]"

definition TC_VIEWS :: "string list" where
  "TC_VIEWS = [''tc_kelvin'', ''tc_max'', ''tc_max_experimental'', ''tc_max_theoretical'', ''tc_ambient'']"

definition VIEW_FIELDS :: "(string \<times> string) list" where
  "VIEW_FIELDS = map (\<lambda>k. (k, ''tc_kelvin'')) TC_VIEWS @ map (\<lambda>(k, _). (k, k)) FIELD_UNITS
     @ [(''lattice_params'', ''lattice_params'')]"

definition LATTICE :: "string list" where
  "LATTICE = map (\<lambda>k. ''lattice_'' @ k) [''a'', ''b'', ''c'', ''alpha'', ''beta'', ''gamma'']"

definition RULE_DEFINITIONS :: "(string \<times> string \<times> string \<times> string) list" where
  "RULE_DEFINITIONS =
     [(''record_format_invalid'', ''format_invalid'', ''error'', ''The occurrence is not a structured scientific record.''),
      (''numeric_format_invalid'', ''format_invalid'', ''error'', ''Reported notation/unit cannot be represented by the current parser.''),
      (''numeric_relation_conflict'', ''metadata_conflict'', ''warning'', ''Declared quantity relation conflicts with original notation.''),
      (''raw_quantity_conflict'', ''metadata_conflict'', ''warning'', ''Coexisting original quantity channels are inconsistent or cannot be reconciled.''),
      (''tc_high_review'', ''unusual'', ''warning'', ''Tc crosses a local broad extraction review reference; all pressures and origins.''),
      (''tc_ambient_reference_review'', ''unusual'', ''warning'', ''An explicit ambient Observed Tc crosses a local historical review reference.''),
      (''tc_family_reference_review'', ''unusual'', ''warning'', ''Tc crosses a legacy family review reference, not a physical ceiling.''),
      (''pressure_high_review'', ''unusual'', ''warning'', ''Pressure crosses a local operational review reference.''),
      (''negative_pressure_protocol_review'', ''unusual'', ''warning'', ''Negative pressure requires a defined tensile/effective-pressure convention.''),
      (''pressure_evidence_conflict'', ''metadata_conflict'', ''warning'', ''Pressure assertions are inconsistent or unresolved.''),
      (''hydride_low_pressure_high_tc_review'', ''unusual'', ''warning'', ''One hydride result combines high Tc with an explicitly bounded low pressure.''),
      (''parameter_reference_review'', ''unusual'', ''warning'', ''A parameter lies outside a legacy operational review interval.''),
      (''negative_temperature_review'', ''unusual'', ''warning'', ''A negative temperature requires field/convention source review.''),
      (''record_year_review'', ''unusual'', ''warning'', ''A year lies outside the operational chronology review window.''),
      (''record_year_format_invalid'', ''format_invalid'', ''error'', ''The reported year is not an unambiguous finite integer year.''),
      (''legacy_compound_reference_review'', ''unusual'', ''warning'', ''A value crosses a view-scoped legacy compound reference, not a cap.''),
      (''legacy_numeric_override_requires_revision'', ''metadata_conflict'', ''warning'', ''A legacy exact numeric override requires a source-backed revision.''),
      (''review_context_unresolved'', ''metadata_conflict'', ''warning'', ''An external review reference lacks a supported auditable shape.'')]"

definition rule_registry :: "pyval list" where
  "rule_registry = map (\<lambda>(rule_id, category, severity, description). PDict
     [(PStr ''rule_id'', PStr rule_id), (PStr ''rule_version'', PStr ANOMALY_POLICY_VERSION),
      (PStr ''category'', PStr category), (PStr ''severity'', PStr severity),
      (PStr ''description'', PStr description), (PStr ''outcome'', PStr ''pending''),
      (PStr ''action'', PStr ''retain_raw_and_review''), (PStr ''physical_limit'', PBool False)]) RULE_DEFINITIONS"

section \<open>Numbers of a proposal\<close>

definition is_finite :: "pyval \<Rightarrow> bool" where
  "is_finite v = (finite_number v \<noteq> None)"

definition field_text :: "pyval \<Rightarrow> nat \<Rightarrow> string option" where
  "field_text v limit = (if is_str v \<and> py_strip (str_of v) \<noteq> [] \<and> length (str_of v) \<le> limit then Some (str_of v) else None)"

definition opt_str :: "string option \<Rightarrow> pyval" where
  "opt_str x = (case x of None \<Rightarrow> PNone | Some s \<Rightarrow> PStr s)"

definition redacted_raw :: "review_env \<Rightarrow> pyval \<Rightarrow> (py_error, pyval) res" where
  "redacted_raw env v = rbind (re_digest env v) (\<lambda>h.
     Inr (PDict [(PStr ''redacted'', PStr ''structured_or_oversize_raw''), (PStr ''sha256'', PStr h)]))"

lemma rmapM_cong [fundef_cong]: "xs = ys \<Longrightarrow> (\<And>x. x \<in> set ys \<Longrightarrow> f x = g x) \<Longrightarrow> rmapM f xs = rmapM g ys"
  by (induction ys arbitrary: xs) auto

function raw_public :: "review_env \<Rightarrow> pyval \<Rightarrow> (py_error, pyval) res" where
  "raw_public env v =
     (if v = PNone \<or> is_bool v \<or> is_finite v then Inr v
      else case v of
        PStr s \<Rightarrow> if length s \<le> 256 then Inr v else redacted_raw env v
      | PList xs \<Rightarrow> if length xs \<le> 2 then rbind (rmapM (raw_public env) xs) (\<lambda>ys. Inr (PList ys)) else redacted_raw env v
      | PTuple xs \<Rightarrow> if length xs \<le> 2 then rbind (rmapM (raw_public env) xs) (\<lambda>ys. Inr (PList ys)) else redacted_raw env v
      | _ \<Rightarrow> redacted_raw env v)"
  by pat_completeness auto
termination
  by (relation "measure (\<lambda>(_, v). size v)") (auto simp: less_Suc_eq_le size_list_estimation')

declare raw_public.simps [simp del]

text \<open>\<open>list(errors or [])\<close> raises for a truthy value that is not iterable.\<close>

definition public_quantity :: "review_env \<Rightarrow> pyval \<Rightarrow> (py_error, pyval) res" where
  "public_quantity env p =
     rbind (raw_public env (pget p ''raw_value'')) (\<lambda>raw.
     rbind (iter_or_empty (pget p ''errors'')) (\<lambda>errs. Inr (PDict
     (map (\<lambda>k. (PStr k, pget p k))
        [''status'', ''relation'', ''value'', ''lower'', ''upper'', ''unit'', ''approximate'',
         ''uncertainty'', ''uncertainty_interpretation'', ''unit_basis'', ''parser_version'']
      @ [(PStr ''raw_value'', raw),
         (PStr ''raw_unit'', opt_str (field_text (pget p ''raw_unit'') 40)),
         (PStr ''errors'', PList errs)]))))"

text \<open>
  Sums and differences of finite numbers: exact on integers, rounded on floats. Comparison with
  a rational is exact; an infinity compares by its sign and a NaN not at all.
\<close>

fun combine :: "(int \<Rightarrow> int \<Rightarrow> int) \<Rightarrow> (rat \<Rightarrow> rat \<Rightarrow> rat) \<Rightarrow> pyval \<Rightarrow> pyval \<Rightarrow> pyval" where
  "combine f g (PInt i) (PInt j) = PInt (f i j)"
| "combine f g a b =
     (case (finite_number a, finite_number b) of (Some x, Some y) \<Rightarrow> PFloat (round64 (g x y)) | _ \<Rightarrow> PFloat NaN)"

fun above_number :: "pyval \<Rightarrow> rat \<Rightarrow> bool" where
  "above_number (PFloat PosInf) t = True"
| "above_number v t = (case num_of v of Some q \<Rightarrow> q > t | None \<Rightarrow> False)"

fun below_number :: "pyval \<Rightarrow> rat \<Rightarrow> bool" where
  "below_number (PFloat NegInf) t = True"
| "below_number v t = (case num_of v of Some q \<Rightarrow> q < t | None \<Rightarrow> False)"

definition extent :: "pyval \<Rightarrow> pyval option \<times> pyval option" where
  "extent p =
     (if pget p ''status'' \<noteq> PStr ''parsed'' \<or> truthy (pget p ''errors'') then (None, None)
      else let v = pget p ''value''; u = pget p ''uncertainty''; lo = pget p ''lower''; up = pget p ''upper''
           in if is_finite v
              then let spread = (if is_finite u \<and> \<not> below_number u 0 then u else PInt 0)
                   in (Some (combine (-) (-) v spread), Some (combine (+) (+) v spread))
              else (if is_finite lo then Some lo else None, if is_finite up then Some up else None))"

definition above :: "pyval \<Rightarrow> rat \<Rightarrow> string option" where
  "above p t = (case extent p of (lower, upper) \<Rightarrow>
     if (case lower of None \<Rightarrow> False
         | Some l \<Rightarrow> above_number l t \<or> num_of l = Some t \<and> pget p ''relation'' = PStr ''gt'')
     then Some ''reported_extent_above_reference''
     else if (case upper of None \<Rightarrow> False | Some u \<Rightarrow> above_number u t)
     then Some ''reported_extent_may_exceed_reference'' else None)"

definition affected_views :: "string \<Rightarrow> string list" where
  "affected_views field =
     (if field = ''tc_kelvin'' then TC_VIEWS
      else if field \<in> set LATTICE then [field, ''lattice_params''] else [field])"

section \<open>Findings\<close>

text \<open>The arguments of one \<open>_finding\<close> call, and the finding it returns.\<close>

record finding_call =
  fc_rule :: string
  fc_field :: string
  fc_reason :: string
  fc_applicability :: "(pyval \<times> pyval) list"
  fc_quantity :: pyval

record finding =
  finding_id :: string
  fi_result_id :: string
  rule_id :: string
  category :: string
  fi_field :: string
  affected_properties :: "string list"
  applicability :: pyval
  fi_reason :: string
  description :: string
  severity :: string
  quantity :: pyval

definition finding_context :: "finding_call \<Rightarrow> pyval" where
  "finding_context c = PDict (dict_merge
     [(PStr ''field'', PStr (fc_field c)), (PStr ''view_properties'', PList (map PStr (affected_views (fc_field c)))),
      (PStr ''reference_basis'', PStr ''legacy_operational_review_reference''),
      (PStr ''physical_limit'', PBool False)] (fc_applicability c))"

definition finding_ident :: "review_env \<Rightarrow> string \<Rightarrow> finding_call \<Rightarrow> (py_error, string) res" where
  "finding_ident env result_id c =
     rbind (re_digest env (PList [PStr result_id, PStr (fc_rule c), PStr ANOMALY_POLICY_VERSION, PStr (fc_field c),
        PStr (fc_reason c), finding_context c])) (\<lambda>h. Inr (''anomaly:'' @ h))"

definition finding_of :: "review_env \<Rightarrow> string \<Rightarrow> finding_call \<Rightarrow> (py_error, finding) res" where
  "finding_of env result_id c =
     (case map_of RULE_DEFINITIONS (fc_rule c) of None \<Rightarrow> Inl KeyError
      | Some (cat, sev, desc) \<Rightarrow>
          rbind (finding_ident env result_id c) (\<lambda>ident.
          rbind (if fc_quantity c = PNone then Inr PNone else public_quantity env (fc_quantity c)) (\<lambda>q.
             Inr \<lparr>finding_id = ident, fi_result_id = result_id, rule_id = fc_rule c, category = cat,
               fi_field = fc_field c, affected_properties = affected_views (fc_field c), applicability = finding_context c,
               fi_reason = fc_reason c, description = desc, severity = sev, quantity = q\<rparr>)))"

definition finding_py :: "finding \<Rightarrow> pyval" where
  "finding_py f = PDict
     [(PStr ''finding_id'', PStr (finding_id f)), (PStr ''result_id'', PStr (fi_result_id f)),
      (PStr ''rule_id'', PStr (rule_id f)), (PStr ''rule_version'', PStr ANOMALY_POLICY_VERSION),
      (PStr ''category'', PStr (category f)), (PStr ''field'', PStr (fi_field f)),
      (PStr ''affected_properties'', PList (map PStr (affected_properties f))),
      (PStr ''applicability'', applicability f), (PStr ''reason'', PStr (fi_reason f)),
      (PStr ''description'', PStr (description f)), (PStr ''severity'', PStr (severity f)),
      (PStr ''outcome'', PStr ''pending''), (PStr ''action'', PStr ''retain_raw_and_review''),
      (PStr ''quantity'', quantity f), (PStr ''default_view_disposition'', PStr ''review_required'')]"

definition field_aliases :: "string \<Rightarrow> string list" where
  "field_aliases field = (if field = ''tc_kelvin'' then [''tc''] else if field = ''pressure_gpa'' then [''pressure''] else [])"

definition public_field :: "string \<Rightarrow> string" where
  "public_field field = (if field = ''tc'' then ''tc_kelvin'' else if field = ''pressure'' then ''pressure_gpa'' else field)"

definition lattice_source :: "pyval \<Rightarrow> string \<Rightarrow> pyval" where
  "lattice_source r field =
     (let component = drop 8 field; nested = pget r ''lattice_params''
      in if field \<in> set LATTICE \<and> pget r field = PNone \<and> is_mapping nested \<and> phas nested component
         then let s = pput r field (pget nested component)
              in if phas nested ''unit'' then pput s (field @ ''_unit'') (pget nested ''unit'') else s
         else r)"

definition record_property_quantity :: "review_env \<Rightarrow> pyval \<Rightarrow> string \<Rightarrow> (py_error, pyval) res" where
  "record_property_quantity env r name =
     (case map_of VIEW_FIELDS (public_field name) of
        Some field \<Rightarrow>
          if field \<notin> fst ` set FIELD_UNITS then Inl (ValueError ''field must identify a supported scalar scientific quantity'')
          else let s = lattice_source r field;
                   s' = (if field = ''pressure_gpa'' \<and> pget s ''pressure_gpa_unit'' = PNone \<and> pget s ''pressure_unit'' \<noteq> PNone
                         then pput s ''pressure_gpa_unit'' (pget s ''pressure_unit'') else s)
               in re_quantity env s' field (field_aliases field)
      | None \<Rightarrow> Inl (ValueError ''field must identify a supported scalar scientific quantity''))"

definition view_applies :: "string \<Rightarrow> pressure_class \<Rightarrow> result_classification \<Rightarrow> bool" where
  "view_applies field pressure org =
     (if field \<in> {''tc_max_experimental'', ''tc_ambient''}
         \<and> (knowledge_origin org \<noteq> ''Observed'' \<or> classification_status org \<noteq> ''resolved'') then False
      else if field = ''tc_max_theoretical''
         \<and> (knowledge_origin org \<noteq> ''Computed'' \<or> classification_status org \<noteq> ''resolved'') then False
      else field \<noteq> ''tc_ambient'' \<or> pressure_state pressure = ''explicit_ambient'')"

text \<open>The channels in the order the code appends them, before unreported ones are dropped.\<close>

definition all_channels :: "review_env \<Rightarrow> pyval \<Rightarrow> string \<Rightarrow> pyval option \<Rightarrow> (py_error, (string \<times> pyval) list) res" where
  "all_channels env r field primary =
     (let proposals = pget r ''scientific_values'';
          typed = (is_mapping proposals \<and> phas proposals field);
          nested = pget r ''lattice_params''; component = drop 8 field
      in rbind (if typed \<or> pget r field \<noteq> PNone
                then rbind (case primary of Some p \<Rightarrow> Inr p | None \<Rightarrow> record_property_quantity env r field)
                       (\<lambda>p. Inr [(if typed then ''scientific_values.'' @ field @ ''.raw_value'' else field, p)])
                else Inr []) (\<lambda>first.
         rbind (rmapM (\<lambda>a. rbind (re_parse env (pget r a) field (pget r (a @ ''_unit''))) (\<lambda>p. Inr (a, p)))
                  (filter (\<lambda>a. pget r a \<noteq> PNone) (field_aliases field))) (\<lambda>second.
         rbind (if field \<in> set LATTICE \<and> is_mapping nested \<and> pget nested component \<noteq> PNone
                then rbind (re_parse env (pget nested component) field
                       (if phas nested ''unit'' then pget nested ''unit'' else pget r (field @ ''_unit'')))
                       (\<lambda>p. Inr [(''lattice_params.'' @ component, p)])
                else Inr []) (\<lambda>third. Inr (first @ second @ third)))))"

definition quantity_channels :: "review_env \<Rightarrow> pyval \<Rightarrow> string \<Rightarrow> pyval option \<Rightarrow> (py_error, (string \<times> pyval) list) res" where
  "quantity_channels env r field primary =
     (if field_aliases field = [] \<and> field \<notin> set LATTICE then Inr []
      else rbind (all_channels env r field primary) (\<lambda>cs.
           rbind (rmapM (\<lambda>(c, p). rbind (pindex p ''status'') (\<lambda>st. Inr (c, p, st))) cs) (\<lambda>ds.
             Inr (map (\<lambda>(c, p, _). (c, p)) (filter (\<lambda>(_, _, st). st \<noteq> PStr ''unreported'') ds)))))"

text \<open>\<open>math.isclose(a, b, rel_tol=1e-12, abs_tol=0)\<close> on finite numbers.\<close>

fun float_abs_le :: "pyfloat \<Rightarrow> pyfloat \<Rightarrow> bool" where
  "float_abs_le (Finite x) (Finite y) = (\<bar>x\<bar> \<le> \<bar>y\<bar>)"
| "float_abs_le (Finite x) y = (y \<noteq> NaN)"
| "float_abs_le x y = False"

definition isclose :: "rat \<Rightarrow> rat \<Rightarrow> bool" where
  "isclose a b =
     (a = b \<or> (case round64 (1 / 10 ^ 12) of
        Finite tol \<Rightarrow> (let diff = round64 (b - a)
                      in float_abs_le diff (round64 (tol * b)) \<or> float_abs_le diff (round64 (tol * a)) \<or> float_abs_le diff (Finite 0))
      | _ \<Rightarrow> False))"

definition close_values :: "pyval \<Rightarrow> pyval \<Rightarrow> bool" where
  "close_values a b =
     (py_eq a b \<or> (case (finite_number a, finite_number b) of (Some x, Some y) \<Rightarrow> isclose x y | _ \<Rightarrow> False))"

definition quantities_equivalent :: "pyval \<Rightarrow> pyval \<Rightarrow> (py_error, bool) res" where
  "quantities_equivalent l r =
     rbind (pindex l ''status'') (\<lambda>sl.
     if sl \<noteq> PStr ''parsed'' \<or> truthy (pget l ''errors'') then Inr False
     else rbind (pindex r ''status'') (\<lambda>sr.
       Inr (sr = PStr ''parsed'' \<and> \<not> truthy (pget r ''errors'')
            \<and> list_all (\<lambda>k. py_eq (pget l k) (pget r k)) [''relation'', ''unit'', ''approximate'', ''uncertainty_interpretation'']
            \<and> list_all (\<lambda>k. close_values (pget l k) (pget r k)) [''value'', ''lower'', ''upper'', ''uncertainty''])))"

section \<open>Assessment of a record\<close>

definition call :: "string \<Rightarrow> string \<Rightarrow> string \<Rightarrow> pyval \<Rightarrow> (string \<times> pyval) list \<Rightarrow> finding_call" where
  "call rule field reason q extra =
     \<lparr>fc_rule = rule, fc_field = field, fc_reason = reason, fc_applicability = map (\<lambda>(k, v). (PStr k, v)) extra, fc_quantity = q\<rparr>"

definition DERIVED_ENVELOPES :: "string list" where
  "DERIVED_ENVELOPES = [''result_classification'', ''pressure_semantics'', ''property_evidence'', ''anomaly_review'',
     ''visibility'', ''structure_evidence'', ''ingestion_capture'', ''temporal_provenance'']"

definition legacy_result_id :: "review_env \<Rightarrow> pyval \<Rightarrow> string \<Rightarrow> (py_error, string) res" where
  "legacy_result_id env r scope_id =
     rbind (re_digest env (PList [PStr scope_id,
        PDict (filter (\<lambda>(k, _). \<not> (is_str k \<and> str_of k \<in> set DERIVED_ENVELOPES)) (members_of r))]))
       (\<lambda>h. Inr (''legacy-result:'' @ h))"

definition supplied :: "pyval \<Rightarrow> string \<Rightarrow> bool" where
  "supplied r field =
     (let proposals = pget r ''scientific_values''; nested = pget r ''lattice_params''
      in field = ''tc_kelvin'' \<or> is_mapping proposals \<and> phas proposals field
         \<or> list_ex (\<lambda>k. pget r k \<noteq> PNone \<or> pget r (k @ ''_unit'') \<noteq> PNone) (field # field_aliases field)
         \<or> field \<in> set LATTICE \<and> is_mapping nested \<and> phas nested (drop 8 field))"

definition record_quantities :: "review_env \<Rightarrow> pyval \<Rightarrow> (py_error, (string \<times> pyval) list) res" where
  "record_quantities env r =
     rmapM (\<lambda>f. rbind (record_property_quantity env r f) (\<lambda>p. Inr (f, p))) (filter (supplied r) (map fst FIELD_UNITS))"

definition flat_record :: "pyval \<Rightarrow> bool" where
  "flat_record r =
     list_all (\<lambda>(k, v). is_str k \<and> (case v of PNone \<Rightarrow> True | PBool _ \<Rightarrow> True | PInt _ \<Rightarrow> True | PFloat _ \<Rightarrow> True | PStr _ \<Rightarrow> True | _ \<Rightarrow> False))
       (members_of r)"

definition any_different :: "pyval \<Rightarrow> pyval list \<Rightarrow> (py_error, bool) res" where
  "any_different p ps =
     foldr (\<lambda>q rest. rbind (quantities_equivalent p q) (\<lambda>e. if \<not> e then Inr True else rest)) ps (Inr False)"

definition temperature_field :: "string \<Rightarrow> bool" where
  "temperature_field field = (drop (length field - 2) field = ''_k'' \<or> field = ''tc_kelvin'')"

definition negative_extent :: "pyval \<Rightarrow> bool" where
  "negative_extent p = (case extent p of (lower, upper) \<Rightarrow>
     list_ex (\<lambda>x. case x of None \<Rightarrow> False | Some v \<Rightarrow> below_number v 0) [lower, upper])"

definition quantity_calls :: "review_env \<Rightarrow> pyval \<Rightarrow> string \<times> pyval \<Rightarrow> (py_error, finding_call list) res" where
  "quantity_calls env r fp = (case fp of (field, p) \<Rightarrow>
     rbind (quantity_channels env r field (if flat_record r then Some p else None)) (\<lambda>cs.
     rbind (case cs of c # d # ds \<Rightarrow> any_different (snd c) (map snd (d # ds)) | _ \<Rightarrow> Inr False) (\<lambda>differ.
     rbind (pindex p ''status'') (\<lambda>status.
     rbind (if status = PStr ''invalid'' then rbind (pindex p ''errors'') (\<lambda>e. iter_or_empty e) else Inr []) (\<lambda>errs.
       Inr ((if differ then [call ''raw_quantity_conflict'' field ''coexisting_original_quantity_channels_unresolved'' p
                [(''reference_basis'', PStr ''raw_channel_consistency''), (''source_channels'', PList (map (PStr \<circ> fst) cs))]] else [])
            @ (if status = PStr ''invalid'' then [call ''numeric_format_invalid'' field ''scientific_notation_or_unit_unresolved'' p
                [(''parser_errors'', PList errs), (''reference_basis'', PStr ''parser_representability'')]] else [])
            @ (if temperature_field field \<and> negative_extent p
               then [call ''negative_temperature_review'' field ''negative_temperature_requires_source_convention'' p []] else [])))))))"

definition when_above :: "pyval \<Rightarrow> rat \<Rightarrow> (string \<Rightarrow> finding_call) \<Rightarrow> finding_call list" where
  "when_above p t f = (case above p t of None \<Rightarrow> [] | Some reason \<Rightarrow> [f reason])"

definition por :: "pyval \<Rightarrow> pyval \<Rightarrow> pyval" where
  "por a b = (if truthy a then a else b)"

definition record_family :: "pyval \<Rightarrow> string option" where
  "record_family r = (case field_text (pget r ''family'') 80 of Some f \<Rightarrow> Some f | None \<Rightarrow> field_text (pget r ''material_family'') 80)"

definition actual_family :: "pyval \<Rightarrow> pyval \<Rightarrow> string option" where
  "actual_family r fam = (case record_family r of Some f \<Rightarrow> Some f | None \<Rightarrow> field_text fam 80)"

definition num :: "rat \<Rightarrow> pyval" where
  "num q = PFloat (Finite q)"

definition tc_calls :: "pyval \<Rightarrow> pyval \<Rightarrow> pyval \<Rightarrow> pressure_class \<Rightarrow> result_classification \<Rightarrow> (py_error, finding_call list) res" where
  "tc_calls r fam tc pressure org =
     (let declared = por (pget r ''tc_relation'') (pget r ''value_relation'');
          observed = (knowledge_origin org = ''Observed'' \<and> classification_status org = ''resolved'' \<and> source_role org \<noteq> ''conflicted'')
      in rbind (if truthy declared then rbind (pindex tc ''status'') (\<lambda>st.
                  if st = PStr ''parsed'' then rbind (pindex tc ''relation'') (\<lambda>rel. Inr (\<not> py_eq declared rel)) else Inr False)
                else Inr False) (\<lambda>conflict.
         Inr ((if conflict then [call ''numeric_relation_conflict'' ''tc_kelvin'' ''declared_relation_conflicts_with_raw_notation'' tc []] else [])
           @ when_above tc TC_REVIEW_REFERENCE_K (\<lambda>reason. call ''tc_high_review'' ''tc_kelvin'' reason tc
               [(''threshold'', num TC_REVIEW_REFERENCE_K), (''unit'', PStr ''K''),
                (''pressure_scope'', PStr ''all_pressures_including_unknown''), (''origin_scope'', PStr ''all_origins'')])
           @ (if pressure_state pressure = ''explicit_ambient'' \<and> observed
              then when_above tc AMBIENT_TC_REVIEW_REFERENCE_K (\<lambda>reason. call ''tc_ambient_reference_review'' ''tc_kelvin'' reason tc
               [(''threshold'', num AMBIENT_TC_REVIEW_REFERENCE_K), (''unit'', PStr ''K''),
                (''pressure_scope'', PStr ''explicit_ambient_same_result''), (''origin_scope'', PStr ''Observed'')]) else [])
           @ (case actual_family r fam of None \<Rightarrow> []
              | Some f \<Rightarrow> (case map_of FAMILY_TC_REVIEW_REFERENCES_K f of None \<Rightarrow> []
                | Some t \<Rightarrow> when_above tc t (\<lambda>reason. call ''tc_family_reference_review'' ''tc_kelvin'' reason tc
                    [(''threshold'', num t), (''unit'', PStr ''K''), (''family'', PStr f),
                     (''family_basis'', PStr (if record_family r \<noteq> None then ''record'' else ''external_material_context'')),
                     (''pressure_scope'', PStr ''all_pressures_including_unknown''), (''origin_scope'', PStr ''all_origins'')]))))))"

definition pressure_quantity :: "pressure_class \<Rightarrow> pyval" where
  "pressure_quantity c = PDict
     [(PStr ''status'', PStr (if pressure_state c \<in> {''reported'', ''explicit_ambient''} then ''parsed'' else ''invalid'')),
      (PStr ''relation'', pc_relation c), (PStr ''value'', pressure_gpa c), (PStr ''lower'', value_lower_gpa c),
      (PStr ''upper'', value_upper_gpa c), (PStr ''uncertainty'', uncertainty_gpa c),
      (PStr ''uncertainty_interpretation'', pc_uncertainty_interpretation c), (PStr ''approximate'', pc_approximate c),
      (PStr ''raw_value'', pc_raw_value c), (PStr ''raw_unit'', pc_raw_unit c), (PStr ''unit_basis'', pc_unit_basis c),
      (PStr ''unit'', PStr ''GPa''), (PStr ''errors'', PList []), (PStr ''parser_version'', pc_version c)]"

definition CONFLICT_REASONS :: "string list" where
  "CONFLICT_REASONS = [''ambient_assertion_conflicts_with_pressure'', ''pressure_state_conflicts_with_value'',
     ''unknown_pressure_state'', ''explicit_ambient_missing_numeric_pressure'', ''reported_pressure_missing_value'']"

definition bounded_low_pressure :: "pressure_class \<Rightarrow> bool" where
  "bounded_low_pressure c =
     (pressure_state c \<in> {''reported'', ''explicit_ambient''} \<and> \<not> truthy (pc_approximate c)
      \<and> (case snd (extent (pressure_quantity c)) of None \<Rightarrow> False
         | Some u \<Rightarrow> below_number u 50 \<or> num_of u = Some 50 \<and> pc_relation c = PStr ''lt''))"

definition pressure_calls :: "pyval \<Rightarrow> pyval \<Rightarrow> pyval \<Rightarrow> pressure_class \<Rightarrow> finding_call list" where
  "pressure_calls r fam tc c =
     (let q = pressure_quantity c
      in (if ''unsupported_negative_pressure'' \<in> set (pc_reasons c)
          then [call ''negative_pressure_protocol_review'' ''pressure_gpa'' ''tensile_or_effective_pressure_convention_required'' q []]
          else if pressure_state c = ''ambiguous'' \<and> list_ex (\<lambda>x. x \<in> set CONFLICT_REASONS) (pc_reasons c)
          then [call ''pressure_evidence_conflict'' ''pressure_gpa'' ''pressure_ambiguous_not_ambient'' q
                  [(''pressure_reasons'', PList (map PStr (pc_reasons c)))]] else [])
       @ when_above q PRESSURE_REVIEW_REFERENCE_GPA (\<lambda>reason. call ''pressure_high_review'' ''pressure_gpa'' reason q
           [(''threshold'', num PRESSURE_REVIEW_REFERENCE_GPA), (''unit'', PStr ''GPa'')])
       @ (if actual_family r fam = Some ''hydride'' \<and> bounded_low_pressure c
          then when_above tc 100 (\<lambda>reason. call ''hydride_low_pressure_high_tc_review'' ''tc_kelvin'' reason tc
            [(''family'', PStr ''hydride''), (''tc_threshold_k'', PInt 100), (''pressure_upper_reference_gpa'', PInt 50),
             (''pressure_scope'', PStr ''entire_reported_extent_below_50'')]) else []))"

fun fin :: "pyfloat \<Rightarrow> rat" where
  "fin (Finite q) = q"
| "fin _ = 0"

definition parameter_calls :: "(string \<times> pyval) list \<Rightarrow> finding_call list" where
  "parameter_calls qs = concat (map (\<lambda>(field, lo, hi).
     case map_of qs field of None \<Rightarrow> []
     | Some p \<Rightarrow> (case extent p of (lower, upper) \<Rightarrow>
         if (case lower of None \<Rightarrow> False | Some l \<Rightarrow> below_number l (fin lo)) \<or> (case upper of None \<Rightarrow> False | Some u \<Rightarrow> above_number u (fin hi))
         then [call ''parameter_reference_review'' field ''reported_extent_outside_legacy_reference_interval'' p
                 [(''minimum'', PFloat lo), (''maximum'', PFloat hi), (''unit'', opt_str (map_of FIELD_UNITS field))]]
         else [])) PARAMETER_REVIEW_REFERENCES)"

definition year_value :: "pyval \<Rightarrow> pyval" where
  "year_value v = (if is_str v \<and> list_all is_digit_char (str_of v) \<and> length (str_of v) = 4
     then PInt (int (digits_value (str_of v))) else v)"

definition year_calls :: "pyval \<Rightarrow> pyval \<Rightarrow> finding_call list" where
  "year_calls r current_year =
     (let year = year_value (pget r ''year'')
      in if pget r ''year'' = PNone then []
         else if \<not> type_is_int year then [call ''record_year_format_invalid'' ''year'' ''year_not_unambiguous_integer'' PNone []]
         else if int_of year < 1900 \<or> current_year \<noteq> PNone \<and> int_of year > int_of current_year + 1
         then [call ''record_year_review'' ''year'' ''year_outside_operational_window'' PNone
                 [(''minimum_year'', PInt 1900),
                  (''maximum_year'', if current_year \<noteq> PNone then PInt (int_of current_year + 1) else PNone)]]
         else [])"

definition reference_calls ::
  "(string \<times> pyval) list \<Rightarrow> pressure_class \<Rightarrow> result_classification \<Rightarrow> pyval \<Rightarrow> (py_error, finding_call list) res" where
  "reference_calls qs pressure org ref =
     (if \<not> is_mapping ref then Inr [call ''review_context_unresolved'' ''*'' ''compound_reference_not_a_mapping'' PNone []]
      else let target = field_text (pget ref ''field'') 80;
               field = (case target of None \<Rightarrow> None | Some t \<Rightarrow> map_of VIEW_FIELDS t);
               threshold = pget ref ''threshold''; rid = field_text (pget ref ''reference_id'') 160;
               mode = (if phas ref ''mode'' then pget ref ''mode'' else PStr ''upper_reference'');
               unresolved = (\<lambda>f. Inr [call ''review_context_unresolved'' f ''compound_reference_shape_unresolved'' PNone []])
           in case (target, field, rid) of
             (Some t, Some f, Some i) \<Rightarrow>
               if f = ''lattice_params'' \<or> \<not> is_finite threshold then unresolved t
               else rbind (in_str_set mode [''upper_reference'', ''unreviewed_exact_override'']) (\<lambda>known.
                 if \<not> known then unresolved t
                 else if \<not> view_applies t pressure org then Inr []
                 else case map_of qs f of None \<Rightarrow> Inr []
                   | Some p \<Rightarrow> rbind (pindex p ''status'') (\<lambda>st.
                       if st = PStr ''unreported'' then Inr []
                       else let extra = [(''reference_id'', PStr i), (''target_view'', PStr t), (''threshold'', threshold),
                                         (''unit'', opt_str (map_of FIELD_UNITS f)), (''mode'', mode)]
                            in Inr (if mode = PStr ''unreviewed_exact_override''
                                    then [call ''legacy_numeric_override_requires_revision'' t
                                            ''legacy_override_value_not_a_source_backed_revision'' p extra]
                                    else (case num_of threshold of None \<Rightarrow> []
                                          | Some q \<Rightarrow> when_above p q (\<lambda>reason. call ''legacy_compound_reference_review'' t reason p extra)))))
           | (Some t, Some f, None) \<Rightarrow> unresolved t
           | _ \<Rightarrow> unresolved ''*'')"

definition keeps_call :: "pressure_class \<Rightarrow> finding_call \<Rightarrow> bool" where
  "keeps_call pressure c =
     (\<not> (pressure_state pressure = ''explicit_ambient'' \<and> fc_field c = ''pressure_gpa'' \<and> fc_rule c = ''numeric_format_invalid''))"

text \<open>All calls for a structured record, in the order of the code.\<close>

definition record_calls :: "review_env \<Rightarrow> pyval \<Rightarrow> pyval \<Rightarrow> pyval list \<Rightarrow> pyval \<Rightarrow> (py_error, finding_call list) res" where
  "record_calls env r fam refs year =
     rbind (re_pressure env r) (\<lambda>pressure.
     let org = classify_result r
     in rbind (record_quantities env r) (\<lambda>qs.
        rbind (rmapM (quantity_calls env r) qs) (\<lambda>per_field.
        rbind (case map_of qs ''tc_kelvin'' of None \<Rightarrow> Inl KeyError | Some p \<Rightarrow> Inr p) (\<lambda>tc.
        rbind (tc_calls r fam tc pressure org) (\<lambda>tcs.
        rbind (rmapM (reference_calls qs pressure org) refs) (\<lambda>per_ref.
          Inr (filter (keeps_call pressure) (concat per_field @ tcs)
               @ pressure_calls r fam tc pressure @ parameter_calls qs @ year_calls r year @ concat per_ref)))))))"

record assessment =
  evaluation_year :: pyval
  as_result_id :: string
  as_status :: string
  as_findings :: "finding list"
  total_findings :: nat
  rule_counts :: "(string \<times> nat) list"
  review_required_properties :: "string list"

definition unique_findings :: "finding list \<Rightarrow> finding list" where
  "unique_findings fs =
     map (\<lambda>k. the (map_of (rev (map (\<lambda>f. (finding_id f, f)) fs)) k)) (sort (remdups (map finding_id fs)))"

definition assessment_of :: "string \<Rightarrow> finding list \<Rightarrow> pyval \<Rightarrow> assessment" where
  "assessment_of result_id fs year =
     (let ordered = unique_findings fs
      in \<lparr>evaluation_year = year, as_result_id = result_id,
          as_status = (if list_ex (\<lambda>f. category f = ''format_invalid'') ordered then ''format_invalid''
                       else if ordered \<noteq> [] then ''review_required'' else ''no_findings''),
          as_findings = take PUBLIC_FINDING_LIMIT ordered, total_findings = length ordered,
          rule_counts = map (\<lambda>rule. (rule, count_if (\<lambda>f. rule_id f = rule) ordered)) (sort (remdups (map rule_id ordered))),
          review_required_properties = sort (remdups (concat (map affected_properties ordered)))\<rparr>)"

definition assessment_py :: "assessment \<Rightarrow> pyval" where
  "assessment_py a = PDict
     [(PStr ''version'', PStr ANOMALY_POLICY_VERSION), (PStr ''evaluation_year'', evaluation_year a),
      (PStr ''result_id'', PStr (as_result_id a)), (PStr ''status'', PStr (as_status a)),
      (PStr ''findings'', PList (map finding_py (as_findings a))), (PStr ''total_findings'', PInt (int (total_findings a))),
      (PStr ''findings_truncated'', PBool (total_findings a > PUBLIC_FINDING_LIMIT)),
      (PStr ''rule_counts'', PDict (map (\<lambda>(r, n). (PStr r, PInt (int n))) (rule_counts a))),
      (PStr ''review_required_properties'', PList (map PStr (review_required_properties a))),
      (PStr ''raw_preserved'', PBool True), (PStr ''scientific_acceptance'', PBool False)]"

definition valid_year :: "pyval \<Rightarrow> bool" where
  "valid_year y = (y = PNone \<or> type_is_int y \<and> 1900 \<le> int_of y \<and> int_of y \<le> 9998)"

definition assess_record_anomalies ::
  "review_env \<Rightarrow> string \<Rightarrow> pyval \<Rightarrow> pyval list \<Rightarrow> pyval \<Rightarrow> pyval \<Rightarrow> (py_error, assessment) res" where
  "assess_record_anomalies env scope_id fam refs year r =
     (if \<not> valid_year year then Inl (ValueError ''current_year must be an explicit integer in [1900, 9998]'')
      else if \<not> is_mapping r
      then rbind (re_digest env (PList [PStr scope_id, r])) (\<lambda>h. let rid = ''legacy-result:'' @ h
           in rbind (rmapM (finding_of env rid) [call ''record_format_invalid'' ''*'' ''record_is_not_a_mapping'' PNone []])
                (\<lambda>fs. Inr (assessment_of rid fs year)))
      else rbind (legacy_result_id env r scope_id) (\<lambda>rid.
           rbind (record_calls env r fam refs year) (\<lambda>cs.
           rbind (rmapM (finding_of env rid) cs) (\<lambda>fs. Inr (assessment_of rid fs year)))))"

definition eligible_for_property :: "pyval \<Rightarrow> string \<Rightarrow> bool" where
  "eligible_for_property a field =
     (pget a ''version'' = PStr ANOMALY_POLICY_VERSION \<and>
      (case pget a ''review_required_properties'' of
         PList xs \<Rightarrow> PStr ''*'' \<notin> set xs \<and> PStr (public_field field) \<notin> set xs
       | _ \<Rightarrow> False))"

section \<open>Review of a material\<close>

fun add_count :: "(string \<times> nat) list \<Rightarrow> string \<times> nat \<Rightarrow> (string \<times> nat) list" where
  "add_count [] (r, n) = [(r, n)]"
| "add_count ((s, m) # d) (r, n) = (if s = r then (s, m + n) # d else (s, m) # add_count d (r, n))"

definition STATUS_KEYS :: "string list" where
  "STATUS_KEYS = [''no_findings'', ''review_required'', ''format_invalid'']"

definition valid_record_limit :: "pyval \<Rightarrow> bool" where
  "valid_record_limit v = (type_is_int v \<and> 0 \<le> int_of v \<and> int_of v \<le> PUBLIC_RECORD_LIMIT)"

fun values_of :: "pyval \<Rightarrow> pyval list" where
  "values_of (PList xs) = xs"
| "values_of (PTuple xs) = xs"
| "values_of v = [v]"

definition status_count :: "assessment list \<Rightarrow> string \<Rightarrow> nat" where
  "status_count as k = count_if (\<lambda>a. as_status a = k) as"

definition review_py :: "assessment list \<Rightarrow> pyval \<Rightarrow> int \<Rightarrow> pyval" where
  "review_py as year limit = PDict
     [(PStr ''version'', PStr ANOMALY_POLICY_VERSION), (PStr ''evaluation_year'', year), (PStr ''raw_preserved'', PBool True),
      (PStr ''scientific_acceptance'', PBool False),
      (PStr ''needs_review'', PBool (status_count as ''review_required'' \<noteq> 0 \<or> status_count as ''format_invalid'' \<noteq> 0)),
      (PStr ''counts'', PDict (map (\<lambda>k. (PStr k, PInt (int (status_count as k)))) STATUS_KEYS
          @ [(PStr ''total_records'', PInt (int (length as)))])),
      (PStr ''rule_counts'', PDict (map (\<lambda>(r, n). (PStr r, PInt (int n))) (foldl add_count [] (concat (map rule_counts as))))),
      (PStr ''records'', PList (map assessment_py (take (nat limit) (sort_key as_result_id as)))),
      (PStr ''total_records'', PInt (int (length as))), (PStr ''records_truncated'', PBool (int (length as) > limit)),
      (PStr ''warnings'', PList [PStr ''operational_review_references_not_physical_limits'',
          PStr ''no_findings_does_not_establish_scientific_acceptance''])]"

definition build_anomaly_review ::
  "review_env \<Rightarrow> pyval \<Rightarrow> string \<Rightarrow> pyval \<Rightarrow> pyval list \<Rightarrow> pyval \<Rightarrow> pyval \<Rightarrow> (py_error, pyval) res" where
  "build_anomaly_review env records scope_id fam refs year limit =
     (if \<not> valid_record_limit limit then Inl (ValueError ''record_limit must be an integer between 0 and PUBLIC_RECORD_LIMIT'')
      else rbind (rmapM (assess_record_anomalies env scope_id fam refs year) (values_of records)) (\<lambda>as.
             Inr (review_py as year (int_of limit))))"

section \<open>Soundness and a concrete environment\<close>

text \<open>What every assessment of a record satisfies.\<close>

definition sound_assessment :: "assessment \<Rightarrow> bool" where
  "sound_assessment a \<longleftrightarrow>
     as_status a \<in> set STATUS_KEYS \<and> fst ` set (rule_counts a) \<subseteq> fst ` set RULE_DEFINITIONS
     \<and> sum_list (map snd (rule_counts a)) \<le> total_findings a
     \<and> (as_status a = ''no_findings'' \<longrightarrow> review_required_properties a = [])"

text \<open>A parser that reads the number of a Tc field, and a digest of the length of SHA-256.\<close>

definition demo_review_env :: review_env where
  "demo_review_env = \<lparr>re_digest = (\<lambda>_. Inr (replicate 64 (CHR ''0''))),
     re_quantity = (\<lambda>r f _. Inr (PDict [(PStr ''status'', PStr ''parsed''), (PStr ''relation'', PStr ''exact''), (PStr ''value'', pget r f)])),
     re_parse = (\<lambda>v f _. Inr (PDict [(PStr ''status'', PStr ''parsed''), (PStr ''relation'', PStr ''exact''), (PStr ''value'', v)])),
     re_pressure = (\<lambda>_. Inr \<lparr>pressure_state = ''unreported'', pc_relation = PNone, pressure_gpa = PNone, value_lower_gpa = PNone,
        value_upper_gpa = PNone, uncertainty_gpa = PNone, pc_uncertainty_interpretation = PNone, pc_approximate = PBool False,
        pc_raw_value = PNone, pc_raw_unit = PNone, pc_unit_basis = PNone, pc_version = PNone, pc_reasons = []\<rparr>)\<rparr>"

section \<open>Facts about assessments\<close>

lemma finding_of_Inr:
  assumes "finding_of env rid c = Inr f"
  shows "finding_ident env rid c = Inr (finding_id f)" "rule_id f = fc_rule c" "fi_field f = fc_field c"
    "affected_properties f = affected_views (fc_field c)" "rule_id f \<in> fst ` set RULE_DEFINITIONS"
proof -
  obtain x where m: "map_of RULE_DEFINITIONS (fc_rule c) = Some x"
    using assms by (auto simp: finding_of_def split: option.splits)
  show "finding_ident env rid c = Inr (finding_id f)" and r: "rule_id f = fc_rule c" and "fi_field f = fc_field c"
    and "affected_properties f = affected_views (fc_field c)"
    using assms m by (auto simp: finding_of_def rbind_Inr_iff split: prod.splits)
  show "rule_id f \<in> fst ` set RULE_DEFINITIONS" unfolding r using m by (metis domI dom_map_of_conv_image_fst)
qed

lemma unique_findings_sound:
  assumes "g \<in> set (unique_findings fs)" shows "g \<in> set fs"
proof -
  obtain k where k: "k \<in> set (map finding_id fs)" "g = the (map_of (rev (map (\<lambda>f. (finding_id f, f)) fs)) k)"
    using assms by (auto simp: unique_findings_def)
  then have "map_of (rev (map (\<lambda>f. (finding_id f, f)) fs)) k \<noteq> None" by (auto simp: map_of_eq_None_iff image_image)
  then have "(k, g) \<in> set (rev (map (\<lambda>f. (finding_id f, f)) fs))" using k(2) by (metis map_of_SomeD option.collapse)
  then show ?thesis by auto
qed

lemma unique_findings_complete:
  assumes "f \<in> set fs" obtains g where "g \<in> set (unique_findings fs)" "finding_id g = finding_id f"
proof -
  let ?t = "rev (map (\<lambda>f. (finding_id f, f)) fs)"
  have "map_of ?t (finding_id f) \<noteq> None" using assms by (auto simp: map_of_eq_None_iff image_image)
  then obtain g where g: "map_of ?t (finding_id f) = Some g" by blast
  then have "(finding_id f, g) \<in> set ?t" by (rule map_of_SomeD)
  then have "finding_id g = finding_id f" by auto
  moreover have "g \<in> set (unique_findings fs)"
    using assms g by (auto simp: unique_findings_def intro!: image_eqI [of _ _ "finding_id f"])
  ultimately show thesis using that by blast
qed

lemma assessment_of_fields:
  "set (review_required_properties (assessment_of rid fs y)) = (\<Union>f \<in> set (unique_findings fs). set (affected_properties f))"
  "total_findings (assessment_of rid fs y) = length (unique_findings fs)"
  "as_status (assessment_of rid fs y) = ''no_findings'' \<longleftrightarrow> unique_findings fs = []"
  "as_status (assessment_of rid fs y) \<in> set STATUS_KEYS"
  "map fst (rule_counts (assessment_of rid fs y)) = sort (remdups (map rule_id (unique_findings fs)))"
  by (auto simp: assessment_of_def Let_def STATUS_KEYS_def comp_def list_ex_iff)

lemma sum_count_if_keys:
  "distinct ks \<Longrightarrow> sum_list (map (\<lambda>k. count_if (\<lambda>x. h x = k) xs) ks) \<le> length xs"
proof (induction xs)
  case (Cons x xs)
  have "sum_list (map (\<lambda>k. count_if (\<lambda>x. h x = k) (x # xs)) ks) =
      sum_list (map (\<lambda>k. count_if (\<lambda>x. h x = k) xs) ks) + sum_list (map (\<lambda>k. if h x = k then 1 else 0) ks)"
    unfolding sum_list_addf [symmetric] by (rule arg_cong [of _ _ sum_list]) simp
  moreover have "sum_list (map (\<lambda>k. if h x = k then 1 else 0) ks) \<le> (1::nat)"
    using Cons.prems by (induction ks) (auto simp: sum_list_0)
  ultimately show ?case using Cons by simp
qed (simp add: sum_list_0)

lemma assessment_rule_total: "sum_list (map snd (rule_counts (assessment_of rid fs y))) \<le> total_findings (assessment_of rid fs y)"
  using sum_count_if_keys [of "sort (remdups (map rule_id (unique_findings fs)))" rule_id "unique_findings fs"]
  by (simp add: assessment_of_def Let_def comp_def)

lemma rules_registered:
  assumes "rmapM (finding_of env rid) cs = Inr fs" "f \<in> set fs"
  obtains c where "c \<in> set cs" "finding_of env rid c = Inr f"
  using rmapM_Inr_set [OF assms(1)] assms(2) by blast

lemma assessment_sound:
  assumes "rmapM (finding_of env rid) cs = Inr fs" shows "sound_assessment (assessment_of rid fs y)"
proof -
  have "rule_id f \<in> fst ` set RULE_DEFINITIONS" if "f \<in> set (unique_findings fs)" for f
    using rules_registered [OF assms unique_findings_sound [OF that]] finding_of_Inr(5) by metis
  then have "set (map fst (rule_counts (assessment_of rid fs y))) \<subseteq> fst ` set RULE_DEFINITIONS"
    unfolding assessment_of_fields(5) by auto
  moreover have "as_status (assessment_of rid fs y) = ''no_findings'' \<Longrightarrow> review_required_properties (assessment_of rid fs y) = []"
    using assessment_of_fields(1,3) [of rid fs y] by simp
  ultimately show ?thesis
    using assessment_of_fields(4) assessment_rule_total by (auto simp: sound_assessment_def)
qed

lemma assess_Inr:
  assumes "assess_record_anomalies env scope fam refs year r = Inr a"
  obtains rid cs fs where "rmapM (finding_of env rid) cs = Inr fs" "a = assessment_of rid fs year"
    "is_mapping r \<longrightarrow> record_calls env r fam refs year = Inr cs \<and> legacy_result_id env r scope = Inr rid"
    "valid_year year"
proof -
  have y: "valid_year year" using assms by (auto simp: assess_record_anomalies_def split: if_splits)
  show thesis
  proof (cases "is_mapping r")
    case True
    then obtain rid cs fs where "legacy_result_id env r scope = Inr rid" "record_calls env r fam refs year = Inr cs"
      "rmapM (finding_of env rid) cs = Inr fs" "a = assessment_of rid fs year"
      using assms y by (auto simp: assess_record_anomalies_def rbind_Inr_iff)
    then show thesis using that y by blast
  next
    case False
    let ?cs = "[call ''record_format_invalid'' ''*'' ''record_is_not_a_mapping'' PNone []]"
    obtain h where "re_digest env (PList [PStr scope, r]) = Inr h"
      and h: "rbind (rmapM (finding_of env (''legacy-result:'' @ h)) ?cs) (\<lambda>fs. Inr (assessment_of (''legacy-result:'' @ h) fs year)) = Inr a"
      using assms y False by (auto simp: assess_record_anomalies_def Let_def rbind_Inr_iff simp del: rmapM.simps)
    then obtain fs where "rmapM (finding_of env (''legacy-result:'' @ h)) ?cs = Inr fs" "a = assessment_of (''legacy-result:'' @ h) fs year"
      unfolding rbind_Inr_iff by auto
    then show thesis using that [of _ ?cs fs] False y by simp
  qed
qed

lemma assess_mapping:
  assumes "assess_record_anomalies env scope fam refs year r = Inr a" "is_mapping r"
    and "legacy_result_id env r scope = Inr rid" "record_calls env r fam refs year = Inr cs"
  obtains fs where "rmapM (finding_of env rid) cs = Inr fs" "a = assessment_of rid fs year"
  using assess_Inr [OF assms(1)] assms(2-4) by (metis sum.inject(2))

lemma assess_sound: "assess_record_anomalies env scope fam refs year r = Inr a \<Longrightarrow> sound_assessment a"
  by (erule assess_Inr) (simp add: assessment_sound)


section \<open>A finding on the critical temperature withholds every Tc view\<close>

lemma tc_quantity_read:
  assumes "record_quantities env r = Inr qs"
  shows "\<exists>p. record_property_quantity env r ''tc_kelvin'' = Inr p \<and> map_of qs ''tc_kelvin'' = Some p"
proof -
  let ?fs = "filter (supplied r) (map fst FIELD_UNITS)"
  have "distinct (map fst FIELD_UNITS)" by (simp add: FIELD_UNITS_def)
  then have d: "distinct (map id ?fs)" by simp
  have m: "''tc_kelvin'' \<in> set ?fs" by (simp add: supplied_def FIELD_UNITS_def)
  have "\<exists>p. record_property_quantity env r ''tc_kelvin'' = Inr p \<and> map_of qs (id ''tc_kelvin'') = Some (id p)"
    by (rule rmapM_keyed [OF _ d m]) (use assms(1) in \<open>simp add: record_quantities_def\<close>)
  then show ?thesis by simp
qed

lemma record_tc_quantity:
  assumes "record_quantities env r = Inr qs" "record_property_quantity env r ''tc_kelvin'' = Inr tc"
  shows "map_of qs ''tc_kelvin'' = Some tc"
  using tc_quantity_read [OF assms(1)] assms(2) by (elim exE conjE) simp

lemma tc_high_call:
  assumes "record_calls env r fam refs year = Inr cs" "record_property_quantity env r ''tc_kelvin'' = Inr tc"
    and "above tc TC_REVIEW_REFERENCE_K \<noteq> None"
  shows "\<exists>c \<in> set cs. fc_field c = ''tc_kelvin''"
proof -
  obtain pressure qs tcs x y where qs: "record_quantities env r = Inr qs"
    and t: "tc_calls r fam tc pressure (classify_result r) = Inr tcs"
    and cs: "cs = filter (keeps_call pressure) (x @ tcs) @ y"
    using assms(1) record_tc_quantity [OF _ assms(2)] by (fastforce simp: record_calls_def Let_def)
  obtain reason where "above tc TC_REVIEW_REFERENCE_K = Some reason" using assms(3) by blast
  then obtain extra where "call ''tc_high_review'' ''tc_kelvin'' reason tc extra \<in> set tcs"
    using t by (fastforce simp: tc_calls_def Let_def when_above_def)
  then have "call ''tc_high_review'' ''tc_kelvin'' reason tc extra \<in> set cs"
    using cs by (simp add: keeps_call_def call_def)
  then show ?thesis by (force simp: call_def)
qed

text \<open>
  The findings are deduplicated by their identifiers, so a collision of the digest could drop one.
  The calls of one record are separated when no two of them with different fields share an
  identifier; they are finitely many.
\<close>

definition idents_separate :: "review_env \<Rightarrow> string \<Rightarrow> finding_call list \<Rightarrow> bool" where
  "idents_separate env rid cs = list_all (\<lambda>c. list_all (\<lambda>d.
     finding_ident env rid c = finding_ident env rid d \<longrightarrow> fc_field c = fc_field d) cs) cs"

lemma finding_field_affected:
  assumes "rmapM (finding_of env rid) cs = Inr fs" "c \<in> set cs" and sep: "idents_separate env rid cs"
  shows "set (affected_views (fc_field c)) \<subseteq> set (review_required_properties (assessment_of rid fs y))"
proof -
  obtain f where f: "f \<in> set fs" "finding_of env rid c = Inr f"
    using assms(1,2) by (metis in_set_conv_nth rmapM_Inr_length rmapM_Inr_nth)
  obtain g where g: "g \<in> set (unique_findings fs)" "finding_id g = finding_id f" using unique_findings_complete [OF f(1)] .
  obtain d where d: "d \<in> set cs" "finding_of env rid d = Inr g" using rules_registered [OF assms(1) unique_findings_sound [OF g(1)]] .
  have "finding_ident env rid d = finding_ident env rid c"
    using g(2) finding_of_Inr(1) [OF d(2)] finding_of_Inr(1) [OF f(2)] by simp
  then have "fc_field d = fc_field c" using sep d(1) assms(2) unfolding idents_separate_def list_all_iff by blast
  then show ?thesis using g(1) finding_of_Inr(4) [OF d(2)] unfolding assessment_of_fields(1) by auto
qed

lemma tc_call_withholds:
  assumes "rmapM (finding_of env rid) cs = Inr fs" "\<exists>c \<in> set cs. fc_field c = ''tc_kelvin''" "idents_separate env rid cs"
  shows "set TC_VIEWS \<subseteq> set (review_required_properties (assessment_of rid fs y))"
proof -
  obtain k where k: "k \<in> set cs" "fc_field k = ''tc_kelvin''" using assms(2) by (elim bexE)
  have "set (affected_views (fc_field k)) \<subseteq> set (review_required_properties (assessment_of rid fs y))"
    by (rule finding_field_affected [OF assms(1) k(1) assms(3)])
  then show ?thesis by (simp add: k(2) affected_views_def)
qed

lemma tc_view_names: "v \<in> set (''tc'' # TC_VIEWS) \<Longrightarrow> public_field v \<in> set TC_VIEWS"
  by (auto simp: TC_VIEWS_def public_field_def)

lemma withheld_views:
  assumes "set TC_VIEWS \<subseteq> set (review_required_properties a)" "v \<in> set (''tc'' # TC_VIEWS)"
  shows "\<not> eligible_for_property (assessment_py a) v"
  using assms(1) tc_view_names [OF assms(2)] by (auto simp: eligible_for_property_def assessment_py_def)

text \<open>
  A record whose critical temperature reaches beyond the broad review reference is withheld
  from every Tc view. Whatever else is found, however many findings are cut from the public list,
  the assessment is not clean and none of the five views, nor the short name, is eligible, provided
  the identifiers of its findings do not collide across fields.
\<close>

theorem high_tc_withheld:
  assumes "assess_record_anomalies env scope fam refs year r = Inr a" "is_mapping r"
    and "record_property_quantity env r ''tc_kelvin'' = Inr tc" "above tc TC_REVIEW_REFERENCE_K \<noteq> None"
    and "legacy_result_id env r scope = Inr rid" "record_calls env r fam refs year = Inr cs" "idents_separate env rid cs"
  shows "as_status a \<noteq> ''no_findings'' \<and> list_all (\<lambda>v. \<not> eligible_for_property (assessment_py a) v) (''tc'' # TC_VIEWS)"
proof -
  obtain fs where fs: "rmapM (finding_of env rid) cs = Inr fs" "a = assessment_of rid fs year"
    using assess_mapping [OF assms(1,2,5,6)] .
  have sub: "set TC_VIEWS \<subseteq> set (review_required_properties a)"
    unfolding fs(2) by (rule tc_call_withholds [OF fs(1) tc_high_call [OF assms(6,3,4)] assms(7)])
  then have "review_required_properties a \<noteq> []" by (auto simp: TC_VIEWS_def)
  then have "as_status a \<noteq> ''no_findings''" using assess_sound [OF assms(1)] by (auto simp: sound_assessment_def)
  then show ?thesis using withheld_views [OF sub] by (simp add: list_all_iff del: set_simps) 
qed

theorem high_tc_withheld_witness:
  "\<exists>a. assess_record_anomalies demo_review_env ''s'' PNone [] PNone (PDict [(PStr ''tc_kelvin'', PInt 300)]) = Inr a
     \<and> \<not> eligible_for_property (assessment_py a) ''tc_ambient''"
proof -
  let ?r = "PDict [(PStr ''tc_kelvin'', PInt 300)]" and ?rid = "''legacy-result:'' @ replicate 64 (CHR ''0'')"
  have "case assess_record_anomalies demo_review_env ''s'' PNone [] PNone ?r of Inr a \<Rightarrow> True | Inl _ \<Rightarrow> False"
    by code_simp
  then obtain a where a: "assess_record_anomalies demo_review_env ''s'' PNone [] PNone ?r = Inr a" by (auto split: sum.splits)
  let ?q = "PDict [(PStr ''status'', PStr ''parsed''), (PStr ''relation'', PStr ''exact''), (PStr ''value'', PInt 300)]"
  have q: "record_property_quantity demo_review_env ?r ''tc_kelvin'' = Inr ?q" by code_simp
  have high: "above ?q TC_REVIEW_REFERENCE_K \<noteq> None" by code_simp
  have rid: "legacy_result_id demo_review_env ?r ''s'' = Inr ?rid" by (simp add: legacy_result_id_def demo_review_env_def)
  have "case record_calls demo_review_env ?r PNone [] PNone of Inr cs \<Rightarrow> idents_separate demo_review_env ?rid cs | Inl _ \<Rightarrow> False"
    by code_simp
  then obtain cs where cs: "record_calls demo_review_env ?r PNone [] PNone = Inr cs" "idents_separate demo_review_env ?rid cs"
    by (auto split: sum.splits)
  from high_tc_withheld [OF a _ q high rid cs] a show ?thesis by (auto simp: TC_VIEWS_def)
qed

section \<open>Totals of a review\<close>

lemma add_count_keys: "fst ` set (add_count d p) = insert (fst p) (fst ` set d)"
  by (induction d p rule: add_count.induct) auto

lemma add_count_distinct: "distinct (map fst d) \<Longrightarrow> distinct (map fst (add_count d p))"
proof (induction d p rule: add_count.induct)
  case (2 s m d r n)
  then show ?case using add_count_keys [of d "(r, n)"] by (auto simp: image_iff)
qed simp

lemma add_count_total: "sum_list (map snd (add_count d p)) = sum_list (map snd d) + snd p"
  by (induction d p rule: add_count.induct) auto

lemma foldl_add_count:
  "fst ` set (foldl add_count d ps) = fst ` set d \<union> fst ` set ps"
  "distinct (map fst d) \<Longrightarrow> distinct (map fst (foldl add_count d ps))"
  "sum_list (map snd (foldl add_count d ps)) = sum_list (map snd d) + sum_list (map snd ps)"
  by (induction ps arbitrary: d) (auto simp: add_count_keys add_count_distinct add_count_total)

lemma snd_le_sum_list: "p \<in> set d \<Longrightarrow> snd p \<le> sum_list (map snd (d :: ('a \<times> nat) list))"
  by (induction d) auto

lemma sum_list_concat_le:
  "list_all sound_assessment as \<Longrightarrow> sum_list (map snd (concat (map rule_counts as))) \<le> sum_list (map total_findings as)"
  by (induction as) (auto simp: sound_assessment_def add_mono)

text \<open>The merged rule counts: registered names, at most eighteen of them, bounded by the findings.\<close>

lemma merged_rule_counts:
  assumes "list_all sound_assessment as"
  defines "d \<equiv> foldl add_count [] (concat (map rule_counts as))"
  shows "length d \<le> 18" "\<forall>p \<in> set d. fst p \<in> fst ` set RULE_DEFINITIONS \<and> snd p \<le> sum_list (map total_findings as)"
proof -
  let ?ps = "concat (map rule_counts as)"
  have keys: "fst ` set d \<subseteq> fst ` set RULE_DEFINITIONS"
  proof -
    have "fst ` set (rule_counts a) \<subseteq> fst ` set RULE_DEFINITIONS" if "a \<in> set as" for a
      using assms(1) that by (simp add: list_all_iff sound_assessment_def)
    then show ?thesis unfolding d_def foldl_add_count(1) by (simp add: image_UN) blast
  qed
  have "length d = card (fst ` set d)"
    using distinct_card [OF foldl_add_count(2) [of "[]" ?ps]] unfolding d_def by simp
  also have "\<dots> \<le> card (fst ` set RULE_DEFINITIONS)" using keys by (rule card_mono [rotated]) simp
  also have "\<dots> \<le> length RULE_DEFINITIONS" using card_length [of "map fst RULE_DEFINITIONS"] by simp
  finally show "length d \<le> 18" by (simp add: RULE_DEFINITIONS_def)
  have "snd p \<le> sum_list (map total_findings as)" if "p \<in> set d" for p
    using snd_le_sum_list [OF that] sum_list_concat_le [OF assms(1)] unfolding d_def foldl_add_count(3) by simp
  then show "\<forall>p \<in> set d. fst p \<in> fst ` set RULE_DEFINITIONS \<and> snd p \<le> sum_list (map total_findings as)"
    using keys by blast
qed

lemma rule_name_length: "k \<in> fst ` set RULE_DEFINITIONS \<Longrightarrow> length k \<le> 100"
  by (auto simp: RULE_DEFINITIONS_def)

lemma needs_review_iff:
  assumes "list_all sound_assessment as"
  shows "status_count as ''review_required'' \<noteq> 0 \<or> status_count as ''format_invalid'' \<noteq> 0
    \<longleftrightarrow> \<not> list_all (\<lambda>a. as_status a = ''no_findings'') as"
proof -
  have st: "as_status a = ''no_findings'' \<or> as_status a = ''review_required'' \<or> as_status a = ''format_invalid''" if "a \<in> set as" for a
    using assms that by (auto simp: list_all_iff sound_assessment_def STATUS_KEYS_def)
  have "as_status a = ''no_findings'' \<longleftrightarrow> \<not> (as_status a = ''review_required'' \<or> as_status a = ''format_invalid'')" if "a \<in> set as" for a
    using st [OF that] by (elim disjE) simp_all
  then show ?thesis by (auto simp: status_count_def count_if_zero_iff list_all_iff)
qed

lemma rmapM_assess_sound:
  assumes "rmapM (assess_record_anomalies env scope fam refs year) rs = Inr as" shows "list_all sound_assessment as"
  unfolding list_all_iff using rmapM_Inr_set [OF assms] assess_sound by blast

lemma rmapM_assess_year:
  assumes "rmapM (assess_record_anomalies env scope fam refs year) rs = Inr as" "rs \<noteq> []" shows "valid_year year"
  using assms by (cases rs) (auto elim: assess_Inr)

end
