(* ===== verification/Rag_Input_Budget.thy ===== *)
theory Rag_Input_Budget
  imports Evidence_Contract
begin

text \<open>
  The input budget of a generation request (\<open>api/services/rag_input_budget.py\<close>,
  \<open>api/models/rag_input_budget.py\<close>): the frozen request with its byte limits, the report with
  its validators, and the pipeline that counts tokens before it generates.

  The outside world of one call is a \<open>call_env\<close>: SHA-256, \<open>json.loads\<close>, the readings of the
  stop event and of the clock at each of the six deadline checks, and the outcomes of the client's
  constructors and of its two remote calls. The remote calls made are recorded in a trace. Times
  are binary64 floats.
\<close>

section \<open>Tables and report\<close>

definition INPUT_PROFILE :: string where "INPUT_PROFILE = ''sclib-gemini-text-rag/1.0.0''"

definition DEFAULT_BYTE_LIMIT :: int where "DEFAULT_BYTE_LIMIT = 256 * 1024"

definition HARD_BYTE_LIMIT :: int where "HARD_BYTE_LIMIT = 1024 * 1024"

definition DEFAULT_INPUT_TOKEN_LIMIT :: int where "DEFAULT_INPUT_TOKEN_LIMIT = 16384"

definition HARD_INPUT_TOKEN_LIMIT :: int where "HARD_INPUT_TOKEN_LIMIT = 131072"

definition MAX_MEASURED_REQUEST_BYTES :: int where "MAX_MEASURED_REQUEST_BYTES = 64 * 1024 * 1024"

text \<open>The pattern \<open>gemini-[A-Za-z0-9][A-Za-z0-9._-]{0,119}\<close>, matched against the whole string.\<close>

definition gemini_model :: "string \<Rightarrow> bool" where
  "gemini_model s =
     (startswith s ''gemini-'' \<and>
      (case drop 7 s of [] \<Rightarrow> False
       | c # rest \<Rightarrow> is_alnum_char c \<and> length rest \<le> 119
           \<and> list_all (\<lambda>x. is_alnum_char x \<or> x \<in> {CHR ''.'', CHR ''_'', CHR ''-''}) rest))"

record budget_report =
  rp_status :: string
  rp_model :: "string option"
  rp_profile :: string
  rp_sha256 :: "string option"
  rp_payload_bytes :: "int option"
  rp_byte_limit :: int
  rp_input_tokens :: "int option"
  rp_max_input_tokens :: "int option"
  rp_generation_started :: "bool option"

definition report_fields :: "budget_report \<Rightarrow> bool" where
  "report_fields r =
     (rp_status r \<in> {''not_requested'', ''counted'', ''rejected'', ''unavailable''}
      \<and> pred_option gemini_model (rp_model r) \<and> rp_profile r = INPUT_PROFILE \<and> pred_option is_sha256 (rp_sha256 r)
      \<and> pred_option (\<lambda>n. 1 \<le> n) (rp_payload_bytes r) \<and> 1 \<le> rp_byte_limit r \<and> rp_byte_limit r \<le> HARD_BYTE_LIMIT
      \<and> pred_option (\<lambda>n. 1 \<le> n \<and> n \<le> 2147483647) (rp_input_tokens r)
      \<and> pred_option (\<lambda>n. 1 \<le> n \<and> n \<le> HARD_INPUT_TOKEN_LIMIT) (rp_max_input_tokens r))"

definition bounded_count :: "budget_report \<Rightarrow> bool" where
  "bounded_count r =
     (rp_model r \<noteq> None \<and> rp_sha256 r \<noteq> None
      \<and> (case rp_payload_bytes r of None \<Rightarrow> False | Some n \<Rightarrow> n \<le> rp_byte_limit r)
      \<and> (case (rp_input_tokens r, rp_max_input_tokens r) of (Some n, Some m) \<Rightarrow> n \<le> m | _ \<Rightarrow> False))"

definition consistent_state :: "budget_report \<Rightarrow> bool" where
  "consistent_state r =
     ((rp_status r = ''not_requested'' \<longrightarrow> rp_model r = None \<and> rp_sha256 r = None \<and> rp_payload_bytes r = None
         \<and> rp_input_tokens r = None \<and> rp_max_input_tokens r = None \<and> rp_generation_started r = None)
      \<and> (rp_status r = ''counted'' \<longrightarrow> rp_generation_started r = Some True)
      \<and> (rp_status r = ''counted'' \<or> rp_generation_started r = Some True \<longrightarrow> bounded_count r)
      \<and> (rp_status r = ''rejected'' \<longrightarrow> rp_generation_started r \<noteq> Some True))"

definition valid_report :: "budget_report \<Rightarrow> bool" where
  "valid_report r = (report_fields r \<and> consistent_state r)"

record budget_error =
  be_reason :: string
  be_report :: budget_report
  be_attempted :: bool

section \<open>Frozen requests\<close>

record frozen_request =
  fr_model :: string
  fr_profile :: string
  request_sha256 :: string
  payload_bytes :: int
  byte_limit :: int
  payload_json :: string

definition reject :: "string \<Rightarrow> string option \<Rightarrow> int \<Rightarrow> int option \<Rightarrow> budget_error" where
  "reject reason model limit bytes =
     \<lparr>be_reason = reason,
      be_report = \<lparr>rp_status = ''rejected'', rp_model = model, rp_profile = INPUT_PROFILE, rp_sha256 = None,
         rp_payload_bytes = bytes, rp_byte_limit = limit, rp_input_tokens = None, rp_max_input_tokens = None,
         rp_generation_started = Some False\<rparr>,
      be_attempted = False\<rparr>"

function fragments :: "string \<Rightarrow> string list" where
  "fragments s = (if s = [] then [] else take 65536 s # fragments (drop 65536 s))"
  by pat_completeness auto
termination
  by (relation "measure length") auto

declare fragments.simps [simp del]

text \<open>The escaped length grows fragment by fragment and is checked after each.\<close>

fun escaped_exceeds :: "int \<Rightarrow> int \<Rightarrow> string list \<Rightarrow> bool" where
  "escaped_exceeds limit n [] = False"
| "escaped_exceeds limit n (f # fs) =
     (let n' = n + int (length (json_string f)) - 2 in n' > limit \<or> escaped_exceeds limit n' fs)"

definition payload_value :: "string \<Rightarrow> string \<Rightarrow> string \<Rightarrow> int \<Rightarrow> pyval" where
  "payload_value model contents sys max_output = PDict
     [(PStr ''profile'', PStr INPUT_PROFILE), (PStr ''model'', PStr model),
      (PStr ''contents'', PList [PDict [(PStr ''role'', PStr ''user''),
          (PStr ''parts'', PList [PDict [(PStr ''text'', PStr contents)]])]]),
      (PStr ''system_instruction'', PDict [(PStr ''parts'', PList [PDict [(PStr ''text'', PStr sys)]])]),
      (PStr ''generation_config'', PDict [(PStr ''temperature'', PFloat (round64 (1 / 5))),
          (PStr ''max_output_tokens'', PInt max_output),
          (PStr ''thinking_config'', PDict [(PStr ''thinking_budget'', PInt 0)])])]"

text \<open>The only float of the payload is the temperature, whose text is \<open>0.2\<close>.\<close>

definition payload_text :: "pyval \<Rightarrow> (py_error, string) res" where
  "payload_text v = json_text (\<lambda>_. ''0.2'') v"

definition payload_types_ok :: "pyval \<Rightarrow> pyval \<Rightarrow> pyval \<Rightarrow> bool" where
  "payload_types_ok contents sys max_output =
     (is_str contents \<and> is_str sys \<and> py_strip (str_of contents) \<noteq> [] \<and> py_strip (str_of sys) \<noteq> []
      \<and> type_is_int max_output \<and> 1 \<le> int_of max_output \<and> int_of max_output \<le> 8192)"

definition serialize_request :: "pyval \<Rightarrow> pyval \<Rightarrow> pyval \<Rightarrow> pyval \<Rightarrow> int \<Rightarrow> int \<Rightarrow> (budget_error, string) res" where
  "serialize_request model contents sys max_output resource_limit limit =
     (let m = str_of model; c = str_of contents; s = str_of sys
      in if \<not> (is_str model \<and> gemini_model m) then Inl (reject ''rag_input_profile_unsupported'' None limit None)
         else if \<not> payload_types_ok contents sys max_output then Inl (reject ''rag_input_payload_invalid'' (Some m) limit None)
         else if int (length c) + int (length s) > resource_limit
              \<or> escaped_exceeds resource_limit 0 (fragments c @ fragments s)
         then Inl (reject ''rag_input_byte_limit_exceeded'' (Some m) limit None)
         else case payload_text (payload_value m c s (int_of max_output)) of
           Inl _ \<Rightarrow> Inl (reject ''rag_input_payload_invalid'' (Some m) limit None)
         | Inr text \<Rightarrow>
             if int (length text) > resource_limit
             then Inl (reject ''rag_input_byte_limit_exceeded'' (Some m) limit (Some (int (length text))))
             else Inr text)"

definition measure_request :: "pyval \<Rightarrow> pyval \<Rightarrow> pyval \<Rightarrow> pyval \<Rightarrow> (budget_error, int) res" where
  "measure_request model contents sys max_output =
     rbind (serialize_request model contents sys max_output MAX_MEASURED_REQUEST_BYTES DEFAULT_BYTE_LIMIT) (\<lambda>t. Inr (int (length t)))"

definition build_request :: "(string \<Rightarrow> string) \<Rightarrow> pyval \<Rightarrow> pyval \<Rightarrow> pyval \<Rightarrow> pyval \<Rightarrow> pyval \<Rightarrow> (budget_error, frozen_request) res" where
  "build_request sha model contents sys max_output limit =
     (if \<not> (type_is_int limit \<and> 1 \<le> int_of limit \<and> int_of limit \<le> HARD_BYTE_LIMIT)
      then Inl (reject ''rag_input_budget_invalid'' None DEFAULT_BYTE_LIMIT None)
      else rbind (serialize_request model contents sys max_output (int_of limit) (int_of limit)) (\<lambda>text.
        Inr \<lparr>fr_model = str_of model, fr_profile = INPUT_PROFILE, request_sha256 = sha text,
             payload_bytes = int (length text), byte_limit = int_of limit, payload_json = text\<rparr>))"

section \<open>The outside world\<close>

datatype stop_reading = StopRaises | StopOther | StopFlag bool

datatype count_reply = CountRaises | CountUnreadable | CountTotal pyval

record 'r call_env =
  ev_sha :: "string \<Rightarrow> string"
  ev_loads :: "string \<Rightarrow> pyval option"
  ev_stop :: "nat \<Rightarrow> stop_reading"
  ev_clock :: "nat \<Rightarrow> rat"
  ev_models_ok :: bool
  ev_generation_config_ok :: bool
  ev_count_config_ok :: bool
  ev_count :: count_reply
  ev_generate_config_ok :: bool
  ev_generate :: "'r option"

datatype provider_call = CountTokens string pyval pyval | GenerateContent string pyval pyval

datatype failure = Budget budget_error | ConfigError

text \<open>\<open>value["a"][0]["b"]\<close>: every missing key or index, or wrong container, is one of the caught errors.\<close>

fun item0 :: "pyval \<Rightarrow> pyval option" where
  "item0 (PList (x # _)) = Some x"
| "item0 _ = None"

definition field_of :: "string \<Rightarrow> pyval \<Rightarrow> pyval option" where
  "field_of k v = (if phas v k then Some (pget v k) else None)"

definition first_text :: "pyval \<Rightarrow> pyval option" where
  "first_text v = Option.bind (field_of ''parts'' v) (\<lambda>ps. Option.bind (item0 ps) (field_of ''text''))"

definition payload_args :: "pyval \<Rightarrow> (pyval \<times> pyval \<times> pyval \<times> pyval) option" where
  "payload_args v =
     Option.bind (field_of ''model'' v) (\<lambda>m.
     Option.bind (Option.bind (field_of ''contents'' v) item0) (\<lambda>c0.
     Option.bind (first_text c0) (\<lambda>c.
     Option.bind (Option.bind (field_of ''system_instruction'' v) first_text) (\<lambda>s.
     Option.bind (Option.bind (field_of ''generation_config'' v) (field_of ''max_output_tokens'')) (\<lambda>t.
       Some (m, c, s, t))))))"

definition checked_payload :: "'r call_env \<Rightarrow> frozen_request \<Rightarrow> (failure, pyval) res" where
  "checked_payload env req =
     (let bad = Inl (Budget (reject ''rag_input_payload_invalid'' None DEFAULT_BYTE_LIMIT None))
      in if int (length (payload_json req)) > HARD_BYTE_LIMIT then bad
         else case ev_loads env (payload_json req) of None \<Rightarrow> bad
         | Some v \<Rightarrow> (case payload_args v of None \<Rightarrow> bad
             | Some (m, c, s, t) \<Rightarrow>
                 if build_request (ev_sha env) m c s t (PInt (byte_limit req)) = Inr req then Inr v else bad))"

section \<open>Counting before generating\<close>

text \<open>
  A duration is an int or float in \<open>(0, 120]\<close>. Sums, differences and products are rounded;
  the comparison with the literal \<open>0.001\<close> is exact on the rounded values.
\<close>

definition duration_ok :: "pyval \<Rightarrow> bool" where
  "duration_ok v = (type_is_int v \<or> (case v of PFloat _ \<Rightarrow> True | _ \<Rightarrow> False))"

definition duration :: "pyval \<Rightarrow> bool" where
  "duration v = (duration_ok v \<and> (case num_of v of None \<Rightarrow> False | Some q \<Rightarrow> 0 < q \<and> q \<le> 120))"

definition deadline_of :: "rat \<Rightarrow> pyval \<Rightarrow> pyfloat" where
  "deadline_of started timeout = (case finite_number timeout of None \<Rightarrow> NaN | Some q \<Rightarrow> round64 (started + q))"

definition left_at :: "pyfloat \<Rightarrow> rat \<Rightarrow> pyfloat" where
  "left_at deadline now = (case deadline of Finite d \<Rightarrow> round64 (d - now) | x \<Rightarrow> x)"


definition MILLISECOND :: rat where
  "MILLISECOND = (case round64 (1 / 1000) of Finite q \<Rightarrow> q | _ \<Rightarrow> 0)"

definition expired :: "pyfloat \<Rightarrow> bool" where
  "expired x = (case x of Finite q \<Rightarrow> q < MILLISECOND | NegInf \<Rightarrow> True | _ \<Rightarrow> False)"

text \<open>\<open>max(1, int(seconds * 1000))\<close> and \<open>min(a, b)\<close> of a duration and the time left.\<close>

definition timeout_ms :: "pyval \<Rightarrow> int" where
  "timeout_ms v = max 1 (case v of
     PInt i \<Rightarrow> i * 1000
   | PFloat (Finite q) \<Rightarrow> (case round64 (q * 1000) of Finite x \<Rightarrow> (if x < 0 then - \<lfloor>- x\<rfloor> else \<lfloor>x\<rfloor>) | _ \<Rightarrow> 0)
   | _ \<Rightarrow> 0)"

definition py_min :: "pyval \<Rightarrow> pyval \<Rightarrow> pyval" where
  "py_min a b = (case (num_of a, num_of b) of (Some x, Some y) \<Rightarrow> if y < x then b else a | _ \<Rightarrow> a)"

definition config_value :: "pyval \<Rightarrow> pyval \<Rightarrow> pyval" where
  "config_value payload seconds = PDict
     [(PStr ''system_instruction'', pget payload ''system_instruction''),
      (PStr ''generation_config'', pget payload ''generation_config''),
      (PStr ''timeout'', PInt (timeout_ms seconds)), (PStr ''attempts'', PInt 1)]"

record progress =
  pg_tokens :: "int option"
  pg_started :: bool
  pg_attempted :: bool

definition budget_report_of :: "frozen_request \<Rightarrow> int \<Rightarrow> string \<Rightarrow> progress \<Rightarrow> budget_report" where
  "budget_report_of req mt status g =
     \<lparr>rp_status = status, rp_model = Some (fr_model req), rp_profile = fr_profile req, rp_sha256 = Some (request_sha256 req),
      rp_payload_bytes = Some (payload_bytes req), rp_byte_limit = byte_limit req, rp_input_tokens = pg_tokens g,
      rp_max_input_tokens = Some mt, rp_generation_started = Some (pg_started g)\<rparr>"

definition fail :: "frozen_request \<Rightarrow> int \<Rightarrow> progress \<Rightarrow> string \<Rightarrow> string \<Rightarrow> failure" where
  "fail req mt g status reason =
     Budget \<lparr>be_reason = reason, be_report = budget_report_of req mt status g, be_attempted = pg_attempted g\<rparr>"

text \<open>The \<open>k\<close>-th deadline check: the stop event first, then the clock.\<close>

definition remaining :: "'r call_env \<Rightarrow> frozen_request \<Rightarrow> int \<Rightarrow> pyfloat \<Rightarrow> progress \<Rightarrow> nat \<Rightarrow> (failure, pyval) res" where
  "remaining env req mt deadline g k =
     (case ev_stop env k of
        StopFlag False \<Rightarrow>
          (let left = left_at deadline (ev_clock env k)
           in if expired left then Inl (fail req mt g ''unavailable'' ''rag_input_deadline_exceeded'') else Inr (PFloat left))
      | StopFlag True \<Rightarrow> Inl (fail req mt g ''unavailable'' ''rag_input_cancelled'')
      | _ \<Rightarrow> Inl (fail req mt g ''unavailable'' ''rag_input_cancellation_unavailable''))"

text \<open>A run is an outcome together with the remote calls it made.\<close>

type_synonym 'a run = "(failure, 'a) res \<times> provider_call list"

definition tbind :: "'a run \<Rightarrow> ('a \<Rightarrow> 'b run) \<Rightarrow> 'b run" where
  "tbind x f = (case fst x of Inl e \<Rightarrow> (Inl e, snd x) | Inr a \<Rightarrow> (case f a of (r, t) \<Rightarrow> (r, snd x @ t)))"

definition lift :: "(failure, 'a) res \<Rightarrow> 'a run" where
  "lift r = (r, [])"

definition count_step :: "'r call_env \<Rightarrow> frozen_request \<Rightarrow> int \<Rightarrow> pyval \<Rightarrow> pyfloat \<Rightarrow> pyval \<Rightarrow> count_reply run" where
  "count_step env req mt cts deadline payload =
     (let g0 = \<lparr>pg_tokens = None, pg_started = False, pg_attempted = False\<rparr>;
          unavailable = (\<lambda>g. Inl (fail req mt g ''unavailable'' ''rag_input_count_unavailable''))
      in if \<not> (ev_models_ok env \<and> ev_generation_config_ok env) then lift (unavailable g0)
         else tbind (lift (remaining env req mt deadline g0 2)) (\<lambda>left.
           if \<not> ev_count_config_ok env then lift (unavailable g0)
           else (if ev_count env = CountRaises then unavailable (g0\<lparr>pg_attempted := True\<rparr>) else Inr (ev_count env),
                 [CountTokens (fr_model req) (pget payload ''contents'') (config_value payload (py_min cts left))])))"

definition observed_tokens :: "frozen_request \<Rightarrow> int \<Rightarrow> count_reply \<Rightarrow> (failure, int) res" where
  "observed_tokens req mt out =
     (let g = \<lparr>pg_tokens = None, pg_started = False, pg_attempted = True\<rparr>;
          invalid = Inl (fail req mt g ''unavailable'' ''rag_input_count_invalid'')
      in case out of
           CountTotal (PInt n) \<Rightarrow>
             if \<not> (1 \<le> n \<and> n \<le> 2147483647) then invalid
             else if n > mt then Inl (fail req mt (g\<lparr>pg_tokens := Some n\<rparr>) ''rejected'' ''rag_input_token_limit_exceeded'')
             else Inr n
         | _ \<Rightarrow> invalid)"

definition generate_step :: "'r call_env \<Rightarrow> frozen_request \<Rightarrow> int \<Rightarrow> pyfloat \<Rightarrow> int \<Rightarrow> ('r \<times> budget_report) run" where
  "generate_step env req mt deadline n =
     (let g = \<lparr>pg_tokens = Some n, pg_started = False, pg_attempted = True\<rparr>; g' = g\<lparr>pg_started := True\<rparr>
      in tbind (lift (checked_payload env req)) (\<lambda>payload.
         tbind (lift (remaining env req mt deadline g 4)) (\<lambda>left.
         tbind (lift (if ev_generate_config_ok env then Inr () else Inl ConfigError)) (\<lambda>_.
         tbind (lift (remaining env req mt deadline g 5)) (\<lambda>_.
         tbind (case ev_generate env of None \<Rightarrow> Inl (fail req mt g' ''unavailable'' ''rag_input_generation_unavailable'') | Some r \<Rightarrow> Inr r,
                [GenerateContent (fr_model req) (pget payload ''contents'') (config_value payload left)]) (\<lambda>response.
         tbind (lift (remaining env req mt deadline g' 6)) (\<lambda>_.
           lift (Inr (response, budget_report_of req mt ''counted'' g')))))))))"

definition generate_with_budget ::
  "'r call_env \<Rightarrow> frozen_request \<Rightarrow> pyval \<Rightarrow> pyval \<Rightarrow> pyval \<Rightarrow> ('r \<times> budget_report) run" where
  "generate_with_budget env req mt ts cts =
     tbind (lift (checked_payload env req)) (\<lambda>payload.
       if \<not> (type_is_int mt \<and> 1 \<le> int_of mt \<and> int_of mt \<le> HARD_INPUT_TOKEN_LIMIT \<and> duration ts \<and> duration cts)
       then lift (Inl (Budget (reject ''rag_input_budget_invalid'' (Some (fr_model req)) (byte_limit req) None)))
       else let deadline = deadline_of (ev_clock env 0) ts; m = int_of mt;
                g0 = \<lparr>pg_tokens = None, pg_started = False, pg_attempted = False\<rparr>; g1 = g0\<lparr>pg_attempted := True\<rparr>
            in tbind (lift (remaining env req m deadline g0 1)) (\<lambda>_.
               tbind (count_step env req m cts deadline payload) (\<lambda>out.
               tbind (lift (remaining env req m deadline g1 3)) (\<lambda>_.
               tbind (lift (observed_tokens req m out)) (\<lambda>n.
               generate_step env req m deadline n)))))"

section \<open>What is checked, and a concrete run\<close>

text \<open>A deadline check that lets the call proceed.\<close>

definition check_passes :: "'r call_env \<Rightarrow> pyfloat \<Rightarrow> nat \<Rightarrow> bool" where
  "check_passes env deadline k \<longleftrightarrow> ev_stop env k = StopFlag False \<and> \<not> expired (left_at deadline (ev_clock env k))"

text \<open>What a request that passes the check satisfies.\<close>

definition sound_request :: "(string \<Rightarrow> string) \<Rightarrow> frozen_request \<Rightarrow> bool" where
  "sound_request sha req \<longleftrightarrow>
     gemini_model (fr_model req) \<and> fr_profile req = INPUT_PROFILE \<and> request_sha256 req = sha (payload_json req)
     \<and> payload_bytes req = int (length (payload_json req)) \<and> 1 \<le> payload_bytes req \<and> payload_bytes req \<le> byte_limit req
     \<and> 1 \<le> byte_limit req \<and> byte_limit req \<le> HARD_BYTE_LIMIT"

text \<open>A failure that carries a valid report; the refusal of the generation config carries none.\<close>

definition reported :: "failure \<Rightarrow> bool" where
  "reported f \<longleftrightarrow> (case f of Budget e \<Rightarrow> valid_report (be_report e) | ConfigError \<Rightarrow> False)"

text \<open>A concrete request with a client that counts twelve tokens and answers.\<close>

definition demo_args :: "string \<times> string \<times> string" where
  "demo_args = (''gemini-2.5-flash'', ''What is Tc?'', ''Answer from the sources.'')"

definition demo_payload :: pyval where
  "demo_payload = payload_value (fst demo_args) (fst (snd demo_args)) (snd (snd demo_args)) 1024"

definition demo_call_env :: "string call_env" where
  "demo_call_env = \<lparr>ev_sha = (\<lambda>_. replicate 64 (CHR ''a'')), ev_loads = (\<lambda>_. Some demo_payload),
     ev_stop = (\<lambda>_. StopFlag False), ev_clock = (\<lambda>k. of_nat k), ev_models_ok = True, ev_generation_config_ok = True,
     ev_count_config_ok = True, ev_count = CountTotal (PInt 12), ev_generate_config_ok = True, ev_generate = Some ''answer''\<rparr>"

definition demo_frozen :: frozen_request where
  "demo_frozen = projr (build_request (ev_sha demo_call_env) (PStr (fst demo_args)) (PStr (fst (snd demo_args)))
      (PStr (snd (snd demo_args))) (PInt 1024) (PInt 4096))"

section \<open>Runs\<close>

lemma tbind_simps [simp]:
  "tbind (lift (Inl e)) f = (Inl e, [])"
  "tbind (lift (Inr a)) f = f a"
  by (simp_all add: tbind_def lift_def)

lemma tbind_lift_cases:
  obtains e where "r = Inl e" "tbind (lift r) f = (Inl e, [])"
  | a where "r = Inr a" "tbind (lift r) f = f a"
  by (cases r) simp_all

text \<open>A call in the trace of a bind was made by its first part, or by its continuation.\<close>

lemma tbind_trace:
  "c \<in> set (snd (tbind x f)) \<longleftrightarrow> c \<in> set (snd x) \<or> (\<exists>a. fst x = Inr a \<and> c \<in> set (snd (f a)))"
  by (cases "fst x") (auto simp: tbind_def split: prod.splits)

lemma lift_trace [simp]: "snd (lift r) = []" "fst (lift r) = r"
  by (simp_all add: lift_def)

lemma tbind_snd: "fst x = Inr a \<Longrightarrow> snd (tbind x f) = snd x @ snd (f a)"
  by (simp add: tbind_def split: prod.splits)

lemma tbind_fst_Inl: "fst (tbind x f) = Inl e \<longleftrightarrow> fst x = Inl e \<or> (\<exists>a. fst x = Inr a \<and> fst (f a) = Inl e)"
  by (cases "fst x") (auto simp: tbind_def split: prod.splits)

lemma tbind_fst_Inr: "fst (tbind x f) = Inr b \<longleftrightarrow> (\<exists>a. fst x = Inr a \<and> fst (f a) = Inr b)"
  by (cases "fst x") (auto simp: tbind_def split: prod.splits)

lemma remaining_Inr: "remaining env req mt dl g k = Inr v \<Longrightarrow> check_passes env dl k"
  by (auto simp: remaining_def check_passes_def Let_def split: stop_reading.splits bool.splits if_splits)

section \<open>Checked requests\<close>

lemma serialize_Inr:
  assumes "serialize_request model contents sys mo rl l = Inr t"
  shows "is_str model \<and> gemini_model (str_of model)" "int (length t) \<le> rl"
    "payload_text (payload_value (str_of model) (str_of contents) (str_of sys) (int_of mo)) = Inr t"
  using assms by (auto simp: serialize_request_def Let_def split: if_splits sum.splits)

lemma json_text_object_nonempty: "json_text fr (PDict kvs) = Inr t \<Longrightarrow> 1 \<le> length t"
  by (auto split: if_splits)

lemma build_request_sound:
  assumes "build_request sha model contents sys mo l = Inr req" shows "sound_request sha req"
proof -
  have l: "1 \<le> int_of l" "int_of l \<le> HARD_BYTE_LIMIT"
    using assms by (auto simp: build_request_def split: if_splits)
  obtain t where t: "serialize_request model contents sys mo (int_of l) (int_of l) = Inr t"
    and r: "req = \<lparr>fr_model = str_of model, fr_profile = INPUT_PROFILE, request_sha256 = sha t,
             payload_bytes = int (length t), byte_limit = int_of l, payload_json = t\<rparr>"
    using assms by (auto simp: build_request_def split: if_splits)
  note s = serialize_Inr [OF t]
  have "1 \<le> length t" using s(3) unfolding payload_text_def payload_value_def by (rule json_text_object_nonempty)
  then show ?thesis using s l r by (simp add: sound_request_def)
qed

lemma build_request_limit: "build_request sha model contents sys mo l = Inr req \<Longrightarrow> byte_limit req = int_of l"
  by (auto simp: build_request_def split: if_splits)

lemma checked_payload_sound: "checked_payload env req = Inr v \<Longrightarrow> sound_request (ev_sha env) req"
  by (auto simp: checked_payload_def Let_def split: if_splits option.splits dest: build_request_sound)

section \<open>Properties\<close>

lemma generate_step_trace:
  assumes "GenerateContent m c cfg \<in> set (snd (generate_step env req mt dl n))"
  shows "\<exists>payload. checked_payload env req = Inr payload \<and> m = fr_model req \<and> c = pget payload ''contents''
    \<and> snd (generate_step env req mt dl n) = [GenerateContent m c cfg] \<and> check_passes env dl 4 \<and> check_passes env dl 5"
proof -
  let ?g = "\<lparr>pg_tokens = Some n, pg_started = False, pg_attempted = True\<rparr>"
  obtain payload left v where p: "checked_payload env req = Inr payload"
    and r: "remaining env req mt dl ?g 4 = Inr left" "remaining env req mt dl ?g 5 = Inr v" and ok: "ev_generate_config_ok env"
    and e: "GenerateContent m c cfg = GenerateContent (fr_model req) (pget payload ''contents'') (config_value payload left)"
    using assms by (auto simp: generate_step_def Let_def tbind_trace split: if_splits)
  have "snd (generate_step env req mt dl n) = [GenerateContent (fr_model req) (pget payload ''contents'') (config_value payload left)]"
    using p r ok by (auto simp: generate_step_def Let_def tbind_def lift_def split: option.splits sum.splits)
  then show ?thesis using p e remaining_Inr [OF r(1)] remaining_Inr [OF r(2)] by simp
qed

lemma count_step_trace:
  assumes "fst (count_step env req mt cts dl payload) = Inr out"
  shows "out = ev_count env \<and> check_passes env dl 2
    \<and> (\<exists>cfg. snd (count_step env req mt cts dl payload) = [CountTokens (fr_model req) (pget payload ''contents'') cfg])"
  using assms
  by (auto simp: count_step_def Let_def tbind_fst_Inr tbind_snd dest!: remaining_Inr split: if_splits)

lemma count_step_no_generation: "GenerateContent m c cfg \<notin> set (snd (count_step env req mt cts dl payload))"
  by (auto simp: count_step_def Let_def tbind_trace split: if_splits)

lemma observed_tokens_Inr:
  "observed_tokens req mt out = Inr n \<Longrightarrow> out = CountTotal (PInt n) \<and> 1 \<le> n \<and> n \<le> mt"
  by (auto simp: observed_tokens_def Let_def split: count_reply.splits pyval.splits if_splits)

text \<open>
  C2. Nothing is generated outside the budget. If a generation call was made, then exactly one
  count call was made before it, for the same model and the same contents; the request is the frozen
  one, within its byte limit and the hard limit; the provider's count is at least one and at most
  the token limit, itself below the hard limit; and at each of the five checks before the call the
  stop event was not set and at least a millisecond of the deadline was left.
\<close>

theorem generation_is_budgeted:
  assumes gen: "GenerateContent m c cfg \<in> set (snd (generate_with_budget env req mt ts cts))"
  shows "(\<exists>cfg'. snd (generate_with_budget env req mt ts cts) = [CountTokens m c cfg', GenerateContent m c cfg])
    \<and> (\<exists>payload. checked_payload env req = Inr payload \<and> m = fr_model req \<and> c = pget payload ''contents'')
    \<and> sound_request (ev_sha env) req
    \<and> (\<exists>n. ev_count env = CountTotal (PInt n) \<and> 1 \<le> n \<and> n \<le> int_of mt) \<and> int_of mt \<le> HARD_INPUT_TOKEN_LIMIT
    \<and> list_all (check_passes env (deadline_of (ev_clock env 0) ts)) [1, 2, 3, 4, 5]"
proof -
  let ?dl = "deadline_of (ev_clock env 0) ts" and ?m = "int_of mt"
  let ?g0 = "\<lparr>pg_tokens = None, pg_started = False, pg_attempted = False\<rparr>"
  let ?g1 = "\<lparr>pg_tokens = None, pg_started = False, pg_attempted = True\<rparr>"
  obtain payload where p: "checked_payload env req = Inr payload"
    using gen by (cases "checked_payload env req") (auto simp: generate_with_budget_def)
  have lim: "1 \<le> ?m" "?m \<le> HARD_INPUT_TOKEN_LIMIT" "type_is_int mt" "duration ts" "duration cts"
    using gen p by (auto simp: generate_with_budget_def split: if_splits)
  then have run: "generate_with_budget env req mt ts cts =
      tbind (lift (remaining env req ?m ?dl ?g0 1)) (\<lambda>_.
      tbind (count_step env req ?m cts ?dl payload) (\<lambda>out.
      tbind (lift (remaining env req ?m ?dl ?g1 3)) (\<lambda>_.
      tbind (lift (observed_tokens req ?m out)) (\<lambda>n. generate_step env req ?m ?dl n))))"
    using p by (simp add: generate_with_budget_def Let_def)
  obtain v1 out v3 n where r1: "remaining env req ?m ?dl ?g0 1 = Inr v1"
    and cs: "fst (count_step env req ?m cts ?dl payload) = Inr out"
    and r3: "remaining env req ?m ?dl ?g1 3 = Inr v3" and ot: "observed_tokens req ?m out = Inr n"
    and gs: "GenerateContent m c cfg \<in> set (snd (generate_step env req ?m ?dl n))"
    using gen unfolding run by (auto simp: tbind_trace count_step_no_generation)
  note g = generate_step_trace [OF gs] and k = count_step_trace [OF cs]
  obtain cfg' where kt: "snd (count_step env req ?m cts ?dl payload) = [CountTokens (fr_model req) (pget payload ''contents'') cfg']"
    using k by blast
  have trace: "snd (generate_with_budget env req mt ts cts) = [CountTokens m c cfg', GenerateContent m c cfg]"
    unfolding run using r1 r3 ot g p by (simp add: tbind_snd [OF cs] kt)
  have n: "ev_count env = CountTotal (PInt n)" "1 \<le> n" "n \<le> ?m" using observed_tokens_Inr [OF ot] k by auto
  have checks: "list_all (check_passes env ?dl) [1, 2, 3, 4, 5]"
    using remaining_Inr [OF r1] remaining_Inr [OF r3] k g by auto
  show ?thesis using trace n checks lim(2) checked_payload_sound [OF p] g p by blast
qed


lemma reject_valid:
  assumes "pred_option gemini_model model" "1 \<le> limit" "limit \<le> HARD_BYTE_LIMIT" "pred_option (\<lambda>n. 1 \<le> n) bytes"
  shows "reported (Budget (reject reason model limit bytes))"
  using assms by (simp add: reported_def reject_def valid_report_def report_fields_def consistent_state_def)

lemma fail_valid:
  assumes "sound_request sha req" "\<forall>x. is_sha256 (sha x)" "1 \<le> mt" "mt \<le> HARD_INPUT_TOKEN_LIMIT"
    and "pred_option (\<lambda>n. 1 \<le> n \<and> n \<le> 2147483647) (pg_tokens g)"
    and "status \<in> {''unavailable'', ''rejected''}" "status = ''rejected'' \<longrightarrow> \<not> pg_started g"
    and "pg_started g \<longrightarrow> (\<exists>n. pg_tokens g = Some n \<and> n \<le> mt)"
  shows "reported (fail req mt g status reason)"
proof -
  have "report_fields (budget_report_of req mt status g)"
    using assms by (auto simp: sound_request_def report_fields_def budget_report_of_def)
  moreover have "consistent_state (budget_report_of req mt status g)"
    using assms by (auto simp: sound_request_def consistent_state_def bounded_count_def budget_report_of_def)
  ultimately show ?thesis by (simp add: fail_def reported_def valid_report_def)
qed

lemma checked_payload_reported: "checked_payload env req = Inl f \<Longrightarrow> reported f"
  using reject_valid [of None DEFAULT_BYTE_LIMIT None "''rag_input_payload_invalid''"]
  by (auto simp: checked_payload_def Let_def DEFAULT_BYTE_LIMIT_def HARD_BYTE_LIMIT_def split: if_splits option.splits)

lemma remaining_fails: "remaining env req mt dl g k = Inl f \<Longrightarrow> \<exists>reason. f = fail req mt g ''unavailable'' reason"
  by (auto simp: remaining_def Let_def split: stop_reading.splits bool.splits if_splits)

lemma count_step_fails:
  "fst (count_step env req mt cts dl payload) = Inl f \<Longrightarrow>
     \<exists>reason g. f = fail req mt g ''unavailable'' reason \<and> pg_tokens g = None \<and> \<not> pg_started g"
  by (auto simp: count_step_def Let_def tbind_fst_Inl split: if_splits dest!: remaining_fails) force+

lemma observed_tokens_fails:
  "observed_tokens req mt out = Inl f \<Longrightarrow>
     \<exists>reason g status. f = fail req mt g status reason \<and> status \<in> {''unavailable'', ''rejected''} \<and> \<not> pg_started g
       \<and> pred_option (\<lambda>n. 1 \<le> n \<and> n \<le> 2147483647) (pg_tokens g)"
  by (auto simp: observed_tokens_def Let_def split: count_reply.splits pyval.splits if_splits) force+

lemma observed_tokens_range: "observed_tokens req mt out = Inr n \<Longrightarrow> 1 \<le> n \<and> n \<le> 2147483647 \<and> n \<le> mt"
  by (auto simp: observed_tokens_def Let_def split: count_reply.splits pyval.splits if_splits)

lemma generate_step_fails:
  assumes "fst (generate_step env req mt dl n) = Inl f" "checked_payload env req = Inr payload"
  shows "f = ConfigError \<and> \<not> ev_generate_config_ok env \<or> (\<exists>reason g. f = fail req mt g ''unavailable'' reason \<and> pg_tokens g = Some n)"
  using assms
  by (auto simp: generate_step_def Let_def tbind_fst_Inl split: if_splits option.splits dest!: remaining_fails) force+

lemma generate_step_returns:
  "fst (generate_step env req mt dl n) = Inr (r, rep) \<Longrightarrow>
     rep = budget_report_of req mt ''counted'' \<lparr>pg_tokens = Some n, pg_started = True, pg_attempted = True\<rparr>"
  by (auto simp: generate_step_def Let_def tbind_fst_Inr)

lemma generate_step_config: "GenerateContent m c cfg \<in> set (snd (generate_step env req mt dl n)) \<Longrightarrow> ev_generate_config_ok env"
  by (auto simp: generate_step_def Let_def tbind_trace split: if_splits)

lemma generation_config:
  "GenerateContent m c cfg \<in> set (snd (generate_with_budget env req mt ts cts)) \<Longrightarrow> ev_generate_config_ok env"
  by (auto simp: generate_with_budget_def Let_def tbind_trace count_step_no_generation split: if_splits dest: generate_step_config)

text \<open>
  C34. What every outcome reports. With a digest function that yields SHA-256 texts, each error the
  pipeline raises carries a report that satisfies the closed report contract, with one exception:
  when the client library refuses the generation config, outside every \<open>try\<close>, its own error escapes
  without a report, and then nothing was generated. A returned response carries a valid report with
  status counted and generation started.
\<close>

theorem budget_reports_valid:
  assumes sha: "\<forall>x. is_sha256 (ev_sha env x)"
  shows "case fst (generate_with_budget env req mt ts cts) of
      Inl f \<Rightarrow> reported f \<or> f = ConfigError \<and> \<not> ev_generate_config_ok env \<and>
        (\<forall>m c cfg. GenerateContent m c cfg \<notin> set (snd (generate_with_budget env req mt ts cts)))
    | Inr (r, rep) \<Rightarrow> valid_report rep \<and> rp_status rep = ''counted'' \<and> rp_generation_started rep = Some True"
proof (cases "checked_payload env req")
  case (Inl f)
  then show ?thesis using checked_payload_reported [OF Inl] by (simp add: generate_with_budget_def)
next
  case (Inr payload)
  note sr = checked_payload_sound [OF Inr]
  let ?dl = "deadline_of (ev_clock env 0) ts" and ?m = "int_of mt"
  show ?thesis
  proof (cases "type_is_int mt \<and> 1 \<le> ?m \<and> ?m \<le> HARD_INPUT_TOKEN_LIMIT \<and> duration ts \<and> duration cts")
    case False
    have "reported (Budget (reject ''rag_input_budget_invalid'' (Some (fr_model req)) (byte_limit req) None))"
      by (rule reject_valid) (use sr in \<open>auto simp: sound_request_def\<close>)
    then show ?thesis using Inr False by (simp add: generate_with_budget_def)
  next
    case True
    have ok: "reported (fail req ?m g status reason)"
      if "pred_option (\<lambda>n. 1 \<le> n \<and> n \<le> 2147483647) (pg_tokens g)" "status \<in> {''unavailable'', ''rejected''}"
        "status = ''rejected'' \<longrightarrow> \<not> pg_started g" "pg_started g \<longrightarrow> (\<exists>n. pg_tokens g = Some n \<and> n \<le> ?m)" for g status reason
      by (rule fail_valid [OF sr sha]) (use True that in auto)
    have idle: "reported (fail req ?m g ''unavailable'' reason)" if "pg_tokens g = None" "\<not> pg_started g" for g reason
      by (rule ok) (use that in simp_all)
    let ?run = "\<lambda>out. tbind (lift (observed_tokens req ?m out)) (\<lambda>n. generate_step env req ?m ?dl n)"
    let ?excused = "\<lambda>f. reported f \<or> f = ConfigError \<and> \<not> ev_generate_config_ok env"
    have inner: "?excused f" if "fst (?run out) = Inl f" for out f
    proof (cases "observed_tokens req ?m out")
      case (Inl e)
      then have f: "f = e" using that by simp
      obtain reason g status where "e = fail req ?m g status reason" "status \<in> {''unavailable'', ''rejected''}" "\<not> pg_started g"
        "pred_option (\<lambda>n. 1 \<le> n \<and> n \<le> 2147483647) (pg_tokens g)"
        using observed_tokens_fails [OF Inl] by (elim exE conjE) (rule that)
      then show ?thesis unfolding f using ok [of g status reason] by simp
    next
      case (Inr n)
      then have g: "fst (generate_step env req ?m ?dl n) = Inl f" using that by simp
      consider "f = ConfigError" "\<not> ev_generate_config_ok env" | reason g where "f = fail req ?m g ''unavailable'' reason" "pg_tokens g = Some n"
        using generate_step_fails [OF g \<open>checked_payload env req = Inr payload\<close>] by blast
      then show ?thesis
      proof cases
        case 2
        show ?thesis unfolding 2(1) by (rule disjI1, rule ok) (use 2(2) observed_tokens_range [OF Inr] in simp_all)
      qed simp
    qed
    have refused: "observed_tokens req ?m out = Inl f \<Longrightarrow> ?excused f" for out f using inner [of out f] by simp
    have stopped: "observed_tokens req ?m out = Inr n \<Longrightarrow> fst (generate_step env req ?m ?dl n) = Inl f \<Longrightarrow> ?excused f" for out n f
      using inner [of out f] by simp
    show ?thesis
    proof (cases "fst (generate_with_budget env req mt ts cts)")
      case (Inl f)
      then have "?excused f"
        using True \<open>checked_payload env req = Inr payload\<close> idle
        by (auto simp: generate_with_budget_def Let_def tbind_fst_Inl dest!: remaining_fails count_step_fails
          dest: refused stopped)
      then show ?thesis using Inl generation_config [of _ _ _ env req mt ts cts] by auto
    next
      case (Inr x)
      obtain r rep where x: "x = (r, rep)" by force
      obtain out n where n: "observed_tokens req ?m out = Inr n" "fst (generate_step env req ?m ?dl n) = Inr (r, rep)"
        using Inr x True \<open>checked_payload env req = Inr payload\<close>
        by (auto simp: generate_with_budget_def Let_def tbind_fst_Inr)
      have rep: "rep = budget_report_of req ?m ''counted'' \<lparr>pg_tokens = Some n, pg_started = True, pg_attempted = True\<rparr>"
        using generate_step_returns [OF n(2)] .
      have "valid_report rep \<and> rp_status rep = ''counted'' \<and> rp_generation_started rep = Some True"
        using sr sha observed_tokens_range [OF n(1)] True unfolding rep
        by (simp add: valid_report_def report_fields_def consistent_state_def bounded_count_def budget_report_of_def sound_request_def)
      then show ?thesis using Inr x by simp
    qed
  qed
qed


lemma demo_text: "\<exists>t. payload_text demo_payload = Inr t \<and> length t \<le> 4096"
proof -
  have short: "length (json_string s) \<le> 64" if "list_all (\<lambda>c. 32 \<le> char_nat c) s" "length s \<le> 31" for s
    using json_string_printable [OF that(1)] that(2) by simp
  have all: "\<forall>s \<in> set [''profile'', ''sclib-gemini-text-rag/1.0.0'', ''model'', ''gemini-2.5-flash'', ''contents'', ''role'', ''user'',
      ''parts'', ''text'', ''What is Tc?'', ''system_instruction'', ''Answer from the sources.'', ''generation_config'',
      ''temperature'', ''max_output_tokens'', ''thinking_config'', ''thinking_budget'']. length (json_string s) \<le> 64"
    by (simp add: short char_nat_def)
  have digits: "int_text 1024 = ''1024''" "int_text 0 = ''0''" "too_many_digits 0 = False" "too_many_digits 1024 = False" by code_simp+
  obtain q where "round64 (1 / 5) = Finite q"
  proof -
    have "case round64 (1 / 5) of Finite q \<Rightarrow> True | _ \<Rightarrow> False" by code_simp
    then show thesis using that by (auto split: pyfloat.splits)
  qed
  then show ?thesis using all
    by (simp add: payload_text_def demo_payload_def demo_args_def payload_value_def INPUT_PROFILE_def digits)
qed

lemma fragments_short: "s \<noteq> [] \<Longrightarrow> length s \<le> 65536 \<Longrightarrow> fragments s = [s]"
  by (subst fragments.simps, simp) (subst fragments.simps, simp)

lemma demo_request: "build_request (ev_sha demo_call_env) (PStr (fst demo_args)) (PStr (fst (snd demo_args)))
    (PStr (snd (snd demo_args))) (PInt 1024) (PInt 4096) = Inr demo_frozen"
proof -
  obtain t where t: "payload_text demo_payload = Inr t" "length t \<le> 4096" using demo_text by blast
  have f: "fragments ''What is Tc?'' = [''What is Tc?'']" "fragments ''Answer from the sources.'' = [''Answer from the sources.'']"
    by (simp_all add: fragments_short)
  have l: "length (json_string ''What is Tc?'') \<le> 100" "length (json_string ''Answer from the sources.'') \<le> 100"
    using json_string_printable [of "''What is Tc?''"] json_string_printable [of "''Answer from the sources.''"]
    by (simp_all add: char_nat_def)
  have m: "gemini_model ''gemini-2.5-flash''" by code_simp
  have ty: "payload_types_ok (PStr ''What is Tc?'') (PStr ''Answer from the sources.'') (PInt 1024)" by code_simp
  have "serialize_request (PStr (fst demo_args)) (PStr (fst (snd demo_args))) (PStr (snd (snd demo_args))) (PInt 1024) 4096 4096 = Inr t"
    using t f l m ty by (simp add: serialize_request_def Let_def demo_args_def demo_payload_def)
  then have "\<exists>r. build_request (ev_sha demo_call_env) (PStr (fst demo_args)) (PStr (fst (snd demo_args)))
      (PStr (snd (snd demo_args))) (PInt 1024) (PInt 4096) = Inr r"
    by (simp add: build_request_def HARD_BYTE_LIMIT_def)
  then show ?thesis unfolding demo_frozen_def by auto
qed

lemma demo_checked: "checked_payload demo_call_env demo_frozen = Inr demo_payload"
proof -
  have "byte_limit demo_frozen = 4096" using build_request_limit [OF demo_request] by simp
  moreover have "sound_request (ev_sha demo_call_env) demo_frozen" using build_request_sound [OF demo_request] .
  moreover have "payload_args demo_payload = Some (PStr (fst demo_args), PStr (fst (snd demo_args)), PStr (snd (snd demo_args)), PInt 1024)"
    by (simp add: payload_args_def demo_payload_def payload_value_def field_of_def first_text_def)
  ultimately show ?thesis
    using demo_request by (simp add: checked_payload_def Let_def demo_call_env_def sound_request_def)
qed

lemma demo_check_passes:
  "check_passes demo_call_env (deadline_of (ev_clock demo_call_env 0) (PInt 30)) k" if "k \<in> {1, 2, 3, 4, 5, 6}"
proof -
  have "\<not> expired (left_at (deadline_of 0 (PInt 30)) 1)" "\<not> expired (left_at (deadline_of 0 (PInt 30)) 2)"
    "\<not> expired (left_at (deadline_of 0 (PInt 30)) 3)" "\<not> expired (left_at (deadline_of 0 (PInt 30)) 4)"
    "\<not> expired (left_at (deadline_of 0 (PInt 30)) 5)" "\<not> expired (left_at (deadline_of 0 (PInt 30)) 6)"
    by code_simp+
  then show ?thesis using that by (auto simp: check_passes_def demo_call_env_def)
qed

lemma remaining_passes:
  "check_passes env dl k \<Longrightarrow> remaining env req mt dl g k = Inr (PFloat (left_at dl (ev_clock env k)))"
  by (simp add: remaining_def check_passes_def Let_def)

lemma demo_generates: "\<exists>cfg. GenerateContent (fr_model demo_frozen) (pget demo_payload ''contents'') cfg
    \<in> set (snd (generate_with_budget demo_call_env demo_frozen (PInt 100) (PInt 30) (PInt 5)))"
proof -
  let ?dl = "deadline_of (ev_clock demo_call_env 0) (PInt 30)"
  have r: "remaining demo_call_env demo_frozen 100 ?dl g k = Inr (PFloat (left_at ?dl (ev_clock demo_call_env k)))"
    if "k \<in> {1, 2, 3, 4, 5, 6}" for g k using remaining_passes [OF demo_check_passes [OF that]] .
  have o: "observed_tokens demo_frozen 100 (ev_count demo_call_env) = Inr 12"
    by (simp add: observed_tokens_def demo_call_env_def)
  have ok: "ev_models_ok demo_call_env" "ev_generation_config_ok demo_call_env" "ev_count_config_ok demo_call_env"
    "ev_count demo_call_env \<noteq> CountRaises" "ev_generate_config_ok demo_call_env"
    by (simp_all add: demo_call_env_def)
  have g: "\<exists>cfg. GenerateContent (fr_model demo_frozen) (pget demo_payload ''contents'') cfg
      \<in> set (snd (generate_step demo_call_env demo_frozen 100 ?dl 12))"
    by (simp add: generate_step_def Let_def r ok demo_checked tbind_trace)
  have d: "duration (PInt 30)" "duration (PInt 5)" by (simp_all add: duration_def duration_ok_def)
  have c: "fst (count_step demo_call_env demo_frozen 100 (PInt 5) ?dl demo_payload) = Inr (ev_count demo_call_env)"
    by (simp add: count_step_def Let_def r ok)
  show ?thesis
    using g by (simp add: generate_with_budget_def Let_def demo_checked d HARD_INPUT_TOKEN_LIMIT_def r tbind_trace c o) blast
qed

theorem generation_is_budgeted_witness:
  "\<exists>n. ev_count demo_call_env = CountTotal (PInt n) \<and> n \<le> 100 \<and> sound_request (ev_sha demo_call_env) demo_frozen"
proof -
  obtain cfg where "GenerateContent (fr_model demo_frozen) (pget demo_payload ''contents'') cfg
    \<in> set (snd (generate_with_budget demo_call_env demo_frozen (PInt 100) (PInt 30) (PInt 5)))" using demo_generates by blast
  from generation_is_budgeted [OF this] show ?thesis by auto
qed

theorem budget_reports_valid_witness:
  "case fst (generate_with_budget demo_call_env demo_frozen (PInt 100) (PInt 30) (PInt 5)) of
      Inl f \<Rightarrow> reported f
    | Inr (r, rep) \<Rightarrow> valid_report rep \<and> rp_status rep = ''counted'' \<and> rp_generation_started rep = Some True"
proof -
  have "is_sha256 (replicate 64 (CHR ''a''))" by code_simp
  then have "\<forall>x. is_sha256 (ev_sha demo_call_env x)" by (simp add: demo_call_env_def)
  moreover have "ev_generate_config_ok demo_call_env" by (simp add: demo_call_env_def)
  ultimately show ?thesis
    using budget_reports_valid [of demo_call_env demo_frozen "PInt 100" "PInt 30" "PInt 5"] by (auto split: sum.splits)
qed

end
