(* ===== verification/Timeline_Sampling.thy ===== *)
theory Timeline_Sampling
  imports Py_Runtime "HOL-Library.While_Combinator"
begin

text \<open>
  Display sampling of the Tc timeline (\<open>api/services/timeline_sampling.py\<close>): which points are
  shown when there are more than a display budget allows, and the summary of all of them.

  SHA-256, the JSON text and the JSON object of a point (pydantic's \<open>model_dump_json\<close> and
  \<open>model_dump\<close>) and the \<open>str\<close> of a value that is not a string are fields of
  \<open>timeline_env\<close>. The set \<open>chosen\<close> of indices is a list without repetitions, the dict of
  strata an association list in insertion order, \<open>sorted\<close> the stable \<open>sort_key\<close>; a result
  that is \<open>None\<close> would be a sampling loop that never ends.
\<close>

section \<open>Points\<close>

record timeline_point =
  point_id :: "string option"
  result_metadata :: pyval
  material_id :: "string option"
  visibility :: pyval
  material :: string
  formula_latex :: "string option"
  tp_family :: "string option"
  tc_kelvin :: pyfloat
  tp_year :: int
  pressure_gpa :: "pyfloat option"
  pressure_semantics :: pyval
  paper_id :: "string option"
  is_theoretical :: bool
  tp_knowledge_origin :: string
  tp_classification_status :: string
  tp_source_role :: string
  classifier_version :: string

record timeline_env =
  te_sha256 :: "string \<Rightarrow> string"
  te_dump_json :: "timeline_point \<Rightarrow> string"
  te_dump :: "timeline_point \<Rightarrow> pyval"
  te_str :: "pyval \<Rightarrow> string"

definition SAMPLING_POLICY_VERSION :: string where
  "SAMPLING_POLICY_VERSION = ''timeline-stratified/1.0.0''"

text \<open>\<open>x or y\<close> for an optional string: the empty string is falsy too.\<close>

fun opt_or :: "string option \<Rightarrow> string \<Rightarrow> string" where
  "opt_or None d = d"
| "opt_or (Some s) d = (if s = [] then d else s)"

definition point_identity :: "timeline_env \<Rightarrow> timeline_point \<Rightarrow> string" where
  "point_identity env p = opt_or (point_id p) (te_sha256 env (te_dump_json env p))"

text \<open>
  Floats as sort keys. The order of finite numbers and infinities is Python's; a NaN, on which
  the order of a Python sort depends on its algorithm, never reaches a sort behind
  \<open>finite_points\<close>.
\<close>

fun float_key :: "pyfloat \<Rightarrow> int \<times> rat" where
  "float_key NegInf = (- 1, 0)"
| "float_key (Finite r) = (0, r)"
| "float_key PosInf = (1, 0)"
| "float_key NaN = (2, 0)"

fun float_neg :: "pyfloat \<Rightarrow> pyfloat" where
  "float_neg (Finite r) = Finite (- r)"
| "float_neg PosInf = NegInf"
| "float_neg NegInf = PosInf"
| "float_neg NaN = NaN"

type_synonym order_key = "int \<times> (int \<times> rat) \<times> string"

definition point_order :: "timeline_env \<Rightarrow> timeline_point \<Rightarrow> order_key" where
  "point_order env p = (tp_year p, float_key (float_neg (tc_kelvin p)), point_identity env p)"

fun finite_nonneg :: "pyfloat option \<Rightarrow> bool" where
  "finite_nonneg None = True"
| "finite_nonneg (Some (Finite r)) = (0 \<le> r)"
| "finite_nonneg (Some x) = False"

fun finite_positive :: "pyfloat \<Rightarrow> bool" where
  "finite_positive (Finite r) = (0 < r)"
| "finite_positive x = False"

definition displayable :: "timeline_point \<Rightarrow> bool" where
  "displayable p \<longleftrightarrow> finite_positive (tc_kelvin p) \<and> 1900 \<le> tp_year p \<and> tp_year p \<le> 2200 \<and>
     finite_nonneg (pressure_gpa p)"

definition finite_points :: "timeline_env \<Rightarrow> timeline_point list \<Rightarrow> timeline_point list" where
  "finite_points env ps = sort_key (point_order env) (filter displayable ps)"

section \<open>Strata\<close>

type_synonym stratum_key = "string \<times> string \<times> string \<times> int"

definition point_origin :: "timeline_point \<Rightarrow> string" where
  "point_origin p =
     (if tp_classification_status p = ''resolved'' \<and> tp_source_role p \<noteq> ''conflicted''
      then tp_knowledge_origin p else ''Unknown'')"

text \<open>\<open>str(d.get(key, default))\<close>.\<close>

fun py_str :: "timeline_env \<Rightarrow> pyval \<Rightarrow> string" where
  "py_str env (PStr s) = s"
| "py_str env v = te_str env v"

definition str_get :: "timeline_env \<Rightarrow> pyval \<Rightarrow> string \<Rightarrow> string \<Rightarrow> string" where
  "str_get env d k dflt = (if phas d k then py_str env (pget d k) else dflt)"

definition point_pressure :: "timeline_env \<Rightarrow> timeline_point \<Rightarrow> string" where
  "point_pressure env p = str_get env (pressure_semantics p) ''pressure_state'' ''unreported''"

definition stratum :: "timeline_env \<Rightarrow> timeline_point \<Rightarrow> stratum_key" where
  "stratum env p = (opt_or (tp_family p) ''unknown'', point_origin p, point_pressure env p, tp_year p div 10 * 10)"

text \<open>
  \<open>json.dumps\<close> with its defaults: \<open>", "\<close> between items, and everything outside the
  printable ASCII range escaped.
\<close>

definition ascii_escape :: "char \<Rightarrow> string" where
  "ascii_escape c =
     (if char_nat c < 127 then json_escape c
      else [CHR 0x5C, CHR ''u'', CHR ''0'', CHR ''0'', hex_digit (char_nat c div 16), hex_digit (char_nat c mod 16)])"

definition ascii_json_string :: "string \<Rightarrow> string" where
  "ascii_json_string s = CHR 0x22 # concat (map ascii_escape s) @ [CHR 0x22]"

fun stratum_json :: "stratum_key \<Rightarrow> string" where
  "stratum_json (f, r, p, d) =
     ''['' @ ascii_json_string f @ '', '' @ ascii_json_string r @ '', '' @ ascii_json_string p @ '', '' @ int_text d @ '']''"

definition rank :: "timeline_env \<Rightarrow> string \<Rightarrow> string" where
  "rank env t = te_sha256 env (SAMPLING_POLICY_VERSION @ ''|'' @ t)"

text \<open>\<open>strata[_stratum(point)].append(index)\<close> on a \<open>defaultdict(list)\<close>.\<close>

fun append_index :: "('k \<times> nat list) list \<Rightarrow> 'k \<Rightarrow> nat \<Rightarrow> ('k \<times> nat list) list" where
  "append_index [] k i = [(k, [i])]"
| "append_index ((k', is) # d) k i = (if k' = k then (k', is @ [i]) # d else (k', is) # append_index d k i)"

definition group_indices :: "'k list \<Rightarrow> ('k \<times> nat list) list" where
  "group_indices ks = foldl (\<lambda>d (i, k). append_index d k i) [] (enumerate 0 ks)"

section \<open>Choosing the indices\<close>

text \<open>\<open>if len(chosen) < target: chosen.add(index)\<close> for each anchor.\<close>

definition add_anchor :: "nat \<Rightarrow> nat list \<Rightarrow> nat \<Rightarrow> nat list" where
  "add_anchor target chosen i = (if length chosen < target then List.insert i chosen else chosen)"

text \<open>One member of every group that no anchor represents.\<close>

fun cover_strata :: "nat \<Rightarrow> 'k list \<Rightarrow> ('k \<times> nat list) list \<Rightarrow> nat list \<Rightarrow> nat list" where
  "cover_strata target represented [] chosen = chosen"
| "cover_strata target represented ((k, q) # qs) chosen =
     (if length chosen = target then chosen
      else cover_strata target represented qs
             (if k \<notin> set represented then List.insert (q ! 0) chosen else chosen))"

function skip_chosen :: "nat list \<Rightarrow> nat list \<Rightarrow> nat \<Rightarrow> nat" where
  "skip_chosen q chosen p = (if p < length q \<and> q ! p \<in> set chosen then skip_chosen q chosen (Suc p) else p)"
  by pat_completeness auto
termination by (relation "measure (\<lambda>(q, _, p). length q - p)") auto

declare skip_chosen.simps [simp del]

text \<open>One pass of the round-robin over the queues, left as soon as the target is met.\<close>

fun fill_round :: "nat \<Rightarrow> ('k \<times> nat list) list \<Rightarrow> ('k \<Rightarrow> nat) \<times> nat list \<Rightarrow> ('k \<Rightarrow> nat) \<times> nat list" where
  "fill_round target [] st = st"
| "fill_round target ((k, q) # qs) (positions, chosen) =
     (let p = skip_chosen q chosen (positions k);
          positions' = positions(k := if p < length q then Suc p else p);
          chosen' = (if p < length q then List.insert (q ! p) chosen else chosen)
      in if length chosen' = target then (positions', chosen')
         else fill_round target qs (positions', chosen'))"

definition fill :: "nat \<Rightarrow> ('k \<times> nat list) list \<Rightarrow> nat list \<Rightarrow> nat list option" where
  "fill target qs chosen =
     map_option snd (while_option (\<lambda>st. length (snd st) < target) (fill_round target qs) (\<lambda>_. 0, chosen))"

definition anchors :: "timeline_env \<Rightarrow> timeline_point list \<Rightarrow> nat list" where
  "anchors env ordered =
     [arg_min_list (\<lambda>i. (float_key (float_neg (tc_kelvin (ordered ! i))), point_identity env (ordered ! i))) [0..<length ordered],
      arg_min_list (\<lambda>i. (float_key (tc_kelvin (ordered ! i)), point_identity env (ordered ! i))) [0..<length ordered],
      0, length ordered - 1]"

text \<open>The groups, smallest first, each with its members in the order of their identity rank.\<close>

definition sample_queues :: "timeline_env \<Rightarrow> timeline_point list \<Rightarrow> (stratum_key \<times> nat list) list" where
  "sample_queues env ordered =
     map (\<lambda>(k, is). (k, sort_key (\<lambda>i. (rank env (ascii_json_string (point_identity env (ordered ! i))), point_order env (ordered ! i))) is))
       (sort_key (\<lambda>(k, is). (length is, rank env (stratum_json k))) (group_indices (map (stratum env) ordered)))"

definition chosen_indices :: "timeline_env \<Rightarrow> timeline_point list \<Rightarrow> nat \<Rightarrow> nat list option" where
  "chosen_indices env ordered target =
     (if target = length ordered then Some [0..<target]
      else if target \<noteq> 0 then
        (let chosen = foldl (add_anchor target) [] (anchors env ordered);
             queues = sample_queues env ordered;
             represented = map (\<lambda>i. stratum env (ordered ! i)) chosen
         in fill target queues (cover_strata target represented queues chosen))
      else Some [])"

section \<open>The sample and its report\<close>

text \<open>\<open>max_points: int | None\<close>, where a Python \<open>int\<close> may be a \<open>bool\<close>.\<close>

datatype budget_arg = NoBudget | BoolBudget bool | IntBudget int

fun bad_budget :: "budget_arg \<Rightarrow> bool" where
  "bad_budget NoBudget = False"
| "bad_budget (BoolBudget _) = True"
| "bad_budget (IntBudget n) = (n \<le> 0)"

fun budget_target :: "nat \<Rightarrow> budget_arg \<Rightarrow> nat" where
  "budget_target n (IntBudget m) = min n (nat m)"
| "budget_target n _ = n"

record sampling_report =
  sr_policy_version :: string
  sr_method :: string
  requested_max_points :: budget_arg
  sr_total_points :: nat
  selected_points :: nat
  sr_returned_points :: nat
  is_sampled :: bool
  strata_by :: "string list"
  strata_total :: nat
  strata_represented :: nat
  strata_omitted :: int
  rare_group_max_size :: nat
  rare_groups_omitted :: nat
  sr_source_count :: nat
  selected_source_count :: nat
  display_only :: bool
  interpretation_note :: string

text \<open>\<open>len({p.paper_id for p in points if p.paper_id})\<close>.\<close>

definition source_count :: "timeline_point list \<Rightarrow> nat" where
  "source_count ps = len_set (filter (\<lambda>s. s \<noteq> Some [] \<and> s \<noteq> None) (map paper_id ps))"

definition sampling_report_of ::
  "timeline_env \<Rightarrow> budget_arg \<Rightarrow> timeline_point list \<Rightarrow> timeline_point list \<Rightarrow> sampling_report" where
  "sampling_report_of env max_points ordered selected =
     (let strata = group_indices (map (stratum env) ordered);
          represented = remdups (map (stratum env) selected);
          rare = map fst (filter (\<lambda>(k, group). length group \<le> 5) strata)
      in \<lparr>sr_policy_version = SAMPLING_POLICY_VERSION,
          sr_method = (if length selected < length ordered then ''deterministic_stratified'' else ''complete''),
          requested_max_points = max_points,
          sr_total_points = length ordered, selected_points = length selected,
          sr_returned_points = length selected, is_sampled = length selected < length ordered,
          strata_by = [''family'', ''origin'', ''pressure_state'', ''decade''],
          strata_total = length strata, strata_represented = length represented,
          strata_omitted = int (length strata) - int (length represented),
          rare_group_max_size = 5,
          rare_groups_omitted = length (filter (\<lambda>k. k \<notin> set represented) rare),
          sr_source_count = source_count ordered,
          selected_source_count = source_count selected,
          display_only = True,
          interpretation_note = ''Display selection protects bounds and small strata; not a representative population sample.''\<rparr>)"

definition sample_timeline ::
  "timeline_env \<Rightarrow> timeline_point list \<Rightarrow> budget_arg \<Rightarrow> (py_error, timeline_point list \<times> sampling_report) res option" where
  "sample_timeline env points max_points =
     (if bad_budget max_points then Some (Inl (ValueError ''max_points must be positive''))
      else let ordered = sort_key (point_order env) points;
               target = budget_target (length ordered) max_points
           in map_option (\<lambda>chosen.
                let selected = map (\<lambda>i. ordered ! i) (sort chosen)
                in Inr (selected, sampling_report_of env max_points ordered selected))
              (chosen_indices env ordered target))"

section \<open>The dataset summary\<close>

record timeline_summary =
  sm_scope :: string
  sm_total_points :: nat
  total_materials :: nat
  sm_source_count :: nat
  source_count_basis :: string
  max_tc_kelvin :: "pyfloat option"
  min_tc_kelvin :: "pyfloat option"
  by_family :: "(string \<times> nat) list"
  by_origin :: "(string \<times> nat) list"
  by_year_basis :: "(string \<times> nat) list"
  by_pressure_state :: "(string \<times> nat) list"
  family_max_tc_kelvin :: "(string \<times> pyfloat) list"
  record_candidates :: "pyval list"
  record_candidate_count :: nat
  record_candidates_truncated :: bool
  sm_label :: string
  scientific_acceptance :: bool
  review_mode :: string
  reviewed_only_available :: bool
  coverage_scope :: string

text \<open>\<open>dict(sorted(Counter(values).items()))\<close>: the keys differ, so the order is by key.\<close>

definition sorted_counts :: "string list \<Rightarrow> (string \<times> nat) list" where
  "sorted_counts vs = sort_key fst (counter_of vs)"

definition family_name :: "timeline_point \<Rightarrow> string" where
  "family_name p = opt_or (tp_family p) ''unknown''"

text \<open>\<open>p.material_id or (p.material, p.family)\<close>.\<close>

definition material_key :: "timeline_point \<Rightarrow> string + (string \<times> string option)" where
  "material_key p =
     (case material_id p of
        Some s \<Rightarrow> if s = [] then Inr (material p, tp_family p) else Inl s
      | None \<Rightarrow> Inr (material p, tp_family p))"

fun raise_maximum :: "(string \<times> pyfloat) list \<Rightarrow> string \<Rightarrow> pyfloat \<Rightarrow> (string \<times> pyfloat) list" where
  "raise_maximum [] f t = [(f, float_max t t)]"
| "raise_maximum ((g, m) # d) f t = (if g = f then (g, float_max m t) # d else (g, m) # raise_maximum d f t)"

definition family_maxima :: "timeline_point list \<Rightarrow> (string \<times> pyfloat) list" where
  "family_maxima ps = foldl (\<lambda>d p. raise_maximum d (family_name p) (tc_kelvin p)) [] ps"

definition at_maximum :: "pyfloat option \<Rightarrow> timeline_point \<Rightarrow> bool" where
  "at_maximum maximum p = (case maximum of None \<Rightarrow> False | Some m \<Rightarrow> float_eq (tc_kelvin p) m)"

definition summarize_timeline :: "timeline_env \<Rightarrow> timeline_point list \<Rightarrow> timeline_summary" where
  "summarize_timeline env points =
     (let maximum = float_fold float_max (map tc_kelvin points);
          maxima = sort_key (point_order env) (filter (at_maximum maximum) points)
      in \<lparr>sm_scope = ''full_filtered_unsampled'', sm_total_points = length points,
          total_materials = len_set (map material_key points),
          sm_source_count = source_count points,
          source_count_basis = ''distinct_bibliographic_ids_not_independent_works'',
          max_tc_kelvin = maximum,
          min_tc_kelvin = float_fold float_min (map tc_kelvin points),
          by_family = sorted_counts (map family_name points),
          by_origin = sorted_counts (map point_origin points),
          by_year_basis = sorted_counts (map (\<lambda>p. str_get env (result_metadata p) ''year_basis'' ''unknown'') points),
          by_pressure_state = sorted_counts (map (point_pressure env) points),
          family_max_tc_kelvin = sort_key fst (family_maxima points),
          record_candidates = map (te_dump env) (take 20 maxima),
          record_candidate_count = length maxima,
          record_candidates_truncated = length maxima > 20,
          sm_label = ''Highest reported Tc in this filtered dataset; not a world-record claim'',
          scientific_acceptance = False,
          review_mode = ''legacy_unreviewed'', reviewed_only_available = False,
          coverage_scope = ''currently indexed and eligible reported results; not a complete discovery history''\<rparr>)"


section \<open>The round-robin over queues\<close>

text \<open>The members of a queue before a position are chosen already.\<close>

definition consumed :: "nat list \<Rightarrow> nat list \<Rightarrow> nat \<Rightarrow> bool" where
  "consumed q chosen p \<longleftrightarrow> (\<forall>j < p. j < length q \<longrightarrow> q ! j \<in> set chosen)"

fun fill_inv :: "nat \<Rightarrow> nat \<Rightarrow> ('k \<times> nat list) list \<Rightarrow> ('k \<Rightarrow> nat) \<times> nat list \<Rightarrow> bool" where
  "fill_inv target n qs (positions, chosen) \<longleftrightarrow>
     distinct chosen \<and> set chosen \<subseteq> {..<n} \<and> length chosen \<le> target \<and>
     (\<forall>(k, q) \<in> set qs. consumed q chosen (positions k))"

lemma consumed_mono: "consumed q c p \<Longrightarrow> set c \<subseteq> set d \<Longrightarrow> consumed q d p"
  by (auto simp: consumed_def)

lemma skip_chosen_consumed:
  "consumed q c p \<Longrightarrow> consumed q c (skip_chosen q c p) \<and>
     (skip_chosen q c p < length q \<longrightarrow> q ! skip_chosen q c p \<notin> set c)"
proof (induction q c p rule: skip_chosen.induct)
  case (1 q c p)
  then have "p < length q \<and> q ! p \<in> set c \<Longrightarrow> consumed q c (Suc p)"
    by (auto simp: consumed_def less_Suc_eq)
  with 1 show ?case by (subst (1 2 3) skip_chosen.simps) auto
qed

lemma consumed_all: "consumed q c p \<Longrightarrow> \<not> p < length q \<Longrightarrow> set q \<subseteq> set c"
  by (auto simp: consumed_def in_set_conv_nth)

lemma consumed_Suc: "consumed q c p \<Longrightarrow> consumed q (List.insert (q ! p) c) (Suc p)"
  by (auto simp: consumed_def less_Suc_eq)

text \<open>
  One queue's turn keeps the invariant, and picks a fresh index when the queue still has one.
\<close>

lemma fill_turn:
  assumes inv: "fill_inv target n Q (positions, chosen)" and room: "length chosen < target"
    and keys: "distinct (map fst Q)" and mem: "(k, q) \<in> set Q" and range: "set q \<subseteq> {..<n}"
    and p: "p = skip_chosen q chosen (positions k)"
    and positions': "positions' = positions(k := if p < length q then Suc p else p)"
    and chosen': "chosen' = (if p < length q then List.insert (q ! p) chosen else chosen)"
  shows "fill_inv target n Q (positions', chosen')"
    and "length chosen' = (if p < length q then Suc (length chosen) else length chosen)"
    and "set chosen \<subseteq> set chosen'" and "\<not> p < length q \<Longrightarrow> set q \<subseteq> set chosen"
proof -
  have "consumed q chosen (positions k)" using inv mem by auto
  from skip_chosen_consumed [OF this]
  have cp: "consumed q chosen p" and fresh: "p < length q \<Longrightarrow> q ! p \<notin> set chosen" unfolding p by auto
  show len: "length chosen' = (if p < length q then Suc (length chosen) else length chosen)"
    using fresh by (simp add: chosen')
  show sub: "set chosen \<subseteq> set chosen'" by (auto simp: chosen')
  show "\<not> p < length q \<Longrightarrow> set q \<subseteq> set chosen" using consumed_all [OF cp] .
  have "consumed q' chosen' (positions' k')" if "(k', q') \<in> set Q" for k' q'
  proof (cases "k' = k")
    case True
    then have "q' = q" using that mem keys by (metis eq_key_imp_eq_value)
    with True show ?thesis using consumed_Suc [OF cp] cp by (simp add: positions' chosen')
  next
    case False
    then show ?thesis using inv that sub consumed_mono by (auto simp: positions')
  qed
  moreover have "set chosen' \<subseteq> {..<n}"
    using inv range by (auto simp: chosen' dest: nth_mem)
  moreover have "distinct chosen'" using inv by (simp add: chosen')
  ultimately show "fill_inv target n Q (positions', chosen')" using len room by auto
qed

lemma fill_round_progress:
  assumes "distinct (map fst Q)" and "\<forall>(k, q) \<in> set Q. set q \<subseteq> {..<n}"
  shows "set qs \<subseteq> set Q \<Longrightarrow> fill_inv target n Q (positions, chosen) \<Longrightarrow> length chosen < target \<Longrightarrow>
    fill_round target qs (positions, chosen) = (positions', chosen') \<Longrightarrow>
    fill_inv target n Q (positions', chosen') \<and> set chosen \<subseteq> set chosen' \<and> length chosen \<le> length chosen' \<and>
    ((\<exists>(k, q) \<in> set qs. \<not> set q \<subseteq> set chosen) \<longrightarrow> length chosen < length chosen')"
proof (induction qs arbitrary: positions chosen)
  case Nil
  then show ?case by simp
next
  case (Cons kq qs)
  obtain k q where kq: "kq = (k, q)" by (cases kq)
  define p where "p = skip_chosen q chosen (positions k)"
  define ps where "ps = positions(k := if p < length q then Suc p else p)"
  define ch where "ch = (if p < length q then List.insert (q ! p) chosen else chosen)"
  have mem: "(k, q) \<in> set Q" and range: "set q \<subseteq> {..<n}" using Cons.prems(1) assms(2) by (auto simp: kq)
  note turn = fill_turn [OF Cons.prems(2,3) assms(1) mem range p_def ps_def ch_def]
  have eq: "(if length ch = target then (ps, ch) else fill_round target qs (ps, ch)) = (positions', chosen')"
    using Cons.prems(4) unfolding kq fill_round.simps Let_def p_def ps_def ch_def .
  show ?case
  proof (cases "length ch = target")
    case True
    then show ?thesis using eq turn(1-3) Cons.prems(3) by auto
  next
    case False
    then have room: "length ch < target" using turn(1) by auto
    have "fill_inv target n Q (positions', chosen') \<and> set ch \<subseteq> set chosen' \<and> length ch \<le> length chosen' \<and>
        ((\<exists>(k, q) \<in> set qs. \<not> set q \<subseteq> set ch) \<longrightarrow> length ch < length chosen')"
      using Cons.IH [OF _ turn(1) room] Cons.prems(1) eq False by simp
    then show ?thesis using turn(2-4) by (cases "p < length q") (auto simp: kq ch_def)
  qed
qed

lemma cover_strata_props:
  assumes "\<forall>(k, q) \<in> set qs. q \<noteq> [] \<and> set q \<subseteq> {..<n}"
  shows "distinct chosen \<Longrightarrow> length chosen \<le> target \<Longrightarrow> set chosen \<subseteq> {..<n} \<Longrightarrow>
    (let r = cover_strata target rs qs chosen in
      distinct r \<and> length r \<le> target \<and> set r \<subseteq> {..<n} \<and> set chosen \<subseteq> set r)"
  using assms
proof (induction qs arbitrary: chosen)
  case (Cons kq qs)
  obtain k q where kq: "kq = (k, q)" by (cases kq)
  have "q ! 0 \<in> {..<n}" using Cons.prems(4) by (cases q) (auto simp: kq)
  define ch where "ch = (if k \<notin> set rs then List.insert (q ! 0) chosen else chosen)"
  show ?case
  proof (cases "length chosen = target")
    case True
    with Cons.prems show ?thesis by (simp add: kq Let_def)
  next
    case False
    then have "distinct ch" "length ch \<le> target" "set ch \<subseteq> {..<n}" "set chosen \<subseteq> set ch"
      using Cons.prems(1-3) \<open>q ! 0 \<in> {..<n}\<close> by (auto simp: ch_def List.insert_def)
    with Cons.IH [of ch] Cons.prems(4) False show ?thesis by (auto simp: kq ch_def [symmetric] Let_def)
  qed
qed (simp add: Let_def)

text \<open>With room for every unrepresented group, each of them gets its first member.\<close>

lemma cover_strata_covers:
  "length chosen + length (filter (\<lambda>(k, q). k \<notin> set rs) qs) \<le> target \<Longrightarrow> (k, q) \<in> set qs \<Longrightarrow> k \<notin> set rs \<Longrightarrow>
     q ! 0 \<in> set (cover_strata target rs qs chosen)"
proof (induction qs arbitrary: chosen)
  case (Cons kq qs)
  obtain k' q' where kq: "kq = (k', q')" by (cases kq)
  have grow: "set c \<subseteq> set (cover_strata target rs qs c)" for c :: "nat list"
    by (induction qs arbitrary: c) (auto 0 3 simp: List.insert_def subset_iff)
  have pos: "0 < length (filter (\<lambda>(k, q). k \<notin> set rs) (kq # qs))"
    using Cons.prems(2,3) by (auto simp: filter_empty_conv simp del: filter.simps)
  then have "length chosen \<noteq> target" using Cons.prems(1) by linarith
  show ?case
  proof (cases "(k, q) = kq")
    case True
    then show ?thesis using \<open>length chosen \<noteq> target\<close> Cons.prems(3) grow [of "List.insert (q ! 0) chosen"] by auto
  next
    case False
    then have "(k, q) \<in> set qs" using Cons.prems(2) by simp
    moreover have "length (if k' \<notin> set rs then List.insert (q' ! 0) chosen else chosen) +
        length (filter (\<lambda>(k, q). k \<notin> set rs) qs) \<le> target"
      using Cons.prems(1) by (auto simp: kq List.insert_def)
    ultimately show ?thesis using Cons.IH Cons.prems(3) \<open>length chosen \<noteq> target\<close> by (simp add: kq)
  qed
qed simp

locale index_queues =
  fixes qs :: "('k \<times> nat list) list" and n :: nat
  assumes distinct_keys: "distinct (map fst qs)"
    and nonempty: "(k, q) \<in> set qs \<Longrightarrow> q \<noteq> []"
    and indices: "(\<Union>(k, q) \<in> set qs. set q) = {..<n}"
begin

lemma in_range: "\<forall>(k, q) \<in> set qs. set q \<subseteq> {..<n}"
  using indices by blast

lemma unchosen_member:
  assumes "distinct chosen" "set chosen \<subseteq> {..<n}" "length chosen < n"
  shows "\<exists>(k, q) \<in> set qs. \<not> set q \<subseteq> set chosen"
proof (rule ccontr)
  assume "\<not> ?thesis"
  then have "{..<n} \<subseteq> set chosen" using indices by blast
  then have "n \<le> card (set chosen)" using card_mono [of "set chosen" "{..<n}"] by simp
  then show False using assms distinct_card by fastforce
qed

lemma fill_returns:
  assumes "distinct chosen" "set chosen \<subseteq> {..<n}" "length chosen \<le> target" "target \<le> n"
  shows "\<exists>r. fill target qs chosen = Some r \<and> distinct r \<and> set r \<subseteq> {..<n} \<and> length r = target \<and> set chosen \<subseteq> set r"
proof -
  let ?P = "\<lambda>st. fill_inv target n qs st \<and> set chosen \<subseteq> set (snd st)"
  have step: "?P (fill_round target qs st) \<and> target - length (snd (fill_round target qs st)) < target - length (snd st)"
    if "?P st" and lt: "length (snd st) < target" for st
  proof -
    obtain ps ch ps' ch' where st: "st = (ps, ch)" "fill_round target qs st = (ps', ch')" by fastforce
    have "\<exists>(k, q) \<in> set qs. \<not> set q \<subseteq> set ch"
      by (rule unchosen_member) (use that st assms(4) in auto)
    then show ?thesis
      using fill_round_progress [OF distinct_keys in_range subset_refl, of target ps ch ps' ch'] that st by auto
  qed
  have init: "?P (\<lambda>_. 0, chosen)" using assms by (auto simp: consumed_def)
  obtain st where st: "while_option (\<lambda>st. length (snd st) < target) (fill_round target qs) (\<lambda>_. 0, chosen) = Some st"
    using measure_while_option_Some [of ?P "\<lambda>st. length (snd st) < target" "fill_round target qs"
        "\<lambda>st. target - length (snd st)", OF step init] by blast
  have "?P st" using while_option_rule [where P = ?P, OF _ st init] step by blast
  moreover have "\<not> length (snd st) < target" by (rule while_option_stop [OF st])
  ultimately show ?thesis using st by (cases st) (auto simp: fill_def)
qed

end

section \<open>The strata partition the indices\<close>

lemma fst_append_index: "set (map fst (append_index d k i)) = insert k (set (map fst d))"
  by (induction d k i rule: append_index.induct) auto

lemma distinct_append_index: "distinct (map fst d) \<Longrightarrow> distinct (map fst (append_index d k i))"
  by (induction d k i rule: append_index.induct) (auto simp del: set_map simp: fst_append_index)

lemma map_of_append_index:
  "map_of (append_index d k i) k' =
     (if k' = k then Some ((case map_of d k of None \<Rightarrow> [] | Some is \<Rightarrow> is) @ [i]) else map_of d k')"
  by (induction d k i rule: append_index.induct) auto

lemma group_indices_snoc: "group_indices (ks @ [k]) = append_index (group_indices ks) k (length ks)"
  by (simp add: group_indices_def enumerate_append_eq)

lemma group_indices_distinct: "distinct (map fst (group_indices ks))"
proof (induction ks rule: rev_induct)
  case Nil
  show ?case by (simp add: group_indices_def)
next
  case (snoc k ks)
  then show ?case by (simp only: group_indices_snoc distinct_append_index)
qed

lemma map_of_group_indices:
  "map_of (group_indices ks) k = (if k \<in> set ks then Some (filter (\<lambda>i. ks ! i = k) [0..<length ks]) else None)"
proof (induction ks arbitrary: k rule: rev_induct)
  case Nil
  show ?case by (simp add: group_indices_def)
next
  case (snoc k' ks)
  have "filter (\<lambda>i. (ks @ [k']) ! i = k) [0..<length ks] = filter (\<lambda>i. ks ! i = k) [0..<length ks]"
    by (rule filter_cong) (simp_all add: nth_append)
  moreover have "filter (\<lambda>i. ks ! i = k) [0..<length ks] = []" if "k \<notin> set ks"
    using that by (auto simp: filter_empty_conv)
  ultimately show ?case
    by (auto simp: group_indices_snoc map_of_append_index snoc.IH)
qed

lemma group_indices_mem:
  "(k, js) \<in> set (group_indices ks) \<longleftrightarrow> k \<in> set ks \<and> js = filter (\<lambda>i. ks ! i = k) [0..<length ks]"
  using map_of_eq_Some_iff [OF group_indices_distinct, of ks k js] by (auto simp: map_of_group_indices split: if_splits)

lemma group_indices_keys: "set (map fst (group_indices ks)) = set ks"
proof -
  have "k \<in> set (map fst (group_indices ks)) \<longleftrightarrow> k \<in> set ks" for k
    using map_of_eq_None_iff [of "group_indices ks" k] by (simp add: map_of_group_indices split: if_splits)
  then show ?thesis by blast
qed

lemma length_group_indices: "length (group_indices ks) = card (set ks)"
  using distinct_card [OF group_indices_distinct, of ks] by (simp add: group_indices_keys del: set_map)

lemma sample_queues_keys:
  "distinct (map fst (sample_queues env ordered))" "set (map fst (sample_queues env ordered)) = stratum env ` set ordered"
  "length (sample_queues env ordered) = card (stratum env ` set ordered)"
proof -
  let ?s = "group_indices (map (stratum env) ordered)"
  have fst: "map fst (sample_queues env ordered) = map fst (sort_key (\<lambda>(k, is). (length is, rank env (stratum_json k))) ?s)"
    by (simp add: sample_queues_def comp_def case_prod_unfold)
  have "mset (map fst (sample_queues env ordered)) = mset (map fst ?s)" by (simp add: fst)
  then have perm: "distinct (map fst (sample_queues env ordered)) = distinct (map fst ?s)"
    "set (map fst (sample_queues env ordered)) = set (map fst ?s)"
    by (rule mset_eq_imp_distinct_iff, rule mset_eq_setD) 
  show "distinct (map fst (sample_queues env ordered))" unfolding perm by (rule group_indices_distinct)
  show "set (map fst (sample_queues env ordered)) = stratum env ` set ordered" unfolding perm group_indices_keys by simp
  show "length (sample_queues env ordered) = card (stratum env ` set ordered)"
    by (simp add: sample_queues_def length_group_indices)
qed

lemma sample_queues_mem:
  assumes "(k, q) \<in> set (sample_queues env ordered)"
  shows "set q = {i. i < length ordered \<and> stratum env (ordered ! i) = k}" "q \<noteq> []" "k \<in> stratum env ` set ordered"
proof -
  define f where "f i = (rank env (ascii_json_string (point_identity env (ordered ! i))), point_order env (ordered ! i))" for i
  have "(k, q) \<in> (\<lambda>(k, is). (k, sort_key f is)) ` set (group_indices (map (stratum env) ordered))"
    using assms unfolding sample_queues_def f_def [abs_def] by (simp only: set_map set_sort)
  then obtain js where js: "(k, js) \<in> set (group_indices (map (stratum env) ordered))" and q: "q = sort_key f js"
    by auto
  have "set q = set js" unfolding q by (rule set_sort)
  have mem: "k \<in> set (map (stratum env) ordered)" "js = filter (\<lambda>i. map (stratum env) ordered ! i = k) [0..<length ordered]"
    using js unfolding group_indices_mem by simp_all
  show set: "set q = {i. i < length ordered \<and> stratum env (ordered ! i) = k}"
    unfolding \<open>set q = set js\<close> mem(2) set_filter by (rule Collect_cong) (simp cong: conj_cong)
  show k: "k \<in> stratum env ` set ordered" using mem(1) by simp
  then obtain i where "i < length ordered" "stratum env (ordered ! i) = k" by (metis imageE in_set_conv_nth)
  then have "i \<in> set q" unfolding set by simp
  then show "q \<noteq> []" by (cases q) simp_all
qed

interpretation sampling: index_queues "sample_queues env ordered" "length ordered" for env ordered
proof (unfold_locales, goal_cases)
  case 1
  show ?case by (rule sample_queues_keys)
next
  case (2 k q)
  then show ?case by (rule sample_queues_mem)
next
  case 3
  have "i \<in> (\<Union>(k, q) \<in> set (sample_queues env ordered). set q)" if "i < length ordered" for i
  proof -
    have "stratum env (ordered ! i) \<in> set (map fst (sample_queues env ordered))"
      using that by (simp add: sample_queues_keys del: set_map)
    then obtain q where "(stratum env (ordered ! i), q) \<in> set (sample_queues env ordered)" by auto
    with sample_queues_mem(1) [OF this] that show ?thesis by blast
  qed
  moreover have "i < length ordered" if "(k, q) \<in> set (sample_queues env ordered)" "i \<in> set q" for k q i
    using sample_queues_mem(1) [OF that(1)] that(2) by simp
  ultimately show ?case by auto
qed

section \<open>The chosen indices\<close>

lemma anchors_fold:
  "distinct chosen \<Longrightarrow> length chosen \<le> target \<Longrightarrow>
    (let r = foldl (add_anchor target) chosen as in
      distinct r \<and> length r \<le> target \<and> length r \<le> length chosen + length as \<and> set chosen \<subseteq> set r \<and>
      set r \<subseteq> set chosen \<union> set as \<and> (length chosen + length as \<le> target \<longrightarrow> set as \<subseteq> set r))"
proof (induction as arbitrary: chosen)
  case (Cons a as)
  define ch where "ch = add_anchor target chosen a"
  have "distinct ch" "length ch \<le> target" "length ch \<le> Suc (length chosen)" "set chosen \<subseteq> set ch" "set ch \<subseteq> insert a (set chosen)"
    and "length chosen < target \<longrightarrow> a \<in> set ch"
    using Cons.prems by (auto simp: ch_def add_anchor_def List.insert_def)
  with Cons.IH [of ch] show ?case by (fastforce simp: ch_def [symmetric] Let_def)
qed (simp add: Let_def)

lemma anchors_in_range: "ordered \<noteq> [] \<Longrightarrow> set (anchors env ordered) \<subseteq> {..<length ordered}"
  using arg_min_list_in [of "[0..<length ordered]"] by (auto simp: anchors_def simp del: upt_Suc)

lemma anchors_length [simp]: "length (anchors env ordered) = 4"
  by (simp add: anchors_def)

lemma unrepresented_few:
  assumes "i \<in> set chosen" "i < length ordered"
  shows "length (filter (\<lambda>(k, q). k \<notin> set (map (\<lambda>i. stratum env (ordered ! i)) chosen)) (sample_queues env ordered))
    < card (stratum env ` set ordered)"
proof -
  have "stratum env (ordered ! i) \<in> set (map fst (sample_queues env ordered))"
    using assms(2) by (simp add: sample_queues_keys(2) del: set_map)
  then obtain q where "(stratum env (ordered ! i), q) \<in> set (sample_queues env ordered)" by auto
  from length_filter_less [OF this] show ?thesis using assms(1) by (simp add: sample_queues_keys(3))
qed

lemma chosen_indices_returns:
  assumes "target \<le> length ordered"
  shows "\<exists>r. chosen_indices env ordered target = Some r \<and> distinct r \<and> set r \<subseteq> {..<length ordered} \<and>
    length r = target \<and> (4 \<le> target \<longrightarrow> set (anchors env ordered) \<subseteq> set r) \<and>
    (card (stratum env ` set ordered) + 3 \<le> target \<longrightarrow> stratum env ` set ordered \<subseteq> (\<lambda>i. stratum env (ordered ! i)) ` set r)"
proof -
  consider "target = length ordered" | "target = 0" "target \<noteq> length ordered" | "0 < target" "target < length ordered"
    using assms by linarith
  then show ?thesis
  proof cases
    case 1
    have "stratum env ` set ordered \<subseteq> (\<lambda>i. stratum env (ordered ! i)) ` set [0..<target]"
      using 1 by (auto simp: in_set_conv_nth)
    moreover have "set (anchors env ordered) \<subseteq> {..<target}" if "4 \<le> target"
      using anchors_in_range [of ordered env] that 1 by (cases ordered) simp_all
    ultimately show ?thesis using 1 by (intro exI [of _ "[0..<target]"]) (auto simp: chosen_indices_def)
  next
    case 2
    then show ?thesis by (auto simp: chosen_indices_def)
  next
    case 3
    define ch where "ch = foldl (add_anchor target) [] (anchors env ordered)"
    define rs where "rs = map (\<lambda>i. stratum env (ordered ! i)) ch"
    define cov where "cov = cover_strata target rs (sample_queues env ordered) ch"
    have "ordered \<noteq> []" using 3 by auto
    have ch: "distinct ch" "length ch \<le> target" "length ch \<le> 4" "set ch \<subseteq> {..<length ordered}"
      and anch: "4 \<le> target \<Longrightarrow> set (anchors env ordered) \<subseteq> set ch"
      using anchors_fold [of "[]" target "anchors env ordered"] anchors_in_range [OF \<open>ordered \<noteq> []\<close>, of env]
      by (auto simp: ch_def Let_def)
    have cov: "distinct cov" "length cov \<le> target" "set cov \<subseteq> {..<length ordered}" "set ch \<subseteq> set cov"
      using cover_strata_props [of "sample_queues env ordered" "length ordered", OF _ ch(1,2,4), of rs] sampling.in_range
        sampling.nonempty by (fastforce simp: cov_def Let_def)+
    obtain r where r: "fill target (sample_queues env ordered) cov = Some r" "distinct r" "set r \<subseteq> {..<length ordered}"
        "length r = target" "set cov \<subseteq> set r"
      using sampling.fill_returns [OF cov(1,3,2)] 3(2) by auto
    have "chosen_indices env ordered target = Some r"
      using 3 r(1) by (simp add: chosen_indices_def Let_def ch_def [symmetric] rs_def [symmetric] cov_def [symmetric])
    moreover have "stratum env ` set ordered \<subseteq> (\<lambda>i. stratum env (ordered ! i)) ` set r"
      if big: "card (stratum env ` set ordered) + 3 \<le> target"
    proof
      fix k assume k: "k \<in> stratum env ` set ordered"
      then have "k \<in> set (map fst (sample_queues env ordered))" by (simp only: sample_queues_keys(2))
      then obtain q where kq: "(k, q) \<in> set (sample_queues env ordered)" by auto
      have "0 < card (stratum env ` set ordered)" using \<open>ordered \<noteq> []\<close> by (simp add: card_gt_0_iff)
      then have "4 \<le> target" using big by simp
      then have "0 \<in> set ch" using anch by (auto simp: anchors_def)
      show "k \<in> (\<lambda>i. stratum env (ordered ! i)) ` set r"
      proof (cases "k \<in> set rs")
        case True
        then show ?thesis using cov(4) r(5) by (auto simp: rs_def)
      next
        case False
        have "length ch + length (filter (\<lambda>(k, q). k \<notin> set rs) (sample_queues env ordered)) \<le> target"
          using unrepresented_few [OF \<open>0 \<in> set ch\<close>, of ordered env] \<open>ordered \<noteq> []\<close> ch(3) big
          unfolding rs_def by simp
        then have "q ! 0 \<in> set r" using cover_strata_covers [OF _ kq False] r(5) unfolding cov_def by blast
        moreover have "stratum env (ordered ! (q ! 0)) = k"
          using sample_queues_mem [OF kq] nth_mem [of 0 q] by simp
        ultimately show ?thesis by blast
      qed
    qed
    ultimately show ?thesis using r(2-5) cov(4) anch by blast
  qed
qed

section \<open>The selected points\<close>

lemma selected_mset:
  assumes "distinct r" "set r \<subseteq> {..<length xs}"
  shows "mset (map (\<lambda>i. xs ! i) (sort r)) \<subseteq># mset xs"
proof -
  have "mset_set (set r) \<subseteq># mset_set (set [0..<length xs])"
    by (rule subset_imp_msubset_mset_set) (use assms(2) in auto)
  then have "mset r \<subseteq># mset [0..<length xs]" using assms(1) by (simp only: mset_set_set distinct_upt)
  then have "image_mset ((!) xs) (mset r) \<subseteq># image_mset ((!) xs) (mset [0..<length xs])" by (rule image_mset_subseteq_mono)
  then show ?thesis by (metis map_nth mset_map mset_sort)
qed

lemma selected_sorted:
  assumes "sorted (map f xs)" "set r \<subseteq> {..<length xs}"
  shows "sorted (map f (map (\<lambda>i. xs ! i) (sort r)))"
proof -
  have "sorted_wrt (\<lambda>i j. f (xs ! i) \<le> f (xs ! j)) (sort r)"
  proof (rule sorted_wrt_mono_rel)
    show "sorted_wrt (\<le>) (sort r)" by simp
    show "f (xs ! i) \<le> f (xs ! j)" if "i \<in> set (sort r)" "j \<in> set (sort r)" "i \<le> j" for i j
      using that assms sorted_nth_mono [OF assms(1), of i j] by auto
  qed
  then show ?thesis by (simp add: sorted_wrt_map)
qed

lemma finite_points_sorted [simp]: "sort_key (point_order env) (finite_points env ps) = finite_points env ps"
  by (rule sort_key_id_if_sorted) (simp add: finite_points_def)

lemma finite_points_tc: "p \<in> set (finite_points env ps) \<Longrightarrow> \<exists>t. tc_kelvin p = Finite t"
  by (cases "tc_kelvin p") (auto simp: finite_points_def displayable_def)

lemma arg_min_least:
  "i < n \<Longrightarrow> f (arg_min_list f [0..<n]) \<le> f i" "0 < n \<Longrightarrow> arg_min_list f [0..<n] < n"
  using f_arg_min_list_f [of "[0..<n]" f] arg_min_list_in [of "[0..<n]" f] by auto

lemma pair_le_fst: "(a :: 'a :: linorder, b :: 'b :: linorder) \<le> (c, d) \<Longrightarrow> a \<le> c"
  by (auto simp: less_eq_prod_simp)

text \<open>The two value anchors are extreme points.\<close>

lemma anchor_extremes:
  assumes "ordered \<noteq> []" and fin: "\<forall>p \<in> set ordered. \<exists>t. tc_kelvin p = Finite t"
    and sel: "\<forall>i \<in> set (anchors env ordered). ordered ! i \<in> set sel"
  shows "\<exists>p \<in> set sel. \<exists>t. tc_kelvin p = Finite t \<and> (\<forall>q \<in> set ordered. \<exists>u \<le> t. tc_kelvin q = Finite u)"
    and "\<exists>p \<in> set sel. \<exists>t. tc_kelvin p = Finite t \<and> (\<forall>q \<in> set ordered. \<exists>u \<ge> t. tc_kelvin q = Finite u)"
proof -
  let ?n = "length ordered"
  define hi where "hi = arg_min_list (\<lambda>i. (float_key (float_neg (tc_kelvin (ordered ! i))), point_identity env (ordered ! i))) [0..<?n]"
  define lo where "lo = arg_min_list (\<lambda>i. (float_key (tc_kelvin (ordered ! i)), point_identity env (ordered ! i))) [0..<?n]"
  have lt: "hi < ?n" "lo < ?n" using arg_min_least(2) assms(1) unfolding hi_def lo_def by blast+
  have hi: "float_key (float_neg (tc_kelvin (ordered ! hi))) \<le> float_key (float_neg (tc_kelvin (ordered ! i)))" if "i < ?n" for i
    using arg_min_least(1) [OF that, of "\<lambda>i. (float_key (float_neg (tc_kelvin (ordered ! i))), point_identity env (ordered ! i))"]
    unfolding hi_def [symmetric] by (rule pair_le_fst)
  have lo: "float_key (tc_kelvin (ordered ! lo)) \<le> float_key (tc_kelvin (ordered ! i))" if "i < ?n" for i
    using arg_min_least(1) [OF that, of "\<lambda>i. (float_key (tc_kelvin (ordered ! i)), point_identity env (ordered ! i))"]
    unfolding lo_def [symmetric] by (rule pair_le_fst)
  have mem: "ordered ! hi \<in> set sel" "ordered ! lo \<in> set sel"
    using sel by (simp_all add: anchors_def hi_def lo_def)
  obtain t s where t: "tc_kelvin (ordered ! hi) = Finite t" and s: "tc_kelvin (ordered ! lo) = Finite s"
    using fin lt nth_mem by blast
  have "\<exists>u \<le> t. tc_kelvin q = Finite u" "\<exists>u \<ge> s. tc_kelvin q = Finite u" if q: "q \<in> set ordered" for q
  proof -
    obtain i where i: "i < ?n" "q = ordered ! i" using q by (metis in_set_conv_nth)
    obtain u where u: "tc_kelvin q = Finite u" using fin q by blast
    show "\<exists>u \<le> t. tc_kelvin q = Finite u" "\<exists>u \<ge> s. tc_kelvin q = Finite u"
      using hi [OF i(1)] lo [OF i(1)] t s u i(2) by (simp_all add: less_eq_prod_def)
  qed
  then show "\<exists>p \<in> set sel. \<exists>t. tc_kelvin p = Finite t \<and> (\<forall>q \<in> set ordered. \<exists>u \<le> t. tc_kelvin q = Finite u)"
    "\<exists>p \<in> set sel. \<exists>t. tc_kelvin p = Finite t \<and> (\<forall>q \<in> set ordered. \<exists>u \<ge> t. tc_kelvin q = Finite u)"
    using mem t s by blast+
qed

text \<open>A report in which every group is represented omits none.\<close>

lemma report_covers:
  assumes "stratum env ` set ordered = stratum env ` set sel"
  shows "strata_omitted (sampling_report_of env b ordered sel) = 0"
    "rare_groups_omitted (sampling_report_of env b ordered sel) = 0"
proof -
  have "set (map fst (group_indices (map (stratum env) ordered))) = stratum env ` set sel"
    unfolding group_indices_keys using assms by simp
  then show "rare_groups_omitted (sampling_report_of env b ordered sel) = 0"
    by (auto simp: sampling_report_of_def Let_def filter_empty_conv)
  show "strata_omitted (sampling_report_of env b ordered sel) = 0"
    using assms by (simp add: sampling_report_of_def Let_def length_group_indices length_remdups_card_conv)
qed

lemma report_totals:
  "strata_total (sampling_report_of env b ordered sel) = card (stratum env ` set ordered)"
  "sr_total_points (sampling_report_of env b ordered sel) = length ordered"
  "selected_points (sampling_report_of env b ordered sel) = length sel"
  "is_sampled (sampling_report_of env b ordered sel) = (length sel < length ordered)"
  by (simp_all add: sampling_report_of_def Let_def length_group_indices)

text \<open>
  C11. Sampling a finite projection with a positive budget always returns, with exactly as many points as
  the budget and the data allow, in chronological order and without repeating an occurrence.
  From a budget of four on it keeps the first and the last point, a point of highest and a
  point of lowest Tc; with room for the groups and three more, no stratum and no rare group
  is omitted. A boolean or non-positive budget is refused.
\<close>

theorem timeline_sample_fills_budget:
  assumes "0 < n" and pts: "pts = finite_points env ps"
  shows "(\<exists>sel rep. sample_timeline env pts (IntBudget n) = Some (Inr (sel, rep)) \<and>
      int (length sel) = min (int (length pts)) n \<and> mset sel \<subseteq># mset pts \<and>
      sorted (map (point_order env) sel) \<and> selected_points rep = length sel \<and>
      (is_sampled rep \<longleftrightarrow> n < int (length pts)) \<and>
      (4 \<le> n \<and> pts \<noteq> [] \<longrightarrow> hd pts \<in> set sel \<and> List.last pts \<in> set sel \<and>
        (\<exists>p \<in> set sel. \<exists>t. tc_kelvin p = Finite t \<and> (\<forall>q \<in> set pts. \<exists>u \<le> t. tc_kelvin q = Finite u)) \<and>
        (\<exists>p \<in> set sel. \<exists>t. tc_kelvin p = Finite t \<and> (\<forall>q \<in> set pts. \<exists>u \<ge> t. tc_kelvin q = Finite u))) \<and>
      (int (strata_total rep) + 3 \<le> n \<longrightarrow> strata_omitted rep = 0 \<and> rare_groups_omitted rep = 0)) \<and>
    (\<forall>b. sample_timeline env pts (BoolBudget b) = Some (Inl (ValueError ''max_points must be positive''))) \<and>
    sample_timeline env pts (IntBudget (- n)) = Some (Inl (ValueError ''max_points must be positive''))"
proof -
  let ?target = "min (length pts) (nat n)"
  have sortid: "sort_key (point_order env) pts = pts" unfolding pts by simp
  obtain r where r: "chosen_indices env pts ?target = Some r" "distinct r" "set r \<subseteq> {..<length pts}" "length r = ?target"
    and anch: "4 \<le> ?target \<longrightarrow> set (anchors env pts) \<subseteq> set r"
    and cover: "card (stratum env ` set pts) + 3 \<le> ?target \<longrightarrow> stratum env ` set pts \<subseteq> (\<lambda>i. stratum env (pts ! i)) ` set r"
    using chosen_indices_returns [of ?target pts env] by auto
  define sel where "sel = map (\<lambda>i. pts ! i) (sort r)"
  define rep where "rep = sampling_report_of env (IntBudget n) pts sel"
  have res: "sample_timeline env pts (IntBudget n) = Some (Inr (sel, rep))"
    using assms(1) r(1) by (simp add: sample_timeline_def sortid Let_def sel_def rep_def)
  have len: "int (length sel) = min (int (length pts)) n" using r(4) assms(1) by (simp add: sel_def of_nat_min)
  have setsel: "set sel = (\<lambda>i. pts ! i) ` set r" by (simp add: sel_def)
  have sub: "mset sel \<subseteq># mset pts" unfolding sel_def by (rule selected_mset [OF r(2,3)])
  have sorted: "sorted (map (point_order env) sel)"
    unfolding sel_def by (rule selected_sorted [OF _ r(3)]) (simp add: pts finite_points_def)
  have all: "set r = {..<length pts}" if "?target = length pts"
    using r that by (metis card_subset_eq distinct_card finite_lessThan card_lessThan)
  have anchored: "\<forall>i \<in> set (anchors env pts). pts ! i \<in> set sel" if "4 \<le> n" "pts \<noteq> []"
  proof (cases "?target = length pts")
    case True
    with all anchors_in_range [OF that(2), of env] show ?thesis unfolding setsel by blast
  next
    case False
    with that anch have "set (anchors env pts) \<subseteq> set r" by (simp add: min_def split: if_splits)
    then show ?thesis unfolding setsel by blast
  qed
  have bounds: "hd pts \<in> set sel \<and> List.last pts \<in> set sel" if "4 \<le> n" "pts \<noteq> []"
    using anchored [OF that] that(2) by (simp add: anchors_def hd_conv_nth last_conv_nth)
  have fin: "\<forall>p \<in> set pts. \<exists>t. tc_kelvin p = Finite t" unfolding pts using finite_points_tc by blast
  have covers: "stratum env ` set pts = stratum env ` set sel" if "int (card (stratum env ` set pts)) + 3 \<le> n"
  proof (cases "?target = length pts")
    case True
    have "set sel = set pts"
      unfolding setsel all [OF True] using nth_image [of "length pts" pts] by (simp add: lessThan_atLeast0)
    then show ?thesis by simp
  next
    case False
    with that have "card (stratum env ` set pts) + 3 \<le> ?target" by (simp add: min_def split: if_splits)
    with cover have "stratum env ` set pts \<subseteq> stratum env ` set sel" unfolding setsel by auto
    moreover have "set sel \<subseteq> set pts" using sub by (metis set_mset_mono set_mset_mset)
    ultimately show ?thesis by (simp add: image_mono subset_antisym)
  qed
  have omit: "strata_omitted rep = 0 \<and> rare_groups_omitted rep = 0" if "int (strata_total rep) + 3 \<le> n"
    using report_covers [OF covers] that by (simp add: rep_def report_totals(1))
  have "is_sampled rep \<longleftrightarrow> n < int (length pts)" "selected_points rep = length sel"
    using len by (auto simp: rep_def report_totals)
  moreover have "\<forall>b. sample_timeline env pts (BoolBudget b) = Some (Inl (ValueError ''max_points must be positive''))"
    "sample_timeline env pts (IntBudget (- n)) = Some (Inl (ValueError ''max_points must be positive''))"
    using assms(1) by (simp_all add: sample_timeline_def)
  ultimately show ?thesis
    using res len sub sorted bounds omit anchor_extremes [OF _ fin anchored] by blast
qed

section \<open>The summary\<close>

lemma sorted_counts_total: "sum_list (map snd (sorted_counts vs)) = length vs"
proof -
  have "mset (map snd (sorted_counts vs)) = mset (map snd (counter_of vs))" by (simp add: sorted_counts_def)
  then have "sum_list (map snd (sorted_counts vs)) = sum_list (map snd (counter_of vs))" by (metis sum_mset_sum_list)
  then show ?thesis by (simp only: sum_counter_of)
qed

lemma sorted_counts_entry: "(k, n) \<in> set (sorted_counts vs) \<Longrightarrow> n = count_if (\<lambda>x. x = k) vs \<and> k \<in> set vs"
  using counts_entry [OF counts_counter_of, of k n vs] by (simp add: sorted_counts_def)

lemma float_less_irrefl [simp]: "\<not> float_less t t"
  by (cases t) simp_all

lemma float_fold_snoc:
  "float_fold f (xs @ [x]) = Some (case float_fold f xs of None \<Rightarrow> x | Some m \<Rightarrow> f m x)"
  by (cases xs) simp_all

lemma map_of_raise_maximum:
  "map_of (raise_maximum d f t) g =
     (if g = f then Some (case map_of d f of None \<Rightarrow> t | Some m \<Rightarrow> float_max m t) else map_of d g)"
  by (induction d f t rule: raise_maximum.induct) (auto simp: float_max_def)

lemma keys_raise_maximum: "set (map fst (raise_maximum d f t)) = insert f (set (map fst d))"
  by (induction d f t rule: raise_maximum.induct) auto

lemma distinct_raise_maximum: "distinct (map fst d) \<Longrightarrow> distinct (map fst (raise_maximum d f t))"
  by (induction d f t rule: raise_maximum.induct) (auto simp del: set_map simp: keys_raise_maximum)

text \<open>The running maxima are the maxima of the families' own values.\<close>

lemma map_of_family_maxima:
  "map_of (family_maxima ps) f = float_fold float_max (map tc_kelvin (filter (\<lambda>p. family_name p = f) ps))"
  by (induction ps arbitrary: f rule: rev_induct)
    (auto simp: family_maxima_def map_of_raise_maximum float_fold_snoc)

lemma distinct_family_maxima: "distinct (map fst (family_maxima ps))"
proof (induction ps rule: rev_induct)
  case Nil
  show ?case by (simp add: family_maxima_def)
next
  case (snoc p ps)
  then show ?case by (simp only: family_maxima_def foldl_append foldl.simps distinct_raise_maximum)
qed

lemma family_maxima_mem:
  "(f, m) \<in> set (sort_key fst (family_maxima ps)) \<longleftrightarrow>
     float_fold float_max (map tc_kelvin (filter (\<lambda>p. family_name p = f) ps)) = Some m"
  using map_of_eq_Some_iff [OF distinct_family_maxima, of ps f m] by (simp add: map_of_family_maxima)

lemma float_fold_Finite:
  assumes "\<forall>p \<in> set ps. \<exists>t. tc_kelvin p = Finite t"
  shows "float_fold float_max (map tc_kelvin ps) = Some (Finite t) \<longleftrightarrow>
      (\<exists>p \<in> set ps. tc_kelvin p = Finite t) \<and> (\<forall>p \<in> set ps. \<exists>u \<le> t. tc_kelvin p = Finite u)"
    and "float_fold float_min (map tc_kelvin ps) = Some (Finite t) \<longleftrightarrow>
      (\<exists>p \<in> set ps. tc_kelvin p = Finite t) \<and> (\<forall>p \<in> set ps. \<exists>u \<ge> t. tc_kelvin p = Finite u)"
proof -
  obtain g where g: "\<forall>p \<in> set ps. tc_kelvin p = Finite (g p)" using assms by metis
  then have map: "map tc_kelvin ps = map Finite (map g ps)" by simp
  have fold: "float_fold float_max (map Finite xs) = (if xs = [] then None else Some (Finite (Max (set xs))))" for xs
    by (cases xs) (simp_all add: foldl_float_max foldl_max_Max)
  have fold': "float_fold float_min (map Finite xs) = (if xs = [] then None else Some (Finite (Min (set xs))))" for xs
    by (cases xs) (simp_all add: foldl_float_min foldl_min_Min)
  have max: "Max (g ` set ps) = t \<longleftrightarrow> t \<in> g ` set ps \<and> (\<forall>p \<in> set ps. g p \<le> t)" if "ps \<noteq> []"
    using Max_eq_iff [of "g ` set ps" t] that by auto
  have min: "Min (g ` set ps) = t \<longleftrightarrow> t \<in> g ` set ps \<and> (\<forall>p \<in> set ps. t \<le> g p)" if "ps \<noteq> []"
    using Min_eq_iff [of "g ` set ps" t] that by auto
  show "float_fold float_max (map tc_kelvin ps) = Some (Finite t) \<longleftrightarrow>
      (\<exists>p \<in> set ps. tc_kelvin p = Finite t) \<and> (\<forall>p \<in> set ps. \<exists>u \<le> t. tc_kelvin p = Finite u)"
    unfolding map fold using g max by (cases "ps = []") auto
  show "float_fold float_min (map tc_kelvin ps) = Some (Finite t) \<longleftrightarrow>
      (\<exists>p \<in> set ps. tc_kelvin p = Finite t) \<and> (\<forall>p \<in> set ps. \<exists>u \<ge> t. tc_kelvin p = Finite u)"
    unfolding map fold' using g min by (cases "ps = []") auto
qed

text \<open>A table of counts that is exact for a key: sorted, without repetition, and with every key that occurs.\<close>

definition exact_counts :: "(string \<times> nat) list \<Rightarrow> (timeline_point \<Rightarrow> string) \<Rightarrow> timeline_point list \<Rightarrow> bool" where
  "exact_counts table key ps \<longleftrightarrow> sorted (map fst table) \<and> distinct (map fst table) \<and>
     (\<forall>k n. (k, n) \<in> set table \<longleftrightarrow> 0 < n \<and> n = count_if (\<lambda>p. key p = k) ps)"

lemma count_if_pos: "0 < count_if P xs \<longleftrightarrow> (\<exists>x \<in> set xs. P x)"
  by (induction xs) auto

lemma sorted_counts_exact: "exact_counts (sorted_counts (map key ps)) key ps"
proof -
  let ?c = "counter_of (map key ps)"
  note c = counts_counter_of [of "map key ps", unfolded counts_def]
  have keys: "mset (map fst (sorted_counts (map key ps))) = mset (map fst ?c)" by (simp add: sorted_counts_def)
  have "distinct (map fst (sorted_counts (map key ps)))" using c keys by (metis mset_eq_imp_distinct_iff)
  moreover have "(k, n) \<in> set (sorted_counts (map key ps)) \<longleftrightarrow> 0 < n \<and> n = count_if (\<lambda>p. key p = k) ps" for k n
  proof
    assume "(k, n) \<in> set (sorted_counts (map key ps))"
    from sorted_counts_entry [OF this] show "0 < n \<and> n = count_if (\<lambda>p. key p = k) ps"
      by (auto simp: count_if_map count_if_pos)
  next
    assume n: "0 < n \<and> n = count_if (\<lambda>p. key p = k) ps"
    then have "k \<in> set (map fst ?c)" using c count_if_pos [of "\<lambda>p. key p = k" ps] by auto
    then obtain j where j: "(k, j) \<in> set (sorted_counts (map key ps))" by (auto simp: sorted_counts_def)
    then show "(k, n) \<in> set (sorted_counts (map key ps))" using sorted_counts_entry [OF j] n by (simp add: count_if_map)
  qed
  ultimately show ?thesis by (simp add: exact_counts_def) (simp add: sorted_counts_def)
qed

text \<open>
  C39. The summary of a finite projection is exact. Its highest and lowest Tc are attained bounds of
  the whole data set; the record candidates are the points at the highest value, all of them in
  display order, cut to twenty with their number and the cut declared; the per-family maxima are the
  maxima of exactly the families present; each of the four tables counts, key by key, the points of
  every family, origin, year basis and pressure state that occurs; and points, materials and sources
  are counted as distinct ones.
\<close>

theorem timeline_summary_exact:
  assumes pts: "pts = finite_points env ps" and s: "s = summarize_timeline env pts"
  shows "(\<forall>t. max_tc_kelvin s = Some (Finite t) \<longleftrightarrow>
        (\<exists>p \<in> set pts. tc_kelvin p = Finite t) \<and> (\<forall>p \<in> set pts. \<exists>u \<le> t. tc_kelvin p = Finite u)) \<and>
      (\<forall>t. min_tc_kelvin s = Some (Finite t) \<longleftrightarrow>
        (\<exists>p \<in> set pts. tc_kelvin p = Finite t) \<and> (\<forall>p \<in> set pts. \<exists>u \<ge> t. tc_kelvin p = Finite u)) \<and>
      (\<exists>ms. mset ms = mset (filter (\<lambda>p. max_tc_kelvin s = Some (tc_kelvin p)) pts) \<and> sorted (map (point_order env) ms) \<and>
        record_candidates s = map (te_dump env) (take 20 ms) \<and> record_candidate_count s = length ms \<and>
        (record_candidates_truncated s \<longleftrightarrow> 20 < length ms)) \<and>
      (\<forall>f t. (f, Finite t) \<in> set (family_max_tc_kelvin s) \<longleftrightarrow>
        (\<exists>p \<in> set pts. family_name p = f \<and> tc_kelvin p = Finite t) \<and>
        (\<forall>p \<in> set pts. family_name p = f \<longrightarrow> (\<exists>u \<le> t. tc_kelvin p = Finite u))) \<and>
      exact_counts (by_family s) family_name pts \<and> exact_counts (by_origin s) point_origin pts \<and>
      exact_counts (by_year_basis s) (\<lambda>p. str_get env (result_metadata p) ''year_basis'' ''unknown'') pts \<and>
      exact_counts (by_pressure_state s) (point_pressure env) pts \<and>
      (\<forall>table \<in> {by_family s, by_origin s, by_year_basis s, by_pressure_state s}. sum_list (map snd table) = length pts) \<and>
      sm_total_points s = length pts \<and> total_materials s = card (material_key ` set pts) \<and>
      sm_source_count s = card {i. i \<noteq> [] \<and> (\<exists>p \<in> set pts. paper_id p = Some i)}"
proof (intro conjI allI ballI impI)
  have fin: "\<forall>p \<in> set pts. \<exists>t. tc_kelvin p = Finite t" unfolding pts using finite_points_tc by blast
  show "max_tc_kelvin s = Some (Finite t) \<longleftrightarrow>
      (\<exists>p \<in> set pts. tc_kelvin p = Finite t) \<and> (\<forall>p \<in> set pts. \<exists>u \<le> t. tc_kelvin p = Finite u)" for t
    unfolding s using float_fold_Finite(1) [OF fin] by (simp add: summarize_timeline_def Let_def)
  show "min_tc_kelvin s = Some (Finite t) \<longleftrightarrow>
      (\<exists>p \<in> set pts. tc_kelvin p = Finite t) \<and> (\<forall>p \<in> set pts. \<exists>u \<ge> t. tc_kelvin p = Finite u)" for t
    unfolding s using float_fold_Finite(2) [OF fin] by (simp add: summarize_timeline_def Let_def)
  show "\<exists>ms. mset ms = mset (filter (\<lambda>p. max_tc_kelvin s = Some (tc_kelvin p)) pts) \<and> sorted (map (point_order env) ms) \<and>
        record_candidates s = map (te_dump env) (take 20 ms) \<and> record_candidate_count s = length ms \<and>
        (record_candidates_truncated s \<longleftrightarrow> 20 < length ms)"
  proof -
    have "filter (at_maximum (max_tc_kelvin s)) pts = filter (\<lambda>p. max_tc_kelvin s = Some (tc_kelvin p)) pts"
      using fin by (intro filter_cong) (auto simp: at_maximum_def float_eq_def split: option.splits pyfloat.splits)
    moreover have m: "max_tc_kelvin s = float_fold float_max (map tc_kelvin pts)" by (simp add: s summarize_timeline_def Let_def)
    ultimately show ?thesis
      by (intro exI [of _ "sort_key (point_order env) (filter (at_maximum (max_tc_kelvin s)) pts)"])
        (simp add: s summarize_timeline_def Let_def)
  qed
  show "(f, Finite t) \<in> set (family_max_tc_kelvin s) \<longleftrightarrow>
      (\<exists>p \<in> set pts. family_name p = f \<and> tc_kelvin p = Finite t) \<and>
      (\<forall>p \<in> set pts. family_name p = f \<longrightarrow> (\<exists>u \<le> t. tc_kelvin p = Finite u))" for f t
  proof -
    have "(f, Finite t) \<in> set (family_max_tc_kelvin s) \<longleftrightarrow>
        float_fold float_max (map tc_kelvin (filter (\<lambda>p. family_name p = f) pts)) = Some (Finite t)"
      unfolding s summarize_timeline_def Let_def timeline_summary.simps by (rule family_maxima_mem)
    then show ?thesis using float_fold_Finite(1) [of "filter (\<lambda>p. family_name p = f) pts" t] fin by auto
  qed
  show "exact_counts (by_family s) family_name pts" "exact_counts (by_origin s) point_origin pts"
    "exact_counts (by_year_basis s) (\<lambda>p. str_get env (result_metadata p) ''year_basis'' ''unknown'') pts"
    "exact_counts (by_pressure_state s) (point_pressure env) pts"
    unfolding s summarize_timeline_def Let_def timeline_summary.simps by (rule sorted_counts_exact)+
  show "sum_list (map snd table) = length pts"
    if "table \<in> {by_family s, by_origin s, by_year_basis s, by_pressure_state s}" for table
    using that unfolding s summarize_timeline_def Let_def timeline_summary.simps
    by (elim insertE emptyE) (simp_all only: sorted_counts_total length_map)
  show "sm_total_points s = length pts" "total_materials s = card (material_key ` set pts)"
    by (simp_all add: s summarize_timeline_def Let_def len_set_card)
  have "set (filter (\<lambda>x. x \<noteq> Some [] \<and> x \<noteq> None) (map paper_id pts)) = Some ` {i. i \<noteq> [] \<and> (\<exists>p \<in> set pts. paper_id p = Some i)}"
    by (auto simp: image_iff) (metis option.exhaust)
  then show "sm_source_count s = card {i. i \<noteq> [] \<and> (\<exists>p \<in> set pts. paper_id p = Some i)}"
    unfolding s summarize_timeline_def Let_def timeline_summary.simps source_count_def len_set_card by (simp add: card_image)
qed

section \<open>Concrete evaluations\<close>

definition demo_timeline_env :: timeline_env where
  "demo_timeline_env = \<lparr>te_sha256 = List.rev, te_dump_json = material, te_dump = (\<lambda>p. PStr (material p)), te_str = (\<lambda>_. ''None'')\<rparr>"

definition demo_point :: "string \<Rightarrow> string option \<Rightarrow> pyfloat \<Rightarrow> int \<Rightarrow> timeline_point" where
  "demo_point i f t y = \<lparr>point_id = Some i, result_metadata = PDict [], material_id = None, visibility = PDict [],
     material = i, formula_latex = None, tp_family = f, tc_kelvin = t, tp_year = y, pressure_gpa = None,
     pressure_semantics = PDict [(PStr ''pressure_state'', PNone)], paper_id = Some ''w'', is_theoretical = False,
     tp_knowledge_origin = ''Observed'', tp_classification_status = ''resolved'', tp_source_role = ''primary'',
     classifier_version = ''v''\<rparr>"

definition demo_points :: "timeline_point list" where
  "demo_points = [demo_point ''c'' (Some ''cuprate'') (Finite 93) 1987, demo_point ''a'' None (Finite 4) 1911,
     demo_point ''b'' (Some ''cuprate'') (Finite 35) 1986, demo_point ''x'' None NaN 1990,
     demo_point ''d'' (Some ''cuprate'') (Finite 90) 1988, demo_point ''e'' (Some ''hydride'') (Finite 203) 2015,
     demo_point ''f'' (Some ''cuprate'') (Finite 91) 1988]"

lemma demo_finite_points: "map point_id (finite_points demo_timeline_env demo_points) = map Some [''a'', ''b'', ''c'', ''f'', ''d'', ''e'']"
  by code_simp

theorem timeline_sample_fills_budget_witness:
  "\<exists>sel rep. sample_timeline demo_timeline_env (finite_points demo_timeline_env demo_points) (IntBudget 4) = Some (Inr (sel, rep)) \<and>
     length sel = 4 \<and> hd (finite_points demo_timeline_env demo_points) \<in> set sel"
proof -
  have len: "length (finite_points demo_timeline_env demo_points) = 6"
    using arg_cong [OF demo_finite_points, of length] by simp
  then have "finite_points demo_timeline_env demo_points \<noteq> []" by auto
  then show ?thesis
    using timeline_sample_fills_budget [of 4 "finite_points demo_timeline_env demo_points" demo_timeline_env demo_points] len
    by fastforce
qed

theorem timeline_summary_exact_witness:
  "max_tc_kelvin (summarize_timeline demo_timeline_env (finite_points demo_timeline_env demo_points)) = Some (Finite 203) \<and>
   sum_list (map snd (by_family (summarize_timeline demo_timeline_env (finite_points demo_timeline_env demo_points)))) = 6"
proof -
  have "length (finite_points demo_timeline_env demo_points) = 6"
    using arg_cong [OF demo_finite_points, of length] by simp
  moreover have "max_tc_kelvin (summarize_timeline demo_timeline_env (finite_points demo_timeline_env demo_points)) = Some (Finite 203)"
    by code_simp
  ultimately show ?thesis
    using timeline_summary_exact [of "finite_points demo_timeline_env demo_points" demo_timeline_env demo_points
        "summarize_timeline demo_timeline_env (finite_points demo_timeline_env demo_points)"] by simp
qed

end
