(* ===== verification/Number_Text.thy ===== *)
theory Number_Text
  imports Py_Runtime
begin

text \<open>
  Reading numbers from text, as the quantity and the pressure parsers do it.

  Regular expressions are parsers that return their matches in the order a backtracking
  engine tries them, each with the text it leaves. Strings are ASCII here, so the typographic
  alternatives of the patterns (dashes, plus-minus, inequality signs) never match.
  The \<open>str\<close> of values other than strings and integers and \<open>repr\<close> are arguments. Decimals are
  a coefficient and an exponent; a product is rounded to the 28 digits of the default context.
\<close>

section \<open>Patterns\<close>

type_synonym 'a pat = "string \<Rightarrow> ('a \<times> string) list"

definition p_ret :: "'a \<Rightarrow> 'a pat" where
  "p_ret a s = [(a, s)]"

fun p_char :: "(char \<Rightarrow> bool) \<Rightarrow> string pat" where
  "p_char P [] = []"
| "p_char P (c # s) = (if P c then [([c], s)] else [])"

text \<open>\<open>[class]*\<close>, longest first.\<close>

fun p_many :: "(char \<Rightarrow> bool) \<Rightarrow> string pat" where
  "p_many P [] = [([], [])]"
| "p_many P (c # s) = (if P c then map (\<lambda>(a, t). (c # a, t)) (p_many P s) else []) @ [([], c # s)]"

definition p_bind :: "'a pat \<Rightarrow> ('a \<Rightarrow> 'b pat) \<Rightarrow> 'b pat" where
  "p_bind p f s = concat (map (\<lambda>(a, t). f a t) (p s))"

definition p_seq :: "string pat \<Rightarrow> string pat \<Rightarrow> string pat" where
  "p_seq p q = p_bind p (\<lambda>a. p_bind q (\<lambda>b. p_ret (a @ b)))"

definition p_alt :: "'a pat \<Rightarrow> 'a pat \<Rightarrow> 'a pat" where
  "p_alt p q s = p s @ q s"

definition p_opt :: "string pat \<Rightarrow> string pat" where
  "p_opt p = p_alt p (p_ret [])"

definition p_some :: "(char \<Rightarrow> bool) \<Rightarrow> string pat" where
  "p_some P = p_seq (p_char P) (p_many P)"

text \<open>A literal, and a literal with \<open>re.IGNORECASE\<close>.\<close>

fun p_lit :: "string \<Rightarrow> string pat" where
  "p_lit [] = p_ret []"
| "p_lit (c # cs) = p_seq (p_char (\<lambda>x. x = c)) (p_lit cs)"

fun p_word :: "string \<Rightarrow> string pat" where
  "p_word [] = p_ret []"
| "p_word (c # cs) = p_seq (p_char (\<lambda>x. lower_char x = c)) (p_word cs)"

text \<open>\<open>(.*?)$\<close> at the end of a full match: the rest, without a line break.\<close>

definition p_rest :: "string pat" where
  "p_rest s = (if CHR 0x0A \<in> set s then [] else [(s, [])])"

definition fullmatch :: "'a pat \<Rightarrow> string \<Rightarrow> 'a option" where
  "fullmatch p s = map_option fst (find (\<lambda>(a, t). t = []) (p s))"

definition is_sign :: "char \<Rightarrow> bool" where
  "is_sign c \<longleftrightarrow> c = CHR ''-'' \<or> c = CHR ''+''"

definition NUMBER :: "string pat" where
  "NUMBER = p_seq (p_opt (p_char is_sign))
     (p_seq (p_alt (p_seq (p_some is_digit_char) (p_opt (p_seq (p_lit ''.'') (p_many is_digit_char))))
                   (p_seq (p_lit ''.'') (p_some is_digit_char)))
            (p_opt (p_seq (p_char (\<lambda>c. lower_char c = CHR ''e'')) (p_seq (p_opt (p_char is_sign)) (p_some is_digit_char)))))"

definition POINT :: "(string \<times> string) pat" where
  "POINT = p_bind NUMBER (\<lambda>a. p_bind (p_many is_space) (\<lambda>_. p_bind p_rest (\<lambda>u. p_ret (a, u))))"

definition two_numbers :: "string pat \<Rightarrow> (string \<times> string \<times> string) pat" where
  "two_numbers sep = p_bind NUMBER (\<lambda>a. p_bind (p_many is_space) (\<lambda>_. p_bind sep (\<lambda>_.
     p_bind (p_many is_space) (\<lambda>_. p_bind NUMBER (\<lambda>b. p_bind (p_many is_space) (\<lambda>_. p_bind p_rest (\<lambda>u. p_ret (a, b, u))))))))"

definition INTERVAL :: "(string \<times> string \<times> string) pat" where
  "INTERVAL = two_numbers (p_alt (p_lit ''-'') (p_lit ''to''))"

definition UNCERTAINTY :: "(string \<times> string \<times> string) pat" where
  "UNCERTAINTY = two_numbers (p_lit ''+/-'')"

definition BOUND :: "(string \<times> string \<times> string) pat" where
  "BOUND = p_bind (p_alt (p_lit ''<='') (p_alt (p_lit ''>='') (p_alt (p_lit ''<'') (p_lit ''>'')))) (\<lambda>r.
     p_bind (p_many is_space) (\<lambda>_. p_bind NUMBER (\<lambda>a. p_bind (p_many is_space) (\<lambda>_. p_bind p_rest (\<lambda>u. p_ret (r, a, u))))))"

definition APPROX :: "string pat" where
  "APPROX = p_alt (p_lit ''~'') (p_alt (p_seq (p_word ''about'') (p_some is_space)) (p_seq (p_word ''approximately'') (p_some is_space)))"

section \<open>Decimals\<close>

text \<open>A token that matched \<open>NUMBER\<close> as coefficient and exponent.\<close>

definition signed_digits :: "string \<Rightarrow> int" where
  "signed_digits s = (case s of
      [] \<Rightarrow> 0
    | c # r \<Rightarrow> if c = CHR ''-'' then - int (digits_value r) else if c = CHR ''+'' then int (digits_value r) else int (digits_value s))"

definition decimal_token :: "string \<Rightarrow> int \<times> int" where
  "decimal_token t =
     (let mantissa = takeWhile (\<lambda>c. lower_char c \<noteq> CHR ''e'') t;
          expo = drop 1 (dropWhile (\<lambda>c. lower_char c \<noteq> CHR ''e'') t);
          whole = takeWhile (\<lambda>c. c \<noteq> CHR ''.'') mantissa;
          frac = drop 1 (dropWhile (\<lambda>c. c \<noteq> CHR ''.'') mantissa)
      in (signed_digits (whole @ frac), signed_digits expo - int (length frac)))"

definition decimal_digits :: "int \<Rightarrow> int" where
  "decimal_digits c = int (length (nat_digits (nat \<bar>c\<bar>)))"

text \<open>\<open>Decimal(text)\<close> raises \<open>InvalidOperation\<close> outside the exponent range of the library.\<close>

definition decimal_limit :: int where "decimal_limit = 999999999999999999"

definition decimal_of :: "string \<Rightarrow> (int \<times> int) option" where
  "decimal_of t =
     (let (c, e) = decimal_token t
      in if c \<noteq> 0 \<and> e + decimal_digits c - 1 > decimal_limit \<or> e < - decimal_limit - 999999999999999998 \<or> c = 0 \<and> e > decimal_limit
         then None else Some (c, e))"

definition decimal_rat :: "int \<times> int \<Rightarrow> rat" where
  "decimal_rat d = (if 0 \<le> snd d then of_int (fst d) * 10 ^ nat (snd d) else of_int (fst d) / 10 ^ nat (- snd d))"

text \<open>A product in the default context: 28 digits half to even, \<open>Overflow\<close> trapped.\<close>

definition decimal_round :: "int \<times> int \<Rightarrow> int \<times> int" where
  "decimal_round d =
     (let k = decimal_digits (fst d) - 28
      in if k \<le> 0 then d else (round_half_even (of_int (fst d) / 10 ^ nat k), snd d + k))"

definition decimal_mult :: "int \<times> int \<Rightarrow> int \<times> int \<Rightarrow> (py_error, int \<times> int) res" where
  "decimal_mult a b =
     (let r = decimal_round (fst a * fst b, snd a + snd b)
      in if fst r \<noteq> 0 \<and> snd r + decimal_digits (fst r) - 1 > 999999 then Inl DecimalOverflow else Inr r)"

text \<open>
  \<open>float(d)\<close>. Far below the smallest float the answer is zero, whether the context made the
  number subnormal or not.
\<close>

definition decimal_float :: "int \<times> int \<Rightarrow> pyfloat" where
  "decimal_float d =
     (if fst d = 0 \<or> snd d + decimal_digits (fst d) < - 400 then Finite 0
      else if snd d + decimal_digits (fst d) > 400 then (if fst d < 0 then NegInf else PosInf)
      else round64 (decimal_rat d))"


section \<open>Text of a value\<close>

record text_env =
  pe_str :: "pyval \<Rightarrow> string"
  pe_repr :: "pyval \<Rightarrow> string"

fun text_of :: "text_env \<Rightarrow> pyval \<Rightarrow> (py_error, string) res" where
  "text_of env (PStr s) = Inr s"
| "text_of env (PInt i) = (if too_many_digits i then Inl digits_error else Inr (int_text i))"
| "text_of env v = Inr (pe_str env v)"

text \<open>A value as JSON can carry it: tuples as lists, non-finite numbers and other objects as text.\<close>

fun raw_json :: "text_env \<Rightarrow> pyval \<Rightarrow> pyval"
  and raw_json_items :: "text_env \<Rightarrow> pyval list \<Rightarrow> pyval list"
  and raw_json_members :: "text_env \<Rightarrow> (pyval \<times> pyval) list \<Rightarrow> (string \<times> pyval) list" where
  "raw_json env (PDict kvs) = PDict (foldl (\<lambda>d (k, v). dict_put d k v) [] (raw_json_members env kvs))"
| "raw_json env (PList xs) = PList (raw_json_items env xs)"
| "raw_json env (PTuple xs) = PList (raw_json_items env xs)"
| "raw_json env (PFloat x) = (case x of Finite q \<Rightarrow> PFloat (Finite q) | _ \<Rightarrow> PStr (pe_str env (PFloat x)))"
| "raw_json env (POpaque n) = PStr (pe_repr env (POpaque n))"
| "raw_json env v = v"
| "raw_json_items env [] = []"
| "raw_json_items env (x # xs) = raw_json env x # raw_json_items env xs"
| "raw_json_members env [] = []"
| "raw_json_members env ((k, v) # kvs) = ((case k of PStr s \<Rightarrow> s | _ \<Rightarrow> pe_str env k), raw_json env v) # raw_json_members env kvs"

text \<open>\<open>d.get(k, default)\<close>.\<close>

definition get_or :: "pyval \<Rightarrow> string \<Rightarrow> pyval \<Rightarrow> pyval" where
  "get_or d k v = (if phas d k then pget d k else v)"

section \<open>Tokens\<close>

definition RELATIONS :: "(string \<times> string) list" where
  "RELATIONS = [(''<'', ''lt''), (''<='', ''le''), (''>'', ''gt''), (''>='', ''ge'')]"

text \<open>
  The tokens of the first pattern that matches: relation, the value, lower, upper and
  uncertainty tokens, and the unit written after the number.
\<close>

record number_tokens =
  pt_relation :: string
  pt_value :: "string option"
  pt_lower :: "string option"
  pt_upper :: "string option"
  pt_uncertainty :: "string option"
  pt_unit :: string

definition no_tokens :: "string \<Rightarrow> string \<Rightarrow> number_tokens" where
  "no_tokens rel u = \<lparr>pt_relation = rel, pt_value = None, pt_lower = None, pt_upper = None, pt_uncertainty = None, pt_unit = u\<rparr>"

definition tokens_with :: "(string \<times> string) pat \<Rightarrow> string \<Rightarrow> number_tokens option" where
  "tokens_with point t =
     (case fullmatch UNCERTAINTY t of
        Some (a, b, u) \<Rightarrow> Some ((no_tokens ''exact'' u)\<lparr>pt_value := Some a, pt_uncertainty := Some b\<rparr>)
      | None \<Rightarrow>
     (case fullmatch BOUND t of
        Some (r, a, u) \<Rightarrow>
          let rel = (case map_of RELATIONS r of None \<Rightarrow> [] | Some x \<Rightarrow> x) in
          Some (if rel \<in> {''lt'', ''le''} then (no_tokens rel u)\<lparr>pt_upper := Some a\<rparr> else (no_tokens rel u)\<lparr>pt_lower := Some a\<rparr>)
      | None \<Rightarrow>
     (case fullmatch INTERVAL t of
        Some (a, b, u) \<Rightarrow> Some ((no_tokens ''interval'' u)\<lparr>pt_lower := Some a, pt_upper := Some b\<rparr>)
      | None \<Rightarrow>
     (case fullmatch point t of
        Some (a, u) \<Rightarrow> Some ((no_tokens ''exact'' u)\<lparr>pt_value := Some a\<rparr>)
      | None \<Rightarrow> None))))"

text \<open>\<open>float(Decimal(value) * factor)\<close>; the inner \<open>None\<close> is the caught \<open>InvalidOperation\<close>.\<close>

definition token_number :: "int \<times> int \<Rightarrow> string \<Rightarrow> (py_error, pyfloat option) res" where
  "token_number factor t =
     (case decimal_of t of None \<Rightarrow> Inr None
      | Some d \<Rightarrow> rbind (decimal_mult d factor) (\<lambda>r. Inr (Some (decimal_float r))))"

text \<open>
  The dict comprehension over the tokens, in the order they were written; it stops at the first
  token that is not a decimal.
\<close>

fun token_numbers :: "int \<times> int \<Rightarrow> string option list \<Rightarrow> (py_error, pyfloat option list option) res" where
  "token_numbers factor [] = Inr (Some [])"
| "token_numbers factor (None # ts) =
     rbind (token_numbers factor ts) (\<lambda>r. Inr (map_option (\<lambda>xs. None # xs) r))"
| "token_numbers factor (Some t # ts) =
     rbind (token_number factor t) (\<lambda>x. case x of None \<Rightarrow> Inr None
       | Some v \<Rightarrow> rbind (token_numbers factor ts) (\<lambda>r. Inr (map_option (\<lambda>xs. Some v # xs) r)))"

fun finite_or_absent :: "pyfloat option \<Rightarrow> bool" where
  "finite_or_absent None = True"
| "finite_or_absent (Some (Finite _)) = True"
| "finite_or_absent (Some _) = False"

definition below :: "pyfloat option \<Rightarrow> pyfloat option \<Rightarrow> bool" where
  "below x y = (case (x, y) of (Some a, Some b) \<Rightarrow> float_less a b | _ \<Rightarrow> False)"

lemma token_numbers_presence:
  "token_numbers f ts = Inr (Some xs) \<Longrightarrow> list_all2 (\<lambda>t x. t = None \<longleftrightarrow> x = None) ts xs"
proof (induction f ts arbitrary: xs rule: token_numbers.induct)
  case (3 f t ts)
  then show ?case by (auto split: option.splits)
qed auto

lemma p_lit_result: "(a, t) \<in> set (p_lit w s) \<Longrightarrow> a = w"
proof (induction w arbitrary: a s t)
  case (Cons c w)
  then show ?case by (cases s) (auto simp: p_seq_def p_bind_def p_ret_def split: if_splits)
qed (simp add: p_ret_def)

lemma bound_sign: "fullmatch BOUND t = Some (r, a, u) \<Longrightarrow> r \<in> {''<='', ''>='', ''<'', ''>''}"
proof -
  assume "fullmatch BOUND t = Some (r, a, u)"
  then obtain rest where "((r, a, u), rest) \<in> set (BOUND t)"
    unfolding fullmatch_def by (auto simp: find_Some_iff) (metis nth_mem)
  then obtain t' where "(r, t') \<in> set (p_alt (p_lit ''<='') (p_alt (p_lit ''>='') (p_alt (p_lit ''<'') (p_lit ''>''))) t)"
    unfolding BOUND_def p_bind_def by (auto simp: p_ret_def simp del: p_lit.simps)
  then show ?thesis unfolding p_alt_def by (auto simp del: p_lit.simps dest: p_lit_result)
qed

text \<open>Exactly the tokens of its relation are there.\<close>

definition relation_shape :: "string \<Rightarrow> 'a option \<Rightarrow> 'b option \<Rightarrow> 'c option \<Rightarrow> 'd option \<Rightarrow> bool" where
  "relation_shape rel v l h d \<longleftrightarrow>
     (rel = ''exact'' \<and> v \<noteq> None \<and> l = None \<and> h = None) \<or>
     (rel = ''interval'' \<and> v = None \<and> d = None \<and> l \<noteq> None \<and> h \<noteq> None) \<or>
     (rel \<in> {''lt'', ''le''} \<and> v = None \<and> d = None \<and> l = None \<and> h \<noteq> None) \<or>
     (rel \<in> {''gt'', ''ge''} \<and> v = None \<and> d = None \<and> l \<noteq> None \<and> h = None)"

lemma relation_shapes:
  "relation_shape ''exact'' (Some v) None None d" "relation_shape ''interval'' None (Some l) (Some h) None"
  "relation_shape ''lt'' None None (Some h) None" "relation_shape ''le'' None None (Some h) None"
  "relation_shape ''gt'' None (Some l) None None" "relation_shape ''ge'' None (Some l) None None"
  by (simp_all add: relation_shape_def)

lemma tokens_relation_shape:
  assumes "tokens_with point t = Some tk"
  shows "relation_shape (pt_relation tk) (pt_value tk) (pt_lower tk) (pt_upper tk) (pt_uncertainty tk)"
proof (cases "fullmatch UNCERTAINTY t")
  case (Some x)
  obtain a b w where x: "x = (a, b, w)" by (cases x)
  have "tk = (no_tokens ''exact'' w)\<lparr>pt_value := Some a, pt_uncertainty := Some b\<rparr>"
    using assms unfolding tokens_with_def Some x by simp
  then show ?thesis by (simp only: no_tokens_def number_tokens.simps relation_shapes)
next
  case u: None
  show ?thesis
  proof (cases "fullmatch BOUND t")
    case (Some x)
    obtain r a w where x: "x = (r, a, w)" by (cases x)
    define rel where "rel = (case map_of RELATIONS r of None \<Rightarrow> [] | Some x \<Rightarrow> x)"
    have tk: "tk = (if rel \<in> {''lt'', ''le''} then (no_tokens rel w)\<lparr>pt_upper := Some a\<rparr> else (no_tokens rel w)\<lparr>pt_lower := Some a\<rparr>)"
      using assms unfolding tokens_with_def u Some x Let_def option.case prod.case rel_def [symmetric] by simp
    have "rel = ''lt'' \<or> rel = ''le'' \<or> rel = ''gt'' \<or> rel = ''ge''"
      using bound_sign [OF Some [unfolded x]] unfolding rel_def RELATIONS_def by (elim insertE emptyE) simp_all
    then show ?thesis
      by (elim disjE) (simp_all add: tk no_tokens_def relation_shapes)
  next
    case b: None
    show ?thesis
    proof (cases "fullmatch INTERVAL t")
      case (Some x)
      obtain a c w where x: "x = (a, c, w)" by (cases x)
      have "tk = (no_tokens ''interval'' w)\<lparr>pt_lower := Some a, pt_upper := Some c\<rparr>"
        using assms unfolding tokens_with_def u b Some x by simp
      then show ?thesis by (simp only: no_tokens_def number_tokens.simps relation_shapes)
    next
      case i: None
      obtain y where y: "fullmatch point t = Some y"
        using assms unfolding tokens_with_def u b i by (cases "fullmatch point t") simp_all
      obtain a w where "fullmatch point t = Some (a, w)" using y by (cases y) simp
      then have "tk = (no_tokens ''exact'' w)\<lparr>pt_value := Some a\<rparr>"
        using assms unfolding tokens_with_def u b i by simp
      then show ?thesis by (simp only: no_tokens_def number_tokens.simps relation_shapes)
    qed
  qed
qed

text \<open>No value and no spread outside an exact reading.\<close>

lemma tokens_shape:
  assumes "tokens_with point t = Some tk"
  shows "(pt_relation tk = ''exact'' \<and> pt_value tk \<noteq> None \<and> pt_lower tk = None \<and> pt_upper tk = None) \<or>
    (pt_relation tk = ''interval'' \<and> pt_value tk = None \<and> pt_uncertainty tk = None \<and> pt_lower tk \<noteq> None \<and> pt_upper tk \<noteq> None) \<or>
    (pt_relation tk \<notin> {''exact'', ''interval'', ''unreported''} \<and> pt_value tk = None \<and> pt_uncertainty tk = None)"
  using tokens_relation_shape [OF assms] unfolding relation_shape_def by (elim disjE conjE insertE emptyE) simp_all

section \<open>Powers of ten as text\<close>

text \<open>
  The texts \<open>m e n unit\<close>: digits, an exponent of digits, and a unit after a space. They are exact
  readings under every point pattern that starts with \<open>NUMBER\<close>.
\<close>

definition power_text :: "string \<Rightarrow> string \<Rightarrow> string" where
  "power_text m n = m @ CHR ''e'' # n"

lemma digit_facts:
  assumes "is_digit_char c"
  shows "\<not> is_sign c" "\<not> is_space c" "c \<noteq> CHR ''.''" "c \<noteq> CHR ''<''" "c \<noteq> CHR ''>''" "c \<noteq> CHR ''~''" "lower_char c = c"
    "c \<noteq> CHR ''-''" "c \<noteq> CHR ''+''" "c \<noteq> CHR ''t''" "c \<noteq> CHR ''e''" "c \<noteq> CHR ''a''" "c \<noteq> CHR ''z''" "c \<noteq> CHR ''p''"
  using assms by (auto simp: is_digit_char_def is_sign_def is_space_def lower_char_def char_nat_def)

lemma p_many_first:
  "list_all P n \<Longrightarrow> rest = [] \<or> \<not> P (hd rest) \<Longrightarrow> \<exists>xs. p_many P (n @ rest) = (n, rest) # xs"
proof (induction n)
  case Nil
  then show ?case by (cases rest) auto
next
  case (Cons c n)
  then obtain xs where "p_many P (n @ rest) = (n, rest) # xs" by auto
  then show ?case using Cons.prems by simp
qed

lemma p_many_split: "(a, r) \<in> set (p_many P s) \<Longrightarrow> s = a @ r \<and> list_all P a"
  by (induction s arbitrary: a r) (auto split: if_splits)

lemma p_bind_iff: "(b, r) \<in> set (p_bind p f s) \<longleftrightarrow> (\<exists>a t. (a, t) \<in> set (p s) \<and> (b, r) \<in> set (f a t))"
  by (auto simp: p_bind_def)

lemma p_seq_iff: "(b, r) \<in> set (p_seq p q s) \<longleftrightarrow> (\<exists>a t c. (a, t) \<in> set (p s) \<and> (c, r) \<in> set (q t) \<and> b = a @ c)"
  by (auto simp: p_seq_def p_bind_iff p_ret_def)

lemma p_bind_Cons: "p s = (a, t) # xs \<Longrightarrow> \<exists>ys. p_bind p f s = f a t @ ys"
  by (simp add: p_bind_def)

lemma p_seq_first:
  assumes "\<exists>xs. p s = (a, t) # xs" "\<exists>ys. q t = (b, r) # ys"
  shows "\<exists>zs. p_seq p q s = (a @ b, r) # zs"
  using assms by (auto simp: p_seq_def p_bind_def p_ret_def)

lemma p_some_first:
  assumes "n \<noteq> []" "list_all P n" "rest = [] \<or> \<not> P (hd rest)"
  shows "\<exists>xs. p_some P (n @ rest) = (n, rest) # xs"
proof -
  obtain c n' where n: "n = c # n'" using assms(1) by (cases n) auto
  have "\<exists>xs. p_seq (p_char P) (p_many P) (n @ rest) = ([c] @ n', rest) # xs"
    by (rule p_seq_first [where t = "n' @ rest"]) (use assms(2,3) p_many_first [of P n' rest] n in auto)
  then show ?thesis by (simp add: p_some_def n)
qed

lemma p_opt_first: "\<exists>xs. p s = (a, t) # xs \<Longrightarrow> \<exists>xs. p_opt p s = (a, t) # xs"
  by (auto simp: p_opt_def p_alt_def)

lemma p_opt_none: "p s = [] \<Longrightarrow> p_opt p s = [([], s)]"
  by (simp add: p_opt_def p_alt_def p_ret_def)

lemma NUMBER_first:
  assumes "m \<noteq> []" "list_all is_digit_char m" "n \<noteq> []" "list_all is_digit_char n" "rest = [] \<or> \<not> is_digit_char (hd rest)"
  shows "\<exists>xs. NUMBER (power_text m n @ rest) = (power_text m n, rest) # xs"
proof -
  obtain c m' where m: "m = c # m'" "is_digit_char c" using assms(1,2) by (cases m) auto
  obtain d n' where n: "n = d # n'" "is_digit_char d" using assms(3,4) by (cases n) auto
  let ?s = "power_text m n @ rest"
  have sign: "p_opt (p_char is_sign) ?s = [([], ?s)]"
    by (rule p_opt_none) (simp add: power_text_def m digit_facts)
  have e: "\<not> is_digit_char (CHR ''e'')" by (simp add: is_digit_char_def char_nat_def)
  have whole: "\<exists>xs. p_some is_digit_char ?s = (m, CHR ''e'' # n @ rest) # xs"
    using p_some_first [OF assms(1,2), of "CHR ''e'' # n @ rest"] e by (simp add: power_text_def)
  have point: "p_opt (p_seq (p_lit ''.'') (p_many is_digit_char)) (CHR ''e'' # n @ rest) = [([], CHR ''e'' # n @ rest)]"
    by (rule p_opt_none) (simp add: p_seq_def p_bind_def)
  have "\<exists>xs. p_seq (p_some is_digit_char) (p_opt (p_seq (p_lit ''.'') (p_many is_digit_char))) ?s = (m @ [], CHR ''e'' # n @ rest) # xs"
    by (rule p_seq_first [where t = "CHR ''e'' # n @ rest"]) (use whole point in auto)
  then have mant: "\<exists>xs. p_alt (p_seq (p_some is_digit_char) (p_opt (p_seq (p_lit ''.'') (p_many is_digit_char))))
                   (p_seq (p_lit ''.'') (p_some is_digit_char)) ?s = (m, CHR ''e'' # n @ rest) # xs"
    by (auto simp: p_alt_def)
  have nosign: "p_opt (p_char is_sign) (n @ rest) = [([], n @ rest)]"
    by (rule p_opt_none) (simp add: n digit_facts)
  have "\<exists>xs. p_seq (p_opt (p_char is_sign)) (p_some is_digit_char) (n @ rest) = ([] @ n, rest) # xs"
    by (rule p_seq_first) (use nosign p_some_first [OF assms(3-5)] in auto)
  then have "\<exists>xs. p_seq (p_char (\<lambda>c. lower_char c = CHR ''e'')) (p_seq (p_opt (p_char is_sign)) (p_some is_digit_char))
      (CHR ''e'' # n @ rest) = ([CHR ''e''] @ [] @ n, rest) # xs"
    by (rule p_seq_first [where t = "n @ rest", rotated]) (auto simp: lower_char_def char_nat_def)
  then have ex: "\<exists>xs. p_opt (p_seq (p_char (\<lambda>c. lower_char c = CHR ''e'')) (p_seq (p_opt (p_char is_sign)) (p_some is_digit_char)))
      (CHR ''e'' # n @ rest) = (CHR ''e'' # n, rest) # xs"
    by (intro p_opt_first) simp
  have "\<exists>xs. NUMBER ?s = ([] @ m @ (CHR ''e'' # n), rest) # xs"
    unfolding NUMBER_def
    by (rule p_seq_first [where t = ?s, OF _ p_seq_first [where t = "CHR ''e'' # n @ rest"]]) (use sign mant ex in auto)
  then show ?thesis by (simp add: power_text_def)
qed

text \<open>A pattern leaves part of the text it was given, so a separator that is not there is not found.\<close>

definition shrinks :: "'a pat \<Rightarrow> bool" where
  "shrinks p \<longleftrightarrow> (\<forall>s a r. (a, r) \<in> set (p s) \<longrightarrow> set r \<subseteq> set s)"

lemma shrinks_intros [intro]:
  "shrinks (p_ret x)" "shrinks (p_char P)" "shrinks (p_many P)"
  "shrinks p \<Longrightarrow> shrinks q \<Longrightarrow> shrinks (p_seq p q)" "shrinks p \<Longrightarrow> shrinks q \<Longrightarrow> shrinks (p_alt p q)"
proof -
  show "shrinks (p_ret x)" by (simp add: shrinks_def p_ret_def)
  show "shrinks (p_char P)" unfolding shrinks_def
  proof (intro allI impI)
    fix s a r assume "(a, r) \<in> set (p_char P s)"
    then show "set r \<subseteq> set s" by (cases s) (auto split: if_splits)
  qed
  show "shrinks (p_many P)" unfolding shrinks_def using p_many_split by fastforce
  show "shrinks (p_seq p q)" if "shrinks p" "shrinks q" using that unfolding shrinks_def p_seq_iff by blast
  show "shrinks (p_alt p q)" if "shrinks p" "shrinks q" using that by (auto simp: shrinks_def p_alt_def)
qed

lemma shrinks_NUMBER: "shrinks NUMBER"
  unfolding NUMBER_def p_opt_def p_some_def p_lit.simps by (intro shrinks_intros)

lemma p_lit_needs: "c \<notin> set s \<Longrightarrow> p_lit (c # w) s = []"
  by (cases s) (auto simp: p_seq_def p_bind_def)

lemma two_numbers_needs:
  assumes "\<And>r. set r \<subseteq> set s \<Longrightarrow> sep r = []"
  shows "two_numbers sep s = []"
proof -
  have none: "p_bind (p_many is_space) (\<lambda>_. p_bind sep f) t = []" if "set t \<subseteq> set s" for t and f :: "string \<Rightarrow> (string \<times> string \<times> string) pat"
  proof -
    have "sep r = []" if "(b, r) \<in> set (p_many is_space t)" for b r
      using p_many_split [OF that] \<open>set t \<subseteq> set s\<close> by (intro assms) auto
    then show ?thesis by (auto simp: p_bind_def)
  qed
  have "set t \<subseteq> set s" if "(a, t) \<in> set (NUMBER s)" for a t using shrinks_NUMBER that by (auto simp: shrinks_def)
  then show ?thesis unfolding two_numbers_def by (subst p_bind_def) (use none in fastforce)
qed

text \<open>The text of a power of ten with a unit: an exact reading, with the number and the unit as written.\<close>

definition unit_word :: "string \<Rightarrow> bool" where
  "unit_word u \<longleftrightarrow> u \<noteq> [] \<and> list_all is_alnum_char u \<and> \<not> is_digit_char (hd u) \<and> CHR ''t'' \<notin> set u"

definition power_with_unit :: "string \<Rightarrow> string \<Rightarrow> string \<Rightarrow> string" where
  "power_with_unit m n u = power_text m n @ CHR '' '' # u"

definition decimal_power :: "string \<Rightarrow> string \<Rightarrow> bool" where
  "decimal_power m n \<longleftrightarrow> m \<noteq> [] \<and> list_all is_digit_char m \<and> n \<noteq> [] \<and> list_all is_digit_char n \<and>
     digits_value m \<noteq> 0 \<and> decimal_digits (int (digits_value m)) \<le> 28"

lemma power_parts:
  assumes "decimal_power m n" "unit_word u"
  shows "\<exists>c s. power_with_unit m n u = c # s \<and> is_digit_char c"
    "CHR ''+'' \<notin> set (power_with_unit m n u)" "CHR ''-'' \<notin> set (power_with_unit m n u)" "CHR ''t'' \<notin> set (power_with_unit m n u)"
    "py_strip (power_with_unit m n u) = power_with_unit m n u" "py_strip u = u" "CHR 0x0A \<notin> set u" "\<not> is_space (hd u)"
proof -
  have digits: "c \<notin> set m" "c \<notin> set n" if "\<not> is_digit_char c" for c
    using assms(1) that by (auto simp: decimal_power_def list_all_iff)
  have alnum: "c \<notin> set u" if "\<not> is_alnum_char c" for c using assms(2) that by (auto simp: unit_word_def list_all_iff)
  note chars = is_digit_char_def is_alnum_char_def char_nat_def
  show head: "\<exists>c s. power_with_unit m n u = c # s \<and> is_digit_char c"
    using assms(1) by (cases m) (auto simp: decimal_power_def power_with_unit_def power_text_def)
  show "CHR ''+'' \<notin> set (power_with_unit m n u)" "CHR ''-'' \<notin> set (power_with_unit m n u)" "CHR 0x0A \<notin> set u"
    using digits alnum by (auto simp: power_with_unit_def power_text_def chars)
  show "CHR ''t'' \<notin> set (power_with_unit m n u)"
    using digits [of "CHR ''t''"] assms(2) by (auto simp: power_with_unit_def power_text_def unit_word_def chars)
  have space: "\<not> is_space c" if "is_alnum_char c" for c using that by (auto simp: is_space_def is_alnum_char_def is_digit_char_def)
  show "\<not> is_space (hd u)" using assms(2) space by (cases u) (auto simp: unit_word_def)
  show "py_strip u = u" using assms(2) space by (intro py_strip_id) (auto simp: unit_word_def list_all_iff)
  obtain v k where u: "u = v @ [k]" "\<not> is_space k" using assms(2) space by (cases u rule: rev_cases) (auto simp: unit_word_def)
  obtain c s where cs: "power_with_unit m n u = c # s" "is_digit_char c" using head by blast
  then have "dropWhile is_space (power_with_unit m n u) = power_with_unit m n u" by (simp add: digit_facts)
  moreover have "rev (power_with_unit m n u) = k # rev (power_text m n @ CHR '' '' # v)" by (simp add: power_with_unit_def u)
  ultimately show "py_strip (power_with_unit m n u) = power_with_unit m n u"
    using u(2) by (simp add: py_strip_def power_with_unit_def u(1))
qed

lemma power_tokens:
  assumes "decimal_power m n" "unit_word u"
    and first: "\<And>xs. NUMBER (power_with_unit m n u) = (power_text m n, CHR '' '' # u) # xs \<Longrightarrow>
        \<exists>ys. point (power_with_unit m n u) = ((power_text m n, u), []) # ys"
  shows "tokens_with point (power_with_unit m n u) = Some ((no_tokens ''exact'' u)\<lparr>pt_value := Some (power_text m n)\<rparr>)"
    "APPROX (power_with_unit m n u) = []"
proof -
  let ?t = "power_with_unit m n u"
  note parts = power_parts [OF assms(1,2)]
  obtain c s where cs: "?t = c # s" "is_digit_char c" using parts(1) by blast
  have plus: "CHR ''+'' \<notin> set r" and minus: "CHR ''-'' \<notin> set r" and tee: "CHR ''t'' \<notin> set r" if "set r \<subseteq> set ?t" for r
    using that parts(2-4) by blast+
  have "two_numbers (p_lit ''+/-'') ?t = []" by (rule two_numbers_needs) (use plus p_lit_needs in blast)
  then have "fullmatch UNCERTAINTY ?t = None" by (simp add: fullmatch_def UNCERTAINTY_def)
  moreover have "two_numbers (p_alt (p_lit ''-'') (p_lit ''to'')) ?t = []"
    by (rule two_numbers_needs) (use minus tee p_lit_needs in \<open>simp add: p_alt_def del: p_lit.simps\<close>)
  then have "fullmatch INTERVAL ?t = None" by (simp add: fullmatch_def INTERVAL_def)
  moreover have "BOUND ?t = []" unfolding cs(1) BOUND_def
    using digit_facts [OF cs(2)] by (simp add: p_bind_def p_alt_def p_seq_def)
  then have "fullmatch BOUND ?t = None" by (simp add: fullmatch_def)
  moreover have "\<exists>xs. NUMBER ?t = (power_text m n, CHR '' '' # u) # xs"
    using assms(1) NUMBER_first [of m n "CHR '' '' # u"] by (simp add: decimal_power_def power_with_unit_def is_digit_char_def char_nat_def)
  then have "fullmatch point ?t = Some (power_text m n, u)" using first by (auto simp: fullmatch_def)
  ultimately show "tokens_with point ?t = Some ((no_tokens ''exact'' u)\<lparr>pt_value := Some (power_text m n)\<rparr>)"
    by (simp add: tokens_with_def)
  show "APPROX ?t = []" unfolding cs(1) APPROX_def
    using digit_facts [OF cs(2)] by (simp add: p_alt_def p_seq_def p_bind_def p_ret_def)
qed

lemma power_point:
  assumes "unit_word u" "CHR 0x0A \<notin> set u" "\<not> is_space (hd u)" "NUMBER t = (a, CHR '' '' # u) # xs"
  shows "\<exists>ys. POINT t = ((a, u), []) # ys"
proof -
  obtain v w where u: "u = v # w" using assms(1) by (cases u) (auto simp: unit_word_def)
  have "is_space (CHR '' '')" by (simp add: is_space_def char_nat_def)
  then show ?thesis using assms(2-4) by (simp add: POINT_def p_bind_def p_rest_def p_ret_def u)
qed

text \<open>
  The number itself: beyond the exponent limit of the library it is no decimal, below that limit
  but beyond the default context its product with one overflows.
\<close>

definition power_exponent :: "string \<Rightarrow> string \<Rightarrow> int" where
  "power_exponent m n = int (digits_value n) + decimal_digits (int (digits_value m)) - 1"

lemma power_token:
  assumes "decimal_power m n"
  shows "decimal_token (power_text m n) = (int (digits_value m), int (digits_value n))"
proof -
  obtain c m' where m: "m = c # m'" "is_digit_char c" using assms by (cases m) (auto simp: decimal_power_def)
  obtain d n' where n: "n = d # n'" "is_digit_char d" using assms by (cases n) (auto simp: decimal_power_def)
  have dm: "is_digit_char x" if "x \<in> set m" for x using assms that by (auto simp: decimal_power_def list_all_iff)
  have le: "lower_char (CHR ''e'') = CHR ''e''" by (simp add: lower_char_def char_nat_def)
  have "takeWhile (\<lambda>c. lower_char c \<noteq> CHR ''e'') (power_text m n) = m" "dropWhile (\<lambda>c. lower_char c \<noteq> CHR ''e'') (power_text m n) = CHR ''e'' # n"
    unfolding power_text_def using digit_facts(7,11) [OF dm] le
    by (auto simp: takeWhile_append2 dropWhile_append2)
  moreover have dot: "takeWhile (\<lambda>c. c \<noteq> CHR ''.'') m = m" "dropWhile (\<lambda>c. c \<noteq> CHR ''.'') m = []"
    using digit_facts(3) [OF dm] by (auto simp: takeWhile_eq_all_conv dropWhile_eq_Nil_conv)
  moreover have "signed_digits m = int (digits_value m)" "signed_digits n = int (digits_value n)"
    using digit_facts(8,9) [OF m(2)] digit_facts(8,9) [OF n(2)] by (simp_all add: signed_digits_def m(1) n(1))
  ultimately show ?thesis unfolding decimal_token_def Let_def by (simp only: dot list.size drop.simps append_Nil2 drop_Suc_Cons drop_0) simp
qed

lemma power_number:
  assumes "decimal_power m n" "power_exponent m n > 999999"
  shows "token_number (1, 0) (power_text m n) = (if power_exponent m n > decimal_limit then Inr None else Inl DecimalOverflow)"
proof -
  have m: "digits_value m \<noteq> 0" "decimal_digits (int (digits_value m)) \<le> 28" using assms(1) by (simp_all add: decimal_power_def)
  have "\<not> int (digits_value n) < - decimal_limit - 999999999999999998" by (simp add: decimal_limit_def)
  then show ?thesis
    using m assms(2) by (simp add: token_number_def decimal_of_def power_token [OF assms(1)] power_exponent_def decimal_mult_def decimal_round_def)
qed

end
