(* ===== verification/Pressure_Semantics.thy ===== *)
theory Pressure_Semantics
  imports Number_Text
begin

text \<open>
  Pressure semantics (\<open>api/services/pressure_semantics.py\<close>, shared with the ingestion side):
  reading a reported pressure, classifying the evidence of a record, and matching a bound.
\<close>

section \<open>Ambient phrases\<close>

definition AMBIENT :: "string pat" where
  "AMBIENT = p_alt
     (p_seq (p_opt (p_seq (p_word ''at'') (p_some is_space)))
        (p_seq (p_alt (p_word ''ambient'') (p_word ''atmospheric'')) (p_opt (p_seq (p_some is_space) (p_word ''pressure'')))))
     (p_alt (p_seq (p_word ''zero'') (p_seq (p_some is_space) (p_word ''pressure'')))
        (p_seq (p_word ''p'') (p_seq (p_many is_space) (p_seq (p_lit ''='') (p_seq (p_many is_space) (p_seq (p_lit ''0'')
           (p_seq (p_opt (p_seq (p_lit ''.'') (p_some (\<lambda>c. c = CHR ''0'')))) (p_opt (p_seq (p_many is_space) (p_word ''gpa''))))))))))"

definition is_ambient_text :: "string \<Rightarrow> bool" where
  "is_ambient_text s \<longleftrightarrow> fullmatch AMBIENT s \<noteq> None"

section \<open>Reading a pressure\<close>

definition FACTORS :: "(string \<times> int \<times> int) list" where
  "FACTORS = [(''GPa'', 1, 0), (''gpa'', 1, 0), (''MPa'', 1, -3), (''kPa'', 1, -6), (''Pa'', 1, -9), (''bar'', 1, -4),
     (''kbar'', 1, -1), (''atm'', 101325, -9)]"

record parsed_pressure =
  pp_relation :: string
  pp_value :: "pyfloat option"
  pp_lower :: "pyfloat option"
  pp_upper :: "pyfloat option"
  pp_uncertainty :: "pyfloat option"
  pp_approximate :: bool
  pp_unit :: pyval
  pp_unit_basis :: string
  pp_error :: "string option"
  pp_ambient_phrase :: bool

definition unparsed :: "pyval \<Rightarrow> parsed_pressure" where
  "unparsed u = \<lparr>pp_relation = ''unreported'', pp_value = None, pp_lower = None, pp_upper = None, pp_uncertainty = None,
     pp_approximate = False, pp_unit = u, pp_unit_basis = ''unreported'', pp_error = None, pp_ambient_phrase = False\<rparr>"

definition parse_failed :: "parsed_pressure \<Rightarrow> string \<Rightarrow> (py_error, parsed_pressure) res" where
  "parse_failed p e = Inr (p\<lparr>pp_error := Some e\<rparr>)"

text \<open>Two exact endpoints form an interval.\<close>

definition plain_endpoint :: "parsed_pressure \<Rightarrow> bool" where
  "plain_endpoint e \<longleftrightarrow> pp_error e = None \<and> pp_relation e = ''exact'' \<and> pp_uncertainty e = None \<and> \<not> pp_approximate e"

definition parse_endpoints :: "pyval \<Rightarrow> parsed_pressure \<Rightarrow> parsed_pressure \<Rightarrow> (py_error, parsed_pressure) res" where
  "parse_endpoints u a b =
     (if \<not> (plain_endpoint a \<and> plain_endpoint b) then parse_failed (unparsed u) ''invalid_pressure_interval_endpoints''
      else case (pp_value a, pp_value b) of
             (Some x, Some y) \<Rightarrow>
               if float_less y x then parse_failed (unparsed u) ''reversed_or_missing_pressure_interval''
               else Inr (unparsed u \<lparr>pp_relation := ''interval'', pp_lower := Some x, pp_upper := Some y, pp_unit_basis := ''endpoint_units''\<rparr>)
           | _ \<Rightarrow> parse_failed (unparsed u) ''reversed_or_missing_pressure_interval'')"

definition tokens_of :: "string \<Rightarrow> number_tokens option" where
  "tokens_of = tokens_with POINT"

definition numbers_parsed ::
  "parsed_pressure \<Rightarrow> pyval \<Rightarrow> string \<Rightarrow> string \<Rightarrow> string \<Rightarrow> pyfloat option \<Rightarrow> pyfloat option \<Rightarrow> pyfloat option \<Rightarrow> pyfloat option \<Rightarrow> (py_error, parsed_pressure) res" where
  "numbers_parsed p raw_unit unit inline rel v l h d =
     (if \<not> list_all finite_or_absent [v, l, h, d] then parse_failed p ''nonfinite_pressure''
      else if below d (Some (Finite 0)) then parse_failed p ''negative_pressure_uncertainty''
      else if rel = ''interval'' \<and> below h l then parse_failed p ''reversed_pressure_interval''
      else Inr (p\<lparr>pp_value := v, pp_lower := l, pp_upper := h, pp_uncertainty := d, pp_relation := rel,
             pp_unit := (if raw_unit \<noteq> PNone then raw_unit else if inline \<noteq> [] then PStr inline else PNone),
             pp_unit_basis := (if unit \<noteq> [] then ''explicit'' else ''field_schema_assumption'')\<rparr>))"

definition parse_numbers :: "text_env \<Rightarrow> parsed_pressure \<Rightarrow> pyval \<Rightarrow> number_tokens \<Rightarrow> (py_error, parsed_pressure) res" where
  "parse_numbers env p raw_unit tk =
     rbind (if raw_unit = PNone then Inr [] else rbind (text_of env raw_unit) (\<lambda>t. Inr (py_strip t))) (\<lambda>unit0.
       let inline = py_strip (pt_unit tk);
           unit = (if inline \<noteq> [] then inline else unit0)
       in if inline \<noteq> [] \<and> unit0 \<noteq> [] \<and>
             (map_of FACTORS inline = None \<or> map_of FACTORS unit0 = None \<or> map_of FACTORS inline \<noteq> map_of FACTORS unit0)
          then parse_failed p ''conflicting_pressure_units''
          else if unit \<noteq> [] \<and> map_of FACTORS unit = None then parse_failed p ''pressure_unit_mismatch''
          else rbind (token_numbers (case map_of FACTORS unit of None \<Rightarrow> (1, 0) | Some f \<Rightarrow> f)
                        [pt_value tk, pt_lower tk, pt_upper tk, pt_uncertainty tk]) (\<lambda>r.
                 case r of
                   Some [v, l, h, d] \<Rightarrow> numbers_parsed p raw_unit unit inline (pt_relation tk) v l h d
                 | _ \<Rightarrow> parse_failed p ''nonfinite_pressure''))"

definition parse_text :: "text_env \<Rightarrow> pyval \<Rightarrow> string \<Rightarrow> (py_error, parsed_pressure) res" where
  "parse_text env raw_unit raw_text =
     (let text0 = py_strip raw_text; p = unparsed raw_unit
      in if is_ambient_text text0 then
           rbind (if raw_unit = PNone then Inr True else rbind (text_of env raw_unit) (\<lambda>t. Inr (map_of FACTORS (py_strip t) \<noteq> None)))
             (\<lambda>ok. if \<not> ok then parse_failed p ''pressure_unit_mismatch''
               else Inr (p\<lparr>pp_relation := ''exact'', pp_value := Some (Finite 0), pp_unit_basis := ''explicit_ambient_reference'',
                      pp_ambient_phrase := True\<rparr>))
         else
           let (p', t) = (case APPROX text0 of [] \<Rightarrow> (p, text0) | (_, rest) # _ \<Rightarrow> (p\<lparr>pp_approximate := True\<rparr>, py_strip rest))
           in case tokens_of t of
                None \<Rightarrow> parse_failed p' ''unparseable_pressure''
              | Some tk \<Rightarrow> parse_numbers env p' raw_unit tk)"

fun parse :: "text_env \<Rightarrow> pyval \<Rightarrow> pyval \<Rightarrow> (py_error, parsed_pressure) res" where
  "parse env u PNone = Inr (unparsed u)"
| "parse env u (PBool b) = parse_failed (unparsed u) ''boolean_not_pressure''"
| "parse env u (PList [a, b]) = rbind (parse env u a) (\<lambda>x. rbind (parse env u b) (\<lambda>y. parse_endpoints u x y))"
| "parse env u (PTuple [a, b]) = rbind (parse env u a) (\<lambda>x. rbind (parse env u b) (\<lambda>y. parse_endpoints u x y))"
| "parse env u (PList xs) = parse_failed (unparsed u) ''unsupported_pressure_sequence''"
| "parse env u (PTuple xs) = parse_failed (unparsed u) ''unsupported_pressure_sequence''"
| "parse env u (PDict d) = parse_failed (unparsed u) ''unsupported_pressure_type''"
| "parse env u (POpaque n) = parse_failed (unparsed u) ''unsupported_pressure_type''"
| "parse env u (PStr s) = (if s = [] then Inr (unparsed u) else parse_text env u s)"
| "parse env u raw = rbind (text_of env raw) (parse_text env u)"


section \<open>Classifying a record\<close>

record pressure_assessment =
  pa_state :: string
  pa_gpa :: "pyfloat option"
  pa_relation :: string
  pa_lower :: "pyfloat option"
  pa_upper :: "pyfloat option"
  pa_uncertainty :: "pyfloat option"
  pa_uncertainty_interpretation :: "string option"
  pa_raw_value :: pyval
  pa_raw_unit :: pyval
  pa_unit_basis :: string
  pa_approximate :: bool
  pa_source_locator :: pyval
  pa_reasons :: "string list"

definition quantity_source :: "pyval \<Rightarrow> pyval \<times> pyval \<times> pyval \<times> string option" where
  "quantity_source r =
     (let vs = pget r ''scientific_values''; proposal = pget vs ''pressure_gpa''
      in if is_mapping vs \<and> phas vs ''pressure_gpa'' \<and> \<not> (is_mapping proposal \<and> phas proposal ''raw_value'')
         then (proposal,
               (if is_mapping proposal then get_or proposal ''input_unit'' (pget proposal ''raw_unit'') else PNone),
               (if is_mapping proposal then pget proposal ''source_locator'' else PNone),
               Some ''missing_raw_proposal'')
         else if is_mapping vs \<and> is_mapping proposal \<and> phas proposal ''raw_value''
         then (pget proposal ''raw_value'', get_or proposal ''input_unit'' (pget proposal ''raw_unit''), pget proposal ''source_locator'', None)
         else if pget r ''pressure_gpa'' \<noteq> PNone
         then (pget r ''pressure_gpa'', get_or r ''pressure_gpa_unit'' (pget r ''pressure_unit''), pget r ''source_locator'', None)
         else (pget r ''pressure'', get_or r ''pressure_unit'' (pget r ''pressure_unit''), pget r ''source_locator'', None))"

text \<open>The original structured proposal of a specialised row takes the place of the record.\<close>

definition evidence_record :: "pyval \<Rightarrow> pyval" where
  "evidence_record r =
     (let proposal = (if is_mapping (pget r ''provenance'') then pget (pget r ''provenance'') ''extraction_proposal'' else PNone)
      in if is_mapping proposal \<and> is_mapping (pget proposal ''raw_extraction'')
         then pput (pget proposal ''raw_extraction'') ''scientific_values'' (get_or proposal ''scientific_values'' (PDict []))
         else r)"

definition STATES :: "string list" where
  "STATES = [''explicit_ambient'', ''reported'', ''not_reported'', ''ambiguous'']"

definition negative :: "pyfloat option \<Rightarrow> bool" where
  "negative x = below x (Some (Finite 0))"

text \<open>
  The main decision: the state, its reason, and whether an ambient condition supplies the
  missing number.
\<close>

definition base_state :: "parsed_pressure \<Rightarrow> string \<Rightarrow> bool \<Rightarrow> string \<times> string list \<times> bool" where
  "base_state p claim ambient =
     (case pp_error p of
        Some e \<Rightarrow> (''ambiguous'', [e], False)
      | None \<Rightarrow>
          if pp_relation p = ''unreported'' then
            (if ambient then (''explicit_ambient'', [''explicit_pressure_condition''], True)
             else if claim \<in> {''explicit_ambient'', ''reported'', ''ambiguous''} then
               (''ambiguous'', [if claim = ''explicit_ambient'' then ''explicit_ambient_missing_numeric_pressure''
                                else if claim = ''reported'' then ''reported_pressure_missing_value''
                                else ''declared_ambiguous_pressure''], False)
             else (''not_reported'', [''pressure_not_reported''], False))
          else if negative (pp_value p) \<or> negative (pp_lower p) \<or> negative (pp_upper p) then
            (''ambiguous'', [''unsupported_negative_pressure''], False)
          else if pp_ambient_phrase p then (''explicit_ambient'', [''explicit_ambient_phrase''], False)
          else if pp_relation p = ''exact'' \<and> pp_value p = Some (Finite 0) then
            (if (ambient \<or> claim = ''explicit_ambient'') \<and> \<not> pp_approximate p \<and> pp_uncertainty p = None
             then (''explicit_ambient'', [''explicit_ambient_zero_assertion''], False)
             else (''ambiguous'', [''legacy_zero_pressure_not_explicitly_ambient''], False))
          else if ambient \<or> claim = ''explicit_ambient'' then
            (''ambiguous'', [''ambient_assertion_conflicts_with_pressure''], False)
          else (''reported'', [], False))"

definition ambient_reference :: "parsed_pressure \<Rightarrow> parsed_pressure" where
  "ambient_reference p = p\<lparr>pp_relation := ''exact'', pp_value := Some (Finite 0), pp_unit_basis := ''explicit_ambient_reference''\<rparr>"

text \<open>The declared state can only make the result ambiguous; the remaining reasons are notes.\<close>

definition final_state :: "string \<Rightarrow> string \<Rightarrow> parsed_pressure \<Rightarrow> string" where
  "final_state st claim p =
     (if claim \<in> {''not_reported'', ''ambiguous''} \<and> pp_relation p \<noteq> ''unreported'' \<or> claim \<noteq> [] \<and> claim \<notin> set STATES
      then ''ambiguous'' else st)"

definition added_reasons :: "string \<Rightarrow> parsed_pressure \<Rightarrow> string list" where
  "added_reasons claim p =
     (if claim \<in> {''not_reported'', ''ambiguous''} \<and> pp_relation p \<noteq> ''unreported''
      then [if claim = ''not_reported'' then ''pressure_state_conflicts_with_value'' else ''declared_ambiguous_pressure''] else []) @
     (if claim \<noteq> [] \<and> claim \<notin> set STATES then [''unknown_pressure_state''] else []) @
     (if pp_unit_basis p = ''field_schema_assumption'' then [''legacy_field_unit_assumed_gpa''] else []) @
     (if pp_uncertainty p \<noteq> None then [''reported_uncertainty_interpretation_unspecified''] else []) @
     (if pp_approximate p then [''approximate_pressure''] else [])"

text \<open>\<open>dict.fromkeys\<close>: first occurrences, in order.\<close>

definition from_keys :: "'a list \<Rightarrow> 'a list" where
  "from_keys xs = foldl (\<lambda>acc x. if x \<in> set acc then acc else acc @ [x]) [] xs"

definition state_claim :: "text_env \<Rightarrow> pyval \<Rightarrow> (py_error, string) res" where
  "state_claim env r =
     (if truthy (pget r ''pressure_state'')
      then rbind (text_of env (pget r ''pressure_state'')) (\<lambda>t. Inr (py_lower (py_strip t))) else Inr [])"

definition condition_ambient :: "pyval \<Rightarrow> bool" where
  "condition_ambient r = (case pget r ''pressure_condition'' of PStr s \<Rightarrow> is_ambient_text (py_strip s) | _ \<Rightarrow> False)"

definition assessment_from ::
  "text_env \<Rightarrow> pyval \<Rightarrow> pyval \<Rightarrow> string \<Rightarrow> bool \<Rightarrow> parsed_pressure \<Rightarrow> pressure_assessment" where
  "assessment_from env raw locator claim ambient p0 =
     (let (st, rs, supplied) = base_state p0 claim ambient;
          p = (if supplied then ambient_reference p0 else p0)
      in \<lparr>pa_state = final_state st claim p, pa_gpa = pp_value p, pa_relation = pp_relation p, pa_lower = pp_lower p,
          pa_upper = pp_upper p, pa_uncertainty = pp_uncertainty p,
          pa_uncertainty_interpretation = (if pp_uncertainty p \<noteq> None then Some ''unspecified'' else None),
          pa_raw_value = raw_json env raw, pa_raw_unit = raw_json env (pp_unit p), pa_unit_basis = pp_unit_basis p,
          pa_approximate = pp_approximate p,
          pa_source_locator = raw_json env (if truthy locator then locator else PDict []),
          pa_reasons = from_keys (rs @ added_reasons claim p)\<rparr>)"

definition classify_pressure :: "text_env \<Rightarrow> pyval \<Rightarrow> (py_error, pressure_assessment) res" where
  "classify_pressure env record0 =
     (let r = evidence_record record0; (raw, raw_unit, locator, source_error) = quantity_source r
      in rbind (case source_error of
                  Some e \<Rightarrow> parse_failed (unparsed raw_unit) e
                | None \<Rightarrow> parse env raw_unit raw) (\<lambda>p.
         rbind (state_claim env r) (\<lambda>claim. Inr (assessment_from env raw locator claim (condition_ambient r) p))))"


section \<open>Matching a bound\<close>

text \<open>
  A bound as given: nothing, a finite number, or a value that is refused. \<open>math.isfinite\<close>
  converts an integer to a float first.
\<close>

fun bound_of :: "pyval \<Rightarrow> (py_error, rat option) res" where
  "bound_of PNone = Inr None"
| "bound_of (PInt i) = (if float_of_int i = None then Inl IntOverflow else Inr (Some (of_int i)))"
| "bound_of (PFloat (Finite q)) = Inr (Some q)"
| "bound_of v = Inl (ValueError ''Pressure bounds must be finite numeric values'')"

text \<open>Float addition: exact sum, rounded.\<close>

fun float_add :: "pyfloat \<Rightarrow> pyfloat \<Rightarrow> pyfloat" where
  "float_add (Finite a) (Finite b) = round64 (a + b)"
| "float_add NaN y = NaN"
| "float_add x NaN = NaN"
| "float_add PosInf NegInf = NaN"
| "float_add NegInf PosInf = NaN"
| "float_add PosInf y = PosInf"
| "float_add NegInf y = NegInf"
| "float_add x PosInf = PosInf"
| "float_add x NegInf = NegInf"

fun float_minus :: "pyfloat \<Rightarrow> pyfloat" where
  "float_minus (Finite a) = Finite (- a)"
| "float_minus PosInf = NegInf"
| "float_minus NegInf = PosInf"
| "float_minus NaN = NaN"

text \<open>The reported extent: a point with its spread, or the bounds of an interval.\<close>

definition pressure_extent :: "pressure_assessment \<Rightarrow> pyfloat option \<times> pyfloat option" where
  "pressure_extent a =
     (case pa_gpa a of
        None \<Rightarrow> (pa_lower a, pa_upper a)
      | Some v \<Rightarrow> let spread = (case pa_uncertainty a of None \<Rightarrow> Finite 0 | Some d \<Rightarrow> d)
                  in (Some (float_add v (float_minus spread)), Some (float_add v spread)))"

definition pressure_matches ::
  "pressure_assessment \<Rightarrow> pyval \<Rightarrow> pyval \<Rightarrow> bool \<Rightarrow> bool \<Rightarrow> (py_error, bool) res" where
  "pressure_matches a max_gpa min_gpa ambient_only include_unknown =
     rbind (bound_of max_gpa) (\<lambda>hi. rbind (bound_of min_gpa) (\<lambda>lo.
       if (case (lo, hi) of (Some l, Some h) \<Rightarrow> l > h | _ \<Rightarrow> False) then Inl (ValueError ''min_gpa must not exceed max_gpa'')
       else if hi = None \<and> lo = None \<and> \<not> ambient_only then Inr True
       else if ''unsupported_negative_pressure'' \<in> set (pa_reasons a) then Inr False
       else if pa_state a \<in> {''not_reported'', ''ambiguous''} then Inr include_unknown
       else if ambient_only \<and> pa_state a \<noteq> ''explicit_ambient'' then Inr False
       else if hi = None \<and> lo = None then Inr True
       else if pa_approximate a \<and> pa_uncertainty a = None then Inr False
       else let (lower, upper) = pressure_extent a
            in Inr ((case hi of None \<Rightarrow> True | Some h \<Rightarrow> (case upper of None \<Rightarrow> False | Some u \<Rightarrow> \<not> float_less (Finite h) u)) \<and>
                    (case lo of None \<Rightarrow> True | Some l \<Rightarrow> (case lower of None \<Rightarrow> False | Some w \<Rightarrow> \<not> float_less w (Finite l))))))"

section \<open>Annotation\<close>

definition opt_float :: "pyfloat option \<Rightarrow> pyval" where
  "opt_float x = (case x of None \<Rightarrow> PNone | Some f \<Rightarrow> PFloat f)"

definition assessment_dict :: "string \<Rightarrow> pressure_assessment \<Rightarrow> pyval" where
  "assessment_dict version a = PDict
     [(PStr ''pressure_state'', PStr (pa_state a)), (PStr ''pressure_gpa'', opt_float (pa_gpa a)),
      (PStr ''relation'', PStr (pa_relation a)), (PStr ''value_lower_gpa'', opt_float (pa_lower a)),
      (PStr ''value_upper_gpa'', opt_float (pa_upper a)), (PStr ''uncertainty_gpa'', opt_float (pa_uncertainty a)),
      (PStr ''uncertainty_interpretation'', (case pa_uncertainty_interpretation a of None \<Rightarrow> PNone | Some t \<Rightarrow> PStr t)),
      (PStr ''raw_value'', pa_raw_value a), (PStr ''raw_unit'', pa_raw_unit a), (PStr ''unit_basis'', PStr (pa_unit_basis a)),
      (PStr ''approximate'', PBool (pa_approximate a)), (PStr ''source_locator'', pa_source_locator a),
      (PStr ''reasons'', PList (map PStr (pa_reasons a))), (PStr ''classifier_version'', PStr version)]"

definition PRESSURE_POLICY_VERSION :: string where
  "PRESSURE_POLICY_VERSION = ''pressure-policy/1.0.0''"

definition annotate_pressure_records :: "text_env \<Rightarrow> pyval list \<Rightarrow> (py_error, pyval list) res" where
  "annotate_pressure_records env rs =
     rmapM (\<lambda>r. if is_mapping r
        then rbind (classify_pressure env r) (\<lambda>a. Inr (pput r ''pressure_semantics'' (assessment_dict PRESSURE_POLICY_VERSION a)))
        else Inr r) rs"

section \<open>What a reading can be\<close>

text \<open>
  Numbers of a successful reading are finite; its relation says which of them are there; a
  spread is not negative and an interval is not reversed.
\<close>

definition good_reading :: "parsed_pressure \<Rightarrow> bool" where
  "good_reading p \<longleftrightarrow>
     list_all finite_or_absent [pp_value p, pp_lower p, pp_upper p, pp_uncertainty p] \<and>
     \<not> negative (pp_uncertainty p) \<and>
     (pp_error p \<noteq> None \<or> pp_relation p = ''unreported'' \<longrightarrow>
        pp_relation p = ''unreported'' \<and> pp_value p = None \<and> pp_lower p = None \<and> pp_upper p = None \<and> pp_uncertainty p = None) \<and>
     (pp_error p = None \<and> pp_relation p = ''unreported'' \<longrightarrow> \<not> pp_approximate p) \<and>
     (pp_error p = None \<and> pp_relation p = ''exact'' \<longrightarrow> pp_value p \<noteq> None \<and> pp_lower p = None \<and> pp_upper p = None) \<and>
     (pp_error p = None \<and> pp_relation p = ''interval'' \<longrightarrow>
        pp_value p = None \<and> pp_uncertainty p = None \<and> pp_lower p \<noteq> None \<and> pp_upper p \<noteq> None \<and> \<not> below (pp_upper p) (pp_lower p)) \<and>
     (pp_ambient_phrase p \<longrightarrow> pp_error p = None \<and> pp_value p = Some (Finite 0) \<and> pp_relation p = ''exact'' \<and>
        pp_uncertainty p = None \<and> \<not> pp_approximate p)"

lemma unparsed_simps [simp]:
  "pp_relation (unparsed u) = ''unreported''" "pp_value (unparsed u) = None" "pp_lower (unparsed u) = None"
  "pp_upper (unparsed u) = None" "pp_uncertainty (unparsed u) = None" "pp_approximate (unparsed u) = False"
  "pp_error (unparsed u) = None" "pp_ambient_phrase (unparsed u) = False"
  by (simp_all add: unparsed_def)

lemma good_unparsed: "good_reading (unparsed u)"
  by (simp add: good_reading_def negative_def below_def)

definition blank :: "parsed_pressure \<Rightarrow> bool" where
  "blank p \<longleftrightarrow> pp_relation p = ''unreported'' \<and> pp_value p = None \<and> pp_lower p = None \<and> pp_upper p = None \<and>
     pp_uncertainty p = None \<and> \<not> pp_ambient_phrase p \<and> pp_error p = None"

lemma good_failed: "blank p \<Longrightarrow> parse_failed p e = Inr q \<Longrightarrow> good_reading q"
  by (auto simp: blank_def parse_failed_def good_reading_def negative_def below_def)

lemma blank_unparsed [simp]: "blank (unparsed u)" "blank (unparsed u\<lparr>pp_approximate := b\<rparr>)"
  by (simp_all add: blank_def)


lemma good_numbers:
  assumes "blank p" and "numbers_parsed p u un inl rel v l h d = Inr q"
    and shape: "(rel = ''exact'' \<and> v \<noteq> None \<and> l = None \<and> h = None) \<or>
      (rel = ''interval'' \<and> v = None \<and> d = None \<and> l \<noteq> None \<and> h \<noteq> None) \<or>
      (rel \<notin> {''exact'', ''interval'', ''unreported''} \<and> v = None \<and> d = None)"
  shows "good_reading q"
proof (cases "\<not> list_all finite_or_absent [v, l, h, d] \<or> below d (Some (Finite 0)) \<or> rel = ''interval'' \<and> below h l")
  case True
  then show ?thesis using assms(2) good_failed [OF assms(1)] unfolding numbers_parsed_def by (auto split: if_splits)
next
  case False
  then have fin: "list_all finite_or_absent [v, l, h, d]" "\<not> below d (Some (Finite 0))" "rel = ''interval'' \<longrightarrow> \<not> below h l"
    by simp_all
  have q: "pp_value q = v" "pp_lower q = l" "pp_upper q = h" "pp_uncertainty q = d" "pp_relation q = rel" "pp_error q = None"
      "\<not> pp_ambient_phrase q"
    using assms(1,2) False by (auto simp: numbers_parsed_def blank_def)
  show ?thesis unfolding good_reading_def q(1-6) negative_def using q(7) fin shape by (elim disjE) simp_all
qed

lemma good_parse_numbers:
  assumes "blank p" "parse_numbers env p u tk = Inr q" "tokens_of t = Some tk"
  shows "good_reading q"
proof -
  obtain u0 where "(if u = PNone then Inr [] else rbind (text_of env u) (\<lambda>t. Inr (py_strip t))) = Inr u0"
    using assms(2) unfolding parse_numbers_def by (auto simp: rbind_Inr_iff)
  note unit = this
  define inl where "inl = py_strip (pt_unit tk)"
  define un where "un = (if inl \<noteq> [] then inl else u0)"
  define f where "f = (case map_of FACTORS un of None \<Rightarrow> (1, 0) | Some f \<Rightarrow> f)"
  have eq: "(if inl \<noteq> [] \<and> u0 \<noteq> [] \<and>
             (map_of FACTORS inl = None \<or> map_of FACTORS u0 = None \<or> map_of FACTORS inl \<noteq> map_of FACTORS u0)
          then parse_failed p ''conflicting_pressure_units''
          else if un \<noteq> [] \<and> map_of FACTORS un = None then parse_failed p ''pressure_unit_mismatch''
          else rbind (token_numbers f [pt_value tk, pt_lower tk, pt_upper tk, pt_uncertainty tk]) (\<lambda>r.
                 case r of
                   Some [v, l, h, d] \<Rightarrow> numbers_parsed p u un inl (pt_relation tk) v l h d
                 | _ \<Rightarrow> parse_failed p ''nonfinite_pressure'')) = Inr q"
    using assms(2) unfolding parse_numbers_def unit rbind_simps Let_def inl_def [symmetric] un_def [symmetric] f_def [symmetric] .
  then consider e where "parse_failed p e = Inr q"
    | r where "token_numbers f [pt_value tk, pt_lower tk, pt_upper tk, pt_uncertainty tk] = Inr r"
        "(case r of Some [v, l, h, d] \<Rightarrow> numbers_parsed p u un inl (pt_relation tk) v l h d
          | _ \<Rightarrow> parse_failed p ''nonfinite_pressure'') = Inr q"
    by (simp only: split: if_splits) (auto simp only: rbind_Inr_iff)
  then show ?thesis
  proof cases
    case 1
    then show ?thesis by (rule good_failed [OF assms(1)])
  next
    case (2 r)
    show ?thesis
    proof (cases r)
      case None
      then show ?thesis using 2(2) good_failed [OF assms(1)] by simp
    next
      case (Some xs)
      then have "list_all2 (\<lambda>t x. t = None \<longleftrightarrow> x = None) [pt_value tk, pt_lower tk, pt_upper tk, pt_uncertainty tk] xs"
        using token_numbers_presence 2(1) by blast
      then obtain v l h d where xs: "xs = [v, l, h, d]"
          and pres: "pt_value tk = None \<longleftrightarrow> v = None" "pt_lower tk = None \<longleftrightarrow> l = None" "pt_upper tk = None \<longleftrightarrow> h = None"
            "pt_uncertainty tk = None \<longleftrightarrow> d = None"
        by (auto simp: list_all2_Cons1)
      show ?thesis
        by (rule good_numbers [OF assms(1)]) (use 2(2) Some xs tokens_shape [OF assms(3) [unfolded tokens_of_def]] pres in simp_all)
    qed
  qed
qed

lemma good_parse_text:
  assumes "parse_text env u t = Inr q"
  shows "good_reading q"
proof (cases "is_ambient_text (py_strip t)")
  case True
  then obtain ok where "(if \<not> ok then parse_failed (unparsed u) ''pressure_unit_mismatch''
      else Inr (unparsed u\<lparr>pp_relation := ''exact'', pp_value := Some (Finite 0), pp_unit_basis := ''explicit_ambient_reference'',
                      pp_ambient_phrase := True\<rparr>)) = Inr q"
    using assms unfolding parse_text_def Let_def by (auto simp: rbind_Inr_iff)
  then show ?thesis
    using good_failed [OF blank_unparsed(1)] by (cases ok) (auto simp: good_reading_def negative_def below_def)
next
  case False
  define pr where "pr = (case APPROX (py_strip t) of [] \<Rightarrow> (unparsed u, py_strip t)
      | (_, rest) # _ \<Rightarrow> (unparsed u\<lparr>pp_approximate := True\<rparr>, py_strip rest))"
  have blank: "blank (fst pr)" by (simp add: pr_def split: list.splits prod.splits)
  have eq: "(case tokens_of (snd pr) of None \<Rightarrow> parse_failed (fst pr) ''unparseable_pressure'' | Some tk \<Rightarrow> parse_numbers env (fst pr) u tk) = Inr q"
    using assms False unfolding parse_text_def Let_def pr_def [symmetric] by (simp add: case_prod_unfold)
  show ?thesis
  proof (cases "tokens_of (snd pr)")
    case None
    then show ?thesis using eq good_failed [OF blank] by simp
  next
    case (Some tk)
    then show ?thesis using eq good_parse_numbers [OF blank _ Some] by simp
  qed
qed

lemma good_reading_exact:
  "good_reading p \<Longrightarrow> pp_error p = None \<Longrightarrow> pp_relation p = ''exact'' \<Longrightarrow> pp_value p \<noteq> None \<and> pp_lower p = None \<and> pp_upper p = None"
  by (simp add: good_reading_def)

lemma good_reading_finite:
  "good_reading p \<Longrightarrow> finite_or_absent (pp_value p) \<and> finite_or_absent (pp_lower p) \<and> finite_or_absent (pp_upper p) \<and> finite_or_absent (pp_uncertainty p)"
  unfolding good_reading_def by (elim conjE) simp

lemma good_endpoints:
  assumes "good_reading a" "good_reading b" "parse_endpoints u a b = Inr q"
  shows "good_reading q"
proof (cases "plain_endpoint a \<and> plain_endpoint b")
  case False
  then show ?thesis using assms(3) good_failed [OF blank_unparsed(1)] by (simp add: parse_endpoints_def)
next
  case True
  then have "pp_value a \<noteq> None" "pp_value b \<noteq> None"
    using good_reading_exact [OF assms(1)] good_reading_exact [OF assms(2)] by (simp_all add: plain_endpoint_def)
  then obtain x y where xy: "pp_value a = Some x" "pp_value b = Some y" by blast
  have fin: "finite_or_absent (Some x)" "finite_or_absent (Some y)"
    using good_reading_finite [OF assms(1)] good_reading_finite [OF assms(2)] xy by simp_all
  show ?thesis
  proof (cases "float_less y x")
    case True
    then show ?thesis using assms(3) \<open>plain_endpoint a \<and> plain_endpoint b\<close> xy good_failed [OF blank_unparsed(1)] by (simp add: parse_endpoints_def)
  next
    case False
    then have "q = unparsed u \<lparr>pp_relation := ''interval'', pp_lower := Some x, pp_upper := Some y, pp_unit_basis := ''endpoint_units''\<rparr>"
      using assms(3) True xy by (simp add: parse_endpoints_def)
    then show ?thesis using False fin by (simp add: good_reading_def negative_def below_def)
  qed
qed

lemma good_parse: "parse env u raw = Inr q \<Longrightarrow> good_reading q"
proof (induction env u raw arbitrary: q rule: parse.induct)
  case (3 env u a b)
  from "3.prems" obtain x y where xy: "parse env u a = Inr x" "parse env u b = Inr y" and q: "parse_endpoints u x y = Inr q"
    by (simp only: parse.simps rbind_Inr_iff) blast
  from q show ?case by (rule good_endpoints [OF "3.IH"(1) [OF xy(1)] "3.IH"(2) [OF xy(2)]])
next
  case (4 env u a b)
  from "4.prems" obtain x y where xy: "parse env u a = Inr x" "parse env u b = Inr y" and q: "parse_endpoints u x y = Inr q"
    by (simp only: parse.simps rbind_Inr_iff) blast
  from q show ?case by (rule good_endpoints [OF "4.IH"(1) [OF xy(1)] "4.IH"(2) [OF xy(2)]])
qed (auto simp: rbind_Inr_iff good_unparsed split: if_splits intro: good_parse_text good_failed [OF blank_unparsed(1)])


section \<open>What a state says\<close>

lemma set_from_keys: "set (from_keys xs) = set xs"
proof -
  have "set (foldl (\<lambda>acc x. if x \<in> set acc then acc else acc @ [x]) ys xs) = set ys \<union> set xs" for ys
    by (induction xs arbitrary: ys) auto
  then show ?thesis by (simp add: from_keys_def)
qed

lemma base_ambient:
  "base_state p c amb = (''explicit_ambient'', rs, spl) \<Longrightarrow> pp_error p = None \<and>
     (spl \<and> amb \<and> pp_relation p = ''unreported'' \<and> rs = [''explicit_pressure_condition''] \<or>
      \<not> spl \<and> pp_ambient_phrase p \<and> rs = [''explicit_ambient_phrase''] \<or>
      \<not> spl \<and> pp_value p = Some (Finite 0) \<and> (amb \<or> c = ''explicit_ambient'') \<and> \<not> pp_approximate p \<and>
        pp_uncertainty p = None \<and> rs = [''explicit_ambient_zero_assertion''])"
  by (simp add: base_state_def split: option.splits if_splits)

lemma base_reported:
  "base_state p c amb = (''reported'', rs, spl) \<Longrightarrow> pp_error p = None \<and> \<not> spl \<and> pp_relation p \<noteq> ''unreported'' \<and>
     \<not> negative (pp_value p) \<and> \<not> negative (pp_lower p) \<and> \<not> negative (pp_upper p) \<and> \<not> amb \<and> c \<noteq> ''explicit_ambient'' \<and>
     \<not> (pp_relation p = ''exact'' \<and> pp_value p = Some (Finite 0))"
  by (simp add: base_state_def split: option.splits if_splits)

lemma base_not_reported:
  "base_state p c amb = (''not_reported'', rs, spl) \<Longrightarrow> pp_error p = None \<and> \<not> spl \<and> pp_relation p = ''unreported''"
  by (simp add: base_state_def split: option.splits if_splits)

lemma base_state_range:
  assumes "base_state p c amb = (st, rs, spl)"
  shows "st \<in> set STATES \<and> (st = ''ambiguous'' \<longrightarrow> rs \<noteq> []) \<and> (spl \<longrightarrow> st = ''explicit_ambient'')"
proof (cases "pp_error p")
  case None
  show ?thesis using assms unfolding base_state_def None option.case
    by (simp only: STATES_def prod.inject split: if_splits) auto
next
  case (Some e)
  then show ?thesis using assms by (auto simp: base_state_def STATES_def)
qed

lemma final_state_cases:
  "final_state st c p = st \<or> final_state st c p = ''ambiguous'' \<and> added_reasons c p \<noteq> []"
  by (simp add: final_state_def added_reasons_def)

lemma good_unreported:
  "good_reading p \<Longrightarrow> pp_relation p = ''unreported'' \<Longrightarrow> pp_error p = None \<Longrightarrow>
    pp_value p = None \<and> pp_lower p = None \<and> pp_upper p = None \<and> pp_uncertainty p = None \<and> \<not> pp_approximate p"
  by (simp add: good_reading_def)

lemma good_phrase:
  "good_reading p \<Longrightarrow> pp_ambient_phrase p \<Longrightarrow> pp_value p = Some (Finite 0) \<and> pp_uncertainty p = None \<and> \<not> pp_approximate p"
  by (simp add: good_reading_def)

lemma assessment_from_sound:
  assumes good: "good_reading p" and a: "a = assessment_from env raw loc c amb p"
  shows "pa_state a \<in> set STATES"
    and "pa_state a = ''explicit_ambient'' \<Longrightarrow> pa_gpa a = Some (Finite 0) \<and> pa_uncertainty a = None \<and> \<not> pa_approximate a \<and>
      (amb \<or> c = ''explicit_ambient'' \<or> pp_ambient_phrase p)"
    and "pa_state a = ''reported'' \<Longrightarrow> pa_relation a \<noteq> ''unreported'' \<and> \<not> negative (pa_gpa a) \<and> \<not> negative (pa_lower a) \<and>
      \<not> negative (pa_upper a) \<and> \<not> amb \<and> c \<noteq> ''explicit_ambient''"
    and "pa_state a = ''not_reported'' \<Longrightarrow> pa_gpa a = None \<and> pa_lower a = None \<and> pa_upper a = None \<and> pa_uncertainty a = None"
    and "pa_state a = ''ambiguous'' \<Longrightarrow> pa_reasons a \<noteq> []"
    and "list_all finite_or_absent [pa_gpa a, pa_lower a, pa_upper a, pa_uncertainty a]"
proof -
  obtain st rs spl where b: "base_state p c amb = (st, rs, spl)" by (cases "base_state p c amb")
  define q where "q = (if spl then ambient_reference p else p)"
  have fields: "pa_state a = final_state st c q" "pa_gpa a = pp_value q" "pa_relation a = pp_relation q" "pa_lower a = pp_lower q"
      "pa_upper a = pp_upper q" "pa_uncertainty a = pp_uncertainty q" "pa_approximate a = pp_approximate q"
      "pa_reasons a = from_keys (rs @ added_reasons c q)"
    by (simp_all add: a assessment_from_def b q_def [symmetric])
  have range: "st \<in> set STATES \<and> (st = ''ambiguous'' \<longrightarrow> rs \<noteq> []) \<and> (spl \<longrightarrow> st = ''explicit_ambient'')"
    by (rule base_state_range [OF b])
  have keep: "st = x" if "pa_state a = x" "x \<noteq> ''ambiguous''" for x
    using final_state_cases [of st c q] that unfolding fields(1) by auto
  show "pa_state a \<in> set STATES"
    using final_state_cases [of st c q] range unfolding fields(1) by (auto simp: STATES_def)
  show "pa_gpa a = Some (Finite 0) \<and> pa_uncertainty a = None \<and> \<not> pa_approximate a \<and>
      (amb \<or> c = ''explicit_ambient'' \<or> pp_ambient_phrase p)" if "pa_state a = ''explicit_ambient''"
  proof -
    have "st = ''explicit_ambient''" using keep [OF that] by simp
    with b have "base_state p c amb = (''explicit_ambient'', rs, spl)" by simp
    from base_ambient [OF this] show ?thesis unfolding fields q_def
      using good_unreported [OF good] good_phrase [OF good] by (elim conjE disjE) (simp_all add: ambient_reference_def)
  qed
  show "pa_relation a \<noteq> ''unreported'' \<and> \<not> negative (pa_gpa a) \<and> \<not> negative (pa_lower a) \<and>
      \<not> negative (pa_upper a) \<and> \<not> amb \<and> c \<noteq> ''explicit_ambient''" if "pa_state a = ''reported''"
  proof -
    have "st = ''reported''" using keep [OF that] by simp
    with b have "base_state p c amb = (''reported'', rs, spl)" by simp
    from base_reported [OF this] show ?thesis unfolding fields q_def by simp
  qed
  show "pa_gpa a = None \<and> pa_lower a = None \<and> pa_upper a = None \<and> pa_uncertainty a = None" if "pa_state a = ''not_reported''"
  proof -
    have "st = ''not_reported''" using keep [OF that] by simp
    with b have "base_state p c amb = (''not_reported'', rs, spl)" by simp
    from base_not_reported [OF this] show ?thesis unfolding fields q_def using good_unreported [OF good] by simp
  qed
  show "pa_reasons a \<noteq> []" if "pa_state a = ''ambiguous''"
  proof -
    have "rs @ added_reasons c q \<noteq> []"
      using final_state_cases [of st c q] range that unfolding fields(1) by auto
    then show ?thesis unfolding fields by (metis set_from_keys set_empty)
  qed
  show "list_all finite_or_absent [pa_gpa a, pa_lower a, pa_upper a, pa_uncertainty a]"
    unfolding fields q_def using good_reading_finite [OF good] by (simp add: ambient_reference_def)
qed

lemma classify_parts:
  assumes "classify_pressure env r = Inr a"
  obtains raw u loc se c p where "quantity_source (evidence_record r) = (raw, u, loc, se)"
    "(case se of Some e \<Rightarrow> parse_failed (unparsed u) e | None \<Rightarrow> parse env u raw) = Inr p" "state_claim env (evidence_record r) = Inr c"
    "a = assessment_from env raw loc c (condition_ambient (evidence_record r)) p" "good_reading p"
proof -
  obtain raw u loc se where src: "quantity_source (evidence_record r) = (raw, u, loc, se)" by (cases "quantity_source (evidence_record r)")
  obtain p c where p: "(case se of Some e \<Rightarrow> parse_failed (unparsed u) e | None \<Rightarrow> parse env u raw) = Inr p"
      and c: "state_claim env (evidence_record r) = Inr c" and a: "a = assessment_from env raw loc c (condition_ambient (evidence_record r)) p"
    using assms unfolding classify_pressure_def Let_def src by (auto simp: rbind_Inr_iff)
  have "good_reading p" using p good_parse good_failed [OF blank_unparsed(1)] by (cases se) auto
  then show thesis by (rule that [OF src p c a])
qed

lemma matches_ambient: "pressure_matches a hi lo True False = Inr True \<Longrightarrow> pa_state a = ''explicit_ambient''"
  unfolding pressure_matches_def by (auto simp: rbind_Inr_iff split: if_splits)

lemma matches_top:
  "pressure_matches a (PFloat (Finite h)) lo am False = Inr True \<Longrightarrow>
     \<exists>u. snd (pressure_extent a) = Some u \<and> \<not> float_less (Finite h) u"
  unfolding pressure_matches_def
  by (auto simp: rbind_Inr_iff case_prod_unfold Let_def split: if_splits option.splits)

text \<open>
  C18. What a pressure state says of the evidence. A record is ambient only on an explicit
  assertion (an ambient condition, an ambient phrase, or a declared ambient state), with the
  value exactly zero, no spread and no approximation; a bare zero never is. The value and the
  bounds of a reported pressure are non-negative (its spread may still reach below zero) and there
  is no ambient assertion, an unreported one has no number, an ambiguous one says why. All numbers are finite; a record passes an ambient filter only if
  it is explicitly ambient, and an upper bound only if its whole extent lies below.
\<close>

theorem pressure_state_sound:
  assumes "classify_pressure env r = Inr a"
  shows "pa_state a \<in> set STATES \<and> list_all finite_or_absent [pa_gpa a, pa_lower a, pa_upper a, pa_uncertainty a] \<and>
    (pa_state a = ''explicit_ambient'' \<longrightarrow> pa_gpa a = Some (Finite 0) \<and> pa_uncertainty a = None \<and> \<not> pa_approximate a \<and>
       (condition_ambient (evidence_record r) \<or> state_claim env (evidence_record r) = Inr ''explicit_ambient'' \<or>
        (\<exists>p. parse env (fst (snd (quantity_source (evidence_record r)))) (fst (quantity_source (evidence_record r))) = Inr p \<and> pp_ambient_phrase p))) \<and>
    (pa_state a = ''reported'' \<longrightarrow> pa_relation a \<noteq> ''unreported'' \<and> \<not> negative (pa_gpa a) \<and> \<not> negative (pa_lower a) \<and>
       \<not> negative (pa_upper a) \<and> \<not> condition_ambient (evidence_record r) \<and> state_claim env (evidence_record r) \<noteq> Inr ''explicit_ambient'') \<and>
    (pa_state a = ''not_reported'' \<longrightarrow> pa_gpa a = None \<and> pa_lower a = None \<and> pa_upper a = None \<and> pa_uncertainty a = None) \<and>
    (pa_state a = ''ambiguous'' \<longrightarrow> pa_reasons a \<noteq> []) \<and>
    (\<forall>hi lo. pressure_matches a hi lo True False = Inr True \<longrightarrow> pa_state a = ''explicit_ambient'') \<and>
    (\<forall>h lo amb. pressure_matches a (PFloat (Finite h)) lo amb False = Inr True \<longrightarrow>
       (\<exists>u. snd (pressure_extent a) = Some u \<and> \<not> float_less (Finite h) u))"
proof -
  let ?r = "evidence_record r"
  obtain raw u loc se c p where src: "quantity_source ?r = (raw, u, loc, se)"
    and p: "(case se of Some e \<Rightarrow> parse_failed (unparsed u) e | None \<Rightarrow> parse env u raw) = Inr p"
    and c: "state_claim env ?r = Inr c" and a: "a = assessment_from env raw loc c (condition_ambient ?r) p" and good: "good_reading p"
    using classify_parts [OF assms] .
  have phrase: "parse env u raw = Inr p" if "pp_ambient_phrase p"
    using p that by (cases se) (auto simp: parse_failed_def)
  note sound = assessment_from_sound [OF good a]
  have claim: "state_claim env ?r = Inr ''explicit_ambient'' \<longleftrightarrow> c = ''explicit_ambient''" unfolding c by simp
  have ambient: "pa_gpa a = Some (Finite 0) \<and> pa_uncertainty a = None \<and> \<not> pa_approximate a \<and>
      (condition_ambient ?r \<or> c = ''explicit_ambient'' \<or> (\<exists>p. parse env u raw = Inr p \<and> pp_ambient_phrase p))"
    if "pa_state a = ''explicit_ambient''"
    using sound(2) [OF that] phrase by blast
  show ?thesis
    unfolding claim src fst_conv snd_conv
    by (intro conjI allI impI; (rule sound(1) sound(5) sound(6) matches_ambient matches_top, assumption?)?)
      (use ambient sound(3,4) in simp_all)
qed


section \<open>Concrete evaluations\<close>

definition demo_pressure_env :: text_env where
  "demo_pressure_env = \<lparr>pe_str = (\<lambda>_. ''?''), pe_repr = (\<lambda>_. ''?'')\<rparr>"

definition reported_as :: "string \<Rightarrow> pyval" where
  "reported_as t = PDict [(PStr ''pressure'', PStr t)]"

definition state_read :: "pyval \<Rightarrow> string" where
  "state_read r = (case classify_pressure demo_pressure_env r of Inl _ \<Rightarrow> ''raised'' | Inr a \<Rightarrow> pa_state a)"

lemma demo_ambient: "state_read (reported_as ''At ambient pressure'') = ''explicit_ambient''"
  by code_simp

text \<open>
  A power of ten beyond the decimal context makes the classifier raise, whatever the environment and
  the rest of the record: the \<open>except\<close> clause lists \<open>ValueError\<close>, \<open>OverflowError\<close> and
  \<open>InvalidOperation\<close>, and \<open>decimal.Overflow\<close> is none of them.
\<close>

lemma gpa_unit: "unit_word ''GPa''" "map_of FACTORS ''GPa'' = Some (1, 0)"
  by code_simp+

lemma digit_not_ambient: "is_digit_char c \<Longrightarrow> \<not> is_ambient_text (c # s)"
  using digit_facts [of c] by (simp add: is_ambient_text_def fullmatch_def AMBIENT_def p_alt_def p_seq_def p_bind_def p_opt_def p_ret_def)

lemma power_parse:
  assumes "decimal_power m n" "power_exponent m n > 999999" "power_exponent m n \<le> decimal_limit"
  shows "parse_text env PNone (power_with_unit m n ''GPa'') = Inl DecimalOverflow"
proof -
  let ?t = "power_with_unit m n ''GPa''"
  note parts = power_parts [OF assms(1) gpa_unit(1)]
  have tokens: "tokens_of ?t = Some ((no_tokens ''exact'' ''GPa'')\<lparr>pt_value := Some (power_text m n)\<rparr>)" "APPROX ?t = []"
    unfolding tokens_of_def using power_tokens [OF assms(1) gpa_unit(1)] power_point [OF gpa_unit(1) parts(7,8)] by blast+
  have "\<not> is_ambient_text ?t" using parts(1) digit_not_ambient by auto
  then show ?thesis using assms(3)
    by (simp add: parse_text_def Let_def parts(5,6) tokens parse_numbers_def no_tokens_def gpa_unit(2) power_number [OF assms(1,2)])
qed

lemma pressure_overflow_escapes:
  assumes "quantity_source (evidence_record r) = (PStr (power_with_unit m n ''GPa''), PNone, loc, None)"
    and "decimal_power m n" "power_exponent m n > 999999" "power_exponent m n \<le> decimal_limit"
  shows "classify_pressure env r = Inl DecimalOverflow"
proof -
  have "power_with_unit m n ''GPa'' \<noteq> []" by (simp add: power_with_unit_def)
  then show ?thesis by (simp add: classify_pressure_def assms(1) power_parse [OF assms(2-4)])
qed

theorem pressure_state_sound_witness:
  "\<exists>a. classify_pressure demo_pressure_env (reported_as ''At ambient pressure'') = Inr a \<and> pa_gpa a = Some (Finite 0)"
proof (cases "classify_pressure demo_pressure_env (reported_as ''At ambient pressure'')")
  case (Inl e)
  then show ?thesis using demo_ambient by (simp add: state_read_def)
next
  case (Inr a)
  then have "pa_state a = ''explicit_ambient''" using demo_ambient by (simp add: state_read_def)
  then show ?thesis using Inr pressure_state_sound [OF Inr] by blast
qed

end
