(* ===== verification/Timeline_Response.thy ===== *)
theory Timeline_Response
  imports Timeline_Sampling Material_Visibility Result_Semantics Pressure_Semantics
begin

text \<open>
  The timeline response (\<open>_timeline_response_steps\<close> of \<open>api/routers/timeline.py\<close>):
  finite points, summary, sample, one page of the sample, coverage and the data version. The
  \<open>yield\<close>s of the generator only hand the event loop a turn; its value is modelled.

  The text of a timestamp and the sorted compact JSON of a point are fields of
  \<open>response_env\<close>. Offsets and limits are natural numbers: the route declares \<open>offset\<close> with
  \<open>ge=0\<close> and \<open>limit\<close> with \<open>ge=1\<close>.
\<close>

record 'd response_env =
  re_timeline :: timeline_env
  re_stamp :: "'d \<Rightarrow> string"
  re_point_json :: "timeline_point \<Rightarrow> string"

definition TIMELINE_POLICY_VERSION :: string where
  "TIMELINE_POLICY_VERSION = ''reported-tc-timeline/2.0.0''"

definition policy_tag :: "'d response_env \<Rightarrow> string" where
  "policy_tag env = take 12 (te_sha256 (re_timeline env)
     (CLASSIFIER_VERSION @ ''|'' @ PRESSURE_POLICY_VERSION @ ''|'' @ ANOMALY_POLICY_VERSION @ ''|'' @
      MATERIAL_VISIBILITY_VERSION @ ''|'' @ TIMELINE_POLICY_VERSION @ ''|'' @ SAMPLING_POLICY_VERSION))"

definition timeline_data_version :: "'d response_env \<Rightarrow> 'd option \<Rightarrow> string" where
  "timeline_data_version env updated_at =
     ''timeline-v5-result-'' @ policy_tag env @ ''-'' @ (case updated_at of None \<Rightarrow> ''unknown'' | Some t \<Rightarrow> re_stamp env t)"

record timeline_coverage =
  cov_total_points :: nat
  cov_total_materials :: nat
  year_min :: "int option"
  year_max :: "int option"
  cov_returned_points :: nat
  cov_available_points :: "nat option"

record page_sampling = sampling_report +
  is_paginated :: bool

record page_summary = timeline_summary +
  invalid_projected_points_omitted :: int

record 'd timeline_response =
  tr_timeline_policy_version :: string
  tr_sampling :: page_sampling
  tr_record_summary :: page_summary
  tr_visibility_policy_version :: string
  tr_anomaly_policy_version :: string
  tr_data_version :: string
  tr_data_updated_at :: "'d option"
  tr_family :: "string option"
  tr_points :: "timeline_point list"
  tr_coverage :: timeline_coverage
  tr_offset :: nat
  tr_limit :: "nat option"
  has_more :: bool

text \<open>\<open>xs[offset:offset + limit]\<close>, or \<open>xs[offset:]\<close> without a limit.\<close>

definition page :: "nat \<Rightarrow> nat option \<Rightarrow> 'a list \<Rightarrow> 'a list" where
  "page offset limit xs = (case limit of None \<Rightarrow> drop offset xs | Some l \<Rightarrow> take l (drop offset xs))"

definition coverage_of :: "timeline_point list \<Rightarrow> timeline_summary \<Rightarrow> nat \<Rightarrow> nat \<Rightarrow> timeline_coverage" where
  "coverage_of points summary returned available =
     (if points \<noteq> [] then
        \<lparr>cov_total_points = length points, cov_total_materials = total_materials summary,
         year_min = Some (Min (set (map tp_year points))), year_max = Some (Max (set (map tp_year points))),
         cov_returned_points = returned, cov_available_points = Some available\<rparr>
      else
        \<lparr>cov_total_points = 0, cov_total_materials = 0, year_min = None, year_max = None,
         cov_returned_points = 0, cov_available_points = Some 0\<rparr>)"

definition current_digest :: "'d response_env \<Rightarrow> timeline_point list \<Rightarrow> string" where
  "current_digest env points =
     take 20 (te_sha256 (re_timeline env) (concat (map (\<lambda>p. re_point_json env p @ [CHR 0x0A]) points)))"

definition visibility_policy_of :: "timeline_point list \<Rightarrow> string" where
  "visibility_policy_of points =
     (if list_ex (\<lambda>p. pget (visibility p) ''version'' = PStr ''material-visibility/2.0.0'') points
      then ''material-visibility/2.0.0'' else MATERIAL_VISIBILITY_VERSION)"

definition timeline_response_of ::
  "'d response_env \<Rightarrow> string option \<Rightarrow> timeline_point list \<Rightarrow> budget_arg \<Rightarrow> nat \<Rightarrow> nat option \<Rightarrow> 'd option \<Rightarrow>
    (py_error, 'd timeline_response) res option" where
  "timeline_response_of env fam raw max_points offset limit updated_at =
     (let points = finite_points (re_timeline env) raw;
          summary = summarize_timeline (re_timeline env) points
      in map_option (\<lambda>r. rbind r (\<lambda>(available, sampling).
           let returned = page offset limit available
           in Inr \<lparr>tr_timeline_policy_version = TIMELINE_POLICY_VERSION,
                  tr_sampling = sampling_report.extend (sampling \<lparr>sr_returned_points := length returned\<rparr>)
                    (page_sampling.fields (length returned < length available)),
                  tr_record_summary = timeline_summary.extend summary
                    (page_summary.fields (int (length raw) - int (length points))),
                  tr_visibility_policy_version = visibility_policy_of points,
                  tr_anomaly_policy_version = ANOMALY_POLICY_VERSION,
                  tr_data_version = timeline_data_version env updated_at @ ''-'' @ current_digest env points,
                  tr_data_updated_at = updated_at, tr_family = fam, tr_points = returned,
                  tr_coverage = coverage_of points summary (length returned) (length available),
                  tr_offset = offset, tr_limit = limit,
                  has_more = offset + length returned < length available\<rparr>))
         (sample_timeline (re_timeline env) points max_points))"

section \<open>Paging\<close>

lemma page_step: "page (k * l) (Some l) xs = take l (drop (k * l) xs)"
  by (simp add: page_def)

lemma pages_prefix: "concat (map (\<lambda>k. page (k * l) (Some l) xs) [0..<m]) = take (m * l) xs"
proof (induction m)
  case (Suc m)
  have "take (Suc m * l) xs = take (m * l) xs @ take l (drop (m * l) xs)"
    using take_add [of "m * l" l xs] by (simp add: add.commute)
  with Suc show ?case by (simp add: page_step)
qed simp

lemma page_more: "k * l + length (page (k * l) (Some l) xs) < length xs \<longleftrightarrow> Suc k * l < length xs"
  by (auto simp: page_step min_def)

lemma response_page:
  assumes "sample_timeline (re_timeline env) (finite_points (re_timeline env) raw) b = Some (Inr (sel, rep))"
  obtains r where "timeline_response_of env fam raw b off lmt upd = Some (Inr r)" and "tr_points r = page off lmt sel"
    and "has_more r \<longleftrightarrow> off + length (page off lmt sel) < length sel"
    and "tr_data_version r = timeline_data_version env upd @ ''-'' @ current_digest env (finite_points (re_timeline env) raw)"
    and "sr_returned_points (tr_sampling r) = length (page off lmt sel)"
  using assms by (simp add: timeline_response_of_def Let_def sampling_report.extend_def)

text \<open>
  Paging loses and repeats nothing: with a positive limit, the pages at offsets 0, l, 2l, and so on
  all succeed, put together give exactly the sample, \<open>has_more\<close> holds exactly while the
  next offset is inside it, and every page carries the same data version.
\<close>

theorem timeline_pages_complete:
  assumes "sample_timeline (re_timeline env) (finite_points (re_timeline env) raw) b = Some (Inr (sel, rep))" and "0 < l"
  shows "\<exists>rs v. (\<forall>k. timeline_response_of env fam raw b (k * l) (Some l) upd = Some (Inr (rs k)) \<and>
        (has_more (rs k) \<longleftrightarrow> Suc k * l < length sel) \<and> tr_data_version (rs k) = v) \<and>
      (\<forall>m. length sel \<le> m * l \<longrightarrow> concat (map (\<lambda>k. tr_points (rs k)) [0..<m]) = sel) \<and>
      \<not> has_more (rs (length sel))"
proof -
  have "\<forall>k. \<exists>r. timeline_response_of env fam raw b (k * l) (Some l) upd = Some (Inr r) \<and>
      tr_points r = page (k * l) (Some l) sel \<and> (has_more r \<longleftrightarrow> Suc k * l < length sel) \<and>
      tr_data_version r = timeline_data_version env upd @ ''-'' @ current_digest env (finite_points (re_timeline env) raw)"
    using response_page [OF assms(1)] page_more by metis
  then obtain rs where rs: "\<forall>k. timeline_response_of env fam raw b (k * l) (Some l) upd = Some (Inr (rs k)) \<and>
      tr_points (rs k) = page (k * l) (Some l) sel \<and> (has_more (rs k) \<longleftrightarrow> Suc k * l < length sel) \<and>
      tr_data_version (rs k) = timeline_data_version env upd @ ''-'' @ current_digest env (finite_points (re_timeline env) raw)"
    by metis
  have "length sel < Suc (length sel) * l" using assms(2) by (cases l) auto
  moreover have "concat (map (\<lambda>k. tr_points (rs k)) [0..<m]) = take (m * l) sel" for m
    using rs pages_prefix [of l sel m] by simp
  ultimately show ?thesis using rs
    by (intro exI [of _ rs] exI [of _ "timeline_data_version env upd @ ''-'' @ current_digest env (finite_points (re_timeline env) raw)"]) simp
qed


lemma sample_unbounded:
  "sample_timeline env (finite_points env ps) NoBudget =
     Some (Inr (finite_points env ps, sampling_report_of env NoBudget (finite_points env ps) (finite_points env ps)))"
proof -
  have "sort [0..<n] = [0..<n]" for n :: nat by (rule sort_key_id_if_sorted) simp
  then show ?thesis by (simp add: sample_timeline_def chosen_indices_def Let_def map_nth)
qed

definition demo_response_env :: "string response_env" where
  "demo_response_env = \<lparr>re_timeline = demo_timeline_env, re_stamp = id, re_point_json = material\<rparr>"

theorem timeline_pages_complete_witness:
  "\<exists>rs. (\<forall>k. timeline_response_of demo_response_env None demo_points NoBudget (k * 2) (Some 2) (Some ''20260101T000000Z'') = Some (Inr (rs k))) \<and>
     concat (map (\<lambda>k. map point_id (tr_points (rs k))) [0..<3]) = map Some [''a'', ''b'', ''c'', ''f'', ''d'', ''e'']"
proof -
  have env: "re_timeline demo_response_env = demo_timeline_env" by (simp add: demo_response_env_def)
  have len: "length (finite_points demo_timeline_env demo_points) \<le> 3 * 2"
    using arg_cong [OF demo_finite_points, of length] by simp
  obtain rs where rs: "\<forall>k. timeline_response_of demo_response_env None demo_points NoBudget (k * 2) (Some 2) (Some ''20260101T000000Z'') = Some (Inr (rs k))"
      and all: "concat (map (\<lambda>k. tr_points (rs k)) [0..<3]) = finite_points demo_timeline_env demo_points"
    using timeline_pages_complete [OF sample_unbounded [of "re_timeline demo_response_env" demo_points], of 2 None "Some ''20260101T000000Z''"]
      len unfolding env by fastforce
  have "concat (map (\<lambda>k. map point_id (tr_points (rs k))) [0..<3]) = map point_id (finite_points demo_timeline_env demo_points)"
    unfolding all [symmetric] by (simp only: map_concat map_map comp_def)
  then show ?thesis using rs demo_finite_points by metis
qed

end
