(* ===== verification/Rate_Limit.thy ===== *)
theory Rate_Limit
  imports Py_Runtime
begin

text \<open>
  Daily query quotas (\<open>api/services/rate_limit.py\<close>).

  The Redis server is not part of the repository: its two uses are the fields of
  \<open>redis_ops\<close>, a read of a counter and the pipeline \<open>INCR key 1; EXPIRE key ttl NX\<close>, which
  redis-py sends as one transaction, and \<open>redis_contract\<close> states their documented behaviour as
  far as the quotas rely on it. Time is in seconds since the epoch, so a UTC day is
  \<open>t div 86400\<close>; the date text \<open>strftime("%Y-%m-%d")\<close> of a day number is an argument. A call
  reads the clock twice, once for the key and once, at the server, for the pipeline.
\<close>

section \<open>Keys\<close>

record 'st redis_ops =
  r_get :: "int \<Rightarrow> string \<Rightarrow> 'st \<Rightarrow> int option"
  r_mget :: "int \<Rightarrow> string list \<Rightarrow> 'st \<Rightarrow> int option list"
  r_quota_pipeline :: "int \<Rightarrow> string \<Rightarrow> int \<Rightarrow> 'st \<Rightarrow> int \<times> 'st"

record 'st quota_env =
  q_redis :: "'st redis_ops"
  q_day_text :: "int \<Rightarrow> string"
  guest_daily_limit :: int
  registered_daily_limit :: int

definition DAY :: int where "DAY = 86400"

definition today :: "'st quota_env \<Rightarrow> int \<Rightarrow> string" where
  "today env now = q_day_text env (now div DAY)"

definition guest_key :: "'st quota_env \<Rightarrow> int \<Rightarrow> string \<Rightarrow> string" where
  "guest_key env now ip = ''guest_quota:'' @ today env now @ '':'' @ ip"

text \<open>\<open>_user_key(user_id, day)\<close> with \<open>day or _today()\<close>.\<close>

definition user_key :: "'st quota_env \<Rightarrow> int \<Rightarrow> string \<Rightarrow> string option \<Rightarrow> string" where
  "user_key env now uid d =
     ''user_quota:'' @ (case d of None \<Rightarrow> today env now | Some t \<Rightarrow> if t = [] then today env now else t) @ '':'' @ uid"

section \<open>Operations\<close>

text \<open>\<open>int(reply or 0)\<close> of a counter.\<close>

definition counter_reply :: "int option \<Rightarrow> int" where
  "counter_reply r = (case r of None \<Rightarrow> 0 | Some n \<Rightarrow> n)"

definition get_guest_remaining :: "'st quota_env \<Rightarrow> int \<Rightarrow> int \<Rightarrow> string \<Rightarrow> 'st \<Rightarrow> int" where
  "get_guest_remaining env now srv ip s =
     max 0 (guest_daily_limit env - counter_reply (r_get (q_redis env) srv (guest_key env now ip) s))"

definition consume_guest :: "'st quota_env \<Rightarrow> int \<Rightarrow> int \<Rightarrow> string \<Rightarrow> 'st \<Rightarrow> int \<times> 'st" where
  "consume_guest env now srv ip s =
     (let (used_new, s') = r_quota_pipeline (q_redis env) srv (guest_key env now ip) DAY s
      in (guest_daily_limit env - used_new, s'))"

definition get_user_today_used :: "'st quota_env \<Rightarrow> int \<Rightarrow> int \<Rightarrow> string \<Rightarrow> 'st \<Rightarrow> int" where
  "get_user_today_used env now srv uid s = counter_reply (r_get (q_redis env) srv (user_key env now uid None) s)"

definition get_user_remaining :: "'st quota_env \<Rightarrow> int \<Rightarrow> int \<Rightarrow> string \<Rightarrow> 'st \<Rightarrow> int" where
  "get_user_remaining env now srv uid s = max 0 (registered_daily_limit env - get_user_today_used env now srv uid s)"

definition consume_user :: "'st quota_env \<Rightarrow> int \<Rightarrow> int \<Rightarrow> string \<Rightarrow> 'st \<Rightarrow> int \<times> 'st" where
  "consume_user env now srv uid s =
     (let (used_new, s') = r_quota_pipeline (q_redis env) srv (user_key env now uid None) DAY s
      in (registered_daily_limit env - used_new, s'))"

text \<open>The keys of today and the six days before it, and \<open>sum(int(v) for v in values if v is not None)\<close>.\<close>

definition week_keys :: "'st quota_env \<Rightarrow> int \<Rightarrow> string \<Rightarrow> string list" where
  "week_keys env now uid = map (\<lambda>d. user_key env now uid (Some (q_day_text env (now div DAY - int d)))) [0..<7]"

definition get_user_week_used :: "'st quota_env \<Rightarrow> int \<Rightarrow> int \<Rightarrow> string \<Rightarrow> 'st \<Rightarrow> int" where
  "get_user_week_used env now srv uid s =
     sum_list (map counter_reply (filter (\<lambda>v. v \<noteq> None) (r_mget (q_redis env) srv (week_keys env now uid) s)))"

section \<open>Traces of calls\<close>

datatype quota_subject = Guest string | Member string

record quota_call =
  qc_subject :: quota_subject
  qc_now :: int
  qc_at :: int

fun call_key :: "'st quota_env \<Rightarrow> int \<Rightarrow> quota_subject \<Rightarrow> string" where
  "call_key env now (Guest ip) = guest_key env now ip"
| "call_key env now (Member uid) = user_key env now uid None"

fun subject_limit :: "'st quota_env \<Rightarrow> quota_subject \<Rightarrow> int" where
  "subject_limit env (Guest _) = guest_daily_limit env"
| "subject_limit env (Member _) = registered_daily_limit env"

fun consume_call :: "'st quota_env \<Rightarrow> quota_subject \<Rightarrow> int \<Rightarrow> int \<Rightarrow> 'st \<Rightarrow> int \<times> 'st" where
  "consume_call env (Guest ip) now srv s = consume_guest env now srv ip s"
| "consume_call env (Member uid) now srv s = consume_user env now srv uid s"

fun run_calls :: "'st quota_env \<Rightarrow> quota_call list \<Rightarrow> 'st \<Rightarrow> int list \<times> 'st" where
  "run_calls env [] s = ([], s)"
| "run_calls env (c # cs) s =
     (let (r, s1) = consume_call env (qc_subject c) (qc_now c) (qc_at c) s;
          (rs, s2) = run_calls env cs s1
      in (r # rs, s2))"

text \<open>
  What the quotas rely on: counters read back, a new counter starts at one and lives for
  \<open>ttl\<close> seconds, a counter that has an expiry keeps it, other keys are untouched, \<open>MGET\<close> is
  pointwise \<open>GET\<close>. Nothing is said of a counter that would never expire.
\<close>

definition redis_contract :: "'st redis_ops \<Rightarrow> bool" where
  "redis_contract ops \<longleftrightarrow>
     (\<forall>now k ttl s t. r_get ops now k s = None \<longrightarrow> now \<le> t \<longrightarrow>
        fst (r_quota_pipeline ops now k ttl s) = 1 \<and>
        r_get ops t k (snd (r_quota_pipeline ops now k ttl s)) = (if t < now + ttl then Some 1 else None)) \<and>
     (\<forall>now k ttl s t n. r_get ops now k s = Some n \<longrightarrow> now \<le> t \<longrightarrow> (\<exists>u \<ge> now. r_get ops u k s = None) \<longrightarrow>
        fst (r_quota_pipeline ops now k ttl s) = n + 1 \<and>
        r_get ops t k (snd (r_quota_pipeline ops now k ttl s)) = map_option (\<lambda>_. n + 1) (r_get ops t k s)) \<and>
     (\<forall>now k ttl s t j. j \<noteq> k \<longrightarrow> now \<le> t \<longrightarrow> r_get ops t j (snd (r_quota_pipeline ops now k ttl s)) = r_get ops t j s) \<and>
     (\<forall>now ks s. r_mget ops now ks s = map (\<lambda>k. r_get ops now k s) ks)"

text \<open>Date texts differ and contain no colon; calls arrive in server time and do not straddle midnight.\<close>

definition good_day_text :: "'st quota_env \<Rightarrow> bool" where
  "good_day_text env \<longleftrightarrow> inj (q_day_text env) \<and> (\<forall>d. q_day_text env d \<noteq> [] \<and> CHR '':'' \<notin> set (q_day_text env d))"

definition good_trace :: "quota_call list \<Rightarrow> bool" where
  "good_trace cs \<longleftrightarrow> sorted (map qc_at cs) \<and> list_all (\<lambda>c. qc_at c div DAY = qc_now c div DAY) cs"

definition day_calls :: "quota_subject \<Rightarrow> int \<Rightarrow> quota_call list \<Rightarrow> quota_call list" where
  "day_calls x d cs = filter (\<lambda>c. qc_subject c = x \<and> qc_now c div DAY = d) cs"

section \<open>Keys identify subject and day\<close>

lemma colon_split:
  assumes "CHR '':'' \<notin> set a" "CHR '':'' \<notin> set b"
  shows "a @ CHR '':'' # x = b @ CHR '':'' # y \<longleftrightarrow> a = b \<and> x = y"
  using assms
proof (induction a arbitrary: b)
  case Nil
  then show ?case by (cases b) auto
next
  case (Cons c a)
  then show ?case by (cases b) auto
qed

lemma call_key_inj:
  assumes "good_day_text env"
  shows "call_key env n x = call_key env m y \<longleftrightarrow> x = y \<and> n div DAY = m div DAY"
  using assms by (cases x; cases y)
    (auto simp: guest_key_def user_key_def today_def good_day_text_def colon_split inj_eq)

lemma consume_call_pipeline:
  "consume_call env x now srv s =
     (let (u, s') = r_quota_pipeline (q_redis env) srv (call_key env now x) DAY s in (subject_limit env x - u, s'))"
  by (cases x) (simp_all add: consume_guest_def consume_user_def)


section \<open>Counting\<close>

text \<open>The counter a trace leaves for a subject and a day, as the server reads it at time \<open>t\<close>.\<close>

definition counter_after :: "quota_subject \<Rightarrow> int \<Rightarrow> quota_call list \<Rightarrow> int \<Rightarrow> int option" where
  "counter_after x d cs t =
     (let xs = day_calls x d cs in
      if xs \<noteq> [] \<and> t < qc_at (hd xs) + DAY then Some (int (length xs)) else None)"

definition mirrors :: "'st quota_env \<Rightarrow> quota_call list \<Rightarrow> 'st \<Rightarrow> bool" where
  "mirrors env cs s \<longleftrightarrow>
     (\<forall>x n t. (\<forall>c \<in> set cs. qc_at c \<le> t) \<longrightarrow>
        r_get (q_redis env) t (call_key env n x) s = counter_after x (n div DAY) cs t)"

lemma run_calls_snoc:
  "run_calls env (cs @ [c]) s =
     (let (rs, s1) = run_calls env cs s; (r, s2) = consume_call env (qc_subject c) (qc_now c) (qc_at c) s1
      in (rs @ [r], s2))"
  by (induction cs arbitrary: s) (auto simp: Let_def split: prod.splits)

lemma day_calls_snoc:
  "day_calls x d (cs @ [c]) = day_calls x d cs @ (if qc_subject c = x \<and> qc_now c div DAY = d then [c] else [])"
  by (simp add: day_calls_def)

lemma day_alive:
  assumes "good_trace cs" "c \<in> set cs" "(t :: int) div DAY = qc_now c div DAY"
  shows "t < qc_at c + DAY"
proof -
  have "qc_at c div DAY = t div DAY" using assms by (auto simp: good_trace_def list_all_iff)
  then show ?thesis unfolding DAY_def by linarith
qed

lemma day_calls_hd:
  "day_calls x d cs \<noteq> [] \<Longrightarrow> hd (day_calls x d cs) \<in> set cs \<and> qc_now (hd (day_calls x d cs)) div DAY = d"
  using hd_in_set [of "day_calls x d cs"] by (auto simp: day_calls_def)

lemma counter_alive:
  assumes "good_trace cs" "t div DAY = d"
  shows "counter_after x d cs t = (if day_calls x d cs = [] then None else Some (int (length (day_calls x d cs))))"
  using day_alive [OF assms(1), of "hd (day_calls x d cs)" t] day_calls_hd [of x d cs] assms(2)
  by (auto simp: counter_after_def Let_def)

text \<open>One call moves the store from mirroring the trace to mirroring the longer trace.\<close>

lemma consume_mirrors:
  assumes con: "redis_contract (q_redis env)" and dt: "good_day_text env" and tr: "good_trace (cs @ [c])"
    and mir: "mirrors env cs s" and call: "consume_call env (qc_subject c) (qc_now c) (qc_at c) s = (r, s')"
  shows "r = subject_limit env (qc_subject c) - int (length (day_calls (qc_subject c) (qc_now c div DAY) (cs @ [c]))) \<and>
    mirrors env (cs @ [c]) s'"
proof -
  let ?ops = "q_redis env" and ?x = "qc_subject c" and ?d = "qc_now c div DAY" and ?a = "qc_at c"
  let ?k = "call_key env (qc_now c) ?x" and ?p = "r_quota_pipeline (q_redis env) (qc_at c) (call_key env (qc_now c) (qc_subject c)) DAY s"
  have good: "good_trace cs" and le: "\<forall>e \<in> set cs. qc_at e \<le> ?a" and day: "?a div DAY = ?d"
    using tr by (auto simp: good_trace_def sorted_append)
  have r: "r = subject_limit env ?x - fst ?p" and s': "s' = snd ?p"
    using call by (auto simp: consume_call_pipeline Let_def split: prod.splits)
  have before: "r_get ?ops t ?k s = counter_after ?x ?d cs t" if "?a \<le> t" for t
  proof -
    have "\<forall>e \<in> set cs. qc_at e \<le> t" using le that by fastforce
    then show ?thesis using mir unfolding mirrors_def by blast
  qed
  have now: "r_get ?ops ?a ?k s = (if day_calls ?x ?d cs = [] then None else Some (int (length (day_calls ?x ?d cs))))"
    using before [OF order_refl] counter_alive [OF good day] by simp
  have after: "fst ?p = int (length (day_calls ?x ?d (cs @ [c]))) \<and>
      r_get ?ops t ?k s' = counter_after ?x ?d (cs @ [c]) t" if t: "?a \<le> t" for t
  proof (cases "day_calls ?x ?d cs = []")
    case True
    then have "fst ?p = 1 \<and> r_get ?ops t ?k (snd ?p) = (if t < ?a + DAY then Some 1 else None)"
      using con now t unfolding redis_contract_def by auto
    then show ?thesis using True by (simp add: s' counter_after_def day_calls_snoc Let_def)
  next
    case False
    have "\<exists>u \<ge> ?a. r_get ?ops u ?k s = None"
      using before [of "max ?a (qc_at (hd (day_calls ?x ?d cs)) + DAY)"]
      by (intro exI [of _ "max ?a (qc_at (hd (day_calls ?x ?d cs)) + DAY)"]) (simp add: counter_after_def Let_def)
    moreover have "r_get ?ops ?a ?k s = Some (int (length (day_calls ?x ?d cs)))" using now False by simp
    ultimately have "fst ?p = int (length (day_calls ?x ?d cs)) + 1 \<and>
        r_get ?ops t ?k (snd ?p) = map_option (\<lambda>_. int (length (day_calls ?x ?d cs)) + 1) (r_get ?ops t ?k s)"
      using con t unfolding redis_contract_def by blast
    then show ?thesis using False before [OF t] by (simp add: s' counter_after_def day_calls_snoc Let_def)
  qed
  have "r_get ?ops t (call_key env n x) s' = counter_after x (n div DAY) (cs @ [c]) t"
    if t: "\<forall>e \<in> set (cs @ [c]). qc_at e \<le> t" for x n t
  proof (cases "call_key env n x = ?k")
    case True
    then have "x = ?x" "n div DAY = ?d" by (simp_all add: call_key_inj [OF dt])
    then show ?thesis unfolding True using after [of t] t by simp
  next
    case False
    then have "r_get ?ops t (call_key env n x) s' = r_get ?ops t (call_key env n x) s"
      using con t unfolding redis_contract_def s' by auto
    also have "\<dots> = counter_after x (n div DAY) cs t" using mir t by (auto simp: mirrors_def)
    finally show ?thesis using False by (auto simp: call_key_inj [OF dt] counter_after_def day_calls_snoc)
  qed
  then show ?thesis using after [OF order_refl] r by (simp add: mirrors_def)
qed

definition admitted :: "quota_subject \<Rightarrow> int \<Rightarrow> quota_call list \<Rightarrow> int list \<Rightarrow> nat" where
  "admitted x d cs rs = length (filter (\<lambda>(c, r). qc_subject c = x \<and> qc_now c div DAY = d \<and> 0 \<le> r) (zip cs rs))"

lemma run_mirrors:
  assumes con: "redis_contract (q_redis env)" and dt: "good_day_text env" and empty: "\<forall>t k. r_get (q_redis env) t k s = None"
  shows "good_trace cs \<Longrightarrow> run_calls env cs s = (rs, s') \<Longrightarrow>
    length rs = length cs \<and> mirrors env cs s' \<and>
    (\<forall>x d. admitted x d cs rs = min (nat (subject_limit env x)) (length (day_calls x d cs)))"
proof (induction cs arbitrary: rs s' rule: rev_induct)
  case Nil
  then show ?case using empty by (simp add: mirrors_def counter_after_def day_calls_def admitted_def)
next
  case (snoc c cs)
  obtain rs1 s1 r where run: "run_calls env cs s = (rs1, s1)"
      and call: "consume_call env (qc_subject c) (qc_now c) (qc_at c) s1 = (r, s')" and rs: "rs = rs1 @ [r]"
    using snoc.prems(2) by (auto simp: run_calls_snoc Let_def split: prod.splits)
  have "good_trace cs" using snoc.prems(1) by (auto simp: good_trace_def sorted_append)
  note IH = snoc.IH [OF this run]
  have step: "r = subject_limit env (qc_subject c) - int (length (day_calls (qc_subject c) (qc_now c div DAY) (cs @ [c])))"
    "mirrors env (cs @ [c]) s'"
    using consume_mirrors [OF con dt snoc.prems(1) _ call] IH by simp_all
  have "admitted x d (cs @ [c]) rs = admitted x d cs rs1 + (if qc_subject c = x \<and> qc_now c div DAY = d \<and> 0 \<le> r then 1 else 0)" for x d
    using IH by (simp add: admitted_def rs)
  then have "admitted x d (cs @ [c]) rs = min (nat (subject_limit env x)) (length (day_calls x d (cs @ [c])))" for x d
    using IH step(1) by (auto simp: day_calls_snoc min_def)
  then show ?case using IH step(2) rs by simp
qed


lemma week_keys_calls:
  assumes "good_day_text env"
  shows "week_keys env now uid = map (\<lambda>d. call_key env ((now div DAY - int d) * DAY) (Member uid)) [0..<7]"
  using assms by (simp add: week_keys_def user_key_def today_def good_day_text_def DAY_def)

text \<open>Two days later a counter is gone, whenever the first call of its day was.\<close>

lemma counter_expired:
  assumes "good_trace cs" "d + 2 \<le> t div DAY"
  shows "counter_after x d cs t = None"
proof (cases "day_calls x d cs = []")
  case False
  then have "qc_at (hd (day_calls x d cs)) div DAY = d"
    using day_calls_hd [OF False] assms(1) by (auto simp: good_trace_def list_all_iff)
  then have "qc_at (hd (day_calls x d cs)) + DAY \<le> t" using assms(2) unfolding DAY_def by linarith
  then show ?thesis by (simp add: counter_after_def Let_def)
qed (simp add: counter_after_def Let_def)

lemma counter_reply_filter: "sum_list (map counter_reply (filter (\<lambda>v. v \<noteq> None) vs)) = sum_list (map counter_reply vs)"
  by (induction vs) (auto simp: counter_reply_def)

section \<open>Properties\<close>

text \<open>
  C10. The daily quota is exact under every sequence of calls of all guests and users that do not
  straddle midnight: of the calls of one subject on one UTC day exactly the first
  limit-many get a non-negative remainder, and the read-only operations report what is left,
  although each counter expires 24 hours after its first call and not at midnight.
\<close>

theorem quota_admits_limit:
  assumes "redis_contract (q_redis env)" and "good_day_text env" and "\<forall>t k. r_get (q_redis env) t k s = None"
    and "good_trace cs" and "run_calls env cs s = (rs, s')"
  shows "length rs = length cs \<and>
    (\<forall>x d. admitted x d cs rs = min (nat (subject_limit env x)) (length (day_calls x d cs))) \<and>
    (\<forall>ip now srv. (\<forall>c \<in> set cs. qc_at c \<le> srv) \<and> srv div DAY = now div DAY \<longrightarrow>
       get_guest_remaining env now srv ip s' =
         max 0 (guest_daily_limit env - int (length (day_calls (Guest ip) (now div DAY) cs)))) \<and>
    (\<forall>uid now srv. (\<forall>c \<in> set cs. qc_at c \<le> srv) \<and> srv div DAY = now div DAY \<longrightarrow>
       get_user_remaining env now srv uid s' =
         max 0 (registered_daily_limit env - int (length (day_calls (Member uid) (now div DAY) cs))))"
proof -
  have run: "length rs = length cs" "mirrors env cs s'"
      "\<forall>x d. admitted x d cs rs = min (nat (subject_limit env x)) (length (day_calls x d cs))"
    using run_mirrors [OF assms(1-5)] by simp_all
  have read: "counter_reply (r_get (q_redis env) srv (call_key env now x) s') = int (length (day_calls x (now div DAY) cs))"
    if "\<forall>c \<in> set cs. qc_at c \<le> srv" "srv div DAY = now div DAY" for x now srv
    using run(2) that counter_alive [OF assms(4) that(2), of x] by (auto simp: mirrors_def counter_reply_def)
  show ?thesis
    using run(1,3) read [of _ _ "Guest _"] read [of _ _ "Member _"]
    by (simp add: get_guest_remaining_def get_user_remaining_def get_user_today_used_def)
qed

text \<open>
  C35. The weekly total sees at most two days: the sum over the last seven daily counters is
  today's calls plus, while its first call is less than 24 hours old, yesterday's; the calls of
  the other five days are never in it, because their counters have expired.
\<close>

theorem week_used_counts_two_days:
  assumes "redis_contract (q_redis env)" and "good_day_text env" and "\<forall>t k. r_get (q_redis env) t k s = None"
    and "good_trace cs" and "run_calls env cs s = (rs, s')"
    and late: "\<forall>c \<in> set cs. qc_at c \<le> srv" and same: "srv div DAY = now div DAY"
  shows "get_user_week_used env now srv uid s' =
    int (length (day_calls (Member uid) (now div DAY) cs)) +
    (let ys = day_calls (Member uid) (now div DAY - 1) cs in
       if ys \<noteq> [] \<and> srv < qc_at (hd ys) + DAY then int (length ys) else 0)"
proof -
  let ?D = "now div DAY" and ?x = "Member uid"
  have mir: "mirrors env cs s'" using run_mirrors [OF assms(1-5)] by simp
  have get: "r_get (q_redis env) srv (call_key env ((?D - int d) * DAY) ?x) s' = counter_after ?x (?D - int d) cs srv" for d
  proof -
    have "((?D - int d) * DAY) div DAY = ?D - int d" by (simp add: DAY_def)
    moreover have "r_get (q_redis env) srv (call_key env ((?D - int d) * DAY) ?x) s' =
        counter_after ?x (((?D - int d) * DAY) div DAY) cs srv"
      using mir late unfolding mirrors_def by blast
    ultimately show ?thesis by (simp only:)
  qed
  have mget: "r_mget (q_redis env) t ks s' = map (\<lambda>k. r_get (q_redis env) t k s') ks" for t ks
    using assms(1) unfolding redis_contract_def by blast
  have "get_user_week_used env now srv uid s' = sum_list (map (\<lambda>d. counter_reply (counter_after ?x (?D - int d) cs srv)) [0..<7])"
    unfolding get_user_week_used_def counter_reply_filter week_keys_calls [OF assms(2)] mget by (simp only: map_map comp_def get)
  also have "\<dots> = counter_reply (counter_after ?x ?D cs srv) + counter_reply (counter_after ?x (?D - 1) cs srv)"
  proof -
    have week: "[0..<7] = [0, 1, 2, 3, 4, 5, 6 :: nat]" by (simp add: upt_conv_Cons)
    show ?thesis unfolding week using same by (simp add: counter_expired [OF assms(4)] counter_reply_def)
  qed
  finally show ?thesis
    using counter_alive [OF assms(4) same, of ?x] by (auto simp: counter_after_def counter_reply_def Let_def)
qed

section \<open>A concrete server\<close>

text \<open>A store of counters with expiry times, enough to meet the contract.\<close>

definition demo_read :: "int \<Rightarrow> string \<Rightarrow> (string \<Rightarrow> (int \<times> int) option) \<Rightarrow> int option" where
  "demo_read now k s = (case s k of None \<Rightarrow> None | Some (n, e) \<Rightarrow> if now < e then Some n else None)"

definition demo_redis :: "(string \<Rightarrow> (int \<times> int) option) redis_ops" where
  "demo_redis = \<lparr>r_get = demo_read, r_mget = (\<lambda>now ks s. map (\<lambda>k. demo_read now k s) ks),
     r_quota_pipeline = (\<lambda>now k ttl s. case demo_read now k s of
        None \<Rightarrow> (1, s(k := Some (1, now + ttl)))
      | Some n \<Rightarrow> (n + 1, s(k := Some (n + 1, snd (the (s k))))))\<rparr>"

definition demo_quota_env :: "(string \<Rightarrow> (int \<times> int) option) quota_env" where
  "demo_quota_env = \<lparr>q_redis = demo_redis, q_day_text = int_text, guest_daily_limit = 2, registered_daily_limit = 999\<rparr>"

lemma demo_contract: "redis_contract (q_redis demo_quota_env)"
  unfolding redis_contract_def demo_quota_env_def
  by (auto simp: demo_redis_def demo_read_def split: option.splits prod.splits if_splits)


lemma nat_digits_text: "nat_digits n \<noteq> [] \<and> (\<forall>c \<in> set (nat_digits n). 48 \<le> char_nat c \<and> char_nat c < 58)"
proof (induction n rule: nat_digits.induct)
  case (1 n)
  have digit: "char_nat (char_of (48 + m)) = 48 + m" if "m < 10" for m using that by (simp add: char_nat_def)
  show ?case
  proof (cases "n < 10")
    case True
    then show ?thesis using digit [OF True] by (simp add: nat_digits.simps [of n])
  next
    case False
    then show ?thesis using 1 [OF False] digit [of "n mod 10"] by (auto simp: nat_digits.simps [of n])
  qed
qed

lemma int_text_chars: "int_text i \<noteq> [] \<and> CHR '':'' \<notin> set (int_text i)"
  using nat_digits_text [of "nat i"] nat_digits_text [of "nat (- i)"] by (auto simp: int_text_def char_nat_def)

lemma int_text_inj: "int_text i = int_text j \<longleftrightarrow> i = j"
proof -
  have minus: "nat_digits n \<noteq> CHR ''-'' # x" for n x using nat_digits_text [of n] by (auto simp: char_nat_def)
  show ?thesis using minus minus [symmetric] by (auto simp: int_text_def)
qed

lemma demo_day_text: "good_day_text demo_quota_env"
  using int_text_chars int_text_inj by (auto simp: good_day_text_def demo_quota_env_def inj_def)

definition demo_calls :: "quota_call list" where
  "demo_calls = map (\<lambda>(x, t). \<lparr>qc_subject = x, qc_now = t, qc_at = t\<rparr>)
     [(Guest ''198.51.100.7'', 100), (Member ''u'', 200), (Guest ''198.51.100.7'', 300), (Member ''u'', 400),
      (Guest ''198.51.100.7'', 500), (Member ''u'', 86500), (Member ''u'', 259300)]"

lemma demo_trace: "good_trace demo_calls"
  by (simp add: good_trace_def demo_calls_def DAY_def)

lemma demo_store_empty: "\<forall>t k. r_get (q_redis demo_quota_env) t k (\<lambda>_. None) = None"
  by (simp add: demo_quota_env_def demo_redis_def demo_read_def)

lemma demo_day_calls:
  "length (day_calls (Guest ''198.51.100.7'') 0 demo_calls) = 3" "day_calls (Member ''u'') 2 demo_calls = []"
  "length (day_calls (Member ''u'') 3 demo_calls) = 1"
  by (simp_all add: day_calls_def demo_calls_def DAY_def)

theorem quota_admits_limit_witness:
  "admitted (Guest ''198.51.100.7'') 0 demo_calls (fst (run_calls demo_quota_env demo_calls (\<lambda>_. None))) = 2"
proof -
  have "subject_limit demo_quota_env (Guest ''198.51.100.7'') = 2" by (simp add: demo_quota_env_def)
  then show ?thesis
    using quota_admits_limit [OF demo_contract demo_day_text demo_store_empty demo_trace surjective_pairing] demo_day_calls(1)
    by simp
qed

theorem week_used_counts_two_days_witness:
  "get_user_week_used demo_quota_env 259300 259300 ''u'' (snd (run_calls demo_quota_env demo_calls (\<lambda>_. None))) = 1 \<and>
   length (filter (\<lambda>c. qc_subject c = Member ''u'') demo_calls) = 4"
proof -
  have late: "\<forall>c \<in> set demo_calls. qc_at c \<le> 259300" and day: "(259300 :: int) div DAY = 3"
    by (simp_all add: demo_calls_def DAY_def)
  have "get_user_week_used demo_quota_env 259300 259300 ''u'' (snd (run_calls demo_quota_env demo_calls (\<lambda>_. None))) = 1"
    unfolding week_used_counts_two_days [OF demo_contract demo_day_text demo_store_empty demo_trace surjective_pairing late refl]
      Let_def day by (simp add: demo_day_calls)
  then show ?thesis by (simp add: demo_calls_def)
qed

end
