(* ===== verification/Catalogue_Cache.thy ===== *)
theory Catalogue_Cache
  imports Py_Runtime
begin

text \<open>
  The bounded response cache (\<open>BoundedResponseCache\<close> of \<open>api/services/catalogue_cache.py\<close>).

  The \<open>OrderedDict\<close> is an association list, oldest entry first. A key is a tuple whose last
  component is a text with a length; a value is the serialized page. Both methods hold the
  lock for their whole critical section, so a run is a sequence of whole operations. Popping
  from an empty dict would be the \<open>KeyError\<close> of \<open>popitem\<close>.
\<close>

section \<open>The cache\<close>

type_synonym 'a cache_key = "'a \<times> string"
type_synonym 'a cache_entries = "('a cache_key \<times> string) list"

record 'a response_cache =
  max_bytes :: int
  max_entries :: int
  entries :: "'a cache_entries"
  cache_size :: int

definition new_cache :: "int \<Rightarrow> int \<Rightarrow> 'a response_cache" where
  "new_cache mb me = \<lparr>max_bytes = mb, max_entries = me, entries = [], cache_size = 0\<rparr>"

definition entry_weight :: "'a cache_key \<Rightarrow> string \<Rightarrow> int" where
  "entry_weight k v = int (length v) + int (length (snd k))"

text \<open>\<open>entries.pop(key, None)\<close> leaves the other entries in order.\<close>

definition without :: "'a cache_key \<Rightarrow> 'a cache_entries \<Rightarrow> 'a cache_entries" where
  "without k es = filter (\<lambda>(k', _). k' \<noteq> k) es"

definition cache_get :: "'a cache_key \<Rightarrow> 'a response_cache \<Rightarrow> string option \<times> 'a response_cache" where
  "cache_get k c =
     (case map_of (entries c) k of
        None \<Rightarrow> (None, c)
      | Some v \<Rightarrow> (Some v, c\<lparr>entries := without k (entries c) @ [(k, v)]\<rparr>))"

fun evict :: "int \<Rightarrow> int \<Rightarrow> 'a cache_entries \<Rightarrow> int \<Rightarrow> (py_error, 'a cache_entries \<times> int) res" where
  "evict mb me [] sz = (if sz > mb \<or> 0 > me then Inl KeyError else Inr ([], sz))"
| "evict mb me ((k, v) # es) sz =
     (if sz > mb \<or> int (Suc (length es)) > me then evict mb me es (sz - entry_weight k v)
      else Inr ((k, v) # es, sz))"

definition cache_put :: "'a cache_key \<Rightarrow> string \<Rightarrow> 'a response_cache \<Rightarrow> (py_error, 'a response_cache) res" where
  "cache_put k v c =
     (if entry_weight k v > max_bytes c then Inr c
      else let previous = map_of (entries c) k;
               sz = cache_size c - (case previous of None \<Rightarrow> 0 | Some w \<Rightarrow> entry_weight k w);
               es = without k (entries c) @ [(k, v)]
           in rbind (evict (max_bytes c) (max_entries c) es (sz + entry_weight k v))
                (\<lambda>(es', sz'). Inr (c\<lparr>entries := es', cache_size := sz'\<rparr>)))"

section \<open>Runs\<close>

datatype 'a cache_op = CacheGet "'a cache_key" | CachePut "'a cache_key" string

fun cache_step :: "'a cache_op \<Rightarrow> 'a response_cache \<Rightarrow> (py_error, string option \<times> 'a response_cache) res" where
  "cache_step (CacheGet k) c = Inr (cache_get k c)"
| "cache_step (CachePut k v) c = rbind (cache_put k v c) (\<lambda>c'. Inr (None, c'))"

fun cache_run :: "'a cache_op list \<Rightarrow> 'a response_cache \<Rightarrow> (py_error, string option list \<times> 'a response_cache) res" where
  "cache_run [] c = Inr ([], c)"
| "cache_run (x # xs) c = rbind (cache_step x c) (\<lambda>(r, c'). rbind (cache_run xs c') (\<lambda>(rs, c''). Inr (r # rs, c'')))"

text \<open>
  What a mapping without eviction holds after a run: the last value written for the key, where
  a value heavier than the whole cache is not written.
\<close>

fun write_step :: "int \<Rightarrow> 'a cache_op \<Rightarrow> ('a cache_key \<rightharpoonup> string) \<Rightarrow> 'a cache_key \<rightharpoonup> string" where
  "write_step mb (CacheGet k) m = m"
| "write_step mb (CachePut k v) m = (if entry_weight k v > mb then m else m(k \<mapsto> v))"

definition written :: "int \<Rightarrow> 'a cache_op list \<Rightarrow> 'a cache_key \<rightharpoonup> string" where
  "written mb xs = fold (write_step mb) xs Map.empty"

section \<open>Invariant\<close>

definition total_weight :: "'a cache_entries \<Rightarrow> int" where
  "total_weight es = sum_list (map (\<lambda>(k, v). entry_weight k v) es)"

definition cache_ok :: "'a response_cache \<Rightarrow> bool" where
  "cache_ok c \<longleftrightarrow> distinct (map fst (entries c)) \<and> cache_size c = total_weight (entries c) \<and>
     cache_size c \<le> max_bytes c \<and> int (length (entries c)) \<le> max_entries c"

lemma total_weight_simps [simp]:
  "total_weight [] = 0" "total_weight ((k, v) # es) = entry_weight k v + total_weight es"
  "total_weight (es @ fs) = total_weight es + total_weight fs"
  by (simp_all add: total_weight_def)

lemma entry_weight_nonneg [simp]: "0 \<le> entry_weight k v"
  by (simp add: entry_weight_def)

lemma total_weight_nonneg [simp]: "0 \<le> total_weight es"
  by (induction es) auto

lemma without_notin: "k \<notin> fst ` set es \<Longrightarrow> without k es = es"
  by (force simp: without_def filter_id_conv)

lemma without_keys [simp]: "fst ` set (without k es) = fst ` set es - {k}"
  by (force simp: without_def)

lemma without_weight:
  "distinct (map fst es) \<Longrightarrow>
    total_weight (without k es) = total_weight es - (case map_of es k of None \<Rightarrow> 0 | Some w \<Rightarrow> entry_weight k w)"
proof (induction es)
  case (Cons e es)
  obtain k' v where e: "e = (k', v)" by (cases e)
  show ?case
  proof (cases "k' = k")
    case True
    with Cons.prems have "without k es = es" by (intro without_notin) (auto simp: e)
    with True show ?thesis by (simp add: e without_def)
  next
    case False
    with Cons show ?thesis by (simp add: e without_def)
  qed
qed (simp add: without_def)

lemma without_map_of [simp]: "map_of (without k es) j = (if j = k then None else map_of es j)"
  by (induction es) (auto simp: without_def)

lemma distinct_without [simp]: "distinct (map fst es) \<Longrightarrow> distinct (map fst (without k es))"
  by (induction es) (auto simp: without_def)

lemma length_without: "distinct (map fst es) \<Longrightarrow> map_of es k = Some v \<Longrightarrow> Suc (length (without k es)) = length es"
proof (induction es)
  case (Cons e es)
  then show ?case using without_notin [of k es] by (cases e) (auto simp: without_def)
qed simp

lemma cache_get_ok: "cache_ok c \<Longrightarrow> cache_ok (snd (cache_get k c))"
proof (cases "map_of (entries c) k")
  case (Some v)
  assume ok: "cache_ok c"
  then show ?thesis
    using Some length_without [of "entries c" k v] without_weight [of "entries c" k]
    by (auto simp: cache_ok_def cache_get_def)
qed (simp add: cache_get_def)

text \<open>
  Eviction drops the oldest entries and stops at the first suffix that fits, so it never
  empties the dict when the newest entry fits alone.
\<close>

lemma evict_suffix:
  assumes "sz = total_weight es" and "0 \<le> mb" "0 \<le> me"
  shows "\<exists>d es'. evict mb me es sz = Inr (es', total_weight es') \<and> es = d @ es' \<and>
    total_weight es' \<le> mb \<and> int (length es') \<le> me \<and>
    (\<forall>d1 x d2. d = d1 @ x # d2 \<longrightarrow> \<not> (total_weight (x # d2 @ es') \<le> mb \<and> int (length (x # d2 @ es')) \<le> me))"
  using assms
proof (induction es arbitrary: sz)
  case (Cons e es)
  obtain k v where e: "e = (k, v)" by (cases e)
  show ?case
  proof (cases "sz > mb \<or> int (Suc (length es)) > me")
    case True
    obtain d es' where IH: "evict mb me es (sz - entry_weight k v) = Inr (es', total_weight es')" "es = d @ es'"
      "total_weight es' \<le> mb" "int (length es') \<le> me"
      "\<forall>d1 x d2. d = d1 @ x # d2 \<longrightarrow> \<not> (total_weight (x # d2 @ es') \<le> mb \<and> int (length (x # d2 @ es')) \<le> me)"
      using Cons.IH [of "sz - entry_weight k v"] Cons.prems by (auto simp: e)
    have "\<not> (total_weight (x # d2 @ es') \<le> mb \<and> int (length (x # d2 @ es')) \<le> me)" if "e # d = d1 @ x # d2" for d1 x d2
    proof (cases d1)
      case Nil
      with that have "x # d2 @ es' = e # es" using IH(2) by simp
      then show ?thesis using True Cons.prems(1) by (auto simp: e)
    next
      case (Cons y ys)
      with that have "d = ys @ x # d2" by simp
      with IH(5) show ?thesis by blast
    qed
    then show ?thesis using True IH by (intro exI [of _ "e # d"] exI [of _ es']) (simp add: e)
  next
    case False
    then show ?thesis using Cons.prems by (intro exI [of _ "[]"] exI [of _ "e # es"]) (simp add: e)
  qed
qed simp

lemma cache_put_props:
  assumes ok: "cache_ok c" and "0 \<le> max_bytes c" "0 \<le> max_entries c"
  shows "\<exists>c'. cache_put k v c = Inr c' \<and> cache_ok c' \<and> max_bytes c' = max_bytes c \<and> max_entries c' = max_entries c \<and>
    (\<forall>j w. map_of (entries c') j = Some w \<longrightarrow>
       (if entry_weight k v > max_bytes c \<or> j \<noteq> k then map_of (entries c) j = Some w else w = v)) \<and>
    (entry_weight k v \<le> max_bytes c \<and> 1 \<le> max_entries c \<longrightarrow> map_of (entries c') k = Some v)"
proof (cases "entry_weight k v > max_bytes c")
  case True
  then show ?thesis using ok by (simp add: cache_put_def)
next
  case False
  let ?es = "without k (entries c) @ [(k, v)]"
  have dist: "distinct (map fst (entries c))" and size: "cache_size c = total_weight (entries c)"
    using ok by (auto simp: cache_ok_def)
  have sz: "cache_size c - (case map_of (entries c) k of None \<Rightarrow> 0 | Some w \<Rightarrow> entry_weight k w) + entry_weight k v = total_weight ?es"
    using without_weight [OF dist, of k] size by simp
  obtain d es' where ev: "evict (max_bytes c) (max_entries c) ?es (total_weight ?es) = Inr (es', total_weight es')"
      "?es = d @ es'" "total_weight es' \<le> max_bytes c" "int (length es') \<le> max_entries c"
      "\<forall>d1 x d2. d = d1 @ x # d2 \<longrightarrow>
         \<not> (total_weight (x # d2 @ es') \<le> max_bytes c \<and> int (length (x # d2 @ es')) \<le> max_entries c)"
    using evict_suffix [OF refl assms(2,3), of ?es] by blast
  define c' where "c' = c\<lparr>entries := es', cache_size := total_weight es'\<rparr>"
  have put: "cache_put k v c = Inr c'" using False ev(1) by (simp add: cache_put_def Let_def sz c'_def)
  have dist': "distinct (map fst ?es)" using dist by simp
  then have de: "distinct (map fst (d @ es'))" using ev(2) by simp
  have sub: "map_of ?es j = Some w" if "map_of es' j = Some w" for j w
  proof -
    have "(j, w) \<in> set ?es" using that map_of_SomeD unfolding ev(2) by fastforce
    then show ?thesis using dist' by (simp only: map_of_eq_Some_iff)
  qed
  have ok': "cache_ok c'" using de ev(3,4) by (auto simp: cache_ok_def c'_def)
  have "map_of es' k = Some v" if "1 \<le> max_entries c"
  proof (cases es' rule: rev_cases)
    case Nil
    then have "d = without k (entries c) @ (k, v) # []" using ev(2) by simp
    then have "\<not> (total_weight ((k, v) # [] @ es') \<le> max_bytes c \<and> int (length ((k, v) # [] @ es')) \<le> max_entries c)"
      using ev(5) by blast
    then have "\<not> (entry_weight k v \<le> max_bytes c \<and> 1 \<le> max_entries c)" using Nil by simp
    then show ?thesis using False that by simp
  next
    case (snoc ys y)
    have "List.last ?es = y" unfolding ev(2) snoc by simp
    then have "y = (k, v)" by simp
    then have "(k, v) \<in> set es'" using snoc by simp
    then show ?thesis using de by (simp add: map_of_eq_Some_iff)
  qed
  moreover have "if j \<noteq> k then map_of (entries c) j = Some w else w = v" if "map_of es' j = Some w" for j w
    using sub [OF that] by (auto simp: map_add_def split: if_splits option.splits)
  ultimately show ?thesis using put ok' False by (auto simp: c'_def)
qed

text \<open>A cache whose entries are all current: what it holds is what was last written.\<close>

lemma cache_get_entries: "map_of (entries (snd (cache_get k c))) j = map_of (entries c) j"
  by (cases "map_of (entries c) k") (auto simp: cache_get_def map_add_def split: option.splits)


definition coherent :: "('a cache_key \<rightharpoonup> string) \<Rightarrow> 'a response_cache \<Rightarrow> bool" where
  "coherent m c \<longleftrightarrow> (\<forall>k v. map_of (entries c) k = Some v \<longrightarrow> m k = Some v)"

lemma cache_step_coherent:
  assumes "cache_ok c" "0 \<le> max_bytes c" "0 \<le> max_entries c" "coherent m c"
  shows "\<exists>r c'. cache_step x c = Inr (r, c') \<and> cache_ok c' \<and> max_bytes c' = max_bytes c \<and> max_entries c' = max_entries c \<and>
    coherent (write_step (max_bytes c) x m) c' \<and>
    (\<forall>k. x = CacheGet k \<longrightarrow> r = map_of (entries c) k)"
proof (cases x)
  case (CacheGet k)
  have "fst (cache_get k c) = map_of (entries c) k" by (simp add: cache_get_def split: option.splits)
  moreover have "max_bytes (snd (cache_get k c)) = max_bytes c" "max_entries (snd (cache_get k c)) = max_entries c"
    by (simp_all add: cache_get_def split: option.splits)
  ultimately show ?thesis
    using CacheGet assms cache_get_ok [of c k] by (cases "cache_get k c") (auto simp: coherent_def cache_get_entries [of k c, symmetric])
next
  case (CachePut k v)
  obtain c' where "cache_put k v c = Inr c'" "cache_ok c'" "max_bytes c' = max_bytes c" "max_entries c' = max_entries c"
      "\<forall>j w. map_of (entries c') j = Some w \<longrightarrow>
         (if entry_weight k v > max_bytes c \<or> j \<noteq> k then map_of (entries c) j = Some w else w = v)"
    using cache_put_props [OF assms(1-3), of k v] by blast
  then show ?thesis using CachePut assms(4) by (auto simp: coherent_def split: if_splits)
qed

lemma cache_run_coherent:
  assumes "cache_ok c" "0 \<le> max_bytes c" "0 \<le> max_entries c" "coherent m c"
  shows "\<exists>rs c'. cache_run xs c = Inr (rs, c') \<and> length rs = length xs \<and> cache_ok c' \<and> max_bytes c' = max_bytes c \<and>
    max_entries c' = max_entries c \<and> coherent (fold (write_step (max_bytes c)) xs m) c' \<and>
    (\<forall>i k v. i < length xs \<longrightarrow> xs ! i = CacheGet k \<longrightarrow> rs ! i = Some v \<longrightarrow>
       fold (write_step (max_bytes c)) (take i xs) m k = Some v)"
  using assms
proof (induction xs arbitrary: c m)
  case (Cons x xs)
  obtain r c1 where step: "cache_step x c = Inr (r, c1)" "cache_ok c1" "max_bytes c1 = max_bytes c" "max_entries c1 = max_entries c"
      "coherent (write_step (max_bytes c) x m) c1" "\<forall>k. x = CacheGet k \<longrightarrow> r = map_of (entries c) k"
    using cache_step_coherent [OF Cons.prems, of x] by blast
  obtain rs c' where run: "cache_run xs c1 = Inr (rs, c')" "length rs = length xs" "cache_ok c'" "max_bytes c' = max_bytes c1"
      "max_entries c' = max_entries c1" "coherent (fold (write_step (max_bytes c1)) xs (write_step (max_bytes c) x m)) c'"
      "\<forall>i k v. i < length xs \<longrightarrow> xs ! i = CacheGet k \<longrightarrow> rs ! i = Some v \<longrightarrow>
         fold (write_step (max_bytes c1)) (take i xs) (write_step (max_bytes c) x m) k = Some v"
    using Cons.IH [OF step(2) _ _ step(5)] Cons.prems(2,3) step(3,4) by fastforce
  have "fold (write_step (max_bytes c)) (take i (x # xs)) m k = Some v"
    if "i < length (x # xs)" "(x # xs) ! i = CacheGet k" "(r # rs) ! i = Some v" for i k v
  proof (cases i)
    case 0
    then have "map_of (entries c) k = Some v" using that step(6) by simp
    then have "m k = Some v" using Cons.prems(4) unfolding coherent_def by blast
    then show ?thesis using 0 by simp
  next
    case (Suc j)
    then have "j < length xs" "xs ! j = CacheGet k" "rs ! j = Some v" using that by simp_all
    with run(7) have "fold (write_step (max_bytes c1)) (take j xs) (write_step (max_bytes c) x m) k = Some v" by blast
    then show ?thesis using Suc step(3) by simp
  qed
  then show ?case using step run by (intro exI [of _ "r # rs"] exI [of _ c']) simp
qed simp

text \<open>
  C30. Whatever sequence of reads and writes reaches the cache, it never raises, never holds more
  than its byte and entry bounds, keeps its size field exact, and a hit returns the last value
  written for that very key (a value heavier than the whole cache is not written, and the entry
  it would replace stays). A value that fits is in the cache right after it was written.
\<close>

theorem cache_bounded_coherent:
  assumes "0 \<le> mb" and "0 \<le> me"
  shows "\<exists>rs c. cache_run xs (new_cache mb me) = Inr (rs, c) \<and> length rs = length xs \<and>
    cache_size c = total_weight (entries c) \<and> cache_size c \<le> mb \<and> int (length (entries c)) \<le> me \<and>
    (\<forall>i k v. i < length xs \<longrightarrow> xs ! i = CacheGet k \<longrightarrow> rs ! i = Some v \<longrightarrow> written mb (take i xs) k = Some v) \<and>
    (\<forall>k v. entry_weight k v \<le> mb \<and> 1 \<le> me \<longrightarrow> (\<exists>c'. cache_put k v c = Inr c' \<and> fst (cache_get k c') = Some v))"
proof -
  have new: "cache_ok (new_cache mb me)" "max_bytes (new_cache mb me) = mb" "max_entries (new_cache mb me) = me"
      "coherent Map.empty (new_cache mb me)"
    using assms by (simp_all add: cache_ok_def new_cache_def coherent_def)
  obtain rs c where run: "cache_run xs (new_cache mb me) = Inr (rs, c)" "length rs = length xs" "cache_ok c"
      "max_bytes c = mb" "max_entries c = me"
      "\<forall>i k v. i < length xs \<longrightarrow> xs ! i = CacheGet k \<longrightarrow> rs ! i = Some v \<longrightarrow> written mb (take i xs) k = Some v"
    using cache_run_coherent [OF new(1) _ _ new(4), of xs, unfolded new(2,3), OF assms] unfolding written_def by blast
  have "\<exists>c'. cache_put k v c = Inr c' \<and> fst (cache_get k c') = Some v" if "entry_weight k v \<le> mb" "1 \<le> me" for k v
  proof -
    have "entry_weight k v \<le> max_bytes c \<and> 1 \<le> max_entries c" "0 \<le> max_bytes c" "0 \<le> max_entries c"
      using run(4,5) assms that by simp_all
    then obtain c' where "cache_put k v c = Inr c'" "map_of (entries c') k = Some v"
      using cache_put_props [OF run(3), of k v] by blast
    then show ?thesis by (auto simp: cache_get_def)
  qed
  then show ?thesis using run by (auto simp: cache_ok_def)
qed

theorem cache_bounded_coherent_witness:
  "\<exists>rs c. cache_run [CachePut ((), ''a'') ''xyz'', CachePut ((), ''b'') ''uvw'', CacheGet ((), ''a'')] (new_cache 7 2) = Inr (rs, c) \<and>
     length rs = 3 \<and> cache_size c \<le> 7"
  using cache_bounded_coherent [of 7 2 "[CachePut ((), ''a'') ''xyz'', CachePut ((), ''b'') ''uvw'', CacheGet ((), ''a'')]"]
  by fastforce

end
