(* ===== verification/Scientific_Values.thy ===== *)
theory Scientific_Values
  imports Number_Text Evidence_Contract
begin

text \<open>
  The quantity parser (\<open>api/services/scientific_values.py\<close>, shared with the ingestion side): one
  reported value with its unit becomes a proposal that keeps the raw input and never turns a
  range or a bound into a point.

  The proposal is a record here and \<open>quantity_dict\<close> is the dict the code returns. The SHA-256 of
  the JSON of the hashed fields is an argument (\<open>sv_digest\<close>); that JSON is rendered first, so its
  errors are errors of the parser. The dicts of a record have string keys, as JSON gives them.
\<close>

section \<open>Units\<close>

definition PARSER_VERSION :: string where "PARSER_VERSION = ''scientific-value/1.0.0''"

text \<open>Spellings and factors of each canonical unit, the factor as \<open>Decimal(str(factor))\<close>.\<close>

definition UNITS :: "(string \<times> (string \<times> int \<times> int) list) list" where
  "UNITS =
     [(''K'', [(''K'', 1, 0), (''k'', 1, 0), (''kelvin'', 1, 0), (''Kelvin'', 1, 0), (''mK'', 1, -3)]),
      (''GPa'', [(''GPa'', 1, 0), (''gpa'', 1, 0), (''MPa'', 1, -3), (''kPa'', 1, -6), (''Pa'', 1, -9), (''bar'', 1, -4),
                 (''kbar'', 1, -1), (''atm'', 101325, -9)]),
      (''T'', [(''T'', 1, 0), (''t'', 1, 0), (''tesla'', 1, 0), (''Tesla'', 1, 0), (''mT'', 1, -3)]),
      (''angstrom'', [(''angstrom'', 1, 0), (''angstroms'', 1, 0), (''nm'', 10, 0), (''pm'', 1, -2)]),
      (''nm'', [(''nm'', 1, 0), (''pm'', 1, -3), (''angstrom'', 1, -1), (''angstroms'', 1, -1)]),
      (''degree'', [(''degree'', 1, 0), (''degrees'', 1, 0), (''deg'', 1, 0)]),
      (''meV'', [(''meV'', 1, 0), (''eV'', 1000, 0)]),
      (''1'', [(''1'', 1, 0), (''dimensionless'', 1, 0)])]"

definition field_unit :: "string \<Rightarrow> string" where
  "field_unit f = (case map_of FIELD_UNITS f of None \<Rightarrow> [] | Some u \<Rightarrow> u)"

definition unit_aliases :: "string \<Rightarrow> (string \<times> int \<times> int) list" where
  "unit_aliases f =
     (case map_of UNITS (field_unit f) of None \<Rightarrow> [] | Some us \<Rightarrow> us) @
     (if f = ''omega_log_source_value'' then [(''meV'', 116045, -4), (''cm^-1'', 143877, -5), (''THz'', 479924, -4)] else []) @
     (if f = ''doping_level'' then [(''%'', 1, -2)] else [])"

text \<open>\<open>_SCALAR\<close>: a number and a unit that starts with neither a digit nor a space.\<close>

definition SCALAR :: "(string \<times> string) pat" where
  "SCALAR = p_bind NUMBER (\<lambda>a. p_bind (p_many is_space) (\<lambda>_.
     p_bind (p_alt (p_seq (p_char (\<lambda>c. \<not> is_digit_char c \<and> \<not> is_space c)) p_rest) (p_ret [])) (\<lambda>u. p_ret (a, u))))"

section \<open>Proposals\<close>

record quantity =
  q_field :: string
  q_raw_value :: pyval
  q_raw_unit :: pyval
  q_input_unit :: pyval
  q_source_context :: pyval
  q_source_locator :: pyval
  q_status :: string
  q_relation :: string
  q_kind :: string
  q_value :: "pyfloat option"
  q_lower :: "pyfloat option"
  q_upper :: "pyfloat option"
  q_uncertainty :: "pyfloat option"
  q_interpretation :: "string option"
  q_approximate :: bool
  q_unit :: string
  q_basis :: string
  q_errors :: "string list"
  q_hash :: string
  q_convention :: "string option"
  q_endpoints :: "pyval list option"

record quantity_env = text_env +
  sv_digest :: "pyval \<Rightarrow> string"
  sv_float_text :: "rat \<Rightarrow> string"

definition opt_float_py :: "pyfloat option \<Rightarrow> pyval" where
  "opt_float_py x = (case x of None \<Rightarrow> PNone | Some f \<Rightarrow> PFloat f)"

definition opt_str_py :: "string option \<Rightarrow> pyval" where
  "opt_str_py x = (case x of None \<Rightarrow> PNone | Some s \<Rightarrow> PStr s)"

definition quantity_dict :: "quantity \<Rightarrow> pyval" where
  "quantity_dict q = PDict
     ([(PStr ''parser_version'', PStr PARSER_VERSION), (PStr ''field'', PStr (q_field q)), (PStr ''raw_value'', q_raw_value q),
       (PStr ''raw_unit'', q_raw_unit q), (PStr ''input_unit'', q_input_unit q), (PStr ''source_context'', q_source_context q),
       (PStr ''source_locator'', q_source_locator q), (PStr ''status'', PStr (q_status q)), (PStr ''relation'', PStr (q_relation q)),
       (PStr ''value_kind'', PStr (q_kind q)), (PStr ''value'', opt_float_py (q_value q)), (PStr ''lower'', opt_float_py (q_lower q)),
       (PStr ''upper'', opt_float_py (q_upper q)), (PStr ''uncertainty'', opt_float_py (q_uncertainty q)),
       (PStr ''uncertainty_interpretation'', opt_str_py (q_interpretation q)), (PStr ''approximate'', PBool (q_approximate q)),
       (PStr ''unit'', PStr (q_unit q)), (PStr ''unit_basis'', PStr (q_basis q)), (PStr ''errors'', PList (map PStr (q_errors q))),
       (PStr ''proposal_hash'', PStr (q_hash q))] @
      (case q_convention q of None \<Rightarrow> [] | Some t \<Rightarrow> [(PStr ''conversion_convention'', PStr t)]) @
      (case q_endpoints q of None \<Rightarrow> [] | Some es \<Rightarrow> [(PStr ''endpoint_proposals'', PList es)]))"

text \<open>The unreported proposal every call starts from, with its hash.\<close>

definition base_quantity ::
  "'e quantity_env_scheme \<Rightarrow> string \<Rightarrow> pyval \<Rightarrow> pyval \<Rightarrow> pyval \<Rightarrow> pyval \<Rightarrow> (py_error, quantity) res" where
  "base_quantity env field unit ctx loc raw =
     (if field \<notin> fst ` set FIELD_UNITS then Inl (ValueError (''Unknown scientific field: '' @ field))
      else let te = text_env.truncate env; rv = raw_json te raw; sl = raw_json te (if truthy loc then loc else PDict []);
               hashed = PDict [(PStr ''field'', PStr field), (PStr ''raw_value'', rv), (PStr ''raw_unit'', unit),
                               (PStr ''source_context'', ctx), (PStr ''source_locator'', sl)]
           in rbind (json_text (sv_float_text env) hashed) (\<lambda>_.
                Inr \<lparr>q_field = field, q_raw_value = rv, q_raw_unit = unit, q_input_unit = unit, q_source_context = ctx,
                  q_source_locator = sl, q_status = ''unreported'', q_relation = ''unreported'', q_kind = ''unreported'',
                  q_value = None, q_lower = None, q_upper = None, q_uncertainty = None, q_interpretation = None,
                  q_approximate = False, q_unit = field_unit field, q_basis = ''unreported'', q_errors = [],
                  q_hash = sv_digest env hashed, q_convention = None, q_endpoints = None\<rparr>))"

definition invalid_quantity :: "quantity \<Rightarrow> string \<Rightarrow> (py_error, quantity) res" where
  "invalid_quantity q reason =
     Inr (q\<lparr>q_status := ''invalid'', q_errors := [reason], q_relation := ''unreported'', q_kind := ''unreported'',
            q_value := None, q_lower := None, q_upper := None\<rparr>)"

definition plain_quantity :: "quantity \<Rightarrow> bool" where
  "plain_quantity e \<longleftrightarrow> q_status e = ''parsed'' \<and> q_relation e = ''exact'' \<and> q_uncertainty e = None \<and> \<not> q_approximate e"

definition interval_quantity :: "quantity \<Rightarrow> quantity \<Rightarrow> quantity \<Rightarrow> (py_error, quantity) res" where
  "interval_quantity q a b =
     (if \<not> (plain_quantity a \<and> plain_quantity b) then invalid_quantity q ''invalid_interval_endpoints''
      else if below (q_value b) (q_value a) then invalid_quantity q ''reversed_interval''
      else Inr (q\<lparr>q_status := ''parsed'', q_relation := ''interval'', q_kind := ''interval'', q_lower := q_value a,
             q_upper := q_value b, q_basis := ''endpoint_units'', q_endpoints := Some [quantity_dict a, quantity_dict b]\<rparr>))"

section \<open>Reading one text\<close>

definition token_kind :: "number_tokens \<Rightarrow> string" where
  "token_kind tk =
     (if pt_uncertainty tk \<noteq> None then ''point_with_uncertainty''
      else if pt_relation tk = ''exact'' then ''point''
      else if pt_relation tk = ''interval'' then ''interval''
      else if pt_relation tk \<in> {''lt'', ''le''} then ''upper_bound'' else ''lower_bound'')"

text \<open>The converted numbers, checked and stored.\<close>

definition store_numbers ::
  "quantity \<Rightarrow> number_tokens \<Rightarrow> pyfloat option \<Rightarrow> pyfloat option \<Rightarrow> pyfloat option \<Rightarrow> pyfloat option \<Rightarrow> (py_error, quantity) res" where
  "store_numbers q tk v l h d =
     (if \<not> list_all finite_or_absent [v, l, h, d] then invalid_quantity q ''nonfinite_quantity''
      else if below d (Some (Finite 0)) then invalid_quantity q ''negative_uncertainty''
      else if pt_relation tk = ''interval'' \<and> below h l then invalid_quantity q ''reversed_interval''
      else Inr (q\<lparr>q_value := v, q_lower := l, q_upper := h, q_uncertainty := d, q_status := ''parsed'',
             q_relation := pt_relation tk, q_kind := token_kind tk\<rparr>))"

text \<open>\<open>decimal.InvalidOperation\<close> is not in the \<open>except\<close> clause either.\<close>

definition convert_tokens :: "quantity \<Rightarrow> int \<times> int \<Rightarrow> number_tokens \<Rightarrow> (py_error, quantity) res" where
  "convert_tokens q factor tk =
     rbind (token_numbers factor [pt_value tk, pt_lower tk, pt_upper tk, pt_uncertainty tk]) (\<lambda>r.
       case r of Some [v, l, h, d] \<Rightarrow> store_numbers q tk v l h d | _ \<Rightarrow> Inl DecimalInvalid)"

definition convert_units :: "text_env \<Rightarrow> string \<Rightarrow> pyval \<Rightarrow> quantity \<Rightarrow> number_tokens \<Rightarrow> (py_error, quantity) res" where
  "convert_units env field raw_unit q0 tk =
     (let q = (if pt_uncertainty tk \<noteq> None then q0\<lparr>q_interpretation := Some ''unspecified''\<rparr> else q0);
          inline = py_strip (pt_unit tk); aliases = unit_aliases field
      in rbind (if raw_unit = PNone then Inr [] else rbind (text_of env raw_unit) (\<lambda>t. Inr (py_strip t))) (\<lambda>explicit.
           let q1 = (if field = ''omega_log_source_value''
                     then q\<lparr>q_convention := Some ''energy/k_B; cyclic_frequency*h/k_B; wavenumber*h*c/k_B''\<rparr> else q);
               unit = (if inline \<noteq> [] then inline else explicit)
           in if inline \<noteq> [] \<and> explicit \<noteq> [] \<and>
                 (map_of aliases inline = None \<or> map_of aliases explicit = None \<or> map_of aliases inline \<noteq> map_of aliases explicit)
              then invalid_quantity q1 ''conflicting_units''
              else if field = ''omega_log_source_value'' \<and> unit = [] then invalid_quantity q1 ''missing_source_unit''
              else if unit \<noteq> [] \<and> map_of aliases unit = None then invalid_quantity q1 ''unit_mismatch''
              else convert_tokens
                     (q1\<lparr>q_raw_unit := (if raw_unit \<noteq> PNone then raw_unit else if inline \<noteq> [] then PStr inline else PNone),
                         q_basis := (if unit \<noteq> [] then ''explicit'' else if field_unit field = ''1'' then ''dimensionless''
                                     else ''field_schema_assumption'')\<rparr>)
                     (case map_of aliases unit of None \<Rightarrow> (1, 0) | Some f \<Rightarrow> f) tk))"

definition read_quantity :: "text_env \<Rightarrow> string \<Rightarrow> pyval \<Rightarrow> quantity \<Rightarrow> string \<Rightarrow> (py_error, quantity) res" where
  "read_quantity env field raw_unit q raw_text =
     (let text0 = py_strip raw_text;
          (q', t) = (case APPROX text0 of [] \<Rightarrow> (q, text0) | (_, rest) # _ \<Rightarrow> (q\<lparr>q_approximate := True\<rparr>, py_strip rest))
      in case tokens_with SCALAR t of
           None \<Rightarrow> invalid_quantity q' ''unsupported_quantity_syntax''
         | Some tk \<Rightarrow> convert_units env field raw_unit q' tk)"

text \<open>\<open>math.isfinite(float(raw))\<close>, with the overflow of a large integer caught.\<close>

fun finite_raw :: "pyval \<Rightarrow> bool" where
  "finite_raw (PInt i) = (float_of_int i \<noteq> None)"
| "finite_raw (PFloat (Finite _)) = True"
| "finite_raw (PFloat _) = False"
| "finite_raw _ = True"

definition scalar_quantity :: "text_env \<Rightarrow> string \<Rightarrow> pyval \<Rightarrow> pyval \<Rightarrow> quantity \<Rightarrow> (py_error, quantity) res" where
  "scalar_quantity env field unit raw q =
     (if raw = PNone \<or> raw = PStr [] then Inr q
      else if is_bool raw then invalid_quantity q ''boolean_not_quantity''
      else case raw of
             PDict _ \<Rightarrow> invalid_quantity q ''unsupported_quantity_type''
           | POpaque _ \<Rightarrow> invalid_quantity q ''unsupported_quantity_type''
           | PList _ \<Rightarrow> invalid_quantity q ''unsupported_quantity_sequence''
           | PTuple _ \<Rightarrow> invalid_quantity q ''unsupported_quantity_sequence''
           | _ \<Rightarrow> if \<not> finite_raw raw then invalid_quantity q ''nonfinite_quantity''
                  else rbind (text_of env raw) (read_quantity env field unit q))"

fun parse_scientific_value ::
  "'e quantity_env_scheme \<Rightarrow> string \<Rightarrow> pyval \<Rightarrow> pyval \<Rightarrow> pyval \<Rightarrow> pyval \<Rightarrow> (py_error, quantity) res" where
  "parse_scientific_value env field unit ctx loc (PList [a, b]) =
     rbind (base_quantity env field unit ctx loc (PList [a, b])) (\<lambda>q.
     rbind (parse_scientific_value env field unit PNone PNone a) (\<lambda>x.
     rbind (parse_scientific_value env field unit PNone PNone b) (\<lambda>y. interval_quantity q x y)))"
| "parse_scientific_value env field unit ctx loc (PTuple [a, b]) =
     rbind (base_quantity env field unit ctx loc (PTuple [a, b])) (\<lambda>q.
     rbind (parse_scientific_value env field unit PNone PNone a) (\<lambda>x.
     rbind (parse_scientific_value env field unit PNone PNone b) (\<lambda>y. interval_quantity q x y)))"
| "parse_scientific_value env field unit ctx loc raw =
     rbind (base_quantity env field unit ctx loc raw) (scalar_quantity (text_env.truncate env) field unit raw)"

section \<open>Records\<close>

definition missing_proposal :: "quantity \<Rightarrow> quantity" where
  "missing_proposal q =
     q\<lparr>q_status := ''invalid'', q_errors := [''missing_raw_proposal''], q_relation := ''unreported'', q_kind := ''unreported'',
       q_value := None, q_lower := None, q_upper := None, q_uncertainty := None, q_interpretation := None,
       q_approximate := False, q_basis := ''unreported''\<rparr>"

definition record_quantity ::
  "'e quantity_env_scheme \<Rightarrow> pyval \<Rightarrow> string \<Rightarrow> string list \<Rightarrow> (py_error, quantity) res" where
  "record_quantity env r field aliases =
     (let proposals = pget r ''scientific_values''; proposal = pget proposals field
      in if is_mapping proposals \<and> phas proposals field \<and> \<not> (is_mapping proposal \<and> phas proposal ''raw_value'')
         then rbind (parse_scientific_value env field
                (if is_mapping proposal then get_or proposal ''input_unit'' (pget proposal ''raw_unit'') else PNone)
                (if is_mapping proposal then pget proposal ''source_context'' else PNone)
                (if is_mapping proposal then pget proposal ''source_locator'' else PNone) proposal)
              (\<lambda>q. Inr (missing_proposal q))
         else if is_mapping proposals \<and> is_mapping proposal \<and> phas proposal ''raw_value''
         then parse_scientific_value env field (get_or proposal ''input_unit'' (pget proposal ''raw_unit''))
                (pget proposal ''source_context'') (pget proposal ''source_locator'') (pget proposal ''raw_value'')
         else let k = (case find (\<lambda>k. pget r k \<noteq> PNone) (field # aliases) of None \<Rightarrow> field | Some k \<Rightarrow> k)
              in parse_scientific_value env field (pget r (k @ ''_unit''))
                   (if truthy (pget r ''evidence_text'') then pget r ''evidence_text'' else pget r ''source_quote'')
                   (if is_mapping (pget r ''source_locator'') then pget r ''source_locator'' else PNone) (pget r k))"

definition legacy_scalar :: "pyval \<Rightarrow> pyval" where
  "legacy_scalar p =
     (if pget p ''status'' = PStr ''parsed'' \<and> pget p ''relation'' = PStr ''exact'' then pget p ''value'' else PNone)"

section \<open>What a proposal can be\<close>

text \<open>
  \<open>blank_quantity\<close>: no result yet. \<open>good_quantity\<close>: the status, the relation, the errors and the
  numbers that are there agree with each other. \<open>same_source\<close>: what was reported is kept.
\<close>

definition no_numbers :: "quantity \<Rightarrow> bool" where
  "no_numbers q \<longleftrightarrow> q_value q = None \<and> q_lower q = None \<and> q_upper q = None \<and> q_uncertainty q = None"

definition blank_quantity :: "quantity \<Rightarrow> bool" where
  "blank_quantity q \<longleftrightarrow> q_status q = ''unreported'' \<and> q_relation q = ''unreported'' \<and> no_numbers q \<and> q_errors q = []"

definition good_quantity :: "quantity \<Rightarrow> bool" where
  "good_quantity q \<longleftrightarrow>
     list_all finite_or_absent [q_value q, q_lower q, q_upper q, q_uncertainty q] \<and>
     \<not> below (q_uncertainty q) (Some (Finite 0)) \<and> \<not> below (q_upper q) (q_lower q) \<and>
     (q_status q = ''unreported'' \<and> q_relation q = ''unreported'' \<and> no_numbers q \<and> q_errors q = [] \<or>
      q_status q = ''invalid'' \<and> q_relation q = ''unreported'' \<and> no_numbers q \<and> q_errors q \<noteq> [] \<or>
      q_status q = ''parsed'' \<and> q_errors q = [] \<and>
        relation_shape (q_relation q) (q_value q) (q_lower q) (q_upper q) (q_uncertainty q))"

definition same_source :: "quantity \<Rightarrow> quantity \<Rightarrow> bool" where
  "same_source q q' \<longleftrightarrow> q_field q' = q_field q \<and> q_raw_value q' = q_raw_value q \<and> q_input_unit q' = q_input_unit q \<and>
     q_source_context q' = q_source_context q \<and> q_source_locator q' = q_source_locator q \<and> q_unit q' = q_unit q \<and> q_hash q' = q_hash q"

definition settled :: "quantity \<Rightarrow> (py_error, quantity) res \<Rightarrow> bool" where
  "settled q r \<longleftrightarrow> (case r of Inl _ \<Rightarrow> True | Inr q' \<Rightarrow> good_quantity q' \<and> same_source q q')"

lemma settled_simps [simp]: "settled q (Inl e)" "settled q (Inr q') \<longleftrightarrow> good_quantity q' \<and> same_source q q'"
  by (simp_all add: settled_def)

lemma settled_rbind: "(\<And>x. r = Inr x \<Longrightarrow> settled q (f x)) \<Longrightarrow> settled q (rbind r f)"
  by (cases r) simp_all

lemma settled_source: "same_source p q \<Longrightarrow> settled q r \<Longrightarrow> settled p r"
  by (cases r) (simp_all add: same_source_def)

lemma no_numbers_good: "no_numbers q \<Longrightarrow> list_all finite_or_absent [q_value q, q_lower q, q_upper q, q_uncertainty q] \<and>
     \<not> below (q_uncertainty q) (Some (Finite 0)) \<and> \<not> below (q_upper q) (q_lower q)"
  by (simp add: no_numbers_def below_def)

lemma settled_invalid: "blank_quantity q \<Longrightarrow> settled q (invalid_quantity q e)"
  by (simp add: blank_quantity_def invalid_quantity_def good_quantity_def same_source_def no_numbers_def below_def)

lemma good_blank: "blank_quantity q \<Longrightarrow> good_quantity q"
  using no_numbers_good by (simp add: blank_quantity_def good_quantity_def)

lemma settled_store:
  assumes blank: "blank_quantity q" and shape: "relation_shape (pt_relation tk) v l h d"
  shows "settled q (store_numbers q tk v l h d)"
proof (cases "\<not> list_all finite_or_absent [v, l, h, d] \<or> below d (Some (Finite 0)) \<or> pt_relation tk = ''interval'' \<and> below h l")
  case True
  then show ?thesis using settled_invalid [OF blank] by (auto simp: store_numbers_def)
next
  case False
  have "\<not> below h l"
    using shape False unfolding relation_shape_def by (elim disjE conjE) (simp_all add: below_def split: option.split)
  moreover have "store_numbers q tk v l h d = Inr (q\<lparr>q_value := v, q_lower := l, q_upper := h, q_uncertainty := d,
      q_status := ''parsed'', q_relation := pt_relation tk, q_kind := token_kind tk\<rparr>)"
    using False unfolding store_numbers_def by (auto split: if_split)
  ultimately show ?thesis
    using False shape blank by (simp add: good_quantity_def same_source_def blank_quantity_def)
qed

lemma shape_presence:
  assumes "relation_shape r a b c d"
    and "a = None \<longleftrightarrow> v = None" "b = None \<longleftrightarrow> l = None" "c = None \<longleftrightarrow> h = None" "d = None \<longleftrightarrow> e = None"
  shows "relation_shape r v l h e"
  using assms unfolding relation_shape_def by (elim disjE) simp_all

lemma settled_convert:
  assumes blank: "blank_quantity q"
    and shape: "relation_shape (pt_relation tk) (pt_value tk) (pt_lower tk) (pt_upper tk) (pt_uncertainty tk)"
  shows "settled q (convert_tokens q f tk)"
  unfolding convert_tokens_def
proof (rule settled_rbind)
  fix r
  assume r: "token_numbers f [pt_value tk, pt_lower tk, pt_upper tk, pt_uncertainty tk] = Inr r"
  show "settled q (case r of Some [v, l, h, d] \<Rightarrow> store_numbers q tk v l h d | _ \<Rightarrow> Inl DecimalInvalid)"
  proof (cases r)
    case (Some xs)
    with r have "list_all2 (\<lambda>t x. t = None \<longleftrightarrow> x = None) [pt_value tk, pt_lower tk, pt_upper tk, pt_uncertainty tk] xs"
      using token_numbers_presence by blast
    then obtain v l h d where xs: "xs = [v, l, h, d]"
        and pres: "pt_value tk = None \<longleftrightarrow> v = None" "pt_lower tk = None \<longleftrightarrow> l = None" "pt_upper tk = None \<longleftrightarrow> h = None"
          "pt_uncertainty tk = None \<longleftrightarrow> d = None"
      by (auto simp: list_all2_Cons1)
    show ?thesis using settled_store [OF blank shape_presence [OF shape pres]] by (simp add: Some xs)
  qed simp
qed

lemma blank_updates [simp]:
  "blank_quantity (q\<lparr>q_interpretation := i\<rparr>) = blank_quantity q" "blank_quantity (q\<lparr>q_convention := c\<rparr>) = blank_quantity q"
  "blank_quantity (q\<lparr>q_raw_unit := u\<rparr>) = blank_quantity q" "blank_quantity (q\<lparr>q_basis := b\<rparr>) = blank_quantity q"
  "blank_quantity (q\<lparr>q_approximate := a\<rparr>) = blank_quantity q"
  by (simp_all add: blank_quantity_def no_numbers_def)

lemma same_source_updates [simp]:
  "same_source q q" "same_source q (q\<lparr>q_approximate := a\<rparr>)"
  "same_source q (p\<lparr>q_interpretation := i\<rparr>) = same_source q p" "same_source q (p\<lparr>q_convention := c\<rparr>) = same_source q p"
  "same_source q (p\<lparr>q_raw_unit := u\<rparr>) = same_source q p" "same_source q (p\<lparr>q_basis := b\<rparr>) = same_source q p"
  by (simp_all add: same_source_def)

lemma settled_units:
  assumes blank: "blank_quantity q"
    and shape: "relation_shape (pt_relation tk) (pt_value tk) (pt_lower tk) (pt_upper tk) (pt_uncertainty tk)"
  shows "settled q (convert_units env field u q tk)"
proof -
  define q0 where "q0 = (if pt_uncertainty tk \<noteq> None then q\<lparr>q_interpretation := Some ''unspecified''\<rparr> else q)"
  define q1 where "q1 = (if field = ''omega_log_source_value''
      then q0\<lparr>q_convention := Some ''energy/k_B; cyclic_frequency*h/k_B; wavenumber*h*c/k_B''\<rparr> else q0)"
  have keep: "blank_quantity q1" "same_source q q1" using blank by (simp_all add: q1_def q0_def)
  have inv: "settled q (invalid_quantity q1 e)" for e
    using settled_source [OF keep(2) settled_invalid [OF keep(1)]] .
  have conv: "settled q (convert_tokens (q1\<lparr>q_raw_unit := w, q_basis := b\<rparr>) f tk)" for w b f
  proof (rule settled_source)
    show "same_source q (q1\<lparr>q_raw_unit := w, q_basis := b\<rparr>)" using keep(2) by simp
    show "settled (q1\<lparr>q_raw_unit := w, q_basis := b\<rparr>) (convert_tokens (q1\<lparr>q_raw_unit := w, q_basis := b\<rparr>) f tk)"
      by (rule settled_convert [OF _ shape]) (use keep(1) in simp)
  qed
  show ?thesis
    unfolding convert_units_def Let_def q0_def [symmetric] q1_def [symmetric]
    by (rule settled_rbind) (simp only: inv conv split: if_split, simp)
qed

lemma settled_read:
  assumes "blank_quantity q"
  shows "settled q (read_quantity env field u q t)"
proof -
  define pr where "pr = (case APPROX (py_strip t) of [] \<Rightarrow> (q, py_strip t) | (_, rest) # _ \<Rightarrow> (q\<lparr>q_approximate := True\<rparr>, py_strip rest))"
  have keep: "blank_quantity (fst pr)" "same_source q (fst pr)"
    using assms by (simp_all add: pr_def split: list.splits prod.splits)
  have eq: "read_quantity env field u q t = (case tokens_with SCALAR (snd pr) of
      None \<Rightarrow> invalid_quantity (fst pr) ''unsupported_quantity_syntax'' | Some tk \<Rightarrow> convert_units env field u (fst pr) tk)"
    unfolding read_quantity_def Let_def pr_def [symmetric] by (simp add: case_prod_unfold)
  show ?thesis
  proof (rule settled_source [OF keep(2)], cases "tokens_with SCALAR (snd pr)")
    case None
    show "settled (fst pr) (read_quantity env field u q t)" unfolding eq None option.case by (rule settled_invalid [OF keep(1)])
  next
    case (Some tk)
    show "settled (fst pr) (read_quantity env field u q t)" unfolding eq Some option.case
      by (rule settled_units [OF keep(1) tokens_relation_shape [OF Some]])
  qed
qed

lemma settled_scalar:
  assumes blank: "blank_quantity q"
  shows "settled q (scalar_quantity env field u raw q)"
proof -
  have "settled q (rbind (text_of env raw) (read_quantity env field u q))"
    by (rule settled_rbind) (rule settled_read [OF blank])
  moreover note settled_invalid [OF blank] good_blank [OF blank]
  ultimately show ?thesis
    unfolding scalar_quantity_def
    by (cases raw) (simp_all only: settled_simps same_source_updates pyval.case split: if_split, simp_all)
qed

lemma settled_interval:
  assumes blank: "blank_quantity q" and good: "good_quantity a" "good_quantity b"
  shows "settled q (interval_quantity q a b)"
proof (cases "plain_quantity a \<and> plain_quantity b \<and> \<not> below (q_value b) (q_value a)")
  case False
  then show ?thesis using settled_invalid [OF blank] by (auto simp: interval_quantity_def)
next
  case True
  have vals: "q_value x \<noteq> None \<and> finite_or_absent (q_value x)" if "plain_quantity x" "good_quantity x" for x
    using that by (simp add: plain_quantity_def good_quantity_def relation_shape_def)
  have "q_value a \<noteq> None" "q_value b \<noteq> None" "finite_or_absent (q_value a)" "finite_or_absent (q_value b)"
    using vals True good by simp_all
  then show ?thesis using True blank
    by (simp add: interval_quantity_def good_quantity_def relation_shape_def same_source_def blank_quantity_def no_numbers_def below_def)
qed

lemma base_blank: "base_quantity env field u c l raw = Inr q \<Longrightarrow> blank_quantity q"
  by (auto simp: base_quantity_def Let_def rbind_Inr_iff blank_quantity_def no_numbers_def split: if_splits)

lemma base_source:
  "base_quantity env field u c l raw = Inr q \<Longrightarrow> q_field q = field \<and> q_raw_value q = raw_json (text_env.truncate env) raw \<and>
     q_input_unit q = u \<and> q_source_context q = c \<and> q_unit q = field_unit field \<and>
     q_source_locator q = raw_json (text_env.truncate env) (if truthy l then l else PDict [])"
  by (auto simp: base_quantity_def Let_def rbind_Inr_iff split: if_splits)

lemma pair_settled:
  assumes "base_quantity env field u c l raw = Inr q0" "good_quantity x" "good_quantity y" "interval_quantity q0 x y = Inr q"
  shows "\<exists>q0. base_quantity env field u c l raw = Inr q0 \<and> good_quantity q \<and> same_source q0 q"
  using settled_interval [OF base_blank [OF assms(1)] assms(2,3)] assms(1) unfolding assms(4) settled_simps by blast

lemma scalar_settled:
  assumes "rbind (base_quantity env field u c l raw) (scalar_quantity te field u raw) = Inr q"
  shows "\<exists>q0. base_quantity env field u c l raw = Inr q0 \<and> good_quantity q \<and> same_source q0 q"
proof -
  obtain q0 where b: "base_quantity env field u c l raw = Inr q0" and s: "scalar_quantity te field u raw q0 = Inr q"
    using assms by (cases "base_quantity env field u c l raw") simp_all
  show ?thesis using settled_scalar [OF base_blank [OF b], of te field u raw] b unfolding s settled_simps by blast
qed

lemma parse_settled:
  "parse_scientific_value env field u c l raw = Inr q \<Longrightarrow>
     \<exists>q0. base_quantity env field u c l raw = Inr q0 \<and> good_quantity q \<and> same_source q0 q"
proof (induction env field u c l raw arbitrary: q rule: parse_scientific_value.induct)
  case (1 env field unit ctx loc a b)
  from "1.prems" obtain q0 x y where q: "base_quantity env field unit ctx loc (PList [a, b]) = Inr q0"
      "parse_scientific_value env field unit PNone PNone a = Inr x" "parse_scientific_value env field unit PNone PNone b = Inr y"
      "interval_quantity q0 x y = Inr q"
    unfolding parse_scientific_value.simps rbind_Inr_iff by blast
  have "good_quantity x" "good_quantity y" using "1.IH"(1) [OF q(2)] "1.IH"(2) [OF q(3)] by blast+
  then show ?case by (rule pair_settled [OF q(1) _ _ q(4)])
next
  case (2 env field unit ctx loc a b)
  from "2.prems" obtain q0 x y where q: "base_quantity env field unit ctx loc (PTuple [a, b]) = Inr q0"
      "parse_scientific_value env field unit PNone PNone a = Inr x" "parse_scientific_value env field unit PNone PNone b = Inr y"
      "interval_quantity q0 x y = Inr q"
    unfolding parse_scientific_value.simps rbind_Inr_iff by blast
  have "good_quantity x" "good_quantity y" using "2.IH"(1) [OF q(2)] "2.IH"(2) [OF q(3)] by blast+
  then show ?case by (rule pair_settled [OF q(1) _ _ q(4)])
qed (rule scalar_settled, simp only: parse_scientific_value.simps)+

lemma good_scalar:
  assumes "good_quantity q"
  shows "legacy_scalar (quantity_dict q) = (if q_relation q = ''exact'' then opt_float_py (q_value q) else PNone)"
proof -
  have "pget (quantity_dict q) ''status'' = PStr (q_status q)" "pget (quantity_dict q) ''relation'' = PStr (q_relation q)"
      "pget (quantity_dict q) ''value'' = opt_float_py (q_value q)"
    by (simp_all add: quantity_dict_def)
  then show ?thesis using assms unfolding good_quantity_def legacy_scalar_def
    by (elim conjE disjE) simp_all
qed

lemma quantity_dict_get:
  "is_mapping (quantity_dict q)" "phas (quantity_dict q) ''raw_value''" "phas (quantity_dict q) ''input_unit''"
  "pget (quantity_dict q) ''raw_value'' = q_raw_value q" "pget (quantity_dict q) ''input_unit'' = q_input_unit q"
  "pget (quantity_dict q) ''source_context'' = q_source_context q" "pget (quantity_dict q) ''source_locator'' = q_source_locator q"
  by (simp_all add: quantity_dict_def)

text \<open>A locator counts only through its JSON form.\<close>

lemma parse_locator:
  assumes "truthy l \<Longrightarrow> raw_json (text_env.truncate env) l = l"
  shows "parse_scientific_value env field u c (raw_json (text_env.truncate env) (if truthy l then l else PDict [])) raw =
    parse_scientific_value env field u c l raw"
proof -
  have b: "base_quantity env field u c (raw_json (text_env.truncate env) (if truthy l then l else PDict [])) x =
      base_quantity env field u c l x" for x
    using assms by (simp add: base_quantity_def)
  consider a1 a2 where "raw = PList [a1, a2]" | a1 a2 where "raw = PTuple [a1, a2]"
    | "\<forall>a1 a2. raw \<noteq> PList [a1, a2] \<and> raw \<noteq> PTuple [a1, a2]" by blast
  then show ?thesis
  proof cases
    case 3
    then have "parse_scientific_value env field u c l' raw =
        rbind (base_quantity env field u c l' raw) (scalar_quantity (text_env.truncate env) field u raw)" for l'
      by (cases "(env, field, u, c, l', raw)" rule: parse_scientific_value.cases) (simp_all only: parse_scientific_value.simps prod.inject, auto)
    then show ?thesis by (simp only: b)
  qed (simp_all only: parse_scientific_value.simps b)
qed

text \<open>
  C16. What a proposal of the quantity parser says. It keeps what was reported (field, raw value,
  unit, context) in the field's canonical unit. An unreported or invalid proposal has no number, an
  invalid one says why; a parsed one has exactly the finite numbers of its relation: a point with an
  optional non-negative spread, an ordered interval, or one bound. A range or a bound never
  becomes a point, nor does it have a legacy scalar.
\<close>

theorem quantity_reading_sound:
  assumes "parse_scientific_value env field u c l raw = Inr q"
  shows "q_field q = field \<and> q_unit q = field_unit field \<and> q_raw_value q = raw_json (text_env.truncate env) raw \<and>
    q_input_unit q = u \<and> q_source_context q = c \<and>
    q_status q \<in> {''unreported'', ''invalid'', ''parsed''} \<and>
    (q_status q = ''invalid'' \<longleftrightarrow> q_errors q \<noteq> []) \<and>
    (q_status q \<noteq> ''parsed'' \<longrightarrow> q_relation q = ''unreported'' \<and> no_numbers q) \<and>
    (q_status q = ''parsed'' \<longrightarrow> relation_shape (q_relation q) (q_value q) (q_lower q) (q_upper q) (q_uncertainty q)) \<and>
    list_all finite_or_absent [q_value q, q_lower q, q_upper q, q_uncertainty q] \<and>
    \<not> below (q_uncertainty q) (Some (Finite 0)) \<and> \<not> below (q_upper q) (q_lower q) \<and>
    legacy_scalar (quantity_dict q) = (if q_relation q = ''exact'' then opt_float_py (q_value q) else PNone)"
proof -
  obtain q0 where b: "base_quantity env field u c l raw = Inr q0" and good: "good_quantity q" and same: "same_source q0 q"
    using parse_settled [OF assms] by blast
  have kept: "q_field q = field \<and> q_unit q = field_unit field \<and> q_raw_value q = raw_json (text_env.truncate env) raw \<and>
      q_input_unit q = u \<and> q_source_context q = c"
    using base_source [OF b] same by (simp add: same_source_def)
  have scalar: "legacy_scalar (quantity_dict q) = (if q_relation q = ''exact'' then opt_float_py (q_value q) else PNone)"
    using good_scalar [OF good] .
  show ?thesis unfolding scalar using kept good unfolding good_quantity_def
    by (elim conjE disjE) simp_all
qed

section \<open>Archived proposals\<close>

text \<open>
  C32. An archived proposal is read again as it was: when what was reported is JSON, a record that
  stores the proposal of a value yields that same proposal, whatever else the record holds.
\<close>

theorem archived_proposal_reparses:
  assumes parsed: "parse_scientific_value env field u c l raw = Inr q"
    and json: "raw_json (text_env.truncate env) raw = raw" "truthy l \<Longrightarrow> raw_json (text_env.truncate env) l = l"
    and stored: "is_mapping (pget r ''scientific_values'')" "phas (pget r ''scientific_values'') field"
      "pget (pget r ''scientific_values'') field = quantity_dict q"
  shows "record_quantity env r field aliases = Inr q"
proof -
  let ?l = "raw_json (text_env.truncate env) (if truthy l then l else PDict [])"
  obtain q0 where b: "base_quantity env field u c l raw = Inr q0" and same: "same_source q0 q"
    using parse_settled [OF parsed] by blast
  have kept: "q_raw_value q = raw" "q_input_unit q = u" "q_source_context q = c" "q_source_locator q = ?l"
    using base_source [OF b] same json(1) by (simp_all add: same_source_def)
  have "record_quantity env r field aliases = parse_scientific_value env field u c ?l raw"
    unfolding record_quantity_def Let_def stored(3)
    by (simp add: stored(1,2) quantity_dict_get get_or_def kept)
  also have "\<dots> = parse_scientific_value env field u c l raw"
    by (rule parse_locator) (simp add: json(2))
  finally show ?thesis using parsed by simp
qed

text \<open>
  A power of ten beyond the decimal context. The \<open>except\<close> clause lists \<open>OverflowError\<close> and
  \<open>ValueError\<close>; neither \<open>decimal.Overflow\<close> nor, beyond the exponent limit of the library,
  \<open>decimal.InvalidOperation\<close> is one of them.
\<close>

definition power_error :: "string \<Rightarrow> string \<Rightarrow> py_error" where
  "power_error m n = (if power_exponent m n > decimal_limit then DecimalInvalid else DecimalOverflow)"

lemma kelvin_unit: "unit_word ''K''" "map_of (unit_aliases ''tc_kelvin'') ''K'' = Some (1, 0)"
  by code_simp+

lemma power_scalar:
  assumes "unit_word u" "CHR 0x0A \<notin> set u" "\<not> is_space (hd u)" "NUMBER t = (a, CHR '' '' # u) # xs"
  shows "\<exists>ys. SCALAR t = ((a, u), []) # ys"
proof -
  obtain v w where u: "u = v # w" using assms(1) by (cases u) (auto simp: unit_word_def)
  have "is_space (CHR '' '')" by (simp add: is_space_def char_nat_def)
  then show ?thesis using assms by (simp add: SCALAR_def p_bind_def p_rest_def p_ret_def p_seq_def p_alt_def u unit_word_def)
qed

lemma power_quantity:
  assumes "decimal_power m n" "power_exponent m n > 999999"
  shows "parse_scientific_value env ''tc_kelvin'' PNone c l (PStr (power_with_unit m n ''K'')) =
     rbind (base_quantity env ''tc_kelvin'' PNone c l (PStr (power_with_unit m n ''K''))) (\<lambda>_. Inl (power_error m n))"
proof -
  let ?t = "power_with_unit m n ''K''"
  note parts = power_parts [OF assms(1) kelvin_unit(1)]
  have tokens: "tokens_with SCALAR ?t = Some ((no_tokens ''exact'' ''K'')\<lparr>pt_value := Some (power_text m n)\<rparr>)" "APPROX ?t = []"
    using power_tokens [OF assms(1) kelvin_unit(1)] power_scalar [OF kelvin_unit(1) parts(7,8)] by blast+
  have "read_quantity te ''tc_kelvin'' PNone q ?t = Inl (power_error m n)" for te q
    by (simp add: read_quantity_def Let_def parts(5,6) tokens convert_units_def kelvin_unit(2) convert_tokens_def no_tokens_def
        power_number [OF assms] power_error_def)
  moreover have "?t \<noteq> []" by (simp add: power_with_unit_def)
  ultimately have "scalar_quantity te ''tc_kelvin'' PNone (PStr ?t) = (\<lambda>_. Inl (power_error m n))" for te
    by (intro ext) (simp add: scalar_quantity_def)
  then show ?thesis by simp
qed

section \<open>Concrete evaluations\<close>

declare parse_scientific_value.simps [simp del]

definition demo_quantity_env :: quantity_env where
  "demo_quantity_env = \<lparr>pe_str = (\<lambda>_. ''?''), pe_repr = (\<lambda>_. ''?''), sv_digest = (\<lambda>_. ''d''), sv_float_text = (\<lambda>_. ''0'')\<rparr>"

definition relation_read :: "pyval \<Rightarrow> string" where
  "relation_read raw = (case parse_scientific_value demo_quantity_env ''tc_kelvin'' PNone PNone PNone raw of
     Inl _ \<Rightarrow> ''raised'' | Inr q \<Rightarrow> q_relation q)"

lemma demo_interval: "relation_read (PStr ''10 - 20 K'') = ''interval''"
  by code_simp

lemma demo_parsed:
  obtains q where "parse_scientific_value demo_quantity_env ''tc_kelvin'' PNone PNone PNone (PStr ''10 - 20 K'') = Inr q" "q_relation q = ''interval''"
  using demo_interval by (cases "parse_scientific_value demo_quantity_env ''tc_kelvin'' PNone PNone PNone (PStr ''10 - 20 K'')")
    (simp_all add: relation_read_def)

theorem quantity_reading_sound_witness:
  "\<exists>q. parse_scientific_value demo_quantity_env ''tc_kelvin'' PNone PNone PNone (PStr ''10 - 20 K'') = Inr q
     \<and> legacy_scalar (quantity_dict q) = PNone"
proof -
  obtain q where q: "parse_scientific_value demo_quantity_env ''tc_kelvin'' PNone PNone PNone (PStr ''10 - 20 K'') = Inr q" "q_relation q = ''interval''"
    by (rule demo_parsed)
  then show ?thesis using quantity_reading_sound [OF q(1)] by auto
qed

theorem archived_proposal_reparses_witness:
  "\<exists>q. parse_scientific_value demo_quantity_env ''tc_kelvin'' PNone PNone PNone (PStr ''10 - 20 K'') = Inr q
     \<and> record_quantity demo_quantity_env (PDict [(PStr ''scientific_values'', PDict [(PStr ''tc_kelvin'', quantity_dict q)])]) ''tc_kelvin'' [] = Inr q"
proof -
  obtain q where q: "parse_scientific_value demo_quantity_env ''tc_kelvin'' PNone PNone PNone (PStr ''10 - 20 K'') = Inr q" "q_relation q = ''interval''"
    by (rule demo_parsed)
  have "record_quantity demo_quantity_env (PDict [(PStr ''scientific_values'', PDict [(PStr ''tc_kelvin'', quantity_dict q)])]) ''tc_kelvin'' [] = Inr q"
    by (rule archived_proposal_reparses [OF q(1)]) simp_all
  with q(1) show ?thesis by blast
qed

end
