(* ===== verification/Quantity_Review.thy ===== *)
theory Quantity_Review
  imports Anomaly_Review Scientific_Values Pressure_Semantics
begin

text \<open>
  The anomaly review and the evidence contract over the quantity parser and the pressure
  classifier they call: the arguments of \<open>Anomaly_Review\<close> and \<open>Evidence_Contract\<close> filled with the
  models of \<open>scientific_values.py\<close> and \<open>pressure_semantics.py\<close>. What is left as an argument is
  the text of floats and other objects, and the digests.
\<close>

section \<open>The parser and the classifier as the callers use them\<close>

definition pressure_class_of :: "pressure_assessment \<Rightarrow> pressure_class" where
  "pressure_class_of a =
     \<lparr>pressure_state = pa_state a, pc_relation = PStr (pa_relation a), pressure_gpa = opt_float (pa_gpa a),
      value_lower_gpa = opt_float (pa_lower a), value_upper_gpa = opt_float (pa_upper a), uncertainty_gpa = opt_float (pa_uncertainty a),
      pc_uncertainty_interpretation = opt_str_py (pa_uncertainty_interpretation a), pc_approximate = PBool (pa_approximate a),
      pc_raw_value = pa_raw_value a, pc_raw_unit = pa_raw_unit a, pc_unit_basis = PStr (pa_unit_basis a),
      pc_version = PStr PRESSURE_POLICY_VERSION, pc_reasons = pa_reasons a\<rparr>"

definition parser_review_env :: "quantity_env \<Rightarrow> (pyval \<Rightarrow> (py_error, string) res) \<Rightarrow> review_env" where
  "parser_review_env env digest =
     \<lparr>re_digest = digest,
      re_quantity = (\<lambda>r field aliases. rbind (record_quantity env r field aliases) (\<lambda>q. Inr (quantity_dict q))),
      re_parse = (\<lambda>raw field unit. rbind (parse_scientific_value env field unit PNone PNone raw) (\<lambda>q. Inr (quantity_dict q))),
      re_pressure = (\<lambda>r. rbind (classify_pressure (text_env.truncate env) r) (\<lambda>a. Inr (pressure_class_of a)))\<rparr>"

definition parser_contract_env :: "quantity_env \<Rightarrow> (string \<Rightarrow> string) \<Rightarrow> (string \<Rightarrow> string) \<Rightarrow> contract_env" where
  "parser_contract_env env sha uuid5 =
     \<lparr>ce_float = sv_float_text env, ce_sha = sha, ce_uuid5 = uuid5,
      ce_quantity = (\<lambda>r field. rbind (record_quantity env r field []) (\<lambda>q. Inr (quantity_dict q)))\<rparr>"

section \<open>The critical temperature of a record\<close>

lemma tc_property_quantity:
  "record_property_quantity (parser_review_env env dg) r ''tc_kelvin'' =
     rbind (record_quantity env r ''tc_kelvin'' [''tc'']) (\<lambda>q. Inr (quantity_dict q))"
  by (simp add: record_property_quantity_def parser_review_env_def VIEW_FIELDS_def FIELD_UNITS_def TC_VIEWS_def public_field_def
      lattice_source_def LATTICE_def field_aliases_def Let_def)

lemma record_quantity_good: "record_quantity env r field aliases = Inr q \<Longrightarrow> good_quantity q"
proof -
  assume "record_quantity env r field aliases = Inr q"
  then consider f u c l raw where "parse_scientific_value env f u c l raw = Inr q"
    | f u c l raw p where "parse_scientific_value env f u c l raw = Inr p" "q = missing_proposal p"
    unfolding record_quantity_def Let_def by (auto simp: rbind_Inr_iff split: if_splits)
  then show ?thesis
  proof cases
    case 1
    then show ?thesis using parse_settled by blast
  next
    case 2
    then show ?thesis by (simp add: missing_proposal_def good_quantity_def no_numbers_def below_def)
  qed
qed

text \<open>An invalid Tc quantity is found, and so is one below zero.\<close>

lemma record_calls_parts:
  assumes "record_calls env r fam refs year = Inr cs"
  obtains pressure qs per_field x y where "record_quantities env r = Inr qs" "rmapM (quantity_calls env r) qs = Inr per_field"
    "cs = filter (keeps_call pressure) (concat per_field @ x) @ y"
proof -
  obtain pressure qs per_field tc tcs per_ref where "record_quantities env r = Inr qs" "rmapM (quantity_calls env r) qs = Inr per_field"
      "Inr (filter (keeps_call pressure) (concat per_field @ tcs)
         @ pressure_calls r fam tc pressure @ parameter_calls qs @ year_calls r year @ concat per_ref) = (Inr cs :: (py_error, finding_call list) res)"
    using assms unfolding record_calls_def Let_def rbind_Inr_iff by (elim exE conjE) (rule that; assumption)
  then show thesis using that [OF _ _ sum.inject(2) [THEN iffD1, THEN sym]] by blast
qed

lemma invalid_field_call:
  assumes "quantity_calls env r (field, p) = Inr ks" "pget p ''status'' = PStr ''invalid'' \<or> temperature_field field \<and> negative_extent p"
  shows "\<exists>k \<in> set ks. fc_field k = field"
proof -
  obtain differ and cs :: "(string \<times> pyval) list" and status errs where st: "pindex p ''status'' = Inr status" and ks: "Inr ((if differ then [call ''raw_quantity_conflict'' field ''coexisting_original_quantity_channels_unresolved'' p
                [(''reference_basis'', PStr ''raw_channel_consistency''), (''source_channels'', PList (map (PStr \<circ> fst) cs))]] else [])
            @ (if status = PStr ''invalid'' then [call ''numeric_format_invalid'' field ''scientific_notation_or_unit_unresolved'' p
                [(''parser_errors'', PList errs), (''reference_basis'', PStr ''parser_representability'')]] else [])
            @ (if temperature_field field \<and> negative_extent p
               then [call ''negative_temperature_review'' field ''negative_temperature_requires_source_convention'' p []] else [])) = (Inr ks :: (py_error, finding_call list) res)"
    using assms(1) unfolding quantity_calls_def prod.case rbind_Inr_iff by (elim exE conjE) (rule that; assumption)
  have "status = pget p ''status''" using st by (simp add: pindex_def split: if_splits)
  then show ?thesis using ks assms(2) unfolding sum.inject by (elim disjE) (auto simp: call_def)
qed

lemma quantity_call_kept:
  assumes "record_calls env r fam refs year = Inr cs" "record_property_quantity env r ''tc_kelvin'' = Inr tc"
    and "pget tc ''status'' = PStr ''invalid'' \<or> negative_extent tc"
  shows "\<exists>c \<in> set cs. fc_field c = ''tc_kelvin''"
proof -
  obtain pressure qs per_field x y where qs: "record_quantities env r = Inr qs"
    and pf: "rmapM (quantity_calls env r) qs = Inr per_field"
    and cs: "cs = filter (keeps_call pressure) (concat per_field @ x) @ y"
    using record_calls_parts [OF assms(1)] .
  have "(''tc_kelvin'', tc) \<in> set qs" using record_tc_quantity [OF qs assms(2)] by (rule map_of_SomeD)
  then obtain i where i: "i < length qs" "qs ! i = (''tc_kelvin'', tc)" unfolding in_set_conv_nth by (elim exE conjE) (rule that; assumption)
  have ks: "quantity_calls env r (''tc_kelvin'', tc) = Inr (per_field ! i)" "per_field ! i \<in> set per_field"
    using rmapM_Inr_nth [OF pf i(1)] rmapM_Inr_length [OF pf] i nth_mem by simp_all
  have "temperature_field ''tc_kelvin''" by (simp add: temperature_field_def)
  then obtain k where k: "k \<in> set (per_field ! i)" "fc_field k = ''tc_kelvin''"
    using invalid_field_call [OF ks(1)] assms(3) by blast
  then have "k \<in> set cs" unfolding cs using ks(2) by (auto simp: keeps_call_def)
  with k(2) show ?thesis by (rule bexI)
qed

lemma quantity_dict_numbers:
  "pget (quantity_dict q) ''status'' = PStr (q_status q)" "pget (quantity_dict q) ''errors'' = PList (map PStr (q_errors q))"
  "pget (quantity_dict q) ''value'' = opt_float_py (q_value q)" "pget (quantity_dict q) ''lower'' = opt_float_py (q_lower q)"
  "pget (quantity_dict q) ''upper'' = opt_float_py (q_upper q)" "pget (quantity_dict q) ''relation'' = PStr (q_relation q)"
  by (simp_all add: quantity_dict_def)

lemma bound_extent:
  assumes "q_status q = ''parsed''" "q_errors q = []" "q_value q = None" "finite_or_absent (q_lower q)" "finite_or_absent (q_upper q)"
  shows "extent (quantity_dict q) = (map_option PFloat (q_lower q), map_option PFloat (q_upper q))"
proof -
  have fin: "(if is_finite (opt_float_py x) then Some (opt_float_py x) else None) = map_option PFloat x" if "finite_or_absent x" for x
    using that by (cases x rule: finite_or_absent.cases) (simp_all add: opt_float_py_def is_finite_def)
  show ?thesis
    unfolding extent_def quantity_dict_numbers assms(1-3) Let_def fin [OF assms(4)] fin [OF assms(5)]
    by (simp add: opt_float_py_def is_finite_def)
qed

text \<open>What is left of a reading that no rule on its magnitude objects to.\<close>

definition plausible_quantity :: "rat \<Rightarrow> quantity \<Rightarrow> bool" where
  "plausible_quantity t q \<longleftrightarrow>
     q_status q = ''parsed'' \<and> relation_shape (q_relation q) (q_value q) (q_lower q) (q_upper q) (q_uncertainty q) \<and>
     above (quantity_dict q) t = None \<and> \<not> negative_extent (quantity_dict q) \<and>
     (q_value q = None \<longrightarrow>
        (\<forall>u. q_upper q = Some (Finite u) \<longrightarrow> 0 \<le> u \<and> u \<le> t) \<and>
        (\<forall>l. q_lower q = Some (Finite l) \<longrightarrow> 0 \<le> l \<and> l \<le> t \<and> (q_relation q = ''gt'' \<longrightarrow> l < t)))"

lemma plausible_bounds:
  assumes good: "good_quantity q" and parsed: "q_status q = ''parsed''"
    and mild: "above (quantity_dict q) t = None" "\<not> negative_extent (quantity_dict q)"
  shows "plausible_quantity t q"
proof -
  have shape: "relation_shape (q_relation q) (q_value q) (q_lower q) (q_upper q) (q_uncertainty q)" and err: "q_errors q = []"
    and fin: "finite_or_absent (q_lower q)" "finite_or_absent (q_upper q)"
    using good parsed unfolding good_quantity_def by (elim conjE disjE; simp)+
  have "0 \<le> u \<and> u \<le> t" if "q_value q = None" "q_upper q = Some (Finite u)" for u
    using mild bound_extent [OF parsed err that(1) fin] that(2)
    by (auto simp: above_def negative_extent_def split: if_splits option.splits)
  moreover have "0 \<le> l \<and> l \<le> t \<and> (q_relation q = ''gt'' \<longrightarrow> l < t)" if "q_value q = None" "q_lower q = Some (Finite l)" for l
  proof -
    have "extent (quantity_dict q) = (Some (PFloat (Finite l)), map_option PFloat (q_upper q))"
      using bound_extent [OF parsed err that(1) fin] that(2) by simp
    then show ?thesis using mild unfolding above_def negative_extent_def quantity_dict_numbers(6)
      by (simp split: if_splits) linarith?
  qed
  ultimately show ?thesis unfolding plausible_quantity_def using parsed shape mild by blast
qed

text \<open>
  What the review relies on when it reads a quantity: the reader only returns coherent proposals.
  Then a proposal that is neither invalid nor remarkable is unreported or plausible.
\<close>

locale quantity_reader =
  fixes reads :: "pyval \<Rightarrow> (py_error, quantity) res"
  assumes reads_good: "reads r = Inr q \<Longrightarrow> good_quantity q"
begin

lemma status_cases:
  assumes "reads r = Inr q" "pget (quantity_dict q) ''status'' \<noteq> PStr ''invalid''"
  shows "q_status q = ''unreported'' \<or> q_status q = ''parsed''"
  using reads_good [OF assms(1)] assms(2) unfolding quantity_dict_numbers good_quantity_def by (elim conjE disjE) simp_all

lemma unremarkable:
  assumes "reads r = Inr q" "pget (quantity_dict q) ''status'' \<noteq> PStr ''invalid''"
    and "above (quantity_dict q) t = None" "\<not> negative_extent (quantity_dict q)"
  shows "q_status q = ''unreported'' \<or> plausible_quantity t q"
  using status_cases [OF assms(1,2)] plausible_bounds [OF reads_good [OF assms(1)] _ assms(3,4)] by blast

end

interpretation raw_reader: quantity_reader "parse_scientific_value env field u c l" for env field u c l
  by unfold_locales (use parse_settled in blast)

interpretation record_reader: quantity_reader "\<lambda>r. record_quantity env r field aliases" for env field aliases
  by unfold_locales (rule record_quantity_good)

lemma eligible_tc_quantity:
  assumes "assess_record_anomalies (parser_review_env env dg) scope fam refs year r = Inr a" "is_mapping r"
    and "v \<in> set (''tc'' # TC_VIEWS)" "eligible_for_property (assessment_py a) v"
    and "legacy_result_id (parser_review_env env dg) r scope = Inr rid" "record_calls (parser_review_env env dg) r fam refs year = Inr cs"
    and "idents_separate (parser_review_env env dg) rid cs"
  shows "\<exists>q. record_quantity env r ''tc_kelvin'' [''tc''] = Inr q \<and>
    (q_status q = ''unreported'' \<or> plausible_quantity TC_REVIEW_REFERENCE_K q)"
proof -
  let ?e = "parser_review_env env dg"
  obtain fs where fs: "rmapM (finding_of ?e rid) cs = Inr fs" "a = assessment_of rid fs year"
    using assess_mapping [OF assms(1,2,5,6)] .
  have none: "\<not> (\<exists>k \<in> set cs. fc_field k = ''tc_kelvin'')"
  proof
    assume "\<exists>k \<in> set cs. fc_field k = ''tc_kelvin''"
    then have "set TC_VIEWS \<subseteq> set (review_required_properties a)"
      unfolding fs(2) by (rule tc_call_withholds [OF fs(1) _ assms(7)])
    from withheld_views [OF this assms(3)] show False using assms(4) by (rule notE)
  qed
  obtain qs where "record_quantities ?e r = Inr qs" using record_calls_parts [OF assms(6)] .
  then obtain tc where tc: "record_property_quantity ?e r ''tc_kelvin'' = Inr tc" using tc_quantity_read by blast
  then obtain q where q: "record_quantity env r ''tc_kelvin'' [''tc''] = Inr q" "tc = quantity_dict q"
    unfolding tc_property_quantity rbind_Inr_iff by auto
  have mild: "above tc TC_REVIEW_REFERENCE_K = None" "\<not> negative_extent tc" "pget tc ''status'' \<noteq> PStr ''invalid''"
    using notI [of "above tc TC_REVIEW_REFERENCE_K \<noteq> None", OF none [THEN notE, OF tc_high_call [OF assms(6) tc]]]
      none quantity_call_kept [OF assms(6) tc] by argo+
  show ?thesis
    using record_reader.unremarkable [OF q(1) mild(3,1,2) [unfolded q(2)]] q(1) by blast
qed


section \<open>One number can stop a review\<close>

text \<open>
  A record whose critical temperature is written as a power of ten, in the field of that name, without
  a typed proposal beside it and with a context that has a JSON text.
\<close>

definition tc_power_record :: "'e quantity_env_scheme \<Rightarrow> string \<Rightarrow> string \<Rightarrow> pyval \<Rightarrow> bool" where
  "tc_power_record env m n r \<longleftrightarrow>
     is_mapping r \<and> \<not> is_mapping (pget r ''scientific_values'') \<and> pget r ''tc_kelvin'' = PStr (power_with_unit m n ''K'') \<and>
     pget r ''tc_kelvin_unit'' = PNone \<and>
     (case base_quantity env ''tc_kelvin'' PNone (if truthy (pget r ''evidence_text'') then pget r ''evidence_text'' else pget r ''source_quote'')
        (if is_mapping (pget r ''source_locator'') then pget r ''source_locator'' else PNone) (PStr (power_with_unit m n ''K'')) of
      Inl _ \<Rightarrow> False | Inr _ \<Rightarrow> True)"

lemma power_record_quantity:
  assumes "tc_power_record env m n r" "decimal_power m n" "power_exponent m n > 999999"
  shows "record_quantity env r ''tc_kelvin'' [''tc''] = Inl (power_error m n)"
  using assms(1) unfolding tc_power_record_def
  by (auto simp: record_quantity_def Let_def power_quantity [OF assms(2,3)] split: sum.splits)

lemma unreadable_tc_stops:
  assumes "re_pressure env r = Inr p" "record_property_quantity env r ''tc_kelvin'' = Inl e"
  shows "record_calls env r fam refs year = Inl e"
proof -
  have "\<exists>fs. filter (supplied r) (map fst FIELD_UNITS) = ''tc_kelvin'' # fs" by (simp add: FIELD_UNITS_def supplied_def)
  then obtain fs where "filter (supplied r) (map fst FIELD_UNITS) = ''tc_kelvin'' # fs" by blast
  then have "record_quantities env r = Inl e" by (simp add: record_quantities_def assms(2))
  then show ?thesis by (simp add: record_calls_def assms(1))
qed

lemma rmapM_stops: "rmapM f xs = Inr ys \<Longrightarrow> f x = Inl e \<Longrightarrow> rmapM f (xs @ x # zs) = Inl e"
  by (induction xs arbitrary: ys) auto


section \<open>Concrete records\<close>

definition demo_digest :: "pyval \<Rightarrow> (py_error, string) res" where
  "demo_digest v = Inr (replicate 64 (CHR ''0''))"

definition demo_rid :: string where
  "demo_rid = ''legacy-result:'' @ replicate 64 (CHR ''0'')"

lemma demo_identity: "legacy_result_id (parser_review_env env demo_digest) r scope = Inr demo_rid"
  by (simp add: legacy_result_id_def parser_review_env_def demo_digest_def demo_rid_def)

definition demo_tc :: pyval where
  "demo_tc = PDict [(PStr ''tc_kelvin'', PStr ''< 20 K'')]"

lemma demo_tc_eligible:
  "(case assess_record_anomalies (parser_review_env demo_quantity_env demo_digest) ''s'' PNone [] PNone demo_tc of
      Inl _ \<Rightarrow> False | Inr a \<Rightarrow> eligible_for_property (assessment_py a) ''tc_max'')"
  by code_simp

lemma demo_tc_calls:
  "(case record_calls (parser_review_env demo_quantity_env demo_digest) demo_tc PNone [] PNone of
      Inl _ \<Rightarrow> False | Inr cs \<Rightarrow> idents_separate (parser_review_env demo_quantity_env demo_digest) demo_rid cs)"
  by code_simp


text \<open>The numbers \<open>1e1000000\<close> and \<open>1e10000000000000000000\<close>.\<close>

definition overflow_record :: pyval where
  "overflow_record = PDict [(PStr ''tc_kelvin'', PStr ''1e1000000 K'')]"

definition invalid_record :: pyval where
  "invalid_record = PDict [(PStr ''tc_kelvin'', PStr ''1e10000000000000000000 K'')]"

lemma demo_powers:
  "decimal_power ''1'' ''1000000''" "power_exponent ''1'' ''1000000'' = 1000000" "power_with_unit ''1'' ''1000000'' u = ''1e1000000 '' @ u"
  "decimal_power ''1'' ''10000000000000000000''" "power_exponent ''1'' ''10000000000000000000'' = 10000000000000000000"
  "power_with_unit ''1'' ''10000000000000000000'' u = ''1e10000000000000000000 '' @ u"
proof -
  have "decimal_digits 1 = 1" by code_simp
  then show "decimal_power ''1'' ''1000000''" "power_exponent ''1'' ''1000000'' = 1000000" "decimal_power ''1'' ''10000000000000000000''"
      "power_exponent ''1'' ''10000000000000000000'' = 10000000000000000000"
    by (simp_all add: decimal_power_def power_exponent_def is_digit_char_def char_nat_def digits_value_def)
qed (simp_all add: power_with_unit_def power_text_def)

lemma demo_power_records:
  "tc_power_record demo_quantity_env ''1'' ''1000000'' overflow_record"
  "tc_power_record demo_quantity_env ''1'' ''10000000000000000000'' invalid_record"
  by code_simp+

lemma demo_power_pressures:
  "\<exists>p. classify_pressure te overflow_record = Inr p" "\<exists>p. classify_pressure te invalid_record = Inr p"
  by (simp_all add: classify_pressure_def overflow_record_def invalid_record_def evidence_record_def quantity_source_def state_claim_def
      get_or_def Let_def)


end
