(* ===== verification/Scientific_Filters.thy ===== *)
theory Scientific_Filters
  imports Quantity_Review
begin

text \<open>
  Same-result filters (\<open>api/services/scientific_filters.py\<close>): which records of a material satisfy
  a query, decided on each record alone from its reparsed quantity, its origin, its pressure state
  and its anomaly assessment; and the check of a stored ambient headline.

  The whole chain below is the model: the quantity parser, the pressure classifier, the origin
  classifier and the anomaly review. The clock is an argument (\<open>now_year\<close>); a filter bound is a
  float.
\<close>

section \<open>The lower bound of a critical temperature\<close>

definition finite_part :: "pyfloat option \<Rightarrow> rat option" where
  "finite_part x = finite_number (opt_float_py x)"

definition tc_lower_bound :: "quantity_env \<Rightarrow> pyval \<Rightarrow> (py_error, pyfloat option) res" where
  "tc_lower_bound env r =
     rbind (record_quantity env r ''tc_kelvin'' [''tc'']) (\<lambda>q.
       let declared = por (pget r ''tc_relation'') (pget r ''value_relation'')
       in if q_status q \<noteq> ''parsed'' \<or> q_errors q \<noteq> [] \<or> q_approximate q then Inr None
          else if truthy declared \<and> \<not> py_eq declared (PStr (q_relation q)) then Inr None
          else if q_relation q \<in> {''interval'', ''gt'', ''ge''} then Inr (map_option Finite (finite_part (q_lower q)))
          else if q_relation q \<noteq> ''exact'' then Inr None
          else Inr (case (finite_part (q_value q), finite_part (q_uncertainty q)) of
                      (Some v, Some u) \<Rightarrow> Some (round64 (v - u))
                    | (v, _) \<Rightarrow> map_option Finite v))"

section \<open>Filters\<close>

record result_filters =
  families :: "string list"
  tc_min :: "pyfloat option"
  pressure_min :: "pyfloat option"
  pressure_max :: "pyfloat option"
  ambient_only :: bool
  include_unknown_pressure :: bool
  origins :: "string list"
  rf_source_role :: "string option"
  experimental_only :: bool
  only_aps :: bool
  min_tier :: "string option"
  positive_tc :: bool

definition given :: "string option \<Rightarrow> bool" where
  "given x = (case x of None \<Rightarrow> False | Some s \<Rightarrow> s \<noteq> [])"

definition filters_active :: "result_filters \<Rightarrow> bool" where
  "filters_active f \<longleftrightarrow>
     families f \<noteq> [] \<or> tc_min f \<noteq> None \<or> pressure_min f \<noteq> None \<or> pressure_max f \<noteq> None \<or> ambient_only f \<or> origins f \<noteq> [] \<or>
     given (rf_source_role f) \<or> experimental_only f \<or> only_aps f \<or> given (min_tier f) \<or> positive_tc f"

definition wants_tc :: "result_filters \<Rightarrow> bool" where
  "wants_tc f \<longleftrightarrow> tc_min f \<noteq> None \<or> positive_tc f"

definition pressure_filter_active :: "result_filters \<Rightarrow> bool" where
  "pressure_filter_active f \<longleftrightarrow> pressure_min f \<noteq> None \<or> pressure_max f \<noteq> None \<or> ambient_only f"

section \<open>One record\<close>

text \<open>The checks of the loop body, in its order; a record that fails one is skipped.\<close>

definition family_passes :: "result_filters \<Rightarrow> pyval \<Rightarrow> bool" where
  "family_passes f fam \<longleftrightarrow> families f = [] \<or> list_ex (\<lambda>g. py_eq fam (PStr g)) (families f)"

definition tc_passes :: "result_filters \<Rightarrow> assessment \<Rightarrow> pyval \<Rightarrow> pyfloat option \<Rightarrow> bool" where
  "tc_passes f anomaly r tc \<longleftrightarrow>
     \<not> (wants_tc f \<and> \<not> eligible_for_property (assessment_py anomaly) ''tc_kelvin'') \<and>
     \<not> (ambient_only f \<and> \<not> eligible_for_property (assessment_py anomaly) ''tc_ambient'') \<and>
     \<not> (wants_tc f \<and> outcome_conflicts_with_positive r) \<and>
     \<not> (positive_tc f \<and> (case tc of None \<Rightarrow> True | Some x \<Rightarrow> x = Finite 0 \<or> float_less x (Finite 0))) \<and>
     (case tc_min f of None \<Rightarrow> True | Some t \<Rightarrow> \<not> (case tc of None \<Rightarrow> True | Some x \<Rightarrow> float_less x t))"

definition origin_passes :: "result_filters \<Rightarrow> result_classification \<Rightarrow> bool" where
  "origin_passes f org \<longleftrightarrow>
     \<not> (origins f \<noteq> [] \<and> knowledge_origin org \<notin> set (origins f)) \<and>
     \<not> (given (rf_source_role f) \<and> Some (source_role org) \<noteq> rf_source_role f) \<and>
     \<not> (experimental_only f \<and> (knowledge_origin org \<noteq> ''Observed'' \<or> classification_status org \<noteq> ''resolved'' \<or>
          source_role org = ''conflicted''))"

definition ALLOWED_TIERS :: "(string \<times> string list) list" where
  "ALLOWED_TIERS = [(''T1'', [''T1'']), (''T2'', [''T1'', ''T2'']), (''T3'', [''T1'', ''T2'', ''T3''])]"

definition source_passes :: "text_env \<Rightarrow> result_filters \<Rightarrow> pyval \<Rightarrow> (py_error, bool) res" where
  "source_passes te f r =
     rbind (if only_aps f then rbind (text_of te (get_or r ''paper_id'' (PStr []))) (\<lambda>t. Inr (take 4 t = ''aps:'')) else Inr True) (\<lambda>aps.
       if \<not> aps then Inr False
       else if given (min_tier f)
       then (case map_of ALLOWED_TIERS (the (min_tier f)) of
               None \<Rightarrow> Inl KeyError
             | Some ts \<Rightarrow> in_str_set (por (pget r ''credibility_tier'') (pget r ''source_tier'')) ts)
       else Inr True)"

definition pressure_passes :: "result_filters \<Rightarrow> assessment \<Rightarrow> pressure_assessment \<Rightarrow> (py_error, bool) res" where
  "pressure_passes f anomaly p =
     (if \<not> pressure_filter_active f then Inr True
      else if \<not> eligible_for_property (assessment_py anomaly) ''pressure_gpa'' then Inr False
      else pressure_matches p (opt_float (pressure_max f)) (opt_float (pressure_min f)) (ambient_only f) (include_unknown_pressure f))"

record result_match =
  rm_result_id :: string
  record_index :: nat
  rm_formula :: pyval
  rm_family :: pyval
  tc_lower_bound_k :: "pyfloat option"
  rm_pressure :: pressure_assessment
  rm_origin :: result_classification
  rm_anomaly :: assessment

definition FILTER_POLICY_VERSION :: string where "FILTER_POLICY_VERSION = ''same-result/1.1.0''"

definition match_py :: "result_match \<Rightarrow> pyval" where
  "match_py m = PDict
     [(PStr ''result_id'', PStr (rm_result_id m)), (PStr ''record_index'', PInt (int (record_index m))), (PStr ''formula'', rm_formula m),
      (PStr ''family'', rm_family m), (PStr ''tc_lower_bound_k'', opt_float (tc_lower_bound_k m)),
      (PStr ''pressure_semantics'', assessment_dict PRESSURE_POLICY_VERSION (rm_pressure m)),
      (PStr ''result_classification'', as_dict (rm_origin m)), (PStr ''filter_policy_version'', PStr FILTER_POLICY_VERSION),
      (PStr ''anomaly_review'', assessment_py (rm_anomaly m))]"

definition match_record ::
  "quantity_env \<Rightarrow> (pyval \<Rightarrow> (py_error, string) res) \<Rightarrow> result_filters \<Rightarrow> string \<Rightarrow> pyval \<Rightarrow> pyval list \<Rightarrow> pyval \<Rightarrow> nat \<times> pyval \<Rightarrow>
     (py_error, result_match option) res" where
  "match_record env dg f scope material_family refs year ir = (case ir of (i, r) \<Rightarrow>
     let fam = por (pget r ''family'') (por (pget r ''material_family'') material_family); te = text_env.truncate env
     in rbind (assess_record_anomalies (parser_review_env env dg) scope material_family refs year r) (\<lambda>anomaly.
        if \<not> family_passes f fam then Inr None
        else rbind (tc_lower_bound env r) (\<lambda>tc.
        if \<not> tc_passes f anomaly r tc then Inr None
        else if \<not> origin_passes f (classify_result r) then Inr None
        else rbind (source_passes te f r) (\<lambda>src.
        if \<not> src then Inr None
        else rbind (classify_pressure te r) (\<lambda>p.
             rbind (pressure_passes f anomaly p) (\<lambda>ok.
        if \<not> ok then Inr None
        else rbind (legacy_result_id (parser_review_env env dg) r scope) (\<lambda>rid. Inr (Some \<lparr>rm_result_id = rid, record_index = i,
               rm_formula = (if is_str (pget r ''formula'') then pget r ''formula'' else PNone), rm_family = fam,
               tc_lower_bound_k = tc, rm_pressure = p, rm_origin = classify_result r, rm_anomaly = anomaly\<rparr>))))))))"

section \<open>All records\<close>

fun record_list :: "pyval \<Rightarrow> pyval list" where
  "record_list (PList rs) = rs"
| "record_list _ = []"

definition the_list :: "'a option list \<Rightarrow> 'a list" where
  "the_list xs = concat (map (\<lambda>x. case x of None \<Rightarrow> [] | Some y \<Rightarrow> [y]) xs)"

definition matching_result_references ::
  "quantity_env \<Rightarrow> (pyval \<Rightarrow> (py_error, string) res) \<Rightarrow> int \<Rightarrow> result_filters \<Rightarrow> string \<Rightarrow> pyval \<Rightarrow> pyval list \<Rightarrow> pyval \<Rightarrow> pyval \<Rightarrow>
     (py_error, result_match list) res" where
  "matching_result_references env dg now_year f scope material_family refs current_year records =
     (let year = (if current_year = PNone then PInt now_year else current_year)
      in rbind (rmapM (match_record env dg f scope material_family refs year)
                  (filter (\<lambda>(i, r). is_mapping r) (enumerate 0 (record_list records)))) (\<lambda>ms. Inr (the_list ms)))"

definition ambient_filters :: result_filters where
  "ambient_filters = \<lparr>families = [], tc_min = None, pressure_min = None, pressure_max = None, ambient_only = True,
     include_unknown_pressure = False, origins = [], rf_source_role = None, experimental_only = True, only_aps = False,
     min_tier = None, positive_tc = True\<rparr>"

definition above_zero :: "pyfloat option \<Rightarrow> bool" where
  "above_zero x = (case x of None \<Rightarrow> False | Some v \<Rightarrow> float_less (Finite 0) v)"

definition supports_headline :: "quantity_env \<Rightarrow> pyval list \<Rightarrow> rat \<Rightarrow> result_match \<Rightarrow> (py_error, bool) res" where
  "supports_headline env rs v m =
     (let r = rs ! record_index m
      in if finite_number (pget r ''tc_kelvin'') \<noteq> Some v then Inr False
         else rbind (tc_lower_bound env r) (\<lambda>t. Inr (t = Some (Finite v))))"

text \<open>\<open>any(...)\<close>: the first supporting match ends the loop.\<close>

fun any_supports :: "('a \<Rightarrow> (py_error, bool) res) \<Rightarrow> 'a list \<Rightarrow> (py_error, bool) res" where
  "any_supports g [] = Inr False"
| "any_supports g (x # xs) = rbind (g x) (\<lambda>b. if b then Inr True else any_supports g xs)"

definition supported_ambient_summary ::
  "quantity_env \<Rightarrow> (pyval \<Rightarrow> (py_error, string) res) \<Rightarrow> int \<Rightarrow> pyval \<Rightarrow> pyval \<Rightarrow> (py_error, rat option \<times> bool option) res" where
  "supported_ambient_summary env dg now_year records stored_tc =
     rbind (matching_result_references env dg now_year ambient_filters ''ambient-summary'' PNone [] PNone records) (\<lambda>ms.
       let positive = filter (\<lambda>m. above_zero (tc_lower_bound_k m)) ms; v = finite_number stored_tc
       in rbind (case v of None \<Rightarrow> Inr False | Some x \<Rightarrow> any_supports (supports_headline env (record_list records) x) positive) (\<lambda>supported.
            Inr (if supported then v else None, if positive \<noteq> [] then Some True else None)))"

section \<open>What a match says\<close>

lemma round64_not_NaN: "round64 q \<noteq> NaN"
  by (simp add: round64_def Let_def)

lemma tc_lower_bound_Some:
  assumes "tc_lower_bound env r = Inr (Some x)"
  shows "x \<noteq> NaN"
    and "\<exists>q. record_quantity env r ''tc_kelvin'' [''tc''] = Inr q \<and> q_status q = ''parsed'' \<and> \<not> q_approximate q \<and>
      q_relation q \<in> {''exact'', ''interval'', ''gt'', ''ge''}"
proof -
  obtain q where q: "record_quantity env r ''tc_kelvin'' [''tc''] = Inr q"
    using assms unfolding tc_lower_bound_def rbind_Inr_iff by (elim exE conjE) (rule that; assumption)
  have ok: "\<not> (q_status q \<noteq> ''parsed'' \<or> q_errors q \<noteq> [] \<or> q_approximate q)"
    by (rule notI) (use assms in \<open>simp add: tc_lower_bound_def q Let_def\<close>)
  have rel: "q_relation q \<in> {''exact'', ''interval'', ''gt'', ''ge''}"
  proof (rule ccontr)
    assume "q_relation q \<notin> {''exact'', ''interval'', ''gt'', ''ge''}"
    then show False using assms ok by (simp add: tc_lower_bound_def q Let_def split: if_splits)
  qed
  then show "\<exists>q. record_quantity env r ''tc_kelvin'' [''tc''] = Inr q \<and> q_status q = ''parsed'' \<and> \<not> q_approximate q \<and>
      q_relation q \<in> {''exact'', ''interval'', ''gt'', ''ge''}"
    using q ok by blast
  show "x \<noteq> NaN"
    using assms round64_not_NaN unfolding tc_lower_bound_def q rbind_simps Let_def
    by (auto split: if_splits option.splits)
qed

lemma match_record_Some:
  assumes "match_record env dg f scope fam refs year (i, r) = Inr (Some m)"
  shows "record_index m = i" "assess_record_anomalies (parser_review_env env dg) scope fam refs year r = Inr (rm_anomaly m)"
    "family_passes f (rm_family m)" "tc_lower_bound env r = Inr (tc_lower_bound_k m)" "tc_passes f (rm_anomaly m) r (tc_lower_bound_k m)"
    "origin_passes f (classify_result r)" "rm_origin m = classify_result r" "classify_pressure (text_env.truncate env) r = Inr (rm_pressure m)"
    "pressure_passes f (rm_anomaly m) (rm_pressure m) = Inr True" "legacy_result_id (parser_review_env env dg) r scope = Inr (rm_result_id m)"
  using assms unfolding match_record_def prod.case Let_def
  by (auto simp: rbind_Inr_iff split: if_splits)

lemma matching_Inr:
  assumes "matching_result_references env dg now f scope fam refs cy records = Inr ms"
  obtains year os where "rmapM (match_record env dg f scope fam refs year)
      (filter (\<lambda>(i, r). is_mapping r) (enumerate 0 (record_list records))) = Inr os" "ms = the_list os"
    "year = (if cy = PNone then PInt now else cy)"
  using assms unfolding matching_result_references_def Let_def by (auto simp: rbind_Inr_iff)

lemma the_list_Cons: "the_list (x # xs) = (case x of None \<Rightarrow> the_list xs | Some y \<Rightarrow> y # the_list xs)"
  by (simp add: the_list_def split: option.split)

lemma set_the_list: "y \<in> set (the_list xs) \<longleftrightarrow> Some y \<in> set xs"
  by (induction xs) (auto simp: the_list_Cons the_list_def split: option.splits)

lemma match_of_year:
  assumes "rmapM (match_record env dg f scope fam refs year)
      (filter (\<lambda>(i, r). is_mapping r) (enumerate 0 (record_list records))) = Inr os" "ms = the_list os" "m \<in> set ms"
  shows "\<exists>r. record_index m < length (record_list records) \<and> r = record_list records ! record_index m \<and> is_mapping r \<and>
    match_record env dg f scope fam refs year (record_index m, r) = Inr (Some m)"
proof -
  have "Some m \<in> set os" using assms(2,3) by (simp add: set_the_list)
  from rmapM_Inr_set [OF assms(1) this] obtain ir where ir: "ir \<in> set (filter (\<lambda>(i, r). is_mapping r) (enumerate 0 (record_list records)))"
      "match_record env dg f scope fam refs year ir = Inr (Some m)" by (elim bexE)
  obtain i r where p: "ir = (i, r)" by (cases ir)
  have i: "record_index m = i" using match_record_Some(1) ir(2) unfolding p .
  have "i < length (record_list records) \<and> r = record_list records ! i \<and> is_mapping r"
    using ir(1) unfolding p by (auto simp: in_set_enumerate_eq)
  then show ?thesis using ir(2) unfolding p i by blast
qed

lemma sorted_enumerate_filter: "sorted_wrt (<) (map fst (filter P (enumerate n xs)))"
proof -
  have "sorted_wrt (\<lambda>a b. fst a < fst b) (enumerate n xs)"
    unfolding sorted_wrt_map [symmetric] map_fst_enumerate by simp
  then show ?thesis by (simp add: sorted_wrt_map sorted_wrt_filter)
qed

lemma enumerate_filter_indices:
  "set (map fst (filter (\<lambda>(i, r). P r) (enumerate 0 xs))) = {i. i < length xs \<and> P (xs ! i)}"
  by (force simp: in_set_enumerate_eq)

lemma matches_ordered:
  assumes "rmapM (match_record env dg f scope fam refs year) irs = Inr os" "sorted_wrt (<) (map fst irs)"
  shows "sorted_wrt (<) (map record_index (the_list os)) \<and> set (map record_index (the_list os)) \<subseteq> set (map fst irs)"
  using assms
proof (induction irs arbitrary: os)
  case (Cons ir irs)
  obtain i r where p: "ir = (i, r)" by (cases ir)
  from Cons.prems(1) obtain o1 os' where o: "os = o1 # os'" "match_record env dg f scope fam refs year ir = Inr o1"
      "rmapM (match_record env dg f scope fam refs year) irs = Inr os'" by auto
  have IH: "sorted_wrt (<) (map record_index (the_list os'))" "set (map record_index (the_list os')) \<subseteq> set (map fst irs)"
    using Cons.IH [OF o(3)] Cons.prems(2) by simp_all
  show ?case
  proof (cases o1)
    case None
    then show ?thesis using IH by (auto simp: o the_list_Cons)
  next
    case (Some m)
    have i: "record_index m = i" using match_record_Some(1) o(2) unfolding p Some .
    have "\<forall>j \<in> set (map fst irs). i < j" using Cons.prems(2) by (simp add: p)
    then have "\<forall>j \<in> set (map record_index (the_list os')). i < j" using IH(2) by blast
    then show ?thesis using IH by (auto simp: o Some the_list_Cons i p)
  qed
qed (simp add: the_list_def)

lemma inactive_keeps:
  assumes "\<not> filters_active f" "match_record env dg f scope fam refs year (i, r) = Inr x"
  shows "x \<noteq> None"
proof -
  have off: "families f = []" "tc_min f = None" "\<not> positive_tc f" "\<not> ambient_only f" "origins f = []" "\<not> given (rf_source_role f)"
      "\<not> experimental_only f" "\<not> only_aps f" "\<not> given (min_tier f)" "pressure_min f = None" "pressure_max f = None"
    using assms(1) by (simp_all add: filters_active_def)
  have pass: "family_passes f g" "tc_passes f a r t" "origin_passes f org" "source_passes te f r = Inr True" "pressure_passes f a p = Inr True" for g a t org te p
    using off by (simp_all add: family_passes_def tc_passes_def wants_tc_def origin_passes_def source_passes_def pressure_passes_def pressure_filter_active_def)
  show ?thesis using assms(2) unfolding match_record_def prod.case Let_def by (auto simp: pass rbind_Inr_iff)
qed

lemma inactive_all:
  assumes "\<not> filters_active f" "rmapM (match_record env dg f scope fam refs year) irs = Inr os"
  shows "map record_index (the_list os) = map fst irs"
  using assms(2)
proof (induction irs arbitrary: os)
  case (Cons ir irs)
  obtain i r where p: "ir = (i, r)" by (cases ir)
  from Cons.prems obtain o1 os' where o: "os = o1 # os'" "match_record env dg f scope fam refs year (i, r) = Inr o1"
      "rmapM (match_record env dg f scope fam refs year) irs = Inr os'" by (auto simp: p)
  obtain m where m: "o1 = Some m" using inactive_keeps [OF assms(1) o(2)] by blast
  then show ?case using Cons.IH [OF o(3)] match_record_Some(1) [of env dg f scope fam refs year i r m] o(2)
    by (simp add: o(1) p the_list_Cons)
qed (simp add: the_list_def)

lemma match_tc:
  assumes "match_record env dg f scope fam refs year (i, r) = Inr (Some m)"
  shows "positive_tc f \<Longrightarrow> above_zero (tc_lower_bound_k m)"
    and "tc_min f = Some t \<Longrightarrow> \<exists>x. tc_lower_bound_k m = Some x \<and> \<not> float_less x t"
    and "wants_tc f \<Longrightarrow> \<not> outcome_conflicts_with_positive r \<and> eligible_for_property (assessment_py (rm_anomaly m)) ''tc_kelvin''"
proof -
  note tc = match_record_Some(5) [OF assms, unfolded tc_passes_def]
  show "above_zero (tc_lower_bound_k m)" if pos: "positive_tc f"
  proof -
    obtain x where x: "tc_lower_bound_k m = Some x" using tc pos by (cases "tc_lower_bound_k m") simp_all
    have "x \<noteq> NaN" using tc_lower_bound_Some(1) match_record_Some(4) [OF assms] unfolding x by blast
    moreover have "x \<noteq> Finite 0" "\<not> float_less x (Finite 0)" using tc pos x by simp_all
    ultimately show ?thesis by (cases x) (simp_all add: above_zero_def x)
  qed
  show "\<exists>x. tc_lower_bound_k m = Some x \<and> \<not> float_less x t" if "tc_min f = Some t"
    using tc that by (cases "tc_lower_bound_k m") simp_all
  show "\<not> outcome_conflicts_with_positive r \<and> eligible_for_property (assessment_py (rm_anomaly m)) ''tc_kelvin''" if "wants_tc f"
    using tc that by blast
qed

lemma match_pressure:
  assumes "match_record env dg f scope fam refs year (i, r) = Inr (Some m)" "\<not> include_unknown_pressure f"
  shows "ambient_only f \<Longrightarrow> pa_state (rm_pressure m) = ''explicit_ambient'' \<and> pa_gpa (rm_pressure m) = Some (Finite 0)"
    and "pressure_max f = Some (Finite h) \<Longrightarrow> \<exists>u. snd (pressure_extent (rm_pressure m)) = Some u \<and> \<not> float_less (Finite h) u"
proof -
  note p = match_record_Some(9) [OF assms(1)]
  show "pa_state (rm_pressure m) = ''explicit_ambient'' \<and> pa_gpa (rm_pressure m) = Some (Finite 0)" if "ambient_only f"
  proof -
    have "pressure_matches (rm_pressure m) (opt_float (pressure_max f)) (opt_float (pressure_min f)) True False = Inr True"
      using p that assms(2) by (simp add: pressure_passes_def pressure_filter_active_def split: if_splits)
    then have st: "pa_state (rm_pressure m) = ''explicit_ambient''" by (rule matches_ambient)
    obtain raw loc c pp where "rm_pressure m = assessment_from (text_env.truncate env) raw loc c (condition_ambient (evidence_record r)) pp" "good_reading pp"
      using classify_parts [OF match_record_Some(8) [OF assms(1)]] by metis
    from assessment_from_sound(2) [OF this(2,1) st] st show ?thesis by blast
  qed
  show "\<exists>u. snd (pressure_extent (rm_pressure m)) = Some u \<and> \<not> float_less (Finite h) u" if "pressure_max f = Some (Finite h)"
  proof -
    have "pressure_matches (rm_pressure m) (PFloat (Finite h)) (opt_float (pressure_min f)) (ambient_only f) False = Inr True"
      using p that assms(2) by (simp add: pressure_passes_def pressure_filter_active_def opt_float_def split: if_splits)
    then show ?thesis by (rule matches_top)
  qed
qed

lemma match_identity:
  assumes "match_record env dg f scope fam refs year (i, r) = Inr (Some m)" "is_mapping r"
  shows "rm_result_id m = as_result_id (rm_anomaly m)"
proof -
  obtain rid cs fs where "rm_anomaly m = assessment_of rid fs year"
      "is_mapping r \<longrightarrow> record_calls (parser_review_env env dg) r fam refs year = Inr cs \<and> legacy_result_id (parser_review_env env dg) r scope = Inr rid"
    using assess_Inr [OF match_record_Some(2) [OF assms(1)]] .
  then show ?thesis using assms(2) match_record_Some(10) [OF assms(1)] by (simp add: assessment_of_def Let_def)
qed

text \<open>
  C4. A filtered search returns only what each record itself supports. Matches come in the order
  of the records, every structured record when no filter is set. Each carries the identity of its
  own assessment; under a Tc filter its lower bound comes from a quantity that was parsed and not
  approximate, meets the bound, is positive when asked for, and neither an anomaly nor a negative
  outcome stands against it. An experimental filter admits only resolved observations, an ambient
  filter only explicit ambient evidence at exactly zero, and a pressure limit only a reported
  extent that lies below it whole, unless unknown pressures are asked for.
\<close>

theorem matches_are_supported:
  assumes "matching_result_references env dg now f scope fam refs cy records = Inr ms"
  shows "sorted_wrt (<) (map record_index ms) \<and>
    (\<not> filters_active f \<longrightarrow> set (map record_index ms) = {i. i < length (record_list records) \<and> is_mapping (record_list records ! i)}) \<and>
    (\<forall>m \<in> set ms. \<exists>r. record_index m < length (record_list records) \<and> r = record_list records ! record_index m \<and> is_mapping r \<and>
       rm_result_id m = as_result_id (rm_anomaly m) \<and>
       (\<forall>x. tc_lower_bound_k m = Some x \<longrightarrow> (\<exists>q. record_quantity env r ''tc_kelvin'' [''tc''] = Inr q \<and> q_status q = ''parsed'' \<and>
          \<not> q_approximate q \<and> q_relation q \<in> {''exact'', ''interval'', ''gt'', ''ge''})) \<and>
       (\<forall>t. tc_min f = Some t \<longrightarrow> (\<exists>x. tc_lower_bound_k m = Some x \<and> \<not> float_less x t)) \<and>
       (positive_tc f \<longrightarrow> above_zero (tc_lower_bound_k m)) \<and>
       (wants_tc f \<longrightarrow> \<not> outcome_conflicts_with_positive r \<and> eligible_for_property (assessment_py (rm_anomaly m)) ''tc_kelvin'') \<and>
       (experimental_only f \<longrightarrow> knowledge_origin (classify_result r) = ''Observed'' \<and> classification_status (classify_result r) = ''resolved'') \<and>
       (ambient_only f \<and> \<not> include_unknown_pressure f \<longrightarrow>
          pa_state (rm_pressure m) = ''explicit_ambient'' \<and> pa_gpa (rm_pressure m) = Some (Finite 0)) \<and>
       (\<forall>h. pressure_max f = Some (Finite h) \<and> \<not> include_unknown_pressure f \<longrightarrow>
          (\<exists>u. snd (pressure_extent (rm_pressure m)) = Some u \<and> \<not> float_less (Finite h) u)))"
proof -
  let ?irs = "filter (\<lambda>(i, r). is_mapping r) (enumerate 0 (record_list records))"
  obtain year os where os: "rmapM (match_record env dg f scope fam refs year) ?irs = Inr os" "ms = the_list os"
    using matching_Inr [OF assms] .
  have ordered: "sorted_wrt (<) (map record_index ms)"
  proof -
    have "sorted_wrt (<) (map fst ?irs)" by (rule sorted_enumerate_filter)
    then show ?thesis using matches_ordered [OF os(1)] unfolding os(2) by blast
  qed
  have all: "set (map record_index ms) = {i. i < length (record_list records) \<and> is_mapping (record_list records ! i)}" if "\<not> filters_active f"
    unfolding os(2) inactive_all [OF that os(1)] by (rule enumerate_filter_indices)
  have each: "\<exists>r. record_index m < length (record_list records) \<and> r = record_list records ! record_index m \<and> is_mapping r \<and>
       match_record env dg f scope fam refs year (record_index m, r) = Inr (Some m)" if "m \<in> set ms" for m
    using match_of_year [OF os that] .
  show ?thesis
  proof (intro conjI impI ballI)
    fix m assume "m \<in> set ms"
    then obtain r where r: "record_index m < length (record_list records)" "r = record_list records ! record_index m" "is_mapping r"
        and m: "match_record env dg f scope fam refs year (record_index m, r) = Inr (Some m)"
      using each by blast
    have tc: "\<exists>q. record_quantity env r ''tc_kelvin'' [''tc''] = Inr q \<and> q_status q = ''parsed'' \<and>
          \<not> q_approximate q \<and> q_relation q \<in> {''exact'', ''interval'', ''gt'', ''ge''}" if "tc_lower_bound_k m = Some x" for x
      using tc_lower_bound_Some(2) match_record_Some(4) [OF m] unfolding that .
    have org: "knowledge_origin (classify_result r) = ''Observed'' \<and> classification_status (classify_result r) = ''resolved''" if "experimental_only f"
      using match_record_Some(6) [OF m] that by (simp add: origin_passes_def)
    show "\<exists>r. record_index m < length (record_list records) \<and> r = record_list records ! record_index m \<and> is_mapping r \<and>
       rm_result_id m = as_result_id (rm_anomaly m) \<and>
       (\<forall>x. tc_lower_bound_k m = Some x \<longrightarrow> (\<exists>q. record_quantity env r ''tc_kelvin'' [''tc''] = Inr q \<and> q_status q = ''parsed'' \<and>
          \<not> q_approximate q \<and> q_relation q \<in> {''exact'', ''interval'', ''gt'', ''ge''})) \<and>
       (\<forall>t. tc_min f = Some t \<longrightarrow> (\<exists>x. tc_lower_bound_k m = Some x \<and> \<not> float_less x t)) \<and>
       (positive_tc f \<longrightarrow> above_zero (tc_lower_bound_k m)) \<and>
       (wants_tc f \<longrightarrow> \<not> outcome_conflicts_with_positive r \<and> eligible_for_property (assessment_py (rm_anomaly m)) ''tc_kelvin'') \<and>
       (experimental_only f \<longrightarrow> knowledge_origin (classify_result r) = ''Observed'' \<and> classification_status (classify_result r) = ''resolved'') \<and>
       (ambient_only f \<and> \<not> include_unknown_pressure f \<longrightarrow>
          pa_state (rm_pressure m) = ''explicit_ambient'' \<and> pa_gpa (rm_pressure m) = Some (Finite 0)) \<and>
       (\<forall>h. pressure_max f = Some (Finite h) \<and> \<not> include_unknown_pressure f \<longrightarrow>
          (\<exists>u. snd (pressure_extent (rm_pressure m)) = Some u \<and> \<not> float_less (Finite h) u))"
      by (intro exI [of _ r] conjI allI impI; (elim conjE)?;
          (rule r tc org match_identity [OF m] match_tc [OF m] match_pressure [OF m]; assumption?)?)
        (use match_tc(3) [OF m] match_pressure [OF m] org r(3) in simp_all)
  qed (use ordered all in simp_all)
qed

section \<open>The ambient headline\<close>

lemma any_supports_True: "any_supports g xs = Inr True \<Longrightarrow> \<exists>x \<in> set xs. g x = Inr True"
  by (induction xs) (auto split: if_splits)

text \<open>
  C5. An ambient headline is never made up. The summary answers with the stored value or with
  nothing, and never denies ambient superconductivity. When it keeps the value, some record
  reports exactly that number as its own lower bound, greater than zero, as a resolved observation
  with explicit ambient pressure and no negative outcome.
\<close>

theorem ambient_headline_supported:
  assumes "supported_ambient_summary env dg now records stored = Inr (v, flag)"
  shows "flag \<in> {None, Some True} \<and>
    (\<forall>x. v = Some x \<longrightarrow> flag = Some True \<and> finite_number stored = Some x \<and> 0 < x \<and>
      (\<exists>r \<in> set (record_list records). is_mapping r \<and> finite_number (pget r ''tc_kelvin'') = Some x \<and>
         tc_lower_bound env r = Inr (Some (Finite x)) \<and> knowledge_origin (classify_result r) = ''Observed'' \<and>
         classification_status (classify_result r) = ''resolved'' \<and> \<not> outcome_conflicts_with_positive r \<and>
         (\<exists>a. classify_pressure (text_env.truncate env) r = Inr a \<and> pa_state a = ''explicit_ambient'' \<and> pa_gpa a = Some (Finite 0))))"
proof -
  obtain ms supported where ms: "matching_result_references env dg now ambient_filters ''ambient-summary'' PNone [] PNone records = Inr ms"
      and sup: "(case finite_number stored of None \<Rightarrow> Inr False
        | Some x \<Rightarrow> any_supports (supports_headline env (record_list records) x) (filter (\<lambda>m. above_zero (tc_lower_bound_k m)) ms)) = Inr supported"
      and v: "v = (if supported then finite_number stored else None)"
      and flag: "flag = (if filter (\<lambda>m. above_zero (tc_lower_bound_k m)) ms \<noteq> [] then Some True else None)"
    using assms unfolding supported_ambient_summary_def Let_def by (auto simp: rbind_Inr_iff)
  have "flag = Some True \<and> finite_number stored = Some x \<and> 0 < x \<and>
      (\<exists>r \<in> set (record_list records). is_mapping r \<and> finite_number (pget r ''tc_kelvin'') = Some x \<and>
         tc_lower_bound env r = Inr (Some (Finite x)) \<and> knowledge_origin (classify_result r) = ''Observed'' \<and>
         classification_status (classify_result r) = ''resolved'' \<and> \<not> outcome_conflicts_with_positive r \<and>
         (\<exists>a. classify_pressure (text_env.truncate env) r = Inr a \<and> pa_state a = ''explicit_ambient'' \<and> pa_gpa a = Some (Finite 0)))"
    if x: "v = Some x" for x
  proof -
    have st: "supported" "finite_number stored = Some x" using x v by (auto split: if_splits)
    then obtain m where m: "m \<in> set ms" "above_zero (tc_lower_bound_k m)" and h: "supports_headline env (record_list records) x m = Inr True"
      using sup any_supports_True by fastforce
    obtain year os where os: "rmapM (match_record env dg ambient_filters ''ambient-summary'' PNone [] year)
        (filter (\<lambda>(i, r). is_mapping r) (enumerate 0 (record_list records))) = Inr os" "ms = the_list os"
      using matching_Inr [OF ms] .
    obtain r where i: "record_index m < length (record_list records)" and r: "r = record_list records ! record_index m" "is_mapping r"
      and mr: "match_record env dg ambient_filters ''ambient-summary'' PNone [] year (record_index m, r) = Inr (Some m)"
      using match_of_year [OF os m(1)] by blast
    have f: "ambient_only ambient_filters" "experimental_only ambient_filters" "wants_tc ambient_filters" "\<not> include_unknown_pressure ambient_filters"
      by (simp_all add: ambient_filters_def wants_tc_def)
    have head: "finite_number (pget r ''tc_kelvin'') = Some x" "tc_lower_bound env r = Inr (Some (Finite x))"
      using h unfolding supports_headline_def Let_def r(1) [symmetric] by (auto simp: rbind_Inr_iff split: if_splits)
    have "tc_lower_bound_k m = Some (Finite x)" using match_record_Some(4) [OF mr] head(2) by simp
    then have pos: "0 < x" using m(2) by (simp add: above_zero_def)
    have org: "knowledge_origin (classify_result r) = ''Observed''" "classification_status (classify_result r) = ''resolved''"
      using match_record_Some(6) [OF mr] f(2) by (simp_all add: origin_passes_def)
    have p: "classify_pressure (text_env.truncate env) r = Inr (rm_pressure m)"
        "pa_state (rm_pressure m) = ''explicit_ambient'' \<and> pa_gpa (rm_pressure m) = Some (Finite 0)"
      by (rule match_record_Some(8) [OF mr], rule match_pressure(1) [OF mr f(4,1)])
    have out: "\<not> outcome_conflicts_with_positive r" using match_tc(3) [OF mr f(3)] by simp
    have fl: "flag = Some True" using m unfolding flag by (auto simp: filter_empty_conv)
    have "r \<in> set (record_list records)" using i r(1) by simp
    then show ?thesis using fl st(2) pos r(2) head org out p by blast
  qed
  then show ?thesis by (auto simp: flag)
qed

section \<open>A concrete material\<close>

definition demo_ambient_record :: pyval where
  "demo_ambient_record = PDict [(PStr ''tc_kelvin'', PInt 20), (PStr ''pressure'', PStr ''ambient pressure''),
     (PStr ''evidence_type'', PStr ''measured'')]"

definition demo_records :: pyval where
  "demo_records = PList [PStr ''not a record'', demo_ambient_record]"

lemma demo_assessed:
  "case assess_record_anomalies (parser_review_env demo_quantity_env demo_digest) ''ambient-summary'' PNone [] (PInt 2026) demo_ambient_record of
     Inl _ \<Rightarrow> False
   | Inr a \<Rightarrow> list_all (eligible_for_property (assessment_py a)) [''tc_kelvin'', ''tc_ambient'', ''pressure_gpa'']"
  by code_simp

lemma demo_bound: "tc_lower_bound demo_quantity_env demo_ambient_record = Inr (Some (Finite 20))"
  by code_simp

lemma demo_pressure:
  "case classify_pressure (text_env.truncate demo_quantity_env) demo_ambient_record of
     Inl _ \<Rightarrow> False | Inr p \<Rightarrow> pressure_matches p PNone PNone True False = Inr True"
  by code_simp

lemma demo_origin: "origin_passes ambient_filters (classify_result demo_ambient_record)" "\<not> outcome_conflicts_with_positive demo_ambient_record"
  by code_simp+

lemma demo_match:
  obtains m where "match_record demo_quantity_env demo_digest ambient_filters ''ambient-summary'' PNone [] (PInt 2026) (1, demo_ambient_record) = Inr (Some m)"
    "record_index m = 1" "tc_lower_bound_k m = Some (Finite 20)"
proof -
  obtain a where a: "assess_record_anomalies (parser_review_env demo_quantity_env demo_digest) ''ambient-summary'' PNone [] (PInt 2026) demo_ambient_record = Inr a"
      "list_all (eligible_for_property (assessment_py a)) [''tc_kelvin'', ''tc_ambient'', ''pressure_gpa'']"
    using demo_assessed by (auto split: sum.splits)
  obtain p where p: "classify_pressure (text_env.truncate demo_quantity_env) demo_ambient_record = Inr p"
      "pressure_matches p PNone PNone True False = Inr True"
    using demo_pressure by (auto split: sum.splits)
  have "tc_passes ambient_filters a demo_ambient_record (Some (Finite 20))"
    using a(2) demo_origin(2) by (simp add: tc_passes_def ambient_filters_def)
  moreover have "pressure_passes ambient_filters a p = Inr True"
    using a(2) p(2) by (simp add: pressure_passes_def ambient_filters_def pressure_filter_active_def opt_float_def)
  moreover have "family_passes ambient_filters fam" "source_passes te ambient_filters r = Inr True" for fam te r
    by (simp_all add: family_passes_def source_passes_def ambient_filters_def given_def)
  ultimately show thesis using that demo_origin(1)
    by (simp add: match_record_def a(1) p(1) demo_bound demo_identity Let_def)
qed

lemma demo_matches:
  obtains m where "matching_result_references demo_quantity_env demo_digest 2026 ambient_filters ''ambient-summary'' PNone [] PNone demo_records = Inr [m]"
    "record_index m = 1" "tc_lower_bound_k m = Some (Finite 20)"
proof -
  obtain m where m: "match_record demo_quantity_env demo_digest ambient_filters ''ambient-summary'' PNone [] (PInt 2026) (1, demo_ambient_record) = Inr (Some m)"
    "record_index m = 1" "tc_lower_bound_k m = Some (Finite 20)" by (rule demo_match)
  have "is_mapping demo_ambient_record" by (simp add: demo_ambient_record_def)
  then show thesis using that [of m] m by (simp add: matching_result_references_def demo_records_def the_list_def)
qed

lemma demo_headline: "supported_ambient_summary demo_quantity_env demo_digest 2026 demo_records (PInt 20) = Inr (Some 20, Some True)"
proof -
  obtain m where m: "matching_result_references demo_quantity_env demo_digest 2026 ambient_filters ''ambient-summary'' PNone [] PNone demo_records = Inr [m]"
    "record_index m = 1" "tc_lower_bound_k m = Some (Finite 20)" by (rule demo_matches)
  have n: "finite_number (PInt 20) = Some 20" by code_simp
  have "supports_headline demo_quantity_env (record_list demo_records) 20 m = Inr True"
    using demo_bound n by (simp add: supports_headline_def m(2) demo_records_def) (simp add: demo_ambient_record_def)
  then show ?thesis using n by (simp add: supported_ambient_summary_def m(1,3) above_zero_def del: finite_number.simps)
qed

theorem matches_are_supported_witness:
  "\<exists>ms m. matching_result_references demo_quantity_env demo_digest 2026 ambient_filters ''ambient-summary'' PNone [] PNone demo_records = Inr ms \<and>
     m \<in> set ms \<and> above_zero (tc_lower_bound_k m)"
proof -
  obtain m where m: "matching_result_references demo_quantity_env demo_digest 2026 ambient_filters ''ambient-summary'' PNone [] PNone demo_records = Inr [m]"
    by (rule demo_matches)
  have "positive_tc ambient_filters" by (simp add: ambient_filters_def)
  then have "above_zero (tc_lower_bound_k m)" using matches_are_supported [OF m] by auto
  then show ?thesis using m by auto
qed

theorem ambient_headline_supported_witness:
  "\<exists>r \<in> set (record_list demo_records). finite_number (pget r ''tc_kelvin'') = Some 20 \<and> knowledge_origin (classify_result r) = ''Observed''"
  using ambient_headline_supported [OF demo_headline] by blast

end
