(* ===== verification/Timeline_Points.thy ===== *)
theory Timeline_Points
  imports Quantity_Review
begin

text \<open>
  Timeline occurrences (\<open>api/services/timeline_points.py\<close>): which records of a material become
  points of the timeline, with what year and identity, and how identical and conflicting
  occurrences are treated.

  The quantity parser, the pressure and origin classifiers and the anomaly review are the models of
  the other theories. Arguments are SHA-256 (\<open>tp_sha\<close>), the digest of the review, the standard
  library's ISO date readers on texts of the lengths the code admits, and the calendar day of a
  date object among the papers. A date is year, month and day. \<open>as_float\<close> is only ever called on
  numbers, where it is \<open>finite_number\<close>.
\<close>

type_synonym cal_date = "nat \<times> nat \<times> nat"

record points_env = quantity_env +
  tp_digest :: "pyval \<Rightarrow> (py_error, string) res"
  tp_sha :: "string \<Rightarrow> string"
  iso_day :: "string \<Rightarrow> cal_date option"
  iso_stamp :: "string \<Rightarrow> cal_date option"
  object_date :: "nat \<Rightarrow> cal_date option"

section \<open>Tables\<close>

definition TIMELINE_RESULT_CONTRACT_VERSION :: string where
  "TIMELINE_RESULT_CONTRACT_VERSION = ''timeline-result/1.0.0''"

definition DERIVED_FIELDS :: "string list" where
  "DERIVED_FIELDS =
     [''result_classification'', ''pressure_semantics'', ''property_evidence'', ''structure_evidence'', ''ingestion_capture'',
      ''temporal_provenance'', ''anomaly_review'', ''visibility'', ''result_metadata'', ''occurrence_count'', ''review_status'',
      ''review_reason'', ''reviewed_at'', ''reviewed_by'', ''admin_decision'', ''review_metadata'', ''needs_review'',
      ''scientific_acceptance'', ''retracted'', ''disputed'', ''corrected'', ''source_status'', ''validity_status'']"

definition STATE_FIELDS :: "string list" where
  "STATE_FIELDS =
     [''state_id'', ''sample_id'', ''structure_id'', ''run_id'', ''formula'', ''formula_raw'', ''structure_phase'', ''sample_form'',
      ''substrate'', ''doping_type'', ''doping_level'', ''magnetic_field_tesla'', ''strain_percent'', ''carrier_density_cm3'']"

definition POINT_LOCATOR_FIELDS :: "string list" where
  "POINT_LOCATOR_FIELDS = [''page'', ''table'', ''figure'', ''row'', ''column'', ''section'', ''chunk_id'', ''span_id'']"

definition DECLARED_YEAR_BASES :: "(string \<times> string) list" where
  "DECLARED_YEAR_BASES =
     [(''measurement'', ''explicit_measurement_year''), (''measurement_year'', ''explicit_measurement_year''),
      (''explicit_measurement_year'', ''explicit_measurement_year''), (''report'', ''explicit_report_year''),
      (''report_year'', ''explicit_report_year''), (''explicit_report_year'', ''explicit_report_year''),
      (''publication'', ''source_publication_year''), (''publication_year'', ''source_publication_year''),
      (''source_publication_year'', ''source_publication_year''), (''submission'', ''source_submission_year''),
      (''submission_year'', ''source_submission_year''), (''source_submission_year'', ''source_submission_year'')]"

section \<open>Texts, scalars and dates\<close>

text \<open>Too long or blank identifiers are omitted, never cut.\<close>

definition point_text :: "pyval \<Rightarrow> nat \<Rightarrow> string option" where
  "point_text v limit = (if is_str v \<and> length (str_of v) \<le> limit \<and> py_strip (str_of v) \<noteq> [] then Some (py_strip (str_of v)) else None)"

fun point_scalar :: "pyval \<Rightarrow> nat \<Rightarrow> pyval" where
  "point_scalar (PStr s) limit = (case point_text (PStr s) limit of None \<Rightarrow> PNone | Some t \<Rightarrow> PStr t)"
| "point_scalar v limit = (if finite_number v \<noteq> None then v else PNone)"

fun point_year :: "pyval \<Rightarrow> int option" where
  "point_year (PInt i) = Some i"
| "point_year (PStr s) = (if length s = 4 \<and> list_all is_digit_char s then Some (int (digits_value s)) else None)"
| "point_year _ = None"

fun point_date :: "points_env \<Rightarrow> pyval \<Rightarrow> cal_date option" where
  "point_date env (PStr s) =
     (if \<not> (10 \<le> int (length s) \<and> int (length s) \<le> 40) then None
      else if int (length s) = 10 then iso_day env s
      else iso_stamp env (concat (map (\<lambda>c. if c = CHR ''Z'' then ''+00:00'' else [c]) s)))"
| "point_date env (POpaque n) = object_date env n"
| "point_date env _ = None"

definition padded :: "nat \<Rightarrow> nat \<Rightarrow> string" where
  "padded w n = replicate (w - length (nat_digits n)) (CHR ''0'') @ nat_digits n"

definition isoformat :: "cal_date \<Rightarrow> string" where
  "isoformat d = (case d of (y, mo, da) \<Rightarrow> padded 4 y @ ''-'' @ padded 2 mo @ ''-'' @ padded 2 da)"

definition is_aps_record :: "pyval \<Rightarrow> bool" where
  "is_aps_record r = (case pget r ''paper_id'' of PStr s \<Rightarrow> take 4 s = ''aps:'' | _ \<Rightarrow> False)"

fun point_records :: "pyval \<Rightarrow> pyval list" where
  "point_records (PList rs) = rs"
| "point_records (PTuple rs) = rs"
| "point_records _ = []"

text \<open>The papers whose dates a material needs, as the list of a set.\<close>

definition referenced_paper_ids :: "pyval \<Rightarrow> bool \<Rightarrow> string list" where
  "referenced_paper_ids records aps =
     remdups (List.map_filter (\<lambda>r. if is_mapping r \<and> (\<not> aps \<or> is_aps_record r) then point_text (pget r ''paper_id'') 100 else None)
       (point_records records))"

definition dated_keys :: "string list" where
  "dated_keys = [''year'', ''measurement_year'', ''measurement_date'', ''report_year'', ''report_date'']"

definition missing_year_paper_ids :: "pyval \<Rightarrow> bool \<Rightarrow> string list" where
  "missing_year_paper_ids records aps =
     remdups (List.map_filter (\<lambda>r.
         if \<not> is_mapping r \<or> aps \<and> \<not> is_aps_record r \<or> list_ex (\<lambda>k. pget r k \<noteq> PNone) dated_keys then None
         else point_text (pget r ''paper_id'') 100) (point_records records))"

section \<open>Chronology\<close>

record source_dates =
  sd_date :: "cal_date option"
  sd_basis :: string
  sd_warnings :: "string list"

definition source_step :: "points_env \<Rightarrow> source_dates \<Rightarrow> pyval \<times> string \<Rightarrow> source_dates" where
  "source_step env st candidate = (case candidate of (raw, basis) \<Rightarrow>
     if raw = PNone then st
     else case point_date env raw of
            None \<Rightarrow> st\<lparr>sd_warnings := sd_warnings st @ [''invalid_source_'' @ basis @ ''_date'']\<rparr>
          | Some d \<Rightarrow>
              if sd_date st = None then st\<lparr>sd_date := Some d, sd_basis := basis\<rparr>
              else if basis = sd_basis st \<and> Some d \<noteq> sd_date st
              then st\<lparr>sd_warnings := sd_warnings st @ [''source_date_assertions_disagree'']\<rparr>
              else st)"

definition source_dates_of :: "points_env \<Rightarrow> pyval \<Rightarrow> pyval \<Rightarrow> source_dates" where
  "source_dates_of env r paper =
     foldl (source_step env) \<lparr>sd_date = None, sd_basis = ''unknown'', sd_warnings = []\<rparr>
       [(pget r ''date_published'', ''publication''), (pget r ''publication_date'', ''publication''),
        (pget paper ''date_published'', ''publication''), (pget r ''date_submitted'', ''submission''),
        (pget r ''submission_date'', ''submission''), (pget paper ''date_submitted'', ''submission'')]"

definition source_context :: "points_env \<Rightarrow> pyval \<Rightarrow> pyval \<Rightarrow> (pyval \<times> pyval) list \<times> source_dates" where
  "source_context env r paper =
     (let st = source_dates_of env r paper; own = point_scalar (pget r ''source_version'') 160
      in ([(PStr ''source_date'', opt_str (map_option isoformat (sd_date st))), (PStr ''source_date_basis'', PStr (sd_basis st)),
           (PStr ''source_version'', if own = PNone then point_scalar (pget paper ''source_version'') 160 else own)], st))"

definition CHRONOLOGY_FIELDS :: "(string \<times> string \<times> bool) list" where
  "CHRONOLOGY_FIELDS =
     [(''measurement_year'', ''explicit_measurement_year'', False), (''measurement_date'', ''explicit_measurement_date'', True),
      (''report_year'', ''explicit_report_year'', False), (''report_date'', ''explicit_report_date'', True),
      (''year'', ''legacy_record_year_unspecified'', False)]"

text \<open>An unreadable explicit field ends the loop without a year.\<close>

fun year_candidates ::
  "points_env \<Rightarrow> pyval \<Rightarrow> (string \<times> string \<times> bool) list \<Rightarrow> ((int \<times> string) list \<times> string list) option" where
  "year_candidates env r [] = Some ([], [])"
| "year_candidates env r ((k, basis, is_date) # fs) =
     (let raw = pget r k
      in if raw = PNone then year_candidates env r fs
         else case (if is_date then map_option (\<lambda>d. int (fst d)) (point_date env raw) else point_year raw) of
                None \<Rightarrow> None
              | Some y \<Rightarrow>
                  let declared = (if k = ''year'' then map_option py_lower (point_text (pget r ''year_basis'') 80) else None);
                      known = (case declared of None \<Rightarrow> None | Some d \<Rightarrow> map_of DECLARED_YEAR_BASES d)
                  in map_option (\<lambda>(cs, ws).
                       ((y, case known of None \<Rightarrow> basis | Some b \<Rightarrow> b) # cs,
                        (if declared \<noteq> None \<and> known = None then [''year_basis_unrecognized''] else []) @ ws))
                       (year_candidates env r fs))"

definition chronology :: "points_env \<Rightarrow> pyval \<Rightarrow> pyval \<Rightarrow> int option \<times> (pyval \<times> pyval) list" where
  "chronology env r paper =
     (let (src, st) = source_context env r paper
      in case year_candidates env r CHRONOLOGY_FIELDS of
           None \<Rightarrow> (None, [])
         | Some (cs, ws) \<Rightarrow>
             let disagree = (if length (remdups (map fst cs)) > 1 then [''chronology_fields_disagree''] else []);
                 (y, basis) =
                   (case cs of
                      (y, b) # _ \<Rightarrow> (Some y, b)
                    | [] \<Rightarrow> (case sd_date st of
                        Some d \<Rightarrow> (Some (int (digits_value (take 4 (isoformat d)))), ''source_'' @ sd_basis st @ ''_date'')
                      | None \<Rightarrow> (point_year paper, if point_year paper \<noteq> None then ''legacy_source_year'' else ''unknown'')))
             in (y, src @ [(PStr ''year_basis'', PStr basis),
                   (PStr ''chronology_warnings'', PList (map PStr (sort (remdups (sd_warnings st @ ws @ disagree)))))]))"

section \<open>Identity\<close>

definition governance_key :: "string \<Rightarrow> bool" where
  "governance_key k \<longleftrightarrow> k \<in> set DERIVED_FIELDS \<or>
     list_ex (\<lambda>p. take (length p) (py_lower k) = p) [''reviewer'', ''curator'', ''private_review'', ''internal_review'']"

definition content_error :: "string \<Rightarrow> (py_error, 'a) res" where
  "content_error t = Inl (ValueError t)"

text \<open>The content that identifies an occurrence; nesting is bounded at 24.\<close>

fun original_content :: "int \<Rightarrow> pyval \<Rightarrow> (py_error, pyval) res"
  and original_items :: "int \<Rightarrow> pyval list \<Rightarrow> (py_error, pyval list) res"
  and original_members :: "int \<Rightarrow> (pyval \<times> pyval) list \<Rightarrow> (py_error, (pyval \<times> pyval) list) res" where
  "original_content d (PDict kvs) =
     (if d > 24 then content_error ''Timeline occurrence nesting exceeds the identity bound''
      else rbind (original_members (d + 1) kvs) (\<lambda>ms. Inr (PDict ms)))"
| "original_content d (PList xs) =
     (if d > 24 then content_error ''Timeline occurrence nesting exceeds the identity bound''
      else rbind (original_items (d + 1) xs) (\<lambda>ys. Inr (PList ys)))"
| "original_content d (PTuple xs) =
     (if d > 24 then content_error ''Timeline occurrence nesting exceeds the identity bound''
      else rbind (original_items (d + 1) xs) (\<lambda>ys. Inr (PList ys)))"
| "original_content d (PFloat x) =
     (if d > 24 then content_error ''Timeline occurrence nesting exceeds the identity bound''
      else case x of Finite q \<Rightarrow> Inr (PFloat (Finite q)) | _ \<Rightarrow> content_error ''Non-finite occurrence content'')"
| "original_content d (POpaque n) =
     (if d > 24 then content_error ''Timeline occurrence nesting exceeds the identity bound''
      else content_error ''Timeline occurrence contains a non-JSON value'')"
| "original_content d v =
     (if d > 24 then content_error ''Timeline occurrence nesting exceeds the identity bound'' else Inr v)"
| "original_items d [] = Inr []"
| "original_items d (x # xs) = rbind (original_content d x) (\<lambda>y. rbind (original_items d xs) (\<lambda>ys. Inr (y # ys)))"
| "original_members d [] = Inr []"
| "original_members d ((k, v) # kvs) =
     (if \<not> is_str k then content_error ''Timeline occurrence keys must be strings''
      else if governance_key (str_of k) then original_members d kvs
      else rbind (original_content d v) (\<lambda>w. rbind (original_members d kvs) (\<lambda>ms. Inr ((k, w) # ms))))"

definition point_digest :: "points_env \<Rightarrow> pyval \<Rightarrow> (py_error, string) res" where
  "point_digest env v = rbind (json_text (sv_float_text env) v) (\<lambda>t. Inr (tp_sha env t))"

definition scalar_members :: "string list \<Rightarrow> (string \<Rightarrow> pyval) \<Rightarrow> (pyval \<times> pyval) list" where
  "scalar_members ks g = filter (\<lambda>(k, v). v \<noteq> PNone) (map (\<lambda>k. (PStr k, g k)) ks)"

definition point_state :: "pyval \<Rightarrow> pyval" where
  "point_state r =
     PDict (scalar_members STATE_FIELDS (\<lambda>k. point_scalar (if pget r k \<noteq> PNone then pget r k else pget (pget r ''state'') k) 160))"

definition point_locator :: "pyval \<Rightarrow> pyval" where
  "point_locator l = PDict (if is_mapping l then scalar_members POINT_LOCATOR_FIELDS (\<lambda>k. point_scalar (pget l k) 120) else [])"

section \<open>One point\<close>

record result_metadata =
  md_result_id :: string
  md_revision :: pyval
  md_supplied :: bool
  md_conflict :: bool
  md_chronology :: "(pyval \<times> pyval) list"
  md_state :: pyval
  md_criterion :: string
  md_locator :: pyval
  md_count :: nat

record projected_point =
  tp_id :: string
  tp_material_id :: string
  tp_tc :: rat
  tp_year :: int
  tp_pressure :: "pyfloat option"
  tp_paper_id :: "string option"
  tp_theoretical :: bool
  tp_aps :: bool
  tp_origin :: result_classification
  tp_semantics :: pyval
  tp_metadata :: result_metadata

definition metadata_py :: "result_metadata \<Rightarrow> pyval" where
  "metadata_py md = PDict
     ([(PStr ''version'', PStr TIMELINE_RESULT_CONTRACT_VERSION), (PStr ''result_id'', PStr (md_result_id md)),
       (PStr ''result_revision'', md_revision md),
       (PStr ''identity_basis'', PStr (if md_supplied md then ''result_revision_content'' else ''legacy_occurrence_content'')),
       (PStr ''identity_conflict'', PBool (md_conflict md)),
       (PStr ''identity_warnings'', PList (if md_conflict md then [PStr ''supplied_result_revision_has_conflicting_occurrences''] else []))]
      @ md_chronology md @
      [(PStr ''state'', md_state md), (PStr ''tc_criterion'', PStr (md_criterion md)), (PStr ''source_locator'', md_locator md),
       (PStr ''occurrence_count'', PInt (int (md_count md))), (PStr ''review_status'', PStr ''legacy_unreviewed'')])"

text \<open>The exact value of a plain quantity.\<close>

definition plain_tc :: "quantity \<Rightarrow> rat option" where
  "plain_tc q =
     (if q_value q = None \<or> q_status q \<noteq> ''parsed'' \<or> q_relation q \<noteq> ''exact'' \<or> q_errors q \<noteq> [] \<or> q_approximate q \<or>
         q_uncertainty q \<noteq> None then None
      else finite_number (opt_float_py (q_value q)))"

definition tc_criterion :: "pyval \<Rightarrow> string" where
  "tc_criterion r =
     (case point_text (pget r ''tc_criterion'') 120 of Some t \<Rightarrow> t
      | None \<Rightarrow> (case point_text (pget r ''tc_type'') 120 of Some t \<Rightarrow> t | None \<Rightarrow> ''unknown''))"

definition build_point ::
  "points_env \<Rightarrow> string \<Rightarrow> pyval \<Rightarrow> rat \<Rightarrow> string option \<Rightarrow> int \<Rightarrow> (pyval \<times> pyval) list \<Rightarrow> pressure_assessment \<Rightarrow>
     (py_error, projected_point) res" where
  "build_point env material_id r tc paper_id y chron p =
     rbind (original_content 0 r) (\<lambda>content.
     rbind (point_digest env (PList [PStr material_id, content])) (\<lambda>fingerprint.
       let supplied = point_text (pget r ''result_id'') 500;
           own = point_scalar (pget r ''result_revision'') 160;
           revision = (if own = PNone then point_scalar (pget r ''revision'') 160 else own);
           result_id = (case supplied of Some t \<Rightarrow> t | None \<Rightarrow> ''legacy-timeline-result:'' @ fingerprint);
           semantics = assessment_dict PRESSURE_POLICY_VERSION p
       in rbind (point_digest env (PList [PStr TIMELINE_RESULT_CONTRACT_VERSION, PStr material_id, PStr result_id, revision,
                   PStr fingerprint, PInt y, PDict chron])) (\<lambda>pid.
            Inr \<lparr>tp_id = pid, tp_material_id = material_id, tp_tc = tc, tp_year = y,
              tp_pressure = (if pa_state p \<in> {''reported'', ''explicit_ambient''} then pa_gpa p else None),
              tp_paper_id = paper_id, tp_theoretical = is_computed_result r, tp_aps = is_aps_record r, tp_origin = classify_result r,
              tp_semantics = pput semantics ''source_locator'' (point_locator (pget semantics ''source_locator'')),
              tp_metadata = \<lparr>md_result_id = result_id, md_revision = revision, md_supplied = supplied \<noteq> None, md_conflict = False,
                md_chronology = chron, md_state = point_state r, md_criterion = tc_criterion r,
                md_locator = point_locator (pget r ''source_locator''), md_count = 1\<rparr>\<rparr>)))"

definition extract_point ::
  "points_env \<Rightarrow> string \<Rightarrow> pyval \<Rightarrow> int \<Rightarrow> pyval \<Rightarrow> pyval list \<Rightarrow> pyval \<Rightarrow> (py_error, projected_point option) res" where
  "extract_point env material_id paper_years year_hi family refs r =
     rbind (record_quantity env r ''tc_kelvin'' [''tc'']) (\<lambda>q.
       case plain_tc q of
         None \<Rightarrow> Inr None
       | Some tc \<Rightarrow>
           let paper_id = point_text (pget r ''paper_id'') 100
           in if pget r ''paper_id'' \<noteq> PNone \<and> paper_id = None then Inr None
              else let (year, chron) = chronology env r (case paper_id of None \<Rightarrow> PNone | Some k \<Rightarrow> pget paper_years k)
                   in case year of
                        None \<Rightarrow> Inr None
                      | Some y \<Rightarrow>
                          if tc \<le> 0 \<or> \<not> (1900 \<le> y \<and> y \<le> year_hi) then Inr None
                          else rbind (assess_record_anomalies (parser_review_env (quantity_env.truncate env) (tp_digest env)) material_id
                                        family refs (PInt (year_hi - 1)) r) (\<lambda>a.
                            if \<not> list_all (eligible_for_property (assessment_py a)) [''tc_kelvin'', ''year'', ''pressure_gpa''] then Inr None
                            else rbind (classify_pressure (text_env.truncate env) r) (\<lambda>p.
                                 rbind (build_point env material_id r tc paper_id y chron p) (\<lambda>pt. Inr (Some pt)))))"

section \<open>All points\<close>

text \<open>\<open>except (TypeError, ValueError, OverflowError, RecursionError)\<close>.\<close>

fun skipped_error :: "py_error \<Rightarrow> bool" where
  "skipped_error TypeError = True"
| "skipped_error (ValueError _) = True"
| "skipped_error IntOverflow = True"
| "skipped_error _ = False"

definition try_point ::
  "points_env \<Rightarrow> string \<Rightarrow> pyval \<Rightarrow> int \<Rightarrow> pyval \<Rightarrow> pyval list \<Rightarrow> pyval \<Rightarrow> (py_error, projected_point option) res" where
  "try_point env material_id paper_years year_hi family refs r =
     (if \<not> is_mapping r then Inr None
      else case extract_point env material_id paper_years year_hi family refs r of
             Inl e \<Rightarrow> if skipped_error e then Inr None else Inl e
           | Inr x \<Rightarrow> Inr x)"

definition counted_again :: "projected_point \<Rightarrow> projected_point" where
  "counted_again p = p\<lparr>tp_metadata := (tp_metadata p)\<lparr>md_count := md_count (tp_metadata p) + 1\<rparr>\<rparr>"

text \<open>\<open>seen\<close>, in insertion order.\<close>

fun add_point :: "projected_point list \<Rightarrow> projected_point \<Rightarrow> projected_point list" where
  "add_point [] p = [p]"
| "add_point (q # qs) p = (if tp_id q = tp_id p then counted_again q # qs else q # add_point qs p)"

type_synonym identity_key = "string \<times> pyval"

definition same_key :: "identity_key \<Rightarrow> identity_key \<Rightarrow> bool" where
  "same_key a b \<longleftrightarrow> fst a = fst b \<and> py_eq (snd a) (snd b)"

definition identity_key :: "projected_point \<Rightarrow> identity_key" where
  "identity_key p = (md_result_id (tp_metadata p), md_revision (tp_metadata p))"

fun add_identity :: "(identity_key \<times> string list) list \<Rightarrow> identity_key \<Rightarrow> string \<Rightarrow> (identity_key \<times> string list) list" where
  "add_identity [] k i = [(k, [i])]"
| "add_identity ((j, ids) # g) k i = (if same_key j k then (j, ids @ [i]) # g else (j, ids) # add_identity g k i)"

definition supplied_identities :: "projected_point list \<Rightarrow> (identity_key \<times> string list) list" where
  "supplied_identities ps = foldl (\<lambda>g p. add_identity g (identity_key p) (tp_id p)) [] (filter (\<lambda>p. md_supplied (tp_metadata p)) ps)"

definition marked :: "projected_point \<Rightarrow> projected_point" where
  "marked p = p\<lparr>tp_metadata := (tp_metadata p)\<lparr>md_conflict := True\<rparr>\<rparr>"

definition mark_id :: "projected_point list \<Rightarrow> string \<Rightarrow> projected_point list" where
  "mark_id ps i = map (\<lambda>p. if tp_id p = i then marked p else p) ps"

definition mark_conflicts :: "projected_point list \<Rightarrow> projected_point list" where
  "mark_conflicts ps = foldl (\<lambda>qs (k, ids). if length ids < 2 then qs else foldl mark_id qs ids) ps (supplied_identities ps)"

definition extract_timeline_points ::
  "points_env \<Rightarrow> string \<Rightarrow> pyval \<Rightarrow> pyval \<Rightarrow> int \<Rightarrow> int option \<Rightarrow> pyval \<Rightarrow> pyval list \<Rightarrow> (py_error, projected_point list) res" where
  "extract_timeline_points env material_id records paper_years now_year current_year family refs =
     (let year_hi = (case current_year of None \<Rightarrow> now_year | Some y \<Rightarrow> if y = 0 then now_year else y) + 1
      in rbind (rmapM (try_point env material_id paper_years year_hi family refs) (point_records records)) (\<lambda>xs.
           Inr (sort_key (\<lambda>p. (tp_year p, - tp_tc p, tp_id p)) (mark_conflicts (foldl add_point [] (List.map_filter id xs))))))"

section \<open>Where a point comes from\<close>

lemma plain_tc_Some:
  assumes "plain_tc q = Some t"
  shows "q_status q = ''parsed''" "q_relation q = ''exact''" "q_value q = Some (Finite t)" "q_uncertainty q = None" "\<not> q_approximate q"
proof -
  have "\<not> (q_value q = None \<or> q_status q \<noteq> ''parsed'' \<or> q_relation q \<noteq> ''exact'' \<or> q_errors q \<noteq> [] \<or> q_approximate q \<or> q_uncertainty q \<noteq> None)"
      "finite_number (opt_float_py (q_value q)) = Some t"
    using assms unfolding plain_tc_def by (auto split: if_splits)
  moreover from this(1) obtain x where "q_value q = Some x" by (cases "q_value q") simp_all
  ultimately show "q_status q = ''parsed''" "q_relation q = ''exact''" "q_value q = Some (Finite t)" "q_uncertainty q = None" "\<not> q_approximate q"
    by (cases x; simp add: opt_float_py_def)+
qed

lemma build_point_Inr:
  assumes "build_point env mid r tc pid y chron c = Inr p"
  shows "tp_tc p = tc" "tp_year p = y" "tp_material_id p = mid" "tp_origin p = classify_result r" "tp_theoretical p = is_computed_result r"
    "tp_pressure p = (if pa_state c \<in> {''reported'', ''explicit_ambient''} then pa_gpa c else None)"
    "md_count (tp_metadata p) = 1" "\<not> md_conflict (tp_metadata p)"
    "\<exists>v. md_revision (tp_metadata p) = point_scalar v 160"
  using assms by (auto simp: build_point_def Let_def rbind_Inr_iff)

text \<open>What the record of a point satisfies.\<close>

definition point_source :: "points_env \<Rightarrow> string \<Rightarrow> int \<Rightarrow> pyval \<Rightarrow> pyval list \<Rightarrow> pyval \<Rightarrow> projected_point \<Rightarrow> bool" where
  "point_source env mid year_hi family refs r p \<longleftrightarrow>
     is_mapping r \<and> tp_material_id p = mid \<and> 0 < tp_tc p \<and> 1900 \<le> tp_year p \<and> tp_year p \<le> year_hi \<and>
     tp_origin p = classify_result r \<and> tp_theoretical p = is_computed_result r \<and>
     (\<exists>q. record_quantity env r ''tc_kelvin'' [''tc''] = Inr q \<and> q_status q = ''parsed'' \<and> q_relation q = ''exact'' \<and>
        q_value q = Some (Finite (tp_tc p)) \<and> q_uncertainty q = None \<and> \<not> q_approximate q) \<and>
     (\<exists>a. assess_record_anomalies (parser_review_env (quantity_env.truncate env) (tp_digest env)) mid family refs (PInt (year_hi - 1)) r = Inr a \<and>
        list_all (eligible_for_property (assessment_py a)) [''tc_kelvin'', ''year'', ''pressure_gpa'']) \<and>
     (\<exists>c. classify_pressure (text_env.truncate env) r = Inr c \<and>
        (\<forall>g. tp_pressure p = Some g \<longrightarrow> pa_state c \<in> {''reported'', ''explicit_ambient''} \<and> pa_gpa c = Some g \<and> \<not> negative (Some g)))"

lemma pressure_shown:
  assumes "classify_pressure te r = Inr c" "pa_state c \<in> {''reported'', ''explicit_ambient''}" "pa_gpa c = Some g"
  shows "\<not> negative (Some g)"
proof -
  obtain raw u loc se cl p where c: "c = assessment_from te raw loc cl (condition_ambient (evidence_record r)) p" and good: "good_reading p"
    using classify_parts [OF assms(1)] .
  note s = assessment_from_sound [OF good c]
  from assms(2) have "pa_state c = ''reported'' \<or> pa_state c = ''explicit_ambient''" by simp
  then show ?thesis
  proof
    assume "pa_state c = ''reported''"
    then show ?thesis using s(3) assms(3) by simp
  next
    assume "pa_state c = ''explicit_ambient''"
    then show ?thesis using s(2) assms(3) by (simp add: negative_def below_def)
  qed
qed

lemma extract_point_Some:
  assumes "extract_point env mid pys hi family refs r = Inr (Some p)" "is_mapping r"
  shows "point_source env mid hi family refs r p" "md_count (tp_metadata p) = 1" "\<not> md_conflict (tp_metadata p)"
    "\<exists>v. md_revision (tp_metadata p) = point_scalar v 160"
proof -
  obtain q where q: "record_quantity env r ''tc_kelvin'' [''tc''] = Inr q"
    using assms(1) unfolding extract_point_def rbind_Inr_iff by (elim exE conjE) (rule that; assumption)
  obtain tc where tc: "plain_tc q = Some tc"
    using assms(1) unfolding extract_point_def q rbind_simps by (cases "plain_tc q") simp_all
  obtain pid y chron a c where y: "\<not> (tc \<le> 0 \<or> \<not> (1900 \<le> y \<and> y \<le> hi))"
      and a: "assess_record_anomalies (parser_review_env (quantity_env.truncate env) (tp_digest env)) mid family refs (PInt (hi - 1)) r = Inr a"
        "list_all (eligible_for_property (assessment_py a)) [''tc_kelvin'', ''year'', ''pressure_gpa'']"
      and c: "classify_pressure (text_env.truncate env) r = Inr c"
      and b: "build_point env mid r tc pid y chron c = Inr p"
    using assms(1) unfolding extract_point_def q tc rbind_simps option.case Let_def
    by (auto simp: rbind_Inr_iff simp del: list.pred_inject split: if_splits option.splits prod.splits)
  note bp = build_point_Inr [OF b]
  have "\<forall>g. tp_pressure p = Some g \<longrightarrow> pa_state c \<in> {''reported'', ''explicit_ambient''} \<and> pa_gpa c = Some g \<and> \<not> negative (Some g)"
    using pressure_shown [OF c] unfolding bp(6) by (simp split: if_splits)
  then show "point_source env mid hi family refs r p"
    unfolding point_source_def bp(1-5) using assms(2) y q plain_tc_Some [OF tc] a c by force
  show "md_count (tp_metadata p) = 1" "\<not> md_conflict (tp_metadata p)" "\<exists>v. md_revision (tp_metadata p) = point_scalar v 160"
    by (fact bp(7), fact bp(8), fact bp(9))
qed

lemma try_point_Some:
  assumes "try_point env mid pys hi family refs r = Inr (Some p)"
  shows "point_source env mid hi family refs r p" "md_count (tp_metadata p) = 1" "\<not> md_conflict (tp_metadata p)"
    "\<exists>v. md_revision (tp_metadata p) = point_scalar v 160"
proof -
  have "is_mapping r" "extract_point env mid pys hi family refs r = Inr (Some p)"
    using assms by (auto simp: try_point_def split: if_splits sum.splits)
  note f = extract_point_Some [OF this(2,1)]
  show "point_source env mid hi family refs r p" by (rule f(1))
  show "md_count (tp_metadata p) = 1" by (rule f(2))
  show "\<not> md_conflict (tp_metadata p)" by (rule f(3))
  show "\<exists>v. md_revision (tp_metadata p) = point_scalar v 160" by (rule f(4))
qed

section \<open>The points of all records\<close>

text \<open>A point without the two things the loops change.\<close>

definition bare :: "projected_point \<Rightarrow> projected_point" where
  "bare p = p\<lparr>tp_metadata := (tp_metadata p)\<lparr>md_count := 0, md_conflict := False\<rparr>\<rparr>"

lemma bare_simps [simp]:
  "bare (counted_again p) = bare p" "bare (marked p) = bare p" "tp_id (counted_again p) = tp_id p" "tp_id (marked p) = tp_id p"
  "md_conflict (tp_metadata (counted_again p)) = md_conflict (tp_metadata p)" "md_conflict (tp_metadata (marked p))"
  "md_count (tp_metadata (counted_again p)) = md_count (tp_metadata p) + 1" "md_count (tp_metadata (marked p)) = md_count (tp_metadata p)"
  "identity_key (marked p) = identity_key p" "identity_key (counted_again p) = identity_key p"
  "md_supplied (tp_metadata (marked p)) = md_supplied (tp_metadata p)" "md_supplied (tp_metadata (counted_again p)) = md_supplied (tp_metadata p)"
  by (simp_all add: bare_def counted_again_def marked_def identity_key_def)

lemma bare_eqD:
  assumes "bare p = bare q"
  shows "tp_id p = tp_id q" "tp_tc p = tp_tc q" "tp_year p = tp_year q" "tp_material_id p = tp_material_id q" "tp_origin p = tp_origin q"
    "tp_theoretical p = tp_theoretical q" "tp_pressure p = tp_pressure q" "md_revision (tp_metadata p) = md_revision (tp_metadata q)"
  using arg_cong [OF assms, of tp_id] arg_cong [OF assms, of tp_tc] arg_cong [OF assms, of tp_year] arg_cong [OF assms, of tp_material_id]
    arg_cong [OF assms, of tp_origin] arg_cong [OF assms, of tp_theoretical] arg_cong [OF assms, of tp_pressure]
    arg_cong [OF assms, of "\<lambda>p. md_revision (tp_metadata p)"]
  by (simp_all add: bare_def)

lemma add_point_bare: "bare ` set (add_point ps p) \<subseteq> insert (bare p) (bare ` set ps)"
  by (induction ps) auto

lemma add_point_ids: "set (map tp_id (add_point ps p)) = insert (tp_id p) (set (map tp_id ps))"
  by (induction ps) auto

lemma add_point_distinct: "distinct (map tp_id ps) \<Longrightarrow> distinct (map tp_id (add_point ps p))"
proof (induction ps)
  case (Cons q qs)
  then show ?case using add_point_ids [of qs p] by auto
qed simp

lemma add_point_count:
  "md_count (tp_metadata p) = 1 \<Longrightarrow>
     sum_list (map (\<lambda>q. md_count (tp_metadata q)) (add_point ps p)) = sum_list (map (\<lambda>q. md_count (tp_metadata q)) ps) + 1"
  by (induction ps) auto

lemma add_point_plain:
  "\<not> md_conflict (tp_metadata p) \<Longrightarrow> list_all (\<lambda>q. \<not> md_conflict (tp_metadata q)) ps \<Longrightarrow>
     list_all (\<lambda>q. \<not> md_conflict (tp_metadata q)) (add_point ps p)"
  by (induction ps) auto

lemma seen_points:
  "\<forall>p \<in> set xs. md_count (tp_metadata p) = 1 \<and> \<not> md_conflict (tp_metadata p) \<Longrightarrow>
     distinct (map tp_id (foldl add_point [] xs)) \<and> bare ` set (foldl add_point [] xs) \<subseteq> bare ` set xs \<and>
     sum_list (map (\<lambda>q. md_count (tp_metadata q)) (foldl add_point [] xs)) = length xs \<and>
     list_all (\<lambda>q. \<not> md_conflict (tp_metadata q)) (foldl add_point [] xs)"
proof (induction xs rule: rev_induct)
  case (snoc x xs)
  have x: "md_count (tp_metadata x) = 1" "\<not> md_conflict (tp_metadata x)" using snoc.prems by simp_all
  have IH: "distinct (map tp_id (foldl add_point [] xs))" "bare ` set (foldl add_point [] xs) \<subseteq> bare ` set xs"
      "sum_list (map (\<lambda>q. md_count (tp_metadata q)) (foldl add_point [] xs)) = length xs"
      "list_all (\<lambda>q. \<not> md_conflict (tp_metadata q)) (foldl add_point [] xs)"
    using snoc.IH snoc.prems by simp_all
  have "bare ` set (add_point (foldl add_point [] xs) x) \<subseteq> bare ` set (xs @ [x])"
    using add_point_bare [of "foldl add_point [] xs" x] IH(2) by auto
  then show ?case
    using add_point_distinct [OF IH(1)] add_point_count [OF x(1)] IH(3) add_point_plain [OF x(2) IH(4)] by simp
qed simp

subsection \<open>Conflicting identities\<close>

lemma py_eq_sym: "py_eq a b = py_eq b a"
  by (auto simp: py_eq_def split: option.splits)

lemma py_eq_trans: "py_eq a b \<Longrightarrow> py_eq b c \<Longrightarrow> py_eq a c"
  by (auto simp: py_eq_def split: option.splits)

lemma same_key_sym: "same_key a b = same_key b a"
  by (auto simp: same_key_def py_eq_sym)

lemma same_key_trans: "same_key a b \<Longrightarrow> same_key b c \<Longrightarrow> same_key a c"
  by (auto simp: same_key_def intro: py_eq_trans)

lemma point_scalar_refl: "py_eq (point_scalar v n) (point_scalar v n)"
  by (cases "(v, n)" rule: point_scalar.cases) (auto simp: py_eq_def split: option.split)

text \<open>The groups: one per key, each with the identifiers of its points in order.\<close>

definition grouped :: "projected_point list \<Rightarrow> (identity_key \<times> string list) list \<Rightarrow> bool" where
  "grouped ps g \<longleftrightarrow>
     sorted_wrt (\<lambda>x y. \<not> same_key (fst x) (fst y)) g \<and>
     (\<forall>x \<in> set g. snd x = map tp_id (filter (\<lambda>p. same_key (fst x) (identity_key p)) ps)) \<and>
     (\<forall>p \<in> set ps. \<exists>x \<in> set g. same_key (fst x) (identity_key p))"

lemma add_identity_keys: "fst ` set (add_identity g k i) \<subseteq> insert k (fst ` set g)"
  by (induction g k i rule: add_identity.induct) auto

lemma add_identity_apart:
  "sorted_wrt (\<lambda>x y. \<not> same_key (fst x) (fst y)) g \<Longrightarrow> sorted_wrt (\<lambda>x y. \<not> same_key (fst x) (fst y)) (add_identity g k i)"
proof (induction g k i rule: add_identity.induct)
  case (2 j ids g k i)
  show ?case
  proof (cases "same_key j k")
    case False
    have "\<not> same_key j (fst y)" if "y \<in> set (add_identity g k i)" for y
    proof -
      have "fst y = k \<or> fst y \<in> fst ` set g" using add_identity_keys [of g k i] that by blast
      then show ?thesis using "2.prems" False by auto
    qed
    then show ?thesis using 2 False by simp
  qed (use 2 in simp)
qed simp

lemma add_identity_members:
  assumes "sorted_wrt (\<lambda>x y. \<not> same_key (fst x) (fst y)) g" "same_key k k"
  shows "x \<in> set (add_identity g k i) \<longleftrightarrow>
    (\<exists>y \<in> set g. fst x = fst y \<and> snd x = snd y @ (if same_key (fst y) k then [i] else [])) \<or>
    (\<forall>y \<in> set g. \<not> same_key (fst y) k) \<and> x = (k, [i])"
  using assms(1)
proof (induction g k i rule: add_identity.induct)
  case (1 k i)
  then show ?case by auto
next
  case (2 j ids g k i)
  show ?case
  proof (cases "same_key j k")
    case True
    have "\<not> same_key (fst y) k" if "y \<in> set g" for y
      using "2.prems" that same_key_trans [OF True, of "fst y"] same_key_sym by auto
    then show ?thesis using True by (cases x) force
  next
    case False
    then show ?thesis using 2 by (cases x) force
  qed
qed

lemma grouped_step:
  assumes "grouped ps g" "same_key (identity_key p) (identity_key p)"
  shows "grouped (ps @ [p]) (add_identity g (identity_key p) (tp_id p))"
proof -
  let ?k = "identity_key p"
  have apart: "sorted_wrt (\<lambda>x y. \<not> same_key (fst x) (fst y)) g"
    and ids: "\<And>x. x \<in> set g \<Longrightarrow> snd x = map tp_id (filter (\<lambda>p. same_key (fst x) (identity_key p)) ps)"
    and all: "\<And>p. p \<in> set ps \<Longrightarrow> \<exists>x \<in> set g. same_key (fst x) (identity_key p)"
    using assms(1) by (auto simp: grouped_def)
  note mem = add_identity_members [OF apart assms(2)]
  have new: "filter (\<lambda>q. same_key ?k (identity_key q)) ps = []" if none: "\<forall>y \<in> set g. \<not> same_key (fst y) ?k"
    unfolding filter_empty_conv
  proof (intro ballI notI)
    fix q assume q: "q \<in> set ps" "same_key ?k (identity_key q)"
    obtain y where y: "y \<in> set g" "same_key (fst y) (identity_key q)" using all [OF q(1)] by blast
    have "same_key (identity_key q) ?k" using q(2) same_key_sym by blast
    then show False using none y same_key_trans by blast
  qed
  have "snd x = map tp_id (filter (\<lambda>q. same_key (fst x) (identity_key q)) (ps @ [p]))" if x: "x \<in> set (add_identity g ?k (tp_id p))" for x
  proof -
    consider y where "y \<in> set g" "fst x = fst y" "snd x = snd y @ (if same_key (fst y) ?k then [tp_id p] else [])"
      | "\<forall>y \<in> set g. \<not> same_key (fst y) ?k" "x = (?k, [tp_id p])"
      using mem [THEN iffD1, OF x] by (elim disjE bexE conjE)
    then show ?thesis
    proof cases
      case 1
      then show ?thesis by (simp add: ids)
    next
      case 2
      then show ?thesis using new assms(2) by simp
    qed
  qed
  moreover have "\<exists>x \<in> set (add_identity g ?k (tp_id p)). same_key (fst x) (identity_key q)" if "q \<in> set (ps @ [p])" for q
  proof -
    consider y where "y \<in> set g" "same_key (fst y) (identity_key q)" | "q = p" "\<forall>y \<in> set g. \<not> same_key (fst y) ?k"
    proof (cases "\<exists>y \<in> set g. same_key (fst y) (identity_key q)")
      case True
      then show thesis using \<open>\<And>y. y \<in> set g \<Longrightarrow> same_key (fst y) (identity_key q) \<Longrightarrow> thesis\<close> by (elim bexE)
    next
      case False
      then have "q = p" using \<open>q \<in> set (ps @ [p])\<close> all by auto
      then show thesis using False \<open>q = p \<Longrightarrow> \<forall>y \<in> set g. \<not> same_key (fst y) ?k \<Longrightarrow> thesis\<close> by simp
    qed
    then show ?thesis
    proof cases
      case 1
      let ?x = "(fst y, snd y @ (if same_key (fst y) ?k then [tp_id p] else []))"
      have "?x \<in> set (add_identity g ?k (tp_id p))" unfolding mem using 1(1) by auto
      then show ?thesis using 1(2) by (intro bexI [of _ ?x]) simp_all
    next
      case 2
      have "(?k, [tp_id p]) \<in> set (add_identity g ?k (tp_id p))" unfolding mem using 2(2) by auto
      then show ?thesis using 2(1) assms(2) by (intro bexI [of _ "(?k, [tp_id p])"]) simp_all
    qed
  qed
  ultimately show ?thesis using add_identity_apart [OF apart] by (simp add: grouped_def)
qed

lemma grouped_identities:
  assumes "\<forall>p \<in> set ps. same_key (identity_key p) (identity_key p)"
  shows "grouped (filter (\<lambda>p. md_supplied (tp_metadata p)) ps) (supplied_identities ps)"
proof -
  have "grouped qs (foldl (\<lambda>g p. add_identity g (identity_key p) (tp_id p)) [] qs)"
    if "\<forall>p \<in> set qs. same_key (identity_key p) (identity_key p)" for qs
    using that
  proof (induction qs rule: rev_induct)
    case (snoc q qs)
    then show ?case using grouped_step [of qs _ q] by simp
  qed (simp add: grouped_def)
  then show ?thesis using assms by (simp add: supplied_identities_def)
qed

lemma mark_ids: "foldl mark_id ps ids = map (\<lambda>p. if tp_id p \<in> set ids then marked p else p) ps"
proof (induction ids arbitrary: ps)
  case (Cons i ids)
  have "marked (marked p) = marked p" for p by (simp add: marked_def)
  then have "map (\<lambda>p. if tp_id p \<in> set ids then marked p else p) (mark_id ps i) =
      map (\<lambda>p. if tp_id p \<in> set (i # ids) then marked p else p) ps" by (simp add: mark_id_def)
  then show ?case using Cons [of "mark_id ps i"] by simp
qed simp

lemma mark_groups:
  "foldl (\<lambda>qs (k, ids). if length ids < 2 then qs else foldl mark_id qs ids) ps g =
     map (\<lambda>p. if \<exists>x \<in> set g. 2 \<le> length (snd x) \<and> tp_id p \<in> set (snd x) then marked p else p) ps"
proof (induction g arbitrary: ps)
  case (Cons x g)
  have "marked (marked p) = marked p" for p by (simp add: marked_def)
  then show ?case by (cases x) (auto simp: Cons mark_ids)
qed simp

text \<open>Two supplied points with one identity and revision.\<close>

definition in_conflict :: "projected_point list \<Rightarrow> projected_point \<Rightarrow> bool" where
  "in_conflict ps p \<longleftrightarrow> md_supplied (tp_metadata p) \<and>
     (\<exists>q \<in> set ps. tp_id q \<noteq> tp_id p \<and> md_supplied (tp_metadata q) \<and> same_key (identity_key p) (identity_key q))"

lemma two_ids:
  assumes "distinct (map f xs)" "x \<in> set xs"
  shows "2 \<le> length xs \<longleftrightarrow> (\<exists>y \<in> set xs. f y \<noteq> f x)"
proof -
  have "\<not> (\<exists>y \<in> set xs. f y \<noteq> f x) \<longleftrightarrow> f ` set xs = {f x}" using assms(2) by auto
  also have "\<dots> \<longleftrightarrow> length xs = 1"
  proof
    assume "f ` set xs = {f x}"
    then have "card (set (map f xs)) = 1" by simp
    then show "length xs = 1" using distinct_card [OF assms(1)] by simp
  next
    assume "length xs = 1"
    then show "f ` set xs = {f x}" using assms(2) by (cases xs) auto
  qed
  finally have "\<not> (\<exists>y \<in> set xs. f y \<noteq> f x) \<longleftrightarrow> length xs = 1" .
  moreover have "0 < length xs" using assms(2) by (cases xs) simp_all
  ultimately show ?thesis by linarith
qed

lemma group_conflict:
  assumes refl: "\<forall>p \<in> set ps. same_key (identity_key p) (identity_key p)" and dist: "distinct (map tp_id ps)" and p: "p \<in> set ps"
  shows "(\<exists>x \<in> set (supplied_identities ps). 2 \<le> length (snd x) \<and> tp_id p \<in> set (snd x)) \<longleftrightarrow> in_conflict ps p"
proof -
  let ?s = "filter (\<lambda>p. md_supplied (tp_metadata p)) ps"
  have g: "\<And>x. x \<in> set (supplied_identities ps) \<Longrightarrow> snd x = map tp_id (filter (\<lambda>q. same_key (fst x) (identity_key q)) ?s)"
      "\<And>q. q \<in> set ?s \<Longrightarrow> \<exists>x \<in> set (supplied_identities ps). same_key (fst x) (identity_key q)"
    using grouped_identities [OF refl] unfolding grouped_def by blast+
  have inj: "q = p" if "q \<in> set ps" "tp_id q = tp_id p" for q using dist p that by (auto simp: distinct_map inj_on_def)
  have group: "2 \<le> length (snd x) \<longleftrightarrow> (\<exists>q \<in> set ?s. same_key (fst x) (identity_key q) \<and> tp_id q \<noteq> tp_id p)"
    if x: "x \<in> set (supplied_identities ps)" "p \<in> set ?s" "same_key (fst x) (identity_key p)" for x
    using two_ids [of tp_id "filter (\<lambda>q. same_key (fst x) (identity_key q)) ?s" p] dist x(2,3)
    unfolding g(1) [OF x(1)] by (auto simp: distinct_map_filter)
  show ?thesis
  proof
    assume "\<exists>x \<in> set (supplied_identities ps). 2 \<le> length (snd x) \<and> tp_id p \<in> set (snd x)"
    then obtain x where x: "x \<in> set (supplied_identities ps)" "2 \<le> length (snd x)" "tp_id p \<in> set (snd x)" by blast
    then obtain q where "q \<in> set ?s" "same_key (fst x) (identity_key q)" "tp_id q = tp_id p" unfolding g(1) [OF x(1)] by auto
    then have ps: "p \<in> set ?s" "same_key (fst x) (identity_key p)" using inj by auto
    then obtain r where "r \<in> set ?s" "same_key (fst x) (identity_key r)" "tp_id r \<noteq> tp_id p" using group [OF x(1)] x(2) by blast
    moreover have "same_key (identity_key p) (identity_key r)"
      using ps(2) calculation(2) same_key_sym same_key_trans by blast
    ultimately show "in_conflict ps p" using ps(1) by (auto simp: in_conflict_def)
  next
    assume "in_conflict ps p"
    then obtain q where q: "p \<in> set ?s" "q \<in> set ?s" "tp_id q \<noteq> tp_id p" "same_key (identity_key p) (identity_key q)"
      using p by (auto simp: in_conflict_def)
    obtain x where x: "x \<in> set (supplied_identities ps)" "same_key (fst x) (identity_key p)" using g(2) [OF q(1)] by blast
    have "same_key (fst x) (identity_key q)" using same_key_trans [OF x(2) q(4)] .
    then have "2 \<le> length (snd x)" using group [OF x(1) q(1) x(2)] q(2,3) by blast
    moreover have "tp_id p \<in> set (snd x)" unfolding g(1) [OF x(1)] using q(1) x(2) by auto
    ultimately show "\<exists>x \<in> set (supplied_identities ps). 2 \<le> length (snd x) \<and> tp_id p \<in> set (snd x)" using x(1) by blast
  qed
qed

lemma mark_conflicts_eq:
  assumes "\<forall>p \<in> set ps. same_key (identity_key p) (identity_key p)" "distinct (map tp_id ps)"
  shows "mark_conflicts ps = map (\<lambda>p. if in_conflict ps p then marked p else p) ps"
  unfolding mark_conflicts_def mark_groups using group_conflict [OF assms] by (intro map_cong) simp_all

section \<open>The timeline of a material\<close>

definition last_year :: "int \<Rightarrow> int option \<Rightarrow> int" where
  "last_year now current = (case current of None \<Rightarrow> now | Some y \<Rightarrow> if y = 0 then now else y) + 1"

definition yields_point :: "points_env \<Rightarrow> string \<Rightarrow> pyval \<Rightarrow> int \<Rightarrow> pyval \<Rightarrow> pyval list \<Rightarrow> pyval \<Rightarrow> bool" where
  "yields_point env mid pys hi family refs r \<longleftrightarrow> (\<exists>p. try_point env mid pys hi family refs r = Inr (Some p))"

lemma map_filter_members: "p \<in> set (List.map_filter id xs) \<longleftrightarrow> Some p \<in> set xs"
  by (force simp: List.map_filter_def)

lemma yielded_length:
  "rmapM (try_point env mid pys hi family refs) rs = Inr xs \<Longrightarrow>
     length (List.map_filter id xs) = length (filter (yields_point env mid pys hi family refs) rs)"
proof (induction rs arbitrary: xs)
  case (Cons r rs)
  then obtain x ys where x: "try_point env mid pys hi family refs r = Inr x" "rmapM (try_point env mid pys hi family refs) rs = Inr ys" "xs = x # ys"
    by auto
  have "yields_point env mid pys hi family refs r \<longleftrightarrow> x \<noteq> None" using x(1) by (auto simp: yields_point_def)
  then show ?case using Cons.IH [OF x(2)] unfolding x(3) by (cases x) simp_all
qed simp

lemma extracted_points:
  assumes "extract_timeline_points env mid records pys now cy family refs = Inr ps"
  obtains seen where "distinct (map tp_id seen)"
    "sum_list (map (\<lambda>q. md_count (tp_metadata q)) seen) = length (filter (yields_point env mid pys (last_year now cy) family refs) (point_records records))"
    "\<forall>p \<in> set seen. \<not> md_conflict (tp_metadata p)"
    "\<forall>p \<in> set seen. \<exists>q. \<exists>r \<in> set (point_records records). bare p = bare q \<and> try_point env mid pys (last_year now cy) family refs r = Inr (Some q)"
    "ps = sort_key (\<lambda>p. (tp_year p, - tp_tc p, tp_id p)) (map (\<lambda>p. if in_conflict seen p then marked p else p) seen)"
proof -
  let ?t = "try_point env mid pys (last_year now cy) family refs"
  obtain xs where xs: "rmapM ?t (point_records records) = Inr xs"
      and ps: "ps = sort_key (\<lambda>p. (tp_year p, - tp_tc p, tp_id p)) (mark_conflicts (foldl add_point [] (List.map_filter id xs)))"
    using assms unfolding extract_timeline_points_def Let_def last_year_def by (auto simp: rbind_Inr_iff)
  define ys where "ys = List.map_filter id xs"
  define seen where "seen = foldl add_point [] ys"
  have src: "\<exists>r \<in> set (point_records records). ?t r = Inr (Some p)" if "p \<in> set ys" for p
    using rmapM_Inr_set [OF xs] that unfolding ys_def map_filter_members by blast
  have "\<forall>p \<in> set ys. md_count (tp_metadata p) = 1 \<and> \<not> md_conflict (tp_metadata p)"
    using src try_point_Some(2,3) by blast
  note s = seen_points [OF this, folded seen_def]
  have origin: "\<exists>q. \<exists>r \<in> set (point_records records). bare p = bare q \<and> ?t r = Inr (Some q)" if "p \<in> set seen" for p
  proof -
    have "bare p \<in> bare ` set ys" using s that by blast
    then show ?thesis using src by blast
  qed
  have refl: "\<forall>p \<in> set seen. same_key (identity_key p) (identity_key p)"
  proof
    fix p assume "p \<in> set seen"
    then obtain q r where q: "bare p = bare q" "?t r = Inr (Some q)" using origin by blast
    then show "same_key (identity_key p) (identity_key p)"
      using try_point_Some(4) [OF q(2)] point_scalar_refl bare_eqD(8) [OF q(1)] by (auto simp: same_key_def identity_key_def)
  qed
  have "ps = sort_key (\<lambda>p. (tp_year p, - tp_tc p, tp_id p)) (map (\<lambda>p. if in_conflict seen p then marked p else p) seen)"
    using ps mark_conflicts_eq [OF refl] s by (simp add: seen_def ys_def)
  then show thesis
    by (rule that [rotated 4]) (use s origin yielded_length [OF xs, folded ys_def] in \<open>auto simp: list_all_iff\<close>)
qed

lemma in_conflict_kept:
  assumes "\<And>q. tp_id (h q) = tp_id q \<and> md_supplied (tp_metadata (h q)) = md_supplied (tp_metadata q) \<and> identity_key (h q) = identity_key q"
    and "set ps = h ` set seen"
  shows "in_conflict ps (h p) = in_conflict seen p"
  using assms by (auto simp: in_conflict_def)

text \<open>
  C8. Every point of the timeline stands for a record that supports it: its Tc is the exact,
  parsed, positive value of the record without spread or approximation, its year lies between 1900
  and the limit, no finding is open on Tc, year or pressure, its origin is the record's own, and a
  pressure is shown only from reported or explicitly ambient evidence and is never negative.
\<close>

theorem timeline_points_supported:
  assumes "extract_timeline_points env mid records pys now cy family refs = Inr ps" "p \<in> set ps"
  shows "\<exists>r \<in> set (point_records records). point_source env mid (last_year now cy) family refs r p"
proof -
  obtain seen where origin: "\<forall>p \<in> set seen. \<exists>q. \<exists>r \<in> set (point_records records). bare p = bare q \<and>
        try_point env mid pys (last_year now cy) family refs r = Inr (Some q)"
      and ps: "ps = sort_key (\<lambda>p. (tp_year p, - tp_tc p, tp_id p)) (map (\<lambda>p. if in_conflict seen p then marked p else p) seen)"
    by (rule extracted_points [OF assms(1)])
  obtain p0 where p0: "p0 \<in> set seen" "bare p = bare p0" using assms(2) unfolding ps by auto
  obtain q r where r: "r \<in> set (point_records records)" "bare p0 = bare q" "try_point env mid pys (last_year now cy) family refs r = Inr (Some q)"
    using bspec [OF origin p0(1)] by blast
  have "bare p = bare q" using p0(2) r(2) by simp
  note same = bare_eqD [OF this]
  show ?thesis using try_point_Some(1) [OF r(3)] r(1) unfolding point_source_def same(2-7) by blast
qed

text \<open>
  C24. Occurrences are consolidated and never lost: the points have distinct identifiers in the
  order of year, falling Tc and identifier, their counts add up to the records that yield a point,
  and a point is marked as conflicting exactly when another point claims its supplied result and
  revision.
\<close>

theorem timeline_occurrences_accounted:
  assumes "extract_timeline_points env mid records pys now cy family refs = Inr ps"
  shows "distinct (map tp_id ps) \<and> sorted (map (\<lambda>p. (tp_year p, - tp_tc p, tp_id p)) ps) \<and>
    sum_list (map (\<lambda>q. md_count (tp_metadata q)) ps) =
      length (filter (yields_point env mid pys (last_year now cy) family refs) (point_records records)) \<and>
    (\<forall>p \<in> set ps. md_conflict (tp_metadata p) \<longleftrightarrow> in_conflict ps p)"
proof -
  obtain seen where dist: "distinct (map tp_id seen)"
      and count: "sum_list (map (\<lambda>q. md_count (tp_metadata q)) seen) =
        length (filter (yields_point env mid pys (last_year now cy) family refs) (point_records records))"
      and plain: "\<forall>p \<in> set seen. \<not> md_conflict (tp_metadata p)"
      and ps: "ps = sort_key (\<lambda>p. (tp_year p, - tp_tc p, tp_id p)) (map (\<lambda>p. if in_conflict seen p then marked p else p) seen)"
    by (rule extracted_points [OF assms])
  let ?h = "\<lambda>p. if in_conflict seen p then marked p else p"
  have h: "tp_id (?h q) = tp_id q" "md_count (tp_metadata (?h q)) = md_count (tp_metadata q)" for q by simp_all
  have mset: "mset ps = mset (map ?h seen)" by (simp add: ps)
  have "mset (map tp_id ps) = mset (map tp_id seen)" unfolding mset_map mset by (simp only: mset_map multiset.map_comp comp_def h)
  then have "distinct (map tp_id ps)" using dist by (metis mset_eq_imp_distinct_iff)
  moreover have "sum_list (map (\<lambda>q. md_count (tp_metadata q)) ps) = sum_list (map (\<lambda>q. md_count (tp_metadata q)) seen)"
  proof -
    have "mset (map (\<lambda>q. md_count (tp_metadata q)) ps) = mset (map (\<lambda>q. md_count (tp_metadata q)) seen)"
      unfolding mset_map mset by (simp only: mset_map multiset.map_comp comp_def h)
    then show ?thesis by (metis sum_mset_sum_list)
  qed
  moreover have "md_conflict (tp_metadata p) \<longleftrightarrow> in_conflict ps p" if p: "p \<in> set ps" for p
  proof -
    have set: "set ps = ?h ` set seen" by (simp add: ps)
    obtain q where q: "q \<in> set seen" "p = ?h q" using p unfolding set by blast
    have "in_conflict ps p = in_conflict seen q" unfolding q(2) by (rule in_conflict_kept [OF _ set]) simp
    then show ?thesis using bspec [OF plain q(1)] q(2) by simp
  qed
  ultimately show ?thesis using count by (simp add: ps)
qed

section \<open>Malformed records\<close>

lemma rmapM_skip:
  "f x = Inr None \<Longrightarrow> map_sum id (List.map_filter id) (rmapM f (xs @ x # ys)) = map_sum id (List.map_filter id) (rmapM f (xs @ ys))"
proof (induction xs)
  case Nil
  then show ?case by (cases "rmapM f ys") simp_all
next
  case (Cons z xs)
  show ?case
  proof (cases "f z")
    case (Inr y)
    then show ?thesis using Cons by (cases "rmapM f (xs @ x # ys)"; cases "rmapM f (xs @ ys)") (cases y; simp)+
  qed simp
qed


section \<open>A concrete timeline\<close>

definition demo_points_env :: points_env where
  "demo_points_env = \<lparr>pe_str = (\<lambda>_. ''?''), pe_repr = (\<lambda>_. ''?''), sv_digest = (\<lambda>_. ''d''), sv_float_text = (\<lambda>_. ''0''),
     tp_digest = demo_digest, tp_sha = id, iso_day = (\<lambda>_. None), iso_stamp = (\<lambda>_. None), object_date = (\<lambda>_. None)\<rparr>"

definition demo_dated :: pyval where
  "demo_dated = PDict [(PStr ''tc_kelvin'', PInt 20), (PStr ''year'', PInt 1990)]"

definition demo_chronology :: "(pyval \<times> pyval) list" where
  "demo_chronology = snd (chronology demo_points_env demo_dated PNone)"

lemma demo_year: "fst (chronology demo_points_env demo_dated PNone) = Some 1990"
  by code_simp

lemma demo_dated_tc:
  "case record_quantity demo_points_env demo_dated ''tc_kelvin'' [''tc''] of Inl _ \<Rightarrow> False | Inr q \<Rightarrow> plain_tc q = Some 20"
  by code_simp

lemma demo_dated_assessed:
  "case assess_record_anomalies (parser_review_env (quantity_env.truncate demo_points_env) (tp_digest demo_points_env)) ''m'' PNone [] (PInt 2026) demo_dated of
     Inl _ \<Rightarrow> False | Inr a \<Rightarrow> list_all (eligible_for_property (assessment_py a)) [''tc_kelvin'', ''year'', ''pressure_gpa'']"
  by code_simp

lemma demo_dated_pressure: "case classify_pressure (text_env.truncate demo_points_env) demo_dated of Inl _ \<Rightarrow> False | Inr _ \<Rightarrow> True"
  by code_simp

lemma demo_content: "original_content 0 demo_dated = Inr demo_dated"
  by code_simp

lemma demo_chronology_json: "case json_text (\<lambda>_. ''0'') (PDict demo_chronology) of Inl _ \<Rightarrow> False | Inr _ \<Rightarrow> True"
  by code_simp

lemma demo_dated_json: "case json_text (\<lambda>_. ''0'') demo_dated of Inl _ \<Rightarrow> False | Inr _ \<Rightarrow> True"
  by code_simp

lemma demo_built: "\<exists>p. build_point demo_points_env ''m'' demo_dated 20 None 1990 demo_chronology c = Inr p"
proof -
  define v where "v = PDict demo_chronology"
  obtain t u where tu: "json_text (\<lambda>_. ''0'') v = Inr t" "json_text (\<lambda>_. ''0'') demo_dated = Inr u"
    using demo_chronology_json demo_dated_json unfolding v_def [symmetric] by (auto split: sum.splits)
  have digits: "\<not> too_many_digits 1990" by code_simp
  have fr: "sv_float_text demo_points_env = (\<lambda>_. ''0'')" by (simp add: demo_points_env_def)
  have none: "point_text (pget demo_dated ''result_id'') 500 = None" "point_scalar (pget demo_dated ''result_revision'') 160 = PNone"
      "point_scalar (pget demo_dated ''revision'') 160 = PNone"
    by (simp_all add: demo_dated_def point_text_def)
  obtain f where f: "point_digest demo_points_env (PList [PStr ''m'', demo_dated]) = Inr f"
    by (simp add: point_digest_def fr tu)
  obtain i where i: "point_digest demo_points_env (PList [PStr TIMELINE_RESULT_CONTRACT_VERSION, PStr ''m'',
      PStr (''legacy-timeline-result:'' @ f), PNone, PStr f, PInt 1990, v]) = Inr i"
    by (simp add: point_digest_def fr tu digits)
  show ?thesis
    unfolding build_point_def demo_content rbind_simps f Let_def none option.case if_cancel v_def [symmetric] i
    by (rule exI) (rule refl)
qed

lemma demo_dated_point: "\<exists>p. try_point demo_points_env ''m'' (PDict []) 2027 PNone [] demo_dated = Inr (Some p)"
proof -
  obtain q where q: "record_quantity demo_points_env demo_dated ''tc_kelvin'' [''tc''] = Inr q" "plain_tc q = Some 20"
    using demo_dated_tc by (auto split: sum.splits)
  obtain a where a: "assess_record_anomalies (parser_review_env (quantity_env.truncate demo_points_env) (tp_digest demo_points_env)) ''m'' PNone [] (PInt 2026) demo_dated = Inr a"
      "list_all (eligible_for_property (assessment_py a)) [''tc_kelvin'', ''year'', ''pressure_gpa'']"
    using demo_dated_assessed by (auto split: sum.splits)
  obtain c where c: "classify_pressure (text_env.truncate demo_points_env) demo_dated = Inr c"
    using demo_dated_pressure by (auto split: sum.splits)
  obtain p where p: "build_point demo_points_env ''m'' demo_dated 20 None 1990 demo_chronology c = Inr p" using demo_built by blast
  have chron: "chronology demo_points_env demo_dated PNone = (Some 1990, demo_chronology)"
    using demo_year by (simp add: demo_chronology_def prod_eq_iff)
  have r: "is_mapping demo_dated" "pget demo_dated ''paper_id'' = PNone" "point_text PNone 100 = None"
    by (simp_all add: demo_dated_def point_text_def)
  have "extract_point demo_points_env ''m'' (PDict []) 2027 PNone [] demo_dated = Inr (Some p)"
    unfolding extract_point_def q r rbind_simps option.case Let_def chron prod.case
    using a c p by simp
  then show ?thesis by (simp add: try_point_def r)
qed

lemma demo_timeline:
  obtains p where "extract_timeline_points demo_points_env ''m'' (PList [demo_dated]) (PDict []) 2026 None PNone [] = Inr [p]"
proof -
  obtain p where p: "try_point demo_points_env ''m'' (PDict []) 2027 PNone [] demo_dated = Inr (Some p)"
    using demo_dated_point by blast
  have "mark_conflicts [p] = [p]"
    by (simp add: mark_conflicts_def supplied_identities_def)
  then show thesis using that [of p] p by (simp add: extract_timeline_points_def)
qed

theorem timeline_points_supported_witness:
  "\<exists>p. extract_timeline_points demo_points_env ''m'' (PList [demo_dated]) (PDict []) 2026 None PNone [] = Inr [p] \<and> 0 < tp_tc p"
proof -
  obtain p where p: "extract_timeline_points demo_points_env ''m'' (PList [demo_dated]) (PDict []) 2026 None PNone [] = Inr [p]"
    by (rule demo_timeline)
  then show ?thesis using timeline_points_supported [OF p, of p] by (auto simp: point_source_def)
qed

theorem timeline_occurrences_accounted_witness:
  "\<exists>p. extract_timeline_points demo_points_env ''m'' (PList [demo_dated]) (PDict []) 2026 None PNone [] = Inr [p] \<and> \<not> md_conflict (tp_metadata p)"
proof -
  obtain p where p: "extract_timeline_points demo_points_env ''m'' (PList [demo_dated]) (PDict []) 2026 None PNone [] = Inr [p]"
    by (rule demo_timeline)
  then show ?thesis using timeline_occurrences_accounted [OF p] by (auto simp: in_conflict_def)
qed

text \<open>A record whose evidence text is an object without a JSON text, and one with a huge Tc.\<close>

definition demo_malformed :: pyval where
  "demo_malformed = PDict [(PStr ''tc_kelvin'', PInt 20), (PStr ''evidence_text'', POpaque 0)]"

lemma demo_malformed_raises: "extract_point demo_points_env ''m'' (PDict []) 2027 PNone [] demo_malformed = Inl TypeError"
  by code_simp

lemma demo_overflow_record: "tc_power_record demo_points_env ''1'' ''1000000'' overflow_record"
  by code_simp


end
