(* ===== verification/Material_Anomalies.thy ===== *)
theory Material_Anomalies
  imports Quantity_Review
begin

text \<open>
  Anomaly context and the retained-record archive (\<open>api/services/material_anomalies.py\<close>): the
  review context of a material, the review with that context, and the bounded archive of its raw
  records. A material is its mapping of attributes; the clock is an argument, and so is the digest of
  the archive (\<open>rd\<close>): its JSON text has other separators than that of the review.
\<close>

section \<open>Context\<close>

record anomaly_context =
  cx_year :: pyval
  cx_selection_policy :: pyval
  cx_family :: pyval
  cx_references :: "pyval list"

fun sequence_items :: "pyval \<Rightarrow> pyval list option" where
  "sequence_items (PList xs) = Some xs"
| "sequence_items (PTuple xs) = Some xs"
| "sequence_items _ = None"

text \<open>A malformed or oversized list of references becomes \<open>[None]\<close>.\<close>

definition context_references :: "pyval \<Rightarrow> pyval list" where
  "context_references v = (case sequence_items v of None \<Rightarrow> [PNone] | Some xs \<Rightarrow> if int (length xs) > 200 then [PNone] else xs)"

definition review_context :: "int \<Rightarrow> pyval \<Rightarrow> anomaly_context" where
  "review_context now_year v =
     (let given = pget v ''anomaly_context''; context = (if is_mapping given then given else PDict [])
      in \<lparr>cx_year = PInt now_year, cx_selection_policy = pget context ''selection_policy'',
          cx_family = por (pget v ''family'') (pget context ''family''),
          cx_references = context_references (get_or context ''compound_thresholds'' (PList []))\<rparr>)"

definition record_assessment :: "review_env \<Rightarrow> string \<Rightarrow> anomaly_context \<Rightarrow> pyval \<Rightarrow> (py_error, assessment) res" where
  "record_assessment env scope cx r = assess_record_anomalies env scope (cx_family cx) (cx_references cx) (cx_year cx) r"

definition material_review :: "review_env \<Rightarrow> string \<Rightarrow> anomaly_context \<Rightarrow> bool \<Rightarrow> pyval \<Rightarrow> (py_error, pyval) res" where
  "material_review env scope cx brief records =
     build_anomaly_review env records scope (cx_family cx) (cx_references cx) (cx_year cx) (PInt (if brief then 0 else 100))"

section \<open>Archive\<close>

definition RAW_FIELDS :: "string list" where
  "RAW_FIELDS = map fst FIELD_UNITS @
     [''tc'', ''tc_unit'', ''pressure'', ''pressure_unit'', ''measurement_year'', ''formula'', ''formula_raw'', ''family'',
      ''material_family'', ''paper_id'', ''doi'', ''arxiv_id'', ''year'', ''state_id'', ''sample_id'', ''structure_id'', ''run_id'',
      ''method'', ''measurement'', ''measurement_method'', ''calculation_method'', ''protocol_id'', ''calculation_protocol'',
      ''knowledge_origin'', ''result_origin'', ''source_role'', ''evidence_type'', ''tc_type'', ''tc_criterion'', ''tc_conditions'',
      ''hc2_conditions'', ''hc2_direction'', ''field_orientation'', ''sample_form'', ''substrate'', ''doping_type'', ''pressure_state'',
      ''crystal_structure'', ''space_group'', ''structure_phase'', ''pairing_symmetry'', ''gap_structure'', ''result_status'',
      ''outcome'', ''outcome_state'', ''no_transition'', ''superconductivity_observed''] @
     map (\<lambda>(f, _). f @ ''_unit'') FIELD_UNITS"

definition redaction :: "string \<Rightarrow> pyval" where
  "redaction h = PDict [(PStr ''redacted'', PStr ''structured_or_oversize_raw''), (PStr ''sha256'', PStr h)]"

type_synonym raw_digest = "pyval \<Rightarrow> (py_error, string) res"

definition redacted_value :: "raw_digest \<Rightarrow> pyval \<Rightarrow> (py_error, pyval) res" where
  "redacted_value rd v = rbind (rd v) (\<lambda>h. Inr (redaction h))"

fun raw_value :: "raw_digest \<Rightarrow> pyval \<Rightarrow> (py_error, pyval) res"
  and raw_values :: "raw_digest \<Rightarrow> pyval list \<Rightarrow> (py_error, pyval list) res" where
  "raw_value rd PNone = Inr PNone"
| "raw_value rd (PBool b) = Inr (PBool b)"
| "raw_value rd (PInt i) = (if float_of_int i \<noteq> None then Inr (PInt i) else redacted_value rd (PInt i))"
| "raw_value rd (PFloat x) = (case x of Finite q \<Rightarrow> Inr (PFloat (Finite q)) | _ \<Rightarrow> redacted_value rd (PFloat x))"
| "raw_value rd (PStr s) = (if int (length s) \<le> 500 then Inr (PStr s) else redacted_value rd (PStr s))"
| "raw_value rd (PList xs) = (if length xs \<le> 2 then rbind (raw_values rd xs) (\<lambda>ys. Inr (PList ys)) else redacted_value rd (PList xs))"
| "raw_value rd (PTuple xs) = (if length xs \<le> 2 then rbind (raw_values rd xs) (\<lambda>ys. Inr (PList ys)) else redacted_value rd (PTuple xs))"
| "raw_value rd v = redacted_value rd v"
| "raw_values rd [] = Inr []"
| "raw_values rd (x # xs) = rbind (raw_value rd x) (\<lambda>y. rbind (raw_values rd xs) (\<lambda>ys. Inr (y # ys)))"

text \<open>\<open>{k: _raw_value(d[k]) for k in ks if k in d}\<close>.\<close>

definition picked :: "raw_digest \<Rightarrow> string list \<Rightarrow> pyval \<Rightarrow> (py_error, (pyval \<times> pyval) list) res" where
  "picked rd ks d = rmapM (\<lambda>k. rbind (raw_value rd (pget d k)) (\<lambda>w. Inr (PStr k, w))) (filter (phas d) ks)"

definition archived_proposal :: "raw_digest \<Rightarrow> pyval \<Rightarrow> (py_error, pyval) res" where
  "archived_proposal rd v =
     (if is_mapping v then rbind (picked rd [''raw_value'', ''raw_unit'', ''input_unit''] v) (\<lambda>kvs. Inr (PDict kvs)) else raw_value rd v)"

definition archived_proposals :: "raw_digest \<Rightarrow> pyval \<Rightarrow> (py_error, pyval) res" where
  "archived_proposals rd ps = rbind (rmapM (\<lambda>(k, v). rbind (archived_proposal rd v) (\<lambda>w. Inr (k, w)))
     (filter (\<lambda>(k, _). is_str k \<and> str_of k \<in> fst ` set FIELD_UNITS) (members_of ps))) (\<lambda>kvs. Inr (PDict kvs))"

definition LATTICE_KEYS :: "string list" where
  "LATTICE_KEYS = [''a'', ''b'', ''c'', ''alpha'', ''beta'', ''gamma'', ''unit'']"

definition archived_lattice :: "raw_digest \<Rightarrow> pyval \<Rightarrow> (py_error, pyval) res" where
  "archived_lattice rd l = rbind (rmapM (\<lambda>(k, v). rbind (raw_value rd v) (\<lambda>w. Inr (k, w)))
     (filter (\<lambda>(k, _). is_str k \<and> str_of k \<in> set LATTICE_KEYS) (members_of l))) (\<lambda>kvs. Inr (PDict kvs))"

text \<open>A member that is archived only if the record holds a mapping under its name.\<close>

definition nested_member :: "string \<Rightarrow> (pyval \<Rightarrow> (py_error, pyval) res) \<Rightarrow> pyval \<Rightarrow> (py_error, (pyval \<times> pyval) list) res" where
  "nested_member k f r = (if is_mapping (pget r k) then rbind (f (pget r k)) (\<lambda>w. Inr [(PStr k, w)]) else Inr [])"

definition archive_record :: "raw_digest \<Rightarrow> pyval \<Rightarrow> (py_error, pyval) res" where
  "archive_record rd r =
     (if \<not> is_mapping r then rbind (raw_value rd r) (\<lambda>w. Inr (PDict [(PStr ''unstructured_record'', w)]))
      else rbind (picked rd (sort (remdups RAW_FIELDS)) r) (\<lambda>fields.
           rbind (nested_member ''scientific_values'' (archived_proposals rd) r) (\<lambda>proposals.
           rbind (nested_member ''lattice_params'' (archived_lattice rd) r) (\<lambda>lattice.
             Inr (PDict (fields @ proposals @ lattice))))))"

record archive_row =
  ar_index :: nat
  ar_raw :: pyval
  ar_assessment :: assessment

record record_archive =
  ra_rows :: "archive_row list"
  ra_total :: nat
  ra_returned :: nat
  ra_truncated :: bool

definition archive_py :: "record_archive \<Rightarrow> pyval" where
  "archive_py a = PDict
     [(PStr ''version'', PStr ANOMALY_POLICY_VERSION), (PStr ''scope'', PStr ''material_retained_records''),
      (PStr ''raw_field_policy'', PStr ''scientific_allowlist_not_full_source''),
      (PStr ''records'', PList (map (\<lambda>r. PDict [(PStr ''result_id'', PStr (as_result_id (ar_assessment r))),
         (PStr ''record_index'', PInt (int (ar_index r))), (PStr ''raw'', ar_raw r), (PStr ''assessment'', assessment_py (ar_assessment r))])
         (ra_rows a))),
      (PStr ''total'', PInt (int (ra_total a))), (PStr ''returned'', PInt (int (ra_returned a))), (PStr ''truncated'', PBool (ra_truncated a))]"

definition retained_record_archive ::
  "review_env \<Rightarrow> raw_digest \<Rightarrow> string \<Rightarrow> anomaly_context \<Rightarrow> pyval \<Rightarrow> (py_error, record_archive) res" where
  "retained_record_archive env rd scope cx records =
     (let source = (case records of PList rs \<Rightarrow> rs | _ \<Rightarrow> [])
      in rbind (rmapM (\<lambda>(i, r). rbind (record_assessment env scope cx r) (\<lambda>a. rbind (archive_record rd r) (\<lambda>raw.
                   Inr \<lparr>ar_index = i, ar_raw = raw, ar_assessment = a\<rparr>))) (enumerate 0 (take 100 source))) (\<lambda>rows.
           Inr \<lparr>ra_rows = rows, ra_total = length source, ra_returned = length rows, ra_truncated = (length source > length rows)\<rparr>))"

section \<open>What the archive shows\<close>

text \<open>
  What may be shown of a value: a bounded scalar as it is, a sequence of at most two values by its
  values, and anything else only as a mark with its own digest. Sequences nest as deep as they are
  stored.
\<close>

fun bounded_scalar :: "pyval \<Rightarrow> bool" where
  "bounded_scalar PNone = True"
| "bounded_scalar (PBool _) = True"
| "bounded_scalar (PInt i) = (float_of_int i \<noteq> None)"
| "bounded_scalar (PFloat x) = (case x of Finite _ \<Rightarrow> True | _ \<Rightarrow> False)"
| "bounded_scalar (PStr s) = (int (length s) \<le> 500)"
| "bounded_scalar _ = False"

fun short_sequence :: "pyval \<Rightarrow> bool" where
  "short_sequence (PList xs) = (length xs \<le> 2)"
| "short_sequence (PTuple xs) = (length xs \<le> 2)"
| "short_sequence _ = False"

inductive public_copy :: "raw_digest \<Rightarrow> pyval \<Rightarrow> pyval \<Rightarrow> bool" for rd where
  scalar: "bounded_scalar v \<Longrightarrow> public_copy rd v v"
| items: "short_sequence v \<Longrightarrow> list_all2 (public_copy rd) xs ys \<Longrightarrow> v \<in> {PList xs, PTuple xs} \<Longrightarrow> public_copy rd v (PList ys)"
| mark: "\<not> bounded_scalar v \<Longrightarrow> \<not> short_sequence v \<Longrightarrow> rd v = Inr h \<Longrightarrow> public_copy rd v (redaction h)"

definition fields_shown :: "raw_digest \<Rightarrow> string list \<Rightarrow> pyval \<Rightarrow> pyval \<times> pyval \<Rightarrow> bool" where
  "fields_shown rd ks d m \<longleftrightarrow> (\<exists>f \<in> set ks. fst m = PStr f \<and> phas d f \<and> public_copy rd (pget d f) (snd m))"

definition proposal_shown :: "raw_digest \<Rightarrow> pyval \<Rightarrow> pyval \<Rightarrow> bool" where
  "proposal_shown rd v w \<longleftrightarrow>
     (if is_mapping v then is_mapping w \<and> list_all (fields_shown rd [''raw_value'', ''raw_unit'', ''input_unit''] v) (members_of w)
      else public_copy rd v w)"

definition nested_shown :: "(pyval \<Rightarrow> pyval \<Rightarrow> bool) \<Rightarrow> string list \<Rightarrow> pyval \<Rightarrow> pyval \<Rightarrow> bool" where
  "nested_shown P ks d w \<longleftrightarrow> is_mapping d \<and> is_mapping w \<and>
     list_all (\<lambda>(k, x). is_str k \<and> str_of k \<in> set ks \<and> (\<exists>v. (k, v) \<in> set (members_of d) \<and> P v x)) (members_of w)"

text \<open>
  The archived form of a record: allowlisted fields of that record with what may be shown of their
  values, all of those it has, and the allowlisted members of its proposals and lattice parameters.
\<close>

definition shown_of :: "raw_digest \<Rightarrow> pyval \<Rightarrow> pyval \<Rightarrow> bool" where
  "shown_of rd r raw \<longleftrightarrow>
     (if \<not> is_mapping r then \<exists>w. raw = PDict [(PStr ''unstructured_record'', w)] \<and> public_copy rd r w
      else is_mapping raw \<and> list_all (\<lambda>m. fields_shown rd RAW_FIELDS r m \<or>
          fst m = PStr ''scientific_values'' \<and> nested_shown (proposal_shown rd) (map fst FIELD_UNITS) (pget r ''scientific_values'') (snd m) \<or>
          fst m = PStr ''lattice_params'' \<and> nested_shown (public_copy rd) LATTICE_KEYS (pget r ''lattice_params'') (snd m)) (members_of raw) \<and>
        list_all (\<lambda>f. phas r f \<longrightarrow> phas raw f) RAW_FIELDS)"

lemma raw_value_copy:
  "raw_value rd v = Inr w \<Longrightarrow> public_copy rd v w"
  "raw_values rd xs = Inr ys \<Longrightarrow> list_all2 (public_copy rd) xs ys"
proof (induction rd v and rd xs arbitrary: w and ys rule: raw_value_raw_values.induct)
  case (4 rd x)
  then show ?case by (cases x) (auto simp: redacted_value_def intro: public_copy.intros)
next
  case (6 rd xs)
  then show ?case by (auto simp: redacted_value_def intro: public_copy.intros split: if_splits)
next
  case (7 rd xs)
  then show ?case by (auto simp: redacted_value_def intro: public_copy.intros split: if_splits)
qed (auto simp: redacted_value_def intro: public_copy.intros split: if_splits)

lemma picked_shown:
  assumes "picked rd ks d = Inr kvs"
  shows "map fst kvs = map PStr (filter (phas d) ks)" "list_all (fields_shown rd ks d) kvs"
proof -
  let ?f = "\<lambda>k. rbind (raw_value rd (pget d k)) (\<lambda>w. Inr (PStr k, w))"
  show "map fst kvs = map PStr (filter (phas d) ks)"
    using rmapM_keyed_keys [of _ PStr id] assms by (simp add: picked_def)
  have "fields_shown rd ks d m" if m: "m \<in> set kvs" for m
  proof -
    obtain k where k: "k \<in> set (filter (phas d) ks)" "?f k = Inr m" using rmapM_Inr_set [OF assms [unfolded picked_def] m] by blast
    then show ?thesis using raw_value_copy(1) by (auto simp: fields_shown_def)
  qed
  then show "list_all (fields_shown rd ks d) kvs" by (simp add: list_all_iff)
qed

lemma proposal_copy: "archived_proposal rd v = Inr w \<Longrightarrow> proposal_shown rd v w"
  using picked_shown(2) raw_value_copy(1) by (auto simp: archived_proposal_def proposal_shown_def split: if_splits)

lemma nested_copy:
  assumes "rmapM (\<lambda>(k, v). rbind (f v) (\<lambda>w. Inr (k, w))) (filter (\<lambda>(k, _). is_str k \<and> str_of k \<in> set ks) (members_of d)) = Inr kvs"
    and "\<And>v w. f v = Inr w \<Longrightarrow> P v w" "is_mapping d"
  shows "nested_shown P ks d (PDict kvs)"
proof -
  have "is_str k \<and> str_of k \<in> set ks \<and> (\<exists>v. (k, v) \<in> set (members_of d) \<and> P v x)" if "(k, x) \<in> set kvs" for k x
    using rmapM_Inr_set [OF assms(1) that] assms(2) by auto
  then show ?thesis using assms(3) by (auto simp: nested_shown_def list_all_iff)
qed

lemma nested_member_shown:
  assumes "nested_member k f r = Inr ms" "\<And>w. is_mapping (pget r k) \<Longrightarrow> f (pget r k) = Inr w \<Longrightarrow> P (pget r k) w" "m \<in> set ms"
  shows "fst m = PStr k \<and> P (pget r k) (snd m)"
  using assms by (auto simp: nested_member_def split: if_splits)

lemma archive_record_shown:
  assumes "archive_record rd r = Inr raw"
  shows "shown_of rd r raw"
proof (cases "is_mapping r")
  case False
  then show ?thesis using assms raw_value_copy(1) by (auto simp: archive_record_def shown_of_def)
next
  case True
  then obtain fields proposals lattice where fs: "picked rd (sort (remdups RAW_FIELDS)) r = Inr fields"
      and ps: "nested_member ''scientific_values'' (archived_proposals rd) r = Inr proposals"
      and ls: "nested_member ''lattice_params'' (archived_lattice rd) r = Inr lattice" and raw: "raw = PDict (fields @ proposals @ lattice)"
    using assms by (auto simp: archive_record_def)
  have "fields_shown rd RAW_FIELDS r m" if "m \<in> set fields" for m
    using picked_shown(2) [OF fs] that by (auto simp: list_all_iff fields_shown_def)
  moreover have "fst m = PStr ''scientific_values'' \<and> nested_shown (proposal_shown rd) (map fst FIELD_UNITS) (pget r ''scientific_values'') (snd m)"
    if "m \<in> set proposals" for m
    by (rule nested_member_shown [OF ps _ that])
      (auto simp: archived_proposals_def intro!: nested_copy [OF _ proposal_copy])
  moreover have "fst m = PStr ''lattice_params'' \<and> nested_shown (public_copy rd) LATTICE_KEYS (pget r ''lattice_params'') (snd m)"
    if "m \<in> set lattice" for m
    by (rule nested_member_shown [OF ls _ that])
      (auto simp: archived_lattice_def intro!: nested_copy [OF _ raw_value_copy(1)])
  moreover have "phas raw f" if "f \<in> set RAW_FIELDS" "phas r f" for f
  proof -
    have "PStr f \<in> set (map fst fields)" unfolding picked_shown(1) [OF fs] using that by simp
    then show ?thesis by (auto simp: raw map_of_eq_None_iff simp flip: not_None_eq)
  qed
  ultimately show ?thesis using True by (auto simp: shown_of_def list_all_iff raw)
qed

text \<open>The archive holds the first hundred records in order, and says whether it was cut.\<close>

lemma archive_rows:
  assumes "retained_record_archive env rd scope cx (PList rs) = Inr a"
  shows "length (ra_rows a) = min 100 (length rs)" "ra_total a = length rs" "ra_returned a = length (ra_rows a)" "ra_truncated a \<longleftrightarrow> 100 < length rs"
    "\<And>i. i < length (ra_rows a) \<Longrightarrow> ar_index (ra_rows a ! i) = i \<and> archive_record rd (rs ! i) = Inr (ar_raw (ra_rows a ! i)) \<and>
       record_assessment env scope cx (rs ! i) = Inr (ar_assessment (ra_rows a ! i))"
proof -
  let ?f = "\<lambda>(i, r). rbind (record_assessment env scope cx r) (\<lambda>a. rbind (archive_record rd r) (\<lambda>raw. Inr \<lparr>ar_index = i, ar_raw = raw, ar_assessment = a\<rparr>))"
  obtain rows where rows: "rmapM ?f (enumerate 0 (take 100 rs)) = Inr rows"
      and a: "a = \<lparr>ra_rows = rows, ra_total = length rs, ra_returned = length rows, ra_truncated = (length rs > length rows)\<rparr>"
    using assms by (auto simp: retained_record_archive_def rbind_Inr_iff)
  have len: "length rows = min 100 (length rs)" using rmapM_Inr_length [OF rows] by simp
  show "length (ra_rows a) = min 100 (length rs)" "ra_total a = length rs" "ra_returned a = length (ra_rows a)" "ra_truncated a \<longleftrightarrow> 100 < length rs"
    using len by (auto simp: a)
  show "ar_index (ra_rows a ! i) = i \<and> archive_record rd (rs ! i) = Inr (ar_raw (ra_rows a ! i)) \<and>
       record_assessment env scope cx (rs ! i) = Inr (ar_assessment (ra_rows a ! i))" if i: "i < length (ra_rows a)" for i
  proof -
    have l: "i < length (enumerate 0 (take 100 rs))" using i rmapM_Inr_length [OF rows] by (simp add: a)
    then have "?f (i, rs ! i) = Inr (rows ! i)" using rmapM_Inr_nth [OF rows l] by (simp add: nth_enumerate_eq)
    then obtain x raw where "record_assessment env scope cx (rs ! i) = Inr x" "archive_record rd (rs ! i) = Inr raw"
        "rows ! i = \<lparr>ar_index = i, ar_raw = raw, ar_assessment = x\<rparr>"
      unfolding prod.case rbind_Inr_iff sum.inject by metis
    then show ?thesis by (simp add: a)
  qed
qed

text \<open>
  C40. The retained archive shows allowlisted raw data only. It holds the first hundred records in
  order, each with its own assessment, and says whether more exist. A row shows of its own record
  every scientific field it has and nothing outside the lists of fields, of proposal members and of
  lattice parameters; a value appears as it is when it is a scalar of bounded size, by its values
  when it is a sequence of at most two, and otherwise only as a mark with the digest of that value.
\<close>

theorem archive_is_allowlisted:
  assumes "retained_record_archive env rd scope cx (PList rs) = Inr a"
  shows "length (ra_rows a) = min 100 (length rs) \<and> ra_total a = length rs \<and> ra_returned a = length (ra_rows a) \<and>
    (ra_truncated a \<longleftrightarrow> 100 < length rs) \<and>
    (\<forall>i < length (ra_rows a). ar_index (ra_rows a ! i) = i \<and>
       record_assessment env scope cx (rs ! i) = Inr (ar_assessment (ra_rows a ! i)) \<and> shown_of rd (rs ! i) (ar_raw (ra_rows a ! i)))"
  using archive_rows [OF assms] archive_record_shown by simp

section \<open>A malformed context\<close>

lemma unresolved_reference_call:
  assumes "record_calls env r fam [PNone] year = Inr cs"
  shows "\<exists>c \<in> set cs. fc_field c = ''*''"
proof -
  obtain pressure qs per_field tc tcs per_ref where ref: "rmapM (reference_calls qs pressure (classify_result r)) [PNone] = Inr per_ref"
      and cs: "Inr (filter (keeps_call pressure) (concat per_field @ tcs)
         @ pressure_calls r fam tc pressure @ parameter_calls qs @ year_calls r year @ concat per_ref) = (Inr cs :: (py_error, finding_call list) res)"
    using assms unfolding record_calls_def Let_def rbind_Inr_iff by (elim exE conjE) (rule that; assumption)
  have "per_ref = [[call ''review_context_unresolved'' ''*'' ''compound_reference_not_a_mapping'' PNone []]]"
    using ref by (simp add: reference_calls_def)
  then have "call ''review_context_unresolved'' ''*'' ''compound_reference_not_a_mapping'' PNone [] \<in> set cs" using cs by auto
  then show ?thesis by (rule bexI [rotated]) (simp add: call_def)
qed


section \<open>A concrete material\<close>

definition demo_context_material :: pyval where
  "demo_context_material = PDict [(PStr ''anomaly_context'', PDict [(PStr ''compound_thresholds'', PInt 3)])]"

lemma demo_context_assessed:
  "case record_assessment (parser_review_env demo_quantity_env demo_digest) ''s'' (review_context 2026 demo_context_material) (PDict []) of
     Inl _ \<Rightarrow> False | Inr _ \<Rightarrow> True"
  by code_simp

lemma demo_context_calls:
  "case record_calls (parser_review_env demo_quantity_env demo_digest) (PDict []) (cx_family (review_context 2026 demo_context_material)) [PNone]
      (cx_year (review_context 2026 demo_context_material)) of
     Inl _ \<Rightarrow> False | Inr cs \<Rightarrow> idents_separate (parser_review_env demo_quantity_env demo_digest) demo_rid cs"
  by code_simp


text \<open>A record with a note that is not allowlisted and a lattice with a foreign member.\<close>

definition demo_archived_record :: pyval where
  "demo_archived_record = PDict [(PStr ''formula'', PStr ''MgB2''), (PStr ''reviewer_note'', PStr ''private''),
     (PStr ''lattice_params'', PDict [(PStr ''a'', PInt 3), (PStr ''note'', PStr ''private'')])]"

lemma demo_archived:
  "case retained_record_archive demo_review_env demo_digest ''s'' (review_context 2026 PNone) (PList [demo_archived_record]) of
     Inl _ \<Rightarrow> False
   | Inr a \<Rightarrow> map ar_raw (ra_rows a) = [PDict [(PStr ''formula'', PStr ''MgB2''), (PStr ''lattice_params'', PDict [(PStr ''a'', PInt 3)])]]"
  by code_simp

theorem archive_is_allowlisted_witness:
  "shown_of demo_digest demo_archived_record (PDict [(PStr ''formula'', PStr ''MgB2''), (PStr ''lattice_params'', PDict [(PStr ''a'', PInt 3)])])"
proof -
  obtain a where a: "retained_record_archive demo_review_env demo_digest ''s'' (review_context 2026 PNone) (PList [demo_archived_record]) = Inr a"
      "map ar_raw (ra_rows a) = [PDict [(PStr ''formula'', PStr ''MgB2''), (PStr ''lattice_params'', PDict [(PStr ''a'', PInt 3)])]]"
    using demo_archived by (auto split: sum.splits)
  obtain row where "ra_rows a = [row]" "ar_raw row = PDict [(PStr ''formula'', PStr ''MgB2''), (PStr ''lattice_params'', PDict [(PStr ''a'', PInt 3)])]"
    using a(2) by auto
  then show ?thesis using archive_is_allowlisted [OF a(1)] by simp
qed

end
