(* ===== verification/Retrieval_Fusion.thy ===== *)
theory Retrieval_Fusion
  imports Timeline_Sampling Pressure_Semantics
begin

text \<open>
  Rank fusion and reranking (the pure part of \<open>api/services/retrieval.py\<close>): merging formula and
  text hits, reciprocal rank fusion of the vector and the lexical ranking, and the lexical-coverage
  reranker. Scores are floats, each operation rounded; limits and the rank constant are natural numbers, as
  the callers pass them. Fusion scores are finite, as \<open>fuse_rankings\<close> makes them.
\<close>

section \<open>Hits\<close>

record lexical_hit =
  lh_chunk_id :: string
  lh_score :: pyfloat

fun first_hits :: "string list \<Rightarrow> lexical_hit list \<Rightarrow> lexical_hit list" where
  "first_hits seen [] = []"
| "first_hits seen (h # hs) =
     (if lh_chunk_id h \<in> set seen then first_hits seen hs else h # first_hits (lh_chunk_id h # seen) hs)"

definition combine_lexical_hits :: "lexical_hit list \<Rightarrow> lexical_hit list \<Rightarrow> nat \<Rightarrow> lexical_hit list" where
  "combine_lexical_hits formula_hits text_hits limit = take limit (first_hits [] (formula_hits @ text_hits))"

section \<open>Fusion\<close>

text \<open>The four dicts of the code as one, from the chunk to its entries.\<close>

record fusion_entry =
  fe_score :: pyfloat
  fe_vector :: "pyfloat option"
  fe_lexical :: "pyfloat option"
  fe_modes :: "string list"

definition no_entry :: fusion_entry where
  "no_entry = \<lparr>fe_score = Finite 0, fe_vector = None, fe_lexical = None, fe_modes = []\<rparr>"

fun update_entry :: "string \<Rightarrow> (fusion_entry \<Rightarrow> fusion_entry) \<Rightarrow> (string \<times> fusion_entry) list \<Rightarrow> (string \<times> fusion_entry) list" where
  "update_entry k f [] = [(k, f no_entry)]"
| "update_entry k f ((j, e) # d) = (if j = k then (j, f e) # d else (j, e) # update_entry k f d)"

definition reciprocal :: "nat \<Rightarrow> nat \<Rightarrow> pyfloat" where
  "reciprocal rrf_k r = round64 (1 / of_nat (rrf_k + r))"

text \<open>\<open>max(a, b)\<close>: the first unless the second is greater.\<close>

definition best :: "pyfloat \<Rightarrow> pyfloat option \<Rightarrow> pyfloat option" where
  "best x prev = (case prev of None \<Rightarrow> Some x | Some p \<Rightarrow> Some (if float_less x p then p else x))"

definition add_mode :: "string \<Rightarrow> string list \<Rightarrow> string list" where
  "add_mode mode ms = (if mode \<in> set ms then ms else ms @ [mode])"

definition vector_entry :: "pyfloat \<Rightarrow> pyfloat \<Rightarrow> fusion_entry \<Rightarrow> fusion_entry" where
  "vector_entry share x e =
     e\<lparr>fe_score := float_add (fe_score e) share, fe_vector := best x (fe_vector e), fe_modes := add_mode ''vector'' (fe_modes e)\<rparr>"

definition lexical_entry :: "pyfloat \<Rightarrow> pyfloat \<Rightarrow> fusion_entry \<Rightarrow> fusion_entry" where
  "lexical_entry share x e =
     e\<lparr>fe_score := float_add (fe_score e) share, fe_lexical := best x (fe_lexical e), fe_modes := add_mode ''lexical'' (fe_modes e)\<rparr>"

definition vector_loop :: "nat \<Rightarrow> (string \<times> pyfloat) list \<Rightarrow> (string \<times> fusion_entry) list \<Rightarrow> (string \<times> fusion_entry) list" where
  "vector_loop rrf_k vs d = foldl (\<lambda>d (r, i, x). update_entry i (vector_entry (reciprocal rrf_k r) x) d) d (enumerate 1 vs)"

definition lexical_loop :: "nat \<Rightarrow> lexical_hit list \<Rightarrow> (string \<times> fusion_entry) list \<Rightarrow> (string \<times> fusion_entry) list" where
  "lexical_loop rrf_k ls d =
     foldl (\<lambda>d (r, h). update_entry (lh_chunk_id h) (lexical_entry (reciprocal rrf_k r) (lh_score h)) d) d (enumerate 1 ls)"

record ranked_candidate =
  rc_chunk_id :: string
  rc_fusion :: pyfloat
  rc_vector :: "pyfloat option"
  rc_lexical :: "pyfloat option"
  rc_modes :: "string list"
  rc_rerank :: pyfloat

definition candidate_of :: "string \<times> fusion_entry \<Rightarrow> ranked_candidate" where
  "candidate_of ke = (case ke of (k, e) \<Rightarrow>
     \<lparr>rc_chunk_id = k, rc_fusion = fe_score e, rc_vector = fe_vector e, rc_lexical = fe_lexical e, rc_modes = sort (fe_modes e),
      rc_rerank = Finite 0\<rparr>)"

definition fusion_key :: "ranked_candidate \<Rightarrow> (int \<times> rat) \<times> string" where
  "fusion_key c = (float_key (float_neg (rc_fusion c)), rc_chunk_id c)"

definition fused :: "nat \<Rightarrow> (string \<times> pyfloat) list \<Rightarrow> lexical_hit list \<Rightarrow> ranked_candidate list" where
  "fused rrf_k vs ls = sort_key fusion_key (map candidate_of (lexical_loop rrf_k ls (vector_loop rrf_k vs [])))"

definition fuse_rankings :: "(string \<times> pyfloat) list \<Rightarrow> lexical_hit list \<Rightarrow> nat \<Rightarrow> nat \<Rightarrow> ranked_candidate list" where
  "fuse_rankings vs ls limit rrf_k = take limit (fused rrf_k vs ls)"

section \<open>Reranking\<close>

definition STOPWORDS :: "string list" where
  "STOPWORDS = [''a'', ''an'', ''and'', ''are'', ''as'', ''at'', ''be'', ''by'', ''for'', ''from'', ''how'', ''in'', ''is'', ''it'', ''of'',
     ''on'', ''or'', ''that'', ''the'', ''this'', ''to'', ''was'', ''what'', ''when'', ''where'', ''which'', ''with'']"

definition token_char :: "char \<Rightarrow> bool" where
  "token_char c \<longleftrightarrow> is_alnum_char c \<or> c \<in> {CHR ''+'', CHR ''_'', CHR ''.'', CHR ''-''}"

function token_list :: "string \<Rightarrow> string list" where
  "token_list [] = []"
| "token_list (c # s) =
     (if is_alnum_char c then (c # takeWhile token_char s) # token_list (dropWhile token_char s) else token_list s)"
  by pat_completeness auto
termination
  by (relation "measure length") (auto simp: less_Suc_eq_le length_dropWhile_le)

definition terms_of :: "string \<Rightarrow> string list" where
  "terms_of t = remdups (map py_lower (filter (\<lambda>w. py_lower w \<notin> set STOPWORDS \<and> length w > 1) (token_list t)))"

record chunk_text =
  ct_title :: "string option"
  ct_text :: string

definition title_text :: "chunk_text \<Rightarrow> string" where
  "title_text c = (case ct_title c of None \<Rightarrow> [] | Some t \<Rightarrow> t)"

definition finite_op :: "(rat \<Rightarrow> rat \<Rightarrow> rat) \<Rightarrow> pyfloat \<Rightarrow> pyfloat \<Rightarrow> pyfloat" where
  "finite_op f a b = (case (a, b) of (Finite x, Finite y) \<Rightarrow> round64 (f x y) | _ \<Rightarrow> NaN)"

text \<open>\<open>len(a & b) / max(1, len(a))\<close>.\<close>

definition term_coverage :: "string list \<Rightarrow> string list \<Rightarrow> pyfloat" where
  "term_coverage ts us = round64 (of_nat (length (filter (\<lambda>t. t \<in> set us) ts)) / of_nat (max 1 (length ts)))"

fun max_fusion :: "ranked_candidate list \<Rightarrow> pyfloat" where
  "max_fusion [] = Finite 1"
| "max_fusion (c # cs) =
     (let peak = foldl (\<lambda>a d. if float_less a (rc_fusion d) then rc_fusion d else a) (rc_fusion c) cs in if peak = Finite 0 then Finite 1 else peak)"

definition rerank_score :: "string list \<Rightarrow> pyfloat \<Rightarrow> ranked_candidate \<Rightarrow> chunk_text \<Rightarrow> pyfloat" where
  "rerank_score ts peak c ch =
     finite_op (+) (finite_op (+)
       (finite_op (*) (round64 (72 / 100)) (finite_op (/) (rc_fusion c) peak))
       (finite_op (*) (round64 (20 / 100)) (term_coverage ts (terms_of (title_text ch @ '' '' @ ct_text ch)))))
       (finite_op (*) (round64 (8 / 100)) (term_coverage ts (terms_of (title_text ch))))"

definition rerank_key :: "ranked_candidate \<Rightarrow> (int \<times> rat) \<times> string" where
  "rerank_key c = (float_key (float_neg (rc_rerank c)), rc_chunk_id c)"

definition rerank_candidates :: "string \<Rightarrow> ranked_candidate list \<Rightarrow> (string \<rightharpoonup> chunk_text) \<Rightarrow> ranked_candidate list" where
  "rerank_candidates query cs chunks =
     sort_key rerank_key (List.map_filter (\<lambda>c. map_option (\<lambda>ch. c\<lparr>rc_rerank := rerank_score (terms_of query) (max_fusion cs) c ch\<rparr>)
       (chunks (rc_chunk_id c))) cs)"

section \<open>What merging keeps\<close>

lemma first_hits_ids: "lh_chunk_id ` set (first_hits seen hs) = lh_chunk_id ` set hs - set seen \<and> distinct (map lh_chunk_id (first_hits seen hs))"
  by (induction hs arbitrary: seen) auto

lemma first_hits_cong: "set a = set b \<Longrightarrow> first_hits a hs = first_hits b hs"
proof (induction hs arbitrary: a b)
  case (Cons h hs)
  show ?case using Cons.prems Cons.IH [of "lh_chunk_id h # a" "lh_chunk_id h # b"] Cons.IH [of a b] by simp
qed simp

lemma first_hits_append: "first_hits seen (fs @ ts) = first_hits seen fs @ first_hits (map lh_chunk_id fs @ seen) ts"
proof (induction fs arbitrary: seen)
  case (Cons h fs)
  have "first_hits (map lh_chunk_id fs @ lh_chunk_id h # seen) ts = first_hits (lh_chunk_id h # map lh_chunk_id fs @ seen) ts"
    "lh_chunk_id h \<in> set seen \<Longrightarrow> first_hits (map lh_chunk_id fs @ seen) ts = first_hits (lh_chunk_id h # map lh_chunk_id fs @ seen) ts"
    by (rule first_hits_cong, auto)+
  then show ?case by (simp add: Cons.IH)
qed simp

text \<open>Merged hits are distinct chunks, an exact notation hit is never displaced by a text hit, and
  without a cut every chunk of either list is there.\<close>

lemma combine_keeps_formula_hits:
  "distinct (map lh_chunk_id (combine_lexical_hits fs ts limit))"
  "combine_lexical_hits fs ts limit = take limit (first_hits [] fs @ first_hits (map lh_chunk_id fs) ts)"
  "length fs + length ts \<le> limit \<Longrightarrow> lh_chunk_id ` set (combine_lexical_hits fs ts limit) = lh_chunk_id ` set fs \<union> lh_chunk_id ` set ts"
proof -
  show "distinct (map lh_chunk_id (combine_lexical_hits fs ts limit))"
    unfolding combine_lexical_hits_def take_map [symmetric] using first_hits_ids by (blast intro: distinct_take)
  show "combine_lexical_hits fs ts limit = take limit (first_hits [] fs @ first_hits (map lh_chunk_id fs) ts)"
    by (simp add: combine_lexical_hits_def first_hits_append)
  have "length (first_hits seen hs) \<le> length hs" for seen hs
  proof (induction hs arbitrary: seen)
    case (Cons h hs)
    show ?case using Cons.IH [of seen] Cons.IH [of "lh_chunk_id h # seen"] by simp
  qed simp
  then show "lh_chunk_id ` set (combine_lexical_hits fs ts limit) = lh_chunk_id ` set fs \<union> lh_chunk_id ` set ts"
    if "length fs + length ts \<le> limit"
    using that order_trans [of "length (first_hits [] (fs @ ts))" "length fs + length ts" limit] first_hits_ids [of "[]" "fs @ ts"]
    by (simp add: combine_lexical_hits_def image_Un flip: length_append)
qed

section \<open>What fusion keeps\<close>

lemma update_entry_keys: "fst ` set (update_entry k f d) = insert k (fst ` set d)"
  by (induction d rule: update_entry.induct) auto

lemma update_entry_distinct: "distinct (map fst d) \<Longrightarrow> distinct (map fst (update_entry k f d))"
proof (induction k f d rule: update_entry.induct)
  case (2 k f j e d)
  then show ?case using update_entry_keys [of k f d] by (auto simp: image_iff)
qed simp

lemma update_entry_member:
  assumes "(j, e) \<in> set (update_entry k f d)" "distinct (map fst d)"
  shows "j \<noteq> k \<and> (j, e) \<in> set d \<or> j = k \<and> ((\<exists>e'. (k, e') \<in> set d \<and> e = f e') \<or> k \<notin> fst ` set d \<and> e = f no_entry)"
  using assms
proof (induction k f d rule: update_entry.induct)
  case (2 k f i g d)
  then show ?case by (force split: if_splits)
qed simp

text \<open>The shares a ranking gives to one chunk, and entries that agree with the hits read so far.\<close>

definition shares :: "nat \<Rightarrow> string \<Rightarrow> string list \<Rightarrow> pyfloat list" where
  "shares rrf_k i ids = map (\<lambda>(r, j). reciprocal rrf_k r) (filter (\<lambda>(r, j). j = i) (enumerate 1 ids))"

definition rrf_score :: "nat \<Rightarrow> (string \<times> pyfloat) list \<Rightarrow> lexical_hit list \<Rightarrow> string \<Rightarrow> pyfloat" where
  "rrf_score rrf_k vs ls i = foldl float_add (Finite 0) (shares rrf_k i (map fst vs) @ shares rrf_k i (map lh_chunk_id ls))"

lemma shares_snoc: "shares rrf_k i (ids @ [j]) = shares rrf_k i ids @ (if j = i then [reciprocal rrf_k (Suc (length ids))] else [])"
  by (simp add: shares_def enumerate_append_eq)

lemma rrf_score_snoc:
  "rrf_score rrf_k (vs @ [v]) [] i = (if fst v = i then float_add (rrf_score rrf_k vs [] i) (reciprocal rrf_k (Suc (length vs))) else rrf_score rrf_k vs [] i)"
  "rrf_score rrf_k vs (ls @ [h]) i =
     (if lh_chunk_id h = i then float_add (rrf_score rrf_k vs ls i) (reciprocal rrf_k (Suc (length ls))) else rrf_score rrf_k vs ls i)"
  by (simp_all add: rrf_score_def shares_snoc) (simp_all add: shares_def)

lemma shares_absent: "i \<notin> set ids \<Longrightarrow> shares rrf_k i ids = []"
  unfolding shares_def by (induction ids rule: rev_induct) (auto simp: enumerate_append_eq)

lemma rrf_score_absent: "i \<notin> fst ` set vs \<Longrightarrow> i \<notin> lh_chunk_id ` set ls \<Longrightarrow> rrf_score rrf_k vs ls i = Finite 0"
  by (simp add: rrf_score_def shares_absent)

definition entry_ok :: "nat \<Rightarrow> (string \<times> pyfloat) list \<Rightarrow> lexical_hit list \<Rightarrow> string \<times> fusion_entry \<Rightarrow> bool" where
  "entry_ok rrf_k vs ls ke = (case ke of (k, e) \<Rightarrow> fe_score e = rrf_score rrf_k vs ls k \<and>
     (case fe_vector e of None \<Rightarrow> k \<notin> fst ` set vs | Some x \<Rightarrow> (k, x) \<in> set vs) \<and>
     (case fe_lexical e of None \<Rightarrow> k \<notin> lh_chunk_id ` set ls | Some x \<Rightarrow> \<exists>h \<in> set ls. lh_chunk_id h = k \<and> lh_score h = x) \<and>
     distinct (fe_modes e) \<and>
     set (fe_modes e) = (if k \<in> fst ` set vs then {''vector''} else {}) \<union> (if k \<in> lh_chunk_id ` set ls then {''lexical''} else {}))"

definition entries_ok :: "nat \<Rightarrow> (string \<times> pyfloat) list \<Rightarrow> lexical_hit list \<Rightarrow> (string \<times> fusion_entry) list \<Rightarrow> bool" where
  "entries_ok rrf_k vs ls d \<longleftrightarrow> distinct (map fst d) \<and> fst ` set d = fst ` set vs \<union> lh_chunk_id ` set ls \<and> (\<forall>ke \<in> set d. entry_ok rrf_k vs ls ke)"

lemma best_cases: "best x p = Some y \<Longrightarrow> y = x \<or> p = Some y"
  by (auto simp: best_def split: option.splits if_splits)

lemma best_not_None: "best x p \<noteq> None"
  by (simp add: best_def split: option.splits)

lemma add_mode_set: "set (add_mode md ms) = insert md (set ms)" "distinct ms \<Longrightarrow> distinct (add_mode md ms)"
  by (auto simp: add_mode_def)

lemma fresh_entry: "k \<notin> fst ` set vs \<Longrightarrow> k \<notin> lh_chunk_id ` set ls \<Longrightarrow> entry_ok rrf_k vs ls (k, no_entry)"
  by (simp add: entry_ok_def no_entry_def rrf_score_absent)

lemma vector_entry_ok:
  assumes "entry_ok rrf_k vs [] (k, e)"
  shows "entry_ok rrf_k (vs @ [(k, x)]) [] (k, vector_entry (reciprocal rrf_k (Suc (length vs))) x e)"
proof -
  obtain y where y: "best x (fe_vector e) = Some y" using best_not_None [of x "fe_vector e"] by blast
  have "(k, y) \<in> set (vs @ [(k, x)])" using best_cases [OF y] assms by (auto simp: entry_ok_def)
  then show ?thesis using assms y unfolding entry_ok_def prod.case vector_entry_def
    by (simp add: add_mode_set rrf_score_snoc)
qed

lemma lexical_entry_ok:
  assumes "entry_ok rrf_k vs ls (lh_chunk_id h, e)"
  shows "entry_ok rrf_k vs (ls @ [h]) (lh_chunk_id h, lexical_entry (reciprocal rrf_k (Suc (length ls))) (lh_score h) e)"
proof -
  obtain y where y: "best (lh_score h) (fe_lexical e) = Some y" using best_not_None [of "lh_score h" "fe_lexical e"] by blast
  have "\<exists>g \<in> set (ls @ [h]). lh_chunk_id g = lh_chunk_id h \<and> lh_score g = y"
    using best_cases [OF y] assms by (auto simp: entry_ok_def)
  then show ?thesis using assms y unfolding entry_ok_def prod.case lexical_entry_def
    by (simp add: add_mode_set rrf_score_snoc) auto
qed

lemma entry_ok_other:
  "k \<noteq> i \<Longrightarrow> entry_ok rrf_k vs [] (k, e) \<Longrightarrow> entry_ok rrf_k (vs @ [(i, x)]) [] (k, e)"
  "k \<noteq> lh_chunk_id h \<Longrightarrow> entry_ok rrf_k vs ls (k, e) \<Longrightarrow> entry_ok rrf_k vs (ls @ [h]) (k, e)"
  unfolding entry_ok_def prod.case by (auto simp: rrf_score_snoc split: option.splits)

lemma vector_step:
  assumes "entries_ok rrf_k vs [] d"
  shows "entries_ok rrf_k (vs @ [(i, x)]) [] (update_entry i (vector_entry (reciprocal rrf_k (Suc (length vs))) x) d)"
proof -
  have d: "distinct (map fst d)" and keys: "fst ` set d = fst ` set vs" and ok: "\<And>ke. ke \<in> set d \<Longrightarrow> entry_ok rrf_k vs [] ke"
    using assms by (auto simp: entries_ok_def)
  have "entry_ok rrf_k (vs @ [(i, x)]) [] (j, e)" if "(j, e) \<in> set (update_entry i (vector_entry (reciprocal rrf_k (Suc (length vs))) x) d)" for j e
    using update_entry_member [OF that d]
  proof (elim disjE conjE exE)
    assume "j \<noteq> i" "(j, e) \<in> set d"
    then show ?thesis using entry_ok_other(1) ok by blast
  next
    fix e' assume "j = i" "(i, e') \<in> set d" "e = vector_entry (reciprocal rrf_k (Suc (length vs))) x e'"
    then show ?thesis using vector_entry_ok ok by blast
  next
    assume "j = i" "i \<notin> fst ` set d" "e = vector_entry (reciprocal rrf_k (Suc (length vs))) x no_entry"
    then show ?thesis using vector_entry_ok [OF fresh_entry] keys by auto
  qed
  then show ?thesis using update_entry_distinct [OF d] update_entry_keys [of i _ d] keys by (auto simp: entries_ok_def)
qed

lemma lexical_step:
  assumes "entries_ok rrf_k vs ls d"
  shows "entries_ok rrf_k vs (ls @ [h]) (update_entry (lh_chunk_id h) (lexical_entry (reciprocal rrf_k (Suc (length ls))) (lh_score h)) d)"
proof -
  have d: "distinct (map fst d)" and keys: "fst ` set d = fst ` set vs \<union> lh_chunk_id ` set ls" and ok: "\<And>ke. ke \<in> set d \<Longrightarrow> entry_ok rrf_k vs ls ke"
    using assms by (auto simp: entries_ok_def)
  have "entry_ok rrf_k vs (ls @ [h]) (j, e)" if "(j, e) \<in> set (update_entry (lh_chunk_id h) (lexical_entry (reciprocal rrf_k (Suc (length ls))) (lh_score h)) d)" for j e
    using update_entry_member [OF that d]
  proof (elim disjE conjE exE)
    assume "j \<noteq> lh_chunk_id h" "(j, e) \<in> set d"
    then show ?thesis using entry_ok_other(2) ok by blast
  next
    fix e' assume "j = lh_chunk_id h" "(lh_chunk_id h, e') \<in> set d" "e = lexical_entry (reciprocal rrf_k (Suc (length ls))) (lh_score h) e'"
    then show ?thesis using lexical_entry_ok ok by blast
  next
    assume "j = lh_chunk_id h" "lh_chunk_id h \<notin> fst ` set d" "e = lexical_entry (reciprocal rrf_k (Suc (length ls))) (lh_score h) no_entry"
    then show ?thesis using lexical_entry_ok [OF fresh_entry] keys by auto
  qed
  then show ?thesis using update_entry_distinct [OF d] update_entry_keys [of "lh_chunk_id h" _ d] keys by (auto simp: entries_ok_def)
qed

lemma vector_loop_ok: "entries_ok rrf_k [] [] d \<Longrightarrow> entries_ok rrf_k vs [] (vector_loop rrf_k vs d)"
proof (induction vs rule: rev_induct)
  case (snoc v vs)
  then show ?case using vector_step [of rrf_k vs "vector_loop rrf_k vs d" "fst v" "snd v"]
    by (cases v) (simp add: vector_loop_def enumerate_append_eq)
qed (simp add: vector_loop_def)

lemma lexical_loop_ok: "entries_ok rrf_k vs [] d \<Longrightarrow> entries_ok rrf_k vs ls (lexical_loop rrf_k ls d)"
proof (induction ls rule: rev_induct)
  case (snoc h ls)
  then show ?case using lexical_step [of rrf_k vs ls "lexical_loop rrf_k ls d" h]
    by (simp add: lexical_loop_def enumerate_append_eq)
qed (simp add: lexical_loop_def)

lemma fused_ok: "entries_ok rrf_k vs ls (lexical_loop rrf_k ls (vector_loop rrf_k vs []))"
  by (rule lexical_loop_ok [OF vector_loop_ok]) (simp add: entries_ok_def)

lemma mode_order: "''lexical'' \<le> ''vector''" "\<not> ''vector'' \<le> ''lexical''"
  by code_simp+

lemma mode_list:
  assumes "distinct ms" "set ms = (if v then {''vector''} else {}) \<union> (if l then {''lexical''} else {})"
  shows "sort ms = (if l then [''lexical''] else []) @ (if v then [''vector''] else [])"
  by (rule sorted_distinct_set_unique) (use assms mode_order in \<open>auto split: if_splits\<close>)

lemma top_of_sorted:
  assumes "sorted (map f xs)" "x \<in> set (take n xs)" "y \<in> set xs" "y \<notin> set (take n xs)"
  shows "f x \<le> f y"
proof -
  have "y \<in> set (drop n xs)" using assms(3,4) by (metis append_take_drop_id in_set_conv_decomp set_append Un_iff)
  moreover have "sorted (map f (take n xs) @ map f (drop n xs))" using assms(1) by (metis append_take_drop_id map_append)
  ultimately show ?thesis using assms(2) by (auto simp: sorted_append)
qed

lemma rerank_mset:
  assumes "\<And>c. c \<in> set cs \<Longrightarrow> rc_rerank c = Finite 0"
  shows "mset (map (\<lambda>c. c\<lparr>rc_rerank := Finite 0\<rparr>) (rerank_candidates query cs chunks)) = mset (filter (\<lambda>c. chunks (rc_chunk_id c) \<noteq> None) cs)"
proof -
  have "map (\<lambda>c. c\<lparr>rc_rerank := Finite 0\<rparr>) (List.map_filter (\<lambda>c. map_option (\<lambda>ch. c\<lparr>rc_rerank := g c ch\<rparr>) (chunks (rc_chunk_id c))) ds) =
      filter (\<lambda>c. chunks (rc_chunk_id c) \<noteq> None) ds" if "\<And>c. c \<in> set ds \<Longrightarrow> rc_rerank c = Finite 0" for g ds
    using that
  proof (induction ds)
    case (Cons c ds)
    have "c\<lparr>rc_rerank := Finite 0\<rparr> = c" using Cons.prems [of c] by simp
    then show ?case using Cons by (cases "chunks (rc_chunk_id c)") simp_all
  qed simp
  from arg_cong [where f = mset, OF this [OF assms]] show ?thesis
    unfolding rerank_candidates_def by (simp only: mset_map mset_sort)
qed

text \<open>
  C25. Fusion invents nothing and hides nothing better. The candidates are distinct chunks of the
  two rankings, as many as the limit allows, ordered by falling fusion score and chunk; each names
  exactly the rankings it was found in, with a score it had there, and its fusion score is the
  rounded sum of the reciprocals of its ranks in the vector and then the lexical ranking; every chunk left out comes
  after all that are returned. Reranking only sets the last score of the candidates whose chunk is
  known and puts them in its order.
\<close>

theorem fusion_keeps_rankings:
  shows "distinct (map rc_chunk_id (fuse_rankings vs ls limit k)) \<and> sorted (map fusion_key (fuse_rankings vs ls limit k)) \<and>
    length (fuse_rankings vs ls limit k) = min limit (card (fst ` set vs \<union> lh_chunk_id ` set ls)) \<and>
    (\<forall>c \<in> set (fuse_rankings vs ls limit k).
       rc_modes c = (if rc_chunk_id c \<in> lh_chunk_id ` set ls then [''lexical''] else []) @ (if rc_chunk_id c \<in> fst ` set vs then [''vector''] else []) \<and>
       rc_modes c \<noteq> [] \<and> rc_fusion c = rrf_score k vs ls (rc_chunk_id c) \<and>
       (case rc_vector c of None \<Rightarrow> rc_chunk_id c \<notin> fst ` set vs | Some x \<Rightarrow> (rc_chunk_id c, x) \<in> set vs) \<and>
       (case rc_lexical c of None \<Rightarrow> rc_chunk_id c \<notin> lh_chunk_id ` set ls | Some x \<Rightarrow> \<exists>h \<in> set ls. lh_chunk_id h = rc_chunk_id c \<and> lh_score h = x) \<and>
       (\<forall>d \<in> set (fused k vs ls). d \<notin> set (fuse_rankings vs ls limit k) \<longrightarrow> fusion_key c \<le> fusion_key d)) \<and>
    mset (map (\<lambda>c. c\<lparr>rc_rerank := Finite 0\<rparr>) (rerank_candidates query (fuse_rankings vs ls limit k) chunks)) =
      mset (filter (\<lambda>c. chunks (rc_chunk_id c) \<noteq> None) (fuse_rankings vs ls limit k)) \<and>
    sorted (map rerank_key (rerank_candidates query (fuse_rankings vs ls limit k) chunks))"
proof -
  let ?d = "lexical_loop k ls (vector_loop k vs [])"
  have d: "distinct (map fst ?d)" and keys: "fst ` set ?d = fst ` set vs \<union> lh_chunk_id ` set ls" and ok: "\<And>ke. ke \<in> set ?d \<Longrightarrow> entry_ok k vs ls ke"
    using fused_ok [of k vs ls] by (auto simp: entries_ok_def)
  have ids: "map rc_chunk_id (map candidate_of ?d) = map fst ?d" by (auto simp: candidate_of_def)
  have mset: "mset (fused k vs ls) = mset (map candidate_of ?d)" by (simp add: fused_def)
  have dist: "distinct (map rc_chunk_id (fused k vs ls))"
  proof -
    have "mset (map rc_chunk_id (fused k vs ls)) = mset (map fst ?d)" unfolding ids [symmetric] by (simp only: mset_map mset)
    then show ?thesis using d by (metis mset_eq_imp_distinct_iff)
  qed
  have sorted: "sorted (map fusion_key (fused k vs ls))" by (simp add: fused_def)
  have len: "length (fused k vs ls) = card (fst ` set vs \<union> lh_chunk_id ` set ls)"
    using distinct_card [OF d] keys by (simp add: fused_def)
  have cand: "\<exists>e. entry_ok k vs ls (rc_chunk_id c, e) \<and> c = candidate_of (rc_chunk_id c, e) \<and> rc_chunk_id c \<in> fst ` set vs \<union> lh_chunk_id ` set ls"
    if c: "c \<in> set (fused k vs ls)" for c
  proof -
    obtain j e where je: "(j, e) \<in> set ?d" "c = candidate_of (j, e)" using c by (auto simp: fused_def)
    then have "rc_chunk_id c = j" by (simp add: candidate_of_def)
    then show ?thesis using ok [OF je(1)] je keys by (metis fst_conv image_eqI)
  qed
  have each: "rc_modes c = (if rc_chunk_id c \<in> lh_chunk_id ` set ls then [''lexical''] else []) @ (if rc_chunk_id c \<in> fst ` set vs then [''vector''] else [])"
      "rc_modes c \<noteq> []" "rc_fusion c = rrf_score k vs ls (rc_chunk_id c)"
      "case rc_vector c of None \<Rightarrow> rc_chunk_id c \<notin> fst ` set vs | Some x \<Rightarrow> (rc_chunk_id c, x) \<in> set vs"
      "case rc_lexical c of None \<Rightarrow> rc_chunk_id c \<notin> lh_chunk_id ` set ls | Some x \<Rightarrow> \<exists>h \<in> set ls. lh_chunk_id h = rc_chunk_id c \<and> lh_score h = x"
    if c: "c \<in> set (fused k vs ls)" for c
  proof -
    obtain e where e: "entry_ok k vs ls (rc_chunk_id c, e)" and ce: "c = candidate_of (rc_chunk_id c, e)"
      and mem: "rc_chunk_id c \<in> fst ` set vs \<union> lh_chunk_id ` set ls" using cand [OF c] by blast
    have f: "rc_modes c = sort (fe_modes e)" "rc_vector c = fe_vector e" "rc_lexical c = fe_lexical e" "rc_fusion c = fe_score e"
      by (subst ce, simp add: candidate_of_def)+
    note ek = e [unfolded entry_ok_def prod.case]
    show modes: "rc_modes c = (if rc_chunk_id c \<in> lh_chunk_id ` set ls then [''lexical''] else []) @ (if rc_chunk_id c \<in> fst ` set vs then [''vector''] else [])"
      unfolding f(1) by (rule mode_list) (use ek in blast)+
    show "rc_fusion c = rrf_score k vs ls (rc_chunk_id c)" unfolding f(4) using ek by blast
    show "rc_modes c \<noteq> []" unfolding modes using mem by auto
    show "case rc_vector c of None \<Rightarrow> rc_chunk_id c \<notin> fst ` set vs | Some x \<Rightarrow> (rc_chunk_id c, x) \<in> set vs"
      unfolding f(2) using ek by blast
    show "case rc_lexical c of None \<Rightarrow> rc_chunk_id c \<notin> lh_chunk_id ` set ls | Some x \<Rightarrow> \<exists>h \<in> set ls. lh_chunk_id h = rc_chunk_id c \<and> lh_score h = x"
      unfolding f(3) using ek by blast
  qed
  have sub: "c \<in> set (fused k vs ls)" if "c \<in> set (fuse_rankings vs ls limit k)" for c
    using that unfolding fuse_rankings_def by (rule in_set_takeD)
  have rest: "fusion_key c \<le> fusion_key e" if "c \<in> set (fuse_rankings vs ls limit k)" "e \<in> set (fused k vs ls)" "e \<notin> set (fuse_rankings vs ls limit k)" for c e
    using top_of_sorted [OF sorted] that unfolding fuse_rankings_def by blast
  have zero: "rc_rerank c = Finite 0" if c: "c \<in> set (fused k vs ls)" for c
  proof -
    obtain e where ce: "c = candidate_of (rc_chunk_id c, e)" using cand [OF c] by blast
    show ?thesis by (subst ce) (simp add: candidate_of_def)
  qed
  show ?thesis
  proof (intro conjI ballI impI)
    show "distinct (map rc_chunk_id (fuse_rankings vs ls limit k))"
      unfolding fuse_rankings_def take_map [symmetric] by (rule distinct_take [OF dist])
    show "sorted (map fusion_key (fuse_rankings vs ls limit k))"
      unfolding fuse_rankings_def take_map [symmetric] by (rule sorted_wrt_take [OF sorted])
    show "length (fuse_rankings vs ls limit k) = min limit (card (fst ` set vs \<union> lh_chunk_id ` set ls))"
      by (simp add: fuse_rankings_def len)
    show "mset (map (\<lambda>c. c\<lparr>rc_rerank := Finite 0\<rparr>) (rerank_candidates query (fuse_rankings vs ls limit k) chunks)) =
      mset (filter (\<lambda>c. chunks (rc_chunk_id c) \<noteq> None) (fuse_rankings vs ls limit k))"
      by (rule rerank_mset) (use zero sub in blast)
    show "sorted (map rerank_key (rerank_candidates query (fuse_rankings vs ls limit k) chunks))"
      by (simp add: rerank_candidates_def)
  qed (fact each(1) [OF sub] each(2) [OF sub] each(3) [OF sub] each(4) [OF sub] each(5) [OF sub] rest)+
qed

text \<open>Two rankings that share a chunk: found by both, it comes first and keeps both scores.\<close>

definition two_rankings :: "ranked_candidate list" where
  "two_rankings = fuse_rankings [(''b'', Finite (1 / 2)), (''a'', Finite (1 / 4))] [\<lparr>lh_chunk_id = ''a'', lh_score = Finite 1\<rparr>] 1 60"

lemma two_rankings_ids: "map rc_chunk_id two_rankings = [''a'']"
  by code_simp

theorem fusion_keeps_rankings_witness:
  "map rc_chunk_id two_rankings = [''a''] \<and> map rc_modes two_rankings = [[''lexical'', ''vector'']]"
proof -
  obtain c where c: "two_rankings = [c]" "rc_chunk_id c = ''a''" using two_rankings_ids by auto
  have "rc_modes c = (if rc_chunk_id c = ''a'' then [''lexical''] else []) @ (if rc_chunk_id c \<in> {''b'', ''a''} then [''vector''] else [])"
    using fusion_keeps_rankings [of "[(''b'', Finite (1 / 2)), (''a'', Finite (1 / 4))]" "[\<lparr>lh_chunk_id = ''a'', lh_score = Finite 1\<rparr>]" 1 60]
    unfolding two_rankings_def [symmetric] c(1) by simp
  then show ?thesis unfolding c(1) by (simp add: c(2))
qed

end
