(* ===== verification/Spec2Isabelle.thy ===== *)
theory Spec2Isabelle
  imports Provider_Resilience Evidence_Packing Material_Visibility Review_Sanitizer Evaluation_Metrics Chunk_Evidence
    Research_Priority Anomaly_Review Rag_Input_Budget Timeline_Response Rate_Limit Catalogue_Cache Scientific_Filters Timeline_Points
    Material_Anomalies Retrieval_Fusion
begin

text \<open>
  A verification library for SCLib, a catalogue of superconductivity results with
  retrieval-augmented answers. The program collects papers and records (\<open>ingestion/\<close>),
  cuts papers into chunks, keeps the records in a database behind a web service
  (\<open>api/\<close>), decides which materials and results may be shown, and answers questions from
  packed excerpts through an external model. The library models the parts that decide:
  pure policies and contracts, and the small state machines around providers and quotas. All
  paths below are under \<open>src/\<close>.

  \<^bold>\<open>Theories and sources.\<close>

  \<^item> \<open>SC_Prelude\<close>, \<open>Py_Runtime\<close>: the Python the services use. A value is a \<open>pyval\<close>,
    code that raises returns \<open>Inl\<close> of an error, a float is a rational or one of the three
    special values, \<open>round64\<close> is binary64 rounding, a \<open>Counter\<close> an association list, and
    \<open>json.dumps\<close> of strings and lists is shown to be injective.
  \<^item> \<open>Provider_Resilience\<close>: \<open>api/services/provider_resilience.py\<close> and the observation sink of
    \<open>metrics.py\<close>. The table of circuits is a record; a call is split at its awaits into
    \<open>begin_call\<close>, attempts and \<open>finish_call\<close>, and a step relation interleaves calls and resets.
    The locale \<open>failure_gate\<close> states what a circuit promises and is interpreted on the code's
    operations.
  \<^item> \<open>Evidence_Packing\<close>: \<open>api/services/evidence_packing.py\<close> with the closed contracts of
    \<open>api/models/evidence_packing.py\<close>. The three selection passes are the code's loops;
    the plan they build is shown to satisfy every validator of the contract.
  \<^item> \<open>Source_Lifecycle_Status\<close>, \<open>Material_Visibility\<close>, \<open>Review_Sanitizer\<close>: the source
    overlay, the visibility policy and the public projection of review metadata
    (\<open>source_lifecycle_status.py\<close>, \<open>material_visibility.py\<close>). The sanitizer runs on a heap of
    objects, so shared and cyclic metadata are in the model; its recursion is bounded by the
    depth limit and the node budget of the code.
  \<^item> \<open>Evaluation_Metrics\<close>: \<open>scientific_evaluation_metrics.py\<close>, arms, splits, quotas and
    paired comparisons as exact rationals.
  \<^item> \<open>Result_Semantics\<close>: the origin classifier \<open>result_semantics.py\<close> and the negative-outcome
    contract.
  \<^item> \<open>Evidence_Contract\<close>, \<open>Chunker\<close>, \<open>Chunk_Evidence\<close>: \<open>rag_evidence_contract.py\<close>,
    \<open>chunk/chunker.py\<close> of the ingestion side, and the interface between them.
  \<^item> \<open>Research_Priority\<close>: \<open>research_priority.py\<close>, contracts and scoring with decimal
    rounding; the locale \<open>clearing\<close> carries the four loops that collect notes.
  \<^item> \<open>Anomaly_Review\<close>: \<open>anomaly_review.py\<close>, rules, per-record assessment and the review.
  \<^item> \<open>Rag_Input_Budget\<close>: \<open>api/services/rag_input_budget.py\<close> and its report model: frozen
    requests, one token count, one generation.
  \<^item> \<open>Timeline_Sampling\<close>, \<open>Timeline_Response\<close>: \<open>timeline_sampling.py\<close> and the response
    computation of \<open>routers/timeline.py\<close>. The locale \<open>index_queues\<close> states what the strata
    give the round-robin; it is interpreted on the queues the code builds.
  \<^item> \<open>Rate_Limit\<close>: \<open>rate_limit.py\<close>, daily quotas over a Redis server.
  \<^item> \<open>Catalogue_Cache\<close>: the bounded page cache of \<open>catalogue_cache.py\<close>.
  \<^item> \<open>Number_Text\<close>: the patterns both number parsers share, as backtracking parsers, and
    decimals of 28 digits with their overflow.
  \<^item> \<open>Pressure_Semantics\<close>: \<open>pressure_semantics.py\<close>, from the text of a reported pressure to the
    state of the evidence and the filters on it.
  \<^item> \<open>Scientific_Values\<close>: \<open>scientific_values.py\<close>, units, one reported quantity as a proposal,
    archived proposals and the legacy scalar.
  \<^item> \<open>Quantity_Review\<close>: the anomaly review and the evidence contract run on the two parsers. The
    locale \<open>quantity_reader\<close> states what the review needs of a parser; it is interpreted on the
    reading of a raw value and of a record.
  \<^item> \<open>Scientific_Filters\<close>: \<open>scientific_filters.py\<close>, the filtered search over the records of a
    material and the check of its ambient headline.
  \<^item> \<open>Timeline_Points\<close>: \<open>timeline_points.py\<close>, chronology, identity and consolidation of the
    occurrences a timeline is built from.
  \<^item> \<open>Material_Anomalies\<close>: \<open>material_anomalies.py\<close>, the review context of a material and its
    allowlisted archive.
  \<^item> \<open>Retrieval_Fusion\<close>: the pure part of \<open>retrieval.py\<close>: merging formula and text hits,
    reciprocal rank fusion of the vector and the lexical ranking, and the term-coverage reranker.
  \<^item> this theory: the property that spans the anomaly review and the visibility policy.

  \<^bold>\<open>What is shown.\<close> Selection and windows: plans are valid and account for every byte,
  windows cover their section and give the text back, samples fill their budget, fused rankings
  keep exactly the ranked chunks with the rounded sum of their reciprocal ranks. Readings: a
  parsed quantity has exactly the finite numbers of its relation, a range never becomes a point,
  and an archived proposal reads back as itself; every search match, ambient headline, timeline
  point and eligible Tc view rests on such a reading of one record. Fail-closed policies: unknown or conflicting origins, findings, retractions,
  quarantine and vetoes never turn into an eligible view; generation happens only inside the
  measured budget. Arithmetic: scores stay in their range, contributions add up, counts
  partition their data. State: the circuit opens and closes as promised under every
  interleaving, a daily quota admits exactly its limit, the weekly total is at most two days,
  and the page cache stays bounded and coherent.

  \<^bold>\<open>Loops and bounds.\<close> Loops are structural recursion or \<open>function\<close> with a measure. The
  sampling loop is \<open>while_option\<close>; it returns because every round picks an unchosen
  index while one is left. The sanitizer's bounds (depth 12, 20000 nodes) are the code's; eviction
  and the parsers consume their input. No
  model needs fuel beyond them.

  \<^bold>\<open>Where the code raises.\<close> Two parsers catch \<open>OverflowError\<close> and \<open>ValueError\<close> around a decimal
  product, which raises \<open>decimal.Overflow\<close> for a number whose adjusted exponent exceeds 999999 and
  \<open>decimal.InvalidOperation\<close> beyond the exponent limit of the library. A Tc text of that class stops
  the review and the timeline of a whole material, a pressure text the review; this is shown for all
  texts \<open>m e n K\<close> and \<open>m e n GPa\<close> with a mantissa of at most 28 significant digits. Other malformed
  records are shown to be skipped alone. An assessment of visibility raises for a parent whose state
  cannot be hashed, a digest raises where \<open>json.dumps\<close> does, and a generation config the client
  library refuses escapes the budget without a report.

  \<^bold>\<open>Arguments of the model.\<close> SHA-256 and uuid5, the tokenizer, the clock, the generation
  client and its stop event, the Redis server, pydantic's dumps, the text of floats and dates and
  the readers of ISO dates are arguments; where a property relies on one of them, its documented
  behaviour is a named hypothesis and the witness discharges it for a concrete function. Findings are
  deduplicated by digest; a property that rests on one finding assumes that the identifiers of the
  finitely many findings of the record at hand do not collide across fields. The theories of the review and of the evidence contract take the parsers as arguments too, and
  \<open>Quantity_Review\<close> supplies them. Strings are lists of 8-bit characters, used as ASCII.

  \<^bold>\<open>Not modelled.\<close> HTTP routes, authentication and e-mail, database models, migrations and
  queries, the searches behind retrieval and index generations, the collectors and parsers of the ingestion side, the
  aggregation and enrichment of materials, dataset builders and exporters, operations scripts, and
  everything outside Python: they are input and output around these policies, or large enough for
  a development of their own.
\<close>

section \<open>Anomaly review and catalogue visibility\<close>

lemma review_state:
  assumes sound: "list_all sound_assessment as" and year: "valid_year year"
    and size: "int (length as) \<le> 10 ^ 9" "int (sum_list (map total_findings as)) \<le> 10 ^ 9"
  shows "fst (anomaly_state venv (review_py as year limit)) =
     (if list_all (\<lambda>a. as_status a = ''no_findings'') as then ''clear'' else ''pending'')"
proof -
  let ?v = "review_py as year limit"
  define d where "d = foldl add_count [] (concat (map rule_counts as))"
  define kvs where "kvs = map (\<lambda>(r, n). (PStr r, PInt (int n))) d"
  define c where "c = PDict (map (\<lambda>k. (PStr k, PInt (int (status_count as k)))) STATUS_KEYS @ [(PStr ''total_records'', PInt (int (length as)))])"
  define nr where "nr \<longleftrightarrow> status_count as ''review_required'' \<noteq> 0 \<or> status_count as ''format_invalid'' \<noteq> 0"
  have get: "is_mapping ?v" "?v \<noteq> PNone" "pget ?v ''version'' = PStr ANOMALY_POLICY_VERSION" "pget ?v ''needs_review'' = PBool nr"
    "pget_default ?v ''counts'' (PDict []) = c" "pget_default ?v ''rule_counts'' (PDict []) = PDict kvs" "pget ?v ''evaluation_year'' = year"
    by (simp_all add: review_py_def pget_default_def nr_def c_def kvs_def d_def)
  have le: "status_count as k \<le> length as" for k by (simp add: status_count_def count_if_le_length)
  have counts: "pget_default c ''no_findings'' (PInt 0) = PInt (int (status_count as ''no_findings''))"
    "pget_default c ''review_required'' (PInt 0) = PInt (int (status_count as ''review_required''))"
    "pget_default c ''format_invalid'' (PInt 0) = PInt (int (status_count as ''format_invalid''))"
    "pget_default c ''total_records'' (PInt 0) = PInt (int (length as))"
    by (simp_all add: c_def STATUS_KEYS_def pget_default_def)
  have "int (status_count as k) \<le> 10 ^ 9" for k using le [of k] size(1) by linarith
  then have ok: "list_all (\<lambda>k. count_ok (pget_default c k (PInt 0))) anomaly_count_keys"
    using size(1) by (simp add: anomaly_count_keys_def counts count_ok_def)
  have m: "is_mapping c" by (simp add: c_def)
  have len: "length (pkeys (PDict kvs)) \<le> 200"
    using merged_rule_counts(1) [OF sound] by (simp add: kvs_def d_def)
  have rules: "list_all (\<lambda>(r, n). is_str r \<and> length (str_of r) \<le> 100 \<and> count_ok n) kvs"
  proof -
    have "length (fst p) \<le> 100 \<and> int (snd p) \<le> 10 ^ 9" if "p \<in> set d" for p
    proof -
      have q: "fst p \<in> fst ` set RULE_DEFINITIONS" "snd p \<le> sum_list (map total_findings as)"
        using bspec [OF merged_rule_counts(2) [OF sound, folded d_def] that] by simp_all
      then show ?thesis using rule_name_length [OF q(1)] size(2) by linarith
    qed
    then show ?thesis by (auto simp: kvs_def list_all_iff count_ok_def)
  qed
  have y: "\<not> (year \<noteq> PNone \<and> \<not> (type_is_int year \<and> 1 \<le> int_of year \<and> int_of year \<le> 9999))"
    using year by (auto simp: valid_year_def)
  have "fst (anomaly_state venv ?v) = (if nr then ''pending'' else ''clear'')"
    using get counts ok m len rules y by (auto simp: anomaly_state_def Let_def nr_def)
  then show ?thesis using needs_review_iff [OF sound] by (simp add: nr_def)
qed

text \<open>
  C6. A finding on any record keeps the material out of the public catalogue. The review built
  from the records is always accepted by the visibility policy, as clear when no record has a
  finding and as pending otherwise; and a material shown as catalogue eligible under it has only
  records without findings, none of whose properties is withheld.
\<close>

theorem findings_block_catalogue:
  assumes as: "rmapM (assess_record_anomalies env scope fam refs year) (values_of records) = Inr as"
    and limit: "valid_record_limit limit" and year: "valid_year year"
    and size: "int (length as) \<le> 10 ^ 9" "int (sum_list (map total_findings as)) \<le> 10 ^ 9"
  shows "\<exists>review. build_anomaly_review env records scope fam refs year limit = Inr review
    \<and> fst (anomaly_state venv review) = (if list_all (\<lambda>a. as_status a = ''no_findings'') as then ''clear'' else ''pending'')
    \<and> (\<forall>v. visibility_for_material venv m review so p e = Inr v \<longrightarrow> eligible v \<longrightarrow>
         list_all (\<lambda>a. as_status a = ''no_findings'' \<and> review_required_properties a = []) as)"
proof -
  have sound: "list_all sound_assessment as" using rmapM_assess_sound [OF as] .
  let ?review = "review_py as year (int_of limit)"
  have b: "build_anomaly_review env records scope fam refs year limit = Inr ?review"
    using as limit by (simp add: build_anomaly_review_def)
  have st: "fst (anomaly_state venv ?review) = (if list_all (\<lambda>a. as_status a = ''no_findings'') as then ''clear'' else ''pending'')"
    by (rule review_state [OF sound year size])
  have "list_all (\<lambda>a. as_status a = ''no_findings'' \<and> review_required_properties a = []) as"
    if v: "visibility_for_material venv m ?review so p e = Inr v" and el: "eligible v" for v
  proof -
    have "fst (anomaly_state venv ?review) = ''clear''" using eligible_parts [OF v el] by blast
    then have "list_all (\<lambda>a. as_status a = ''no_findings'') as" using st by (cases "list_all (\<lambda>a. as_status a = ''no_findings'') as") simp_all
    then show ?thesis using sound by (simp add: list_all_iff sound_assessment_def)
  qed
  then show ?thesis using b st by blast
qed

theorem findings_block_catalogue_witness:
  "\<exists>review. build_anomaly_review demo_review_env (PList [PDict [(PStr ''tc_kelvin'', PInt 300)]]) ''s'' PNone [] PNone (PInt 5) = Inr review
     \<and> fst (anomaly_state Material_Visibility.demo_env review) = ''pending''"
proof -
  let ?r = "PDict [(PStr ''tc_kelvin'', PInt 300)]"
  have "case assess_record_anomalies demo_review_env ''s'' PNone [] PNone ?r of
      Inr a \<Rightarrow> as_status a = ''review_required'' \<and> int (total_findings a) \<le> 10 | Inl _ \<Rightarrow> False" by code_simp
  then obtain a where a: "assess_record_anomalies demo_review_env ''s'' PNone [] PNone ?r = Inr a"
    "as_status a = ''review_required''" "int (total_findings a) \<le> 10" by (auto split: sum.splits)
  have as: "rmapM (assess_record_anomalies demo_review_env ''s'' PNone [] PNone) (values_of (PList [?r])) = Inr [a]"
    using a(1) by simp
  have "valid_record_limit (PInt 5)" "valid_year PNone" "int (length [a]) \<le> 10 ^ 9" "int (sum_list (map total_findings [a])) \<le> 10 ^ 9"
    using a(3) by (simp_all add: valid_record_limit_def PUBLIC_RECORD_LIMIT_def valid_year_def)
  then show ?thesis
    using findings_block_catalogue [OF as, of "PInt 5" Material_Visibility.demo_env PNone PNone PNone PNone] a(2) by auto
qed

end
